(* ===== verification/PyData.thy ===== *)
theory PyData
  imports Prelude
begin

text \<open>
  The data and the exceptions the program passes around: the JSON values Python's \<open>json\<close>
  module builds (a \<open>dict\<close> as an association list in insertion order), the accesses the
  code makes on them, and the exceptions it raises or catches.
\<close>

datatype json =
    JNull
  | JBool bool
  | JInt int
  | JFloat string
  | JStr string
  | JArr "json list"
  | JObj "(string \<times> json) list"

text \<open>
  The exceptions, with the class hierarchy the \<open>except\<close> clauses rely on.
  \<open>HTTPError c d\<close> is the falcon error with status \<open>c\<close> and title or description \<open>d\<close>.
\<close>

datatype exn =
    HTTPError nat string
  | ValueError string
  | UnicodeDecodeError
  | BinasciiError
  | JSONDecodeError
  | TypeError
  | KeyError string
  | AttributeError
  | IndexError
  | UnboundLocalError
  | StopIteration
  | RecursionError
  | RuntimeError string
  | NotImplementedError
  | KeyboardInterrupt
  | ValidationError string
  | UnverifiedReplyError
  | MissingRegistryError
  | InvalidValueError string
  | ConfigurationError string
  | AuthError string
  | AuthNError string
  | MissingEntryError
  | SerializeError string
  | LmdbError
  | KeriError string

text \<open>\<open>except ValueError\<close> also catches the subclasses of the standard library.\<close>

fun isValueError :: "exn \<Rightarrow> bool" where
  "isValueError (ValueError _) = True"
| "isValueError UnicodeDecodeError = True"
| "isValueError BinasciiError = True"
| "isValueError JSONDecodeError = True"
| "isValueError _ = False"

text \<open>The classes of \<open>keri.kering\<close>, as its documentation relates them.\<close>

fun isValidationError :: "exn \<Rightarrow> bool" where
  "isValidationError (ValidationError _) = True"
| "isValidationError UnverifiedReplyError = True"
| "isValidationError MissingRegistryError = True"
| "isValidationError _ = False"

fun isAuthError :: "exn \<Rightarrow> bool" where
  "isAuthError (AuthError _) = True"
| "isAuthError (AuthNError _) = True"
| "isAuthError _ = False"

text \<open>\<open>except Exception\<close> catches everything but \<open>KeyboardInterrupt\<close>.\<close>

definition isException :: "exn \<Rightarrow> bool" where
  "isException e \<longleftrightarrow> e \<noteq> KeyboardInterrupt"

text \<open>\<open>e.args[0]\<close> and \<open>str(e)\<close> of the exceptions the code reads.\<close>

fun exn_msg :: "exn \<Rightarrow> string" where
  "exn_msg (HTTPError _ d) = d"
| "exn_msg (ValueError m) = m"
| "exn_msg (KeyError m) = m"
| "exn_msg (RuntimeError m) = m"
| "exn_msg (ValidationError m) = m"
| "exn_msg (InvalidValueError m) = m"
| "exn_msg (ConfigurationError m) = m"
| "exn_msg (AuthError m) = m"
| "exn_msg (AuthNError m) = m"
| "exn_msg (SerializeError m) = m"
| "exn_msg (KeriError m) = m"
| "exn_msg _ = []"

subsection \<open>Dictionaries\<close>

fun dict_get :: "(string \<times> 'v) list \<Rightarrow> string \<Rightarrow> 'v option" where
  "dict_get [] k = None"
| "dict_get ((k', v) # d) k = (if k' = k then Some v else dict_get d k)"

text \<open>\<open>d[k] = v\<close>: in place for a key that is there, at the end for a new one.\<close>

fun dict_set :: "(string \<times> 'v) list \<Rightarrow> string \<Rightarrow> 'v \<Rightarrow> (string \<times> 'v) list" where
  "dict_set [] k v = [(k, v)]"
| "dict_set ((k', v') # d) k v =
     (if k' = k then (k, v) # d else (k', v') # dict_set d k v)"

definition dict_del :: "(string \<times> 'v) list \<Rightarrow> string \<Rightarrow> (string \<times> 'v) list" where
  "dict_del d k = filter (\<lambda>(k', _). k' \<noteq> k) d"

lemma dict_get_set [simp]: "dict_get (dict_set d k v) k' = (if k' = k then Some v else dict_get d k')"
  by (induction d k v rule: dict_set.induct) auto

lemma dict_get_del [simp]: "dict_get (dict_del d k) k' = (if k' = k then None else dict_get d k')"
  by (induction d) (auto simp: dict_del_def)

lemma dict_get_map_of: "dict_get d k = map_of d k"
  by (induction d) auto

lemma dict_get_append: "dict_get (d @ e) k = (case dict_get d k of Some v \<Rightarrow> Some v | None \<Rightarrow> dict_get e k)"
  by (induction d) auto

lemma keys_dict_set:
  "map fst (dict_set d k v) = (if k \<in> set (map fst d) then map fst d else map fst d @ [k])"
  by (induction d k v rule: dict_set.induct) auto

lemma distinct_dict_set [simp]: "distinct (map fst d) \<Longrightarrow> distinct (map fst (dict_set d k v))"
  by (simp add: keys_dict_set)

lemma distinct_dict_del [simp]: "distinct (map fst d) \<Longrightarrow> distinct (map fst (dict_del d k))"
  by (simp add: dict_del_def distinct_map_filter)

subsection \<open>Access to JSON values\<close>

text \<open>Python's \<open>k in x\<close>, \<open>x[k]\<close> and \<open>x.get(k)\<close> for a string \<open>k\<close>.\<close>

definition substring :: "string \<Rightarrow> string \<Rightarrow> bool" where
  "substring p s \<longleftrightarrow> (\<exists>i \<in> set [0..<Suc (length s)]. startswith (drop i s) p)"

fun jin :: "string \<Rightarrow> json \<Rightarrow> exn + bool" where
  "jin k (JObj d) = Inr (dict_get d k \<noteq> None)"
| "jin k (JArr xs) = Inr (JStr k \<in> set xs)"
| "jin k (JStr s) = Inr (substring k s)"
| "jin k _ = Inl TypeError"

fun jitem :: "json \<Rightarrow> string \<Rightarrow> exn + json" where
  "jitem (JObj d) k = (case dict_get d k of None \<Rightarrow> Inl (KeyError k) | Some v \<Rightarrow> Inr v)"
| "jitem _ k = Inl TypeError"

fun jget :: "json \<Rightarrow> string \<Rightarrow> exn + json" where
  "jget (JObj d) k = Inr (case dict_get d k of None \<Rightarrow> JNull | Some v \<Rightarrow> v)"
| "jget _ k = Inl AttributeError"

fun jgetd :: "json \<Rightarrow> string \<Rightarrow> json \<Rightarrow> exn + json" where
  "jgetd (JObj d) k x = Inr (case dict_get d k of None \<Rightarrow> x | Some v \<Rightarrow> v)"
| "jgetd _ k x = Inl AttributeError"

text \<open>\<open>x[k] = v\<close>.\<close>

fun jset :: "json \<Rightarrow> string \<Rightarrow> json \<Rightarrow> json" where
  "jset (JObj d) k v = JObj (dict_set d k v)"
| "jset x k v = x"

text \<open>\<open>x[i]\<close> on a list, and iteration over a value.\<close>

fun jindex :: "json \<Rightarrow> nat \<Rightarrow> exn + json" where
  "jindex (JArr xs) i = (if i < length xs then Inr (xs ! i) else Inl IndexError)"
| "jindex _ i = Inl TypeError"

fun jiter :: "json \<Rightarrow> exn + json list" where
  "jiter (JArr xs) = Inr xs"
| "jiter (JObj d) = Inr (map (\<lambda>(k, _). JStr k) d)"
| "jiter (JStr s) = Inr (map (\<lambda>c. JStr [c]) s)"
| "jiter _ = Inl TypeError"

text \<open>Truth of a value, as \<open>if x:\<close> and \<open>x or y\<close> test it.\<close>

fun jtrue :: "json \<Rightarrow> bool" where
  "jtrue JNull = False"
| "jtrue (JBool b) = b"
| "jtrue (JInt i) = (i \<noteq> 0)"
| "jtrue (JFloat s) = (s \<notin> {''0.0'', ''-0.0''})"
| "jtrue (JStr s) = (s \<noteq> [])"
| "jtrue (JArr xs) = (xs \<noteq> [])"
| "jtrue (JObj d) = (d \<noteq> [])"

definition jor :: "json \<Rightarrow> json \<Rightarrow> json" where
  "jor x y = (if jtrue x then x else y)"

text \<open>A value used where the code needs a string (an identifier, a digest).\<close>

fun jstr :: "json \<Rightarrow> exn + string" where
  "jstr (JStr s) = Inr s"
| "jstr _ = Inl TypeError"

fun jint :: "json \<Rightarrow> exn + int" where
  "jint (JInt i) = Inr i"
| "jint (JBool b) = Inr (if b then 1 else 0)"
| "jint _ = Inl TypeError"

definition jstrs :: "string list \<Rightarrow> json" where
  "jstrs xs = JArr (map JStr xs)"

fun jopt :: "json option \<Rightarrow> json" where
  "jopt None = JNull"
| "jopt (Some x) = x"

text \<open>A list comprehension whose elements may raise: the first exception ends it.\<close>

fun mapE :: "('a \<Rightarrow> exn + 'b) \<Rightarrow> 'a list \<Rightarrow> exn + 'b list" where
  "mapE f [] = Inr []"
| "mapE f (x # xs) =
     (case f x of Inl e \<Rightarrow> Inl e | Inr y \<Rightarrow> (case mapE f xs of Inl e \<Rightarrow> Inl e | Inr ys \<Rightarrow> Inr (y # ys)))"

lemma mapE_error: "mapE f xs = Inl e \<Longrightarrow> \<exists>x \<in> set xs. f x = Inl e"
  by (induction xs) (auto split: sum.splits)

lemma mapE_Inr: "mapE f xs = Inr ys \<Longrightarrow> y \<in> set ys \<Longrightarrow> \<exists>x \<in> set xs. f x = Inr y"
  by (induction xs arbitrary: ys) (auto split: sum.splits)

lemma mapE_Inl: "x \<in> set xs \<Longrightarrow> f x = Inl e \<Longrightarrow> \<exists>e'. mapE f xs = Inl e'"
  by (induction xs) (auto split: sum.splits)

lemma mapE_all: "(\<And>x. x \<in> set xs \<Longrightarrow> f x = Inr (g x)) \<Longrightarrow> mapE f xs = Inr (map g xs)"
  by (induction xs) auto

text \<open>\<open>int(s, 16)\<close>: an optional sign and prefix, and hexadecimal digits with single underscores.\<close>

definition hex_digit :: "char \<Rightarrow> nat option" where
  "hex_digit c =
     (let n = of_char c :: nat in
      if 48 \<le> n \<and> n \<le> 57 then Some (n - 48) else if 65 \<le> n \<and> n \<le> 70 then Some (n - 55)
      else if 97 \<le> n \<and> n \<le> 102 then Some (n - 87) else None)"

fun hex_body :: "nat \<Rightarrow> string \<Rightarrow> nat option" where
  "hex_body acc [] = Some acc"
| "hex_body acc (c # cs) =
     (if c = CHR ''_'' then
        (case cs of
           [] \<Rightarrow> None
         | d # ds \<Rightarrow> (case hex_digit d of None \<Rightarrow> None | Some v \<Rightarrow> hex_body (16 * acc + v) ds))
      else (case hex_digit c of None \<Rightarrow> None | Some v \<Rightarrow> hex_body (16 * acc + v) cs))"

definition hex_unsigned :: "string \<Rightarrow> nat option" where
  "hex_unsigned s =
     (case s of
        [] \<Rightarrow> None
      | c # cs \<Rightarrow>
          if c = CHR ''0'' \<and> cs \<noteq> [] \<and> hd cs \<in> {CHR ''x'', CHR ''X''} then
            (if tl cs = [] then None else hex_body 0 (tl cs))
          else (case hex_digit c of None \<Rightarrow> None | Some v \<Rightarrow> hex_body v cs))"

definition py_hex :: "string \<Rightarrow> int option" where
  "py_hex s =
     (case strip_space s of
        [] \<Rightarrow> None
      | c # cs \<Rightarrow>
          if c = CHR ''-'' then map_option (\<lambda>n. - int n) (hex_unsigned cs)
          else if c = CHR ''+'' then map_option int (hex_unsigned cs)
          else map_option int (hex_unsigned (c # cs)))"

fun jhex :: "json \<Rightarrow> exn + int" where
  "jhex (JStr s) =
     (case py_hex s of None \<Rightarrow> Inl (ValueError ''invalid literal for int() with base 16'') | Some n \<Rightarrow> Inr n)"
| "jhex _ = Inl TypeError"

end
