(* ===== verification/Effects.thy ===== *)
theory Effects
  imports PyData
begin

text \<open>
  Effectful Python code. An action takes the state of the world and returns its result or the
  exception it raised, with the state it left behind: what was written before an exception
  stays written. \<open>bindA\<close> is sequencing, \<open>catchA\<close> is \<open>try\<close>/\<open>except\<close>, \<open>forA\<close> a \<open>for\<close> loop.
  The second part is a small program logic: \<open>tri P m Q E\<close> says that \<open>m\<close>, started where \<open>P\<close>
  holds, ends with a result for which \<open>Q\<close> holds or an exception for which \<open>E\<close> holds;
  \<open>keeps P m\<close> that \<open>m\<close> keeps \<open>P\<close> on every path, exceptions included.
\<close>

type_synonym ('w, 'a) act = "'w \<Rightarrow> (exn + 'a) \<times> 'w"

definition retA :: "'a \<Rightarrow> ('w, 'a) act" where
  "retA x w = (Inr x, w)"

definition raiseA :: "exn \<Rightarrow> ('w, 'a) act" where
  "raiseA e w = (Inl e, w)"

definition bindA :: "('w, 'a) act \<Rightarrow> ('a \<Rightarrow> ('w, 'b) act) \<Rightarrow> ('w, 'b) act" where
  "bindA m f w = (case m w of (r, w') \<Rightarrow> (case r of Inl e \<Rightarrow> (Inl e, w') | Inr x \<Rightarrow> f x w'))"

definition seqA :: "('w, 'a) act \<Rightarrow> ('w, 'b) act \<Rightarrow> ('w, 'b) act" where
  "seqA m n = bindA m (\<lambda>_. n)"

definition getA :: "('w \<Rightarrow> 'a) \<Rightarrow> ('w, 'a) act" where
  "getA f w = (Inr (f w), w)"

definition modA :: "('w \<Rightarrow> 'w) \<Rightarrow> ('w, unit) act" where
  "modA f w = (Inr (), f w)"

text \<open>A pure computation that may raise, and an operation that returns a value and a new state.\<close>

definition liftA :: "exn + 'a \<Rightarrow> ('w, 'a) act" where
  "liftA r w = (r, w)"

definition opA :: "('w \<Rightarrow> 'a \<times> 'w) \<Rightarrow> ('w, 'a) act" where
  "opA f w = (case f w of (x, w') \<Rightarrow> (Inr x, w'))"

definition whenA :: "bool \<Rightarrow> ('w, unit) act \<Rightarrow> ('w, unit) act" where
  "whenA b m = (if b then m else retA ())"

text \<open>\<open>if not b: raise e\<close>.\<close>

definition guardA :: "bool \<Rightarrow> exn \<Rightarrow> ('w, unit) act" where
  "guardA b e = (if b then retA () else raiseA e)"

text \<open>
  \<open>try: m except ...\<close>: the handler returns the action for the exceptions it catches and
  \<open>None\<close> for the others, which go on.
\<close>

definition catchA :: "('w, 'a) act \<Rightarrow> (exn \<Rightarrow> ('w, 'a) act option) \<Rightarrow> ('w, 'a) act" where
  "catchA m h w =
     (case m w of (r, w') \<Rightarrow>
        (case r of
           Inr x \<Rightarrow> (Inr x, w')
         | Inl e \<Rightarrow> (case h e of None \<Rightarrow> (Inl e, w') | Some n \<Rightarrow> n w')))"

fun forA :: "'a list \<Rightarrow> ('a \<Rightarrow> ('w, unit) act) \<Rightarrow> ('w, unit) act" where
  "forA [] f = retA ()"
| "forA (x # xs) f = seqA (f x) (forA xs f)"

fun mapA :: "('a \<Rightarrow> ('w, 'b) act) \<Rightarrow> 'a list \<Rightarrow> ('w, 'b list) act" where
  "mapA f [] = retA []"
| "mapA f (x # xs) = bindA (f x) (\<lambda>y. bindA (mapA f xs) (\<lambda>ys. retA (y # ys)))"

text \<open>An action on a part of the state.\<close>

definition zoomA :: "('s \<Rightarrow> 'w) \<Rightarrow> ('w \<Rightarrow> 's \<Rightarrow> 's) \<Rightarrow> ('w, 'a) act \<Rightarrow> ('s, 'a) act" where
  "zoomA g u m s = (case m (g s) of (r, w') \<Rightarrow> (r, u w' s))"

lemma retA_run [eff]: "retA x w = (Inr x, w)"
  by (simp add: retA_def)

lemma retA_simps [simp]:
  "fst (retA x w) = Inr x" "snd (retA x w) = w"
  "retA x w = (q, w') \<longleftrightarrow> Inr x = q \<and> w = w'" "(q, w') = retA x w \<longleftrightarrow> q = Inr x \<and> w' = w"
  "(case retA x w of (a, b) \<Rightarrow> g a b) = g (Inr x) w"
  by (auto simp: retA_def)

lemma raiseA_run [eff]: "raiseA e w = (Inl e, w)"
  by (simp add: raiseA_def)

lemma raiseA_simps [simp]:
  "fst (raiseA e w) = Inl e" "snd (raiseA e w) = w"
  "raiseA e w = (q, w') \<longleftrightarrow> Inl e = q \<and> w = w'" "(q, w') = raiseA e w \<longleftrightarrow> q = Inl e \<and> w' = w"
  "(case raiseA e w of (a, b) \<Rightarrow> g a b) = g (Inl e) w"
  by (auto simp: raiseA_def)

lemma getA_run [eff]: "getA f w = (Inr (f w), w)"
  by (simp add: getA_def)

lemma getA_simps [simp]:
  "fst (getA f w) = Inr (f w)" "snd (getA f w) = w"
  "getA f w = (q, w') \<longleftrightarrow> Inr (f w) = q \<and> w = w'" "(q, w') = getA f w \<longleftrightarrow> q = Inr (f w) \<and> w' = w"
  "(case getA f w of (a, b) \<Rightarrow> g a b) = g (Inr (f w)) (w)"
  by (auto simp: getA_def)

lemma modA_run [eff]: "modA f w = (Inr (), f w)"
  by (simp add: modA_def)

lemma modA_simps [simp]:
  "fst (modA f w) = Inr ()" "snd (modA f w) = f w"
  "modA f w = (q, w') \<longleftrightarrow> Inr () = q \<and> f w = w'" "(q, w') = modA f w \<longleftrightarrow> q = Inr () \<and> w' = f w"
  "(case modA f w of (a, b) \<Rightarrow> g a b) = g (Inr ()) (f w)"
  by (auto simp: modA_def)

lemma liftA_run [eff]: "liftA r w = (r, w)"
  by (simp add: liftA_def)

lemma liftA_simps [simp]:
  "fst (liftA r w) = r" "snd (liftA r w) = w"
  "liftA r w = (q, w') \<longleftrightarrow> r = q \<and> w = w'" "(q, w') = liftA r w \<longleftrightarrow> q = r \<and> w' = w"
  "(case liftA r w of (a, b) \<Rightarrow> g a b) = g (r) w"
  by (auto simp: liftA_def)

lemma opA_run [eff]: "opA f w = (Inr (fst (f w)), snd (f w))"
  by (simp add: opA_def split_beta)

lemma opA_simps [simp]:
  "fst (opA f w) = Inr (fst (f w))" "snd (opA f w) = snd (f w)"
  "opA f w = (q, w') \<longleftrightarrow> Inr (fst (f w)) = q \<and> snd (f w) = w'" "(q, w') = opA f w \<longleftrightarrow> q = Inr (fst (f w)) \<and> w' = snd (f w)"
  "(case opA f w of (a, b) \<Rightarrow> g a b) = g (Inr (fst (f w))) (snd (f w))"
  by (auto simp: opA_def split_beta)

lemma bindA_Inr [eff]: "m w = (Inr x, w') \<Longrightarrow> bindA m f w = f x w'"
  by (simp add: bindA_def)

lemma bindA_Inl [eff]: "m w = (Inl e, w') \<Longrightarrow> bindA m f w = (Inl e, w')"
  by (simp add: bindA_def)

lemma bindA_retA [simp]: "bindA (retA x) f w = f x w"
  by (simp add: bindA_def)

lemma bindA_raiseA [simp]: "bindA (raiseA e) f w = (Inl e, w)"
  by (simp add: bindA_def)

lemma bindA_getA [simp]: "bindA (getA g) f w = f (g w) w"
  by (simp add: bindA_def)

lemma bindA_modA [simp]: "bindA (modA g) f w = f () (g w)"
  by (simp add: bindA_def)

lemma bindA_liftA_Inr [simp]: "bindA (liftA (Inr y)) f w = f y w"
  by (simp add: bindA_def)

lemma bindA_liftA_Inl [simp]: "bindA (liftA (Inl e)) f w = (Inl e, w)"
  by (simp add: bindA_def)

lemma bindA_opA [simp]: "bindA (opA h) f w = f (fst (h w)) (snd (h w))"
  by (simp add: bindA_def)

lemma bindA_assoc: "bindA (bindA m f) g = bindA m (\<lambda>x. bindA (f x) g)"
  by (rule ext) (simp add: bindA_def split: prod.splits sum.splits)

lemma bindA_bindA [simp]: "bindA (bindA m f) g w = bindA m (\<lambda>x. bindA (f x) g) w"
  by (simp add: bindA_assoc)

lemma bindA_seqA [simp]: "bindA (seqA m n) f w = bindA m (\<lambda>_. bindA n f) w"
  by (simp add: seqA_def bindA_assoc)

lemma seqA_run [simp]: "seqA m n w = bindA m (\<lambda>_. n) w"
  by (simp add: seqA_def)

lemma whenA_simps [simp]: "whenA True m = m" "whenA False m = retA ()"
  by (simp_all add: whenA_def)

lemma guardA_simps [simp]: "guardA True e = retA ()" "guardA False e = raiseA e"
  by (simp_all add: guardA_def)

lemma bindA_guardA: "bindA (guardA b e) f w = (if b then f () w else (Inl e, w))"
  by (cases b) simp_all

lemma bindA_eq_InrD:
  assumes "bindA m f w = (Inr y, w')"
  obtains x w1 where "m w = (Inr x, w1)" and "f x w1 = (Inr y, w')"
  using assms by (auto simp: bindA_def split: prod.splits sum.splits)

subsection \<open>Triples\<close>

definition tri ::
  "('w \<Rightarrow> bool) \<Rightarrow> ('w, 'a) act \<Rightarrow> ('a \<Rightarrow> 'w \<Rightarrow> bool) \<Rightarrow> (exn \<Rightarrow> 'w \<Rightarrow> bool) \<Rightarrow> bool" where
  "tri P m Q E \<longleftrightarrow>
     (\<forall>w. P w \<longrightarrow> (case m w of (r, w') \<Rightarrow> (case r of Inl e \<Rightarrow> E e w' | Inr x \<Rightarrow> Q x w')))"

definition keeps :: "('w \<Rightarrow> bool) \<Rightarrow> ('w, 'a) act \<Rightarrow> bool" where
  "keeps P m \<longleftrightarrow> (\<forall>w. P w \<longrightarrow> P (snd (m w)))"

lemma keepsD: "keeps P m \<Longrightarrow> P w \<Longrightarrow> m w = (r, w') \<Longrightarrow> P w'"
  by (auto simp: keeps_def dest: spec [of _ w])

lemma keeps_iff_tri: "keeps P m \<longleftrightarrow> tri P m (\<lambda>_. P) (\<lambda>_. P)"
  by (auto simp: keeps_def tri_def split: prod.splits sum.splits) (metis snd_conv sum.exhaust prod.exhaust_sel)+

lemma triI:
  assumes "\<And>w x w'. P w \<Longrightarrow> m w = (Inr x, w') \<Longrightarrow> Q x w'"
    and "\<And>w e w'. P w \<Longrightarrow> m w = (Inl e, w') \<Longrightarrow> E e w'"
  shows "tri P m Q E"
  using assms by (auto simp: tri_def split: prod.splits sum.splits)

lemma triD_Inr: "tri P m Q E \<Longrightarrow> P w \<Longrightarrow> m w = (Inr x, w') \<Longrightarrow> Q x w'"
  by (fastforce simp: tri_def split: prod.splits sum.splits)

lemma triD_Inl: "tri P m Q E \<Longrightarrow> P w \<Longrightarrow> m w = (Inl e, w') \<Longrightarrow> E e w'"
  by (fastforce simp: tri_def split: prod.splits sum.splits)

lemma tri_bind [wp]:
  assumes "tri P m R E" and "\<And>x. tri (R x) (f x) Q E"
  shows "tri P (bindA m f) Q E"
  using assms by (fastforce simp: tri_def bindA_def split: prod.splits sum.splits)

lemma tri_conseq:
  assumes "tri P' m Q' E'" and "\<And>w. P w \<Longrightarrow> P' w" and "\<And>x w. Q' x w \<Longrightarrow> Q x w"
    and "\<And>e w. E' e w \<Longrightarrow> E e w"
  shows "tri P m Q E"
  using assms by (fastforce simp: tri_def split: prod.splits sum.splits)

lemma keeps_retA [wp]: "keeps P (retA x)"
  by (simp add: keeps_def)

lemma keeps_raiseA [wp]: "keeps P (raiseA e)"
  by (simp add: keeps_def)

lemma keeps_getA [wp]: "keeps P (getA f)"
  by (simp add: keeps_def)

lemma keeps_liftA [wp]: "keeps P (liftA r)"
  by (simp add: keeps_def)

lemma keeps_modA: "(\<And>w. P w \<Longrightarrow> P (f w)) \<Longrightarrow> keeps P (modA f)"
  by (simp add: keeps_def)

lemma keeps_opA: "(\<And>w. P w \<Longrightarrow> P (snd (f w))) \<Longrightarrow> keeps P (opA f)"
  by (simp add: keeps_def)

lemma keeps_bindA [wp]:
  assumes "keeps P m" and "\<And>x. keeps P (f x)"
  shows "keeps P (bindA m f)"
  unfolding keeps_def
proof (intro allI impI)
  fix w assume "P w"
  obtain r w' where m: "m w = (r, w')" by fastforce
  have "P w'" using keepsD [OF assms(1) \<open>P w\<close> m] .
  with m assms(2) show "P (snd (bindA m f w))"
    by (cases r) (auto simp: bindA_def keeps_def)
qed

lemma keeps_seqA [wp]: "keeps P m \<Longrightarrow> keeps P n \<Longrightarrow> keeps P (seqA m n)"
  by (simp add: seqA_def keeps_bindA)

lemma keeps_if [wp]: "(b \<Longrightarrow> keeps P m) \<Longrightarrow> (\<not> b \<Longrightarrow> keeps P n) \<Longrightarrow> keeps P (if b then m else n)"
  by simp

lemma keeps_whenA [wp]: "(b \<Longrightarrow> keeps P m) \<Longrightarrow> keeps P (whenA b m)"
  by (simp add: whenA_def keeps_retA)

lemma keeps_guardA [wp]: "keeps P (guardA b e)"
  by (simp add: guardA_def keeps_retA keeps_raiseA)

lemma keeps_option [wp]:
  "(x = None \<Longrightarrow> keeps P m) \<Longrightarrow> (\<And>y. x = Some y \<Longrightarrow> keeps P (f y)) \<Longrightarrow>
   keeps P (case x of None \<Rightarrow> m | Some y \<Rightarrow> f y)"
  by (cases x) auto

lemma keeps_list [wp]:
  "(xs = [] \<Longrightarrow> keeps P m) \<Longrightarrow> (\<And>y ys. xs = y # ys \<Longrightarrow> keeps P (f y ys)) \<Longrightarrow>
   keeps P (case xs of [] \<Rightarrow> m | y # ys \<Rightarrow> f y ys)"
  by (cases xs) auto

lemma keeps_prod [wp]: "(\<And>x y. p = (x, y) \<Longrightarrow> keeps P (f x y)) \<Longrightarrow> keeps P (case p of (x, y) \<Rightarrow> f x y)"
  by (cases p) auto

lemma keeps_forA [wp]: "(\<And>x. x \<in> set xs \<Longrightarrow> keeps P (f x)) \<Longrightarrow> keeps P (forA xs f)"
  by (induction xs) (simp_all add: keeps_retA keeps_seqA)

lemma keeps_mapA [wp]: "(\<And>x. x \<in> set xs \<Longrightarrow> keeps P (f x)) \<Longrightarrow> keeps P (mapA f xs)"
  by (induction xs) (simp_all add: keeps_retA keeps_bindA)

lemma keeps_catchA [wp]:
  assumes "keeps P m" and "\<And>e n. h e = Some n \<Longrightarrow> keeps P n"
  shows "keeps P (catchA m h)"
  unfolding keeps_def
proof (intro allI impI)
  fix w assume "P w"
  obtain r w' where m: "m w = (r, w')" by fastforce
  have "P w'" using keepsD [OF assms(1) \<open>P w\<close> m] .
  with m show "P (snd (catchA m h w))"
    using assms(2) by (auto simp: catchA_def keeps_def split: sum.splits option.splits)
qed

text \<open>\<open>returns Q m\<close>: whatever \<open>m\<close> returns satisfies \<open>Q\<close>.\<close>

definition returns :: "('a \<Rightarrow> bool) \<Rightarrow> ('w, 'a) act \<Rightarrow> bool" where
  "returns Q m \<longleftrightarrow> (\<forall>w x w'. m w = (Inr x, w') \<longrightarrow> Q x)"

lemma returnsD: "returns Q m \<Longrightarrow> m w = (Inr x, w') \<Longrightarrow> Q x"
  by (auto simp: returns_def)

lemma returns_retA [wp]: "Q x \<Longrightarrow> returns Q (retA x)"
  by (simp add: returns_def)

lemma returns_raiseA [wp]: "returns Q (raiseA e)"
  by (simp add: returns_def)

lemma returns_bindA [wp]: "(\<And>x. returns Q (f x)) \<Longrightarrow> returns Q (bindA m f)"
  by (auto simp: returns_def elim!: bindA_eq_InrD)

lemma returns_seqA [wp]: "returns Q n \<Longrightarrow> returns Q (seqA m n)"
  by (simp add: seqA_def returns_bindA)

lemma returns_if [wp]: "(b \<Longrightarrow> returns Q m) \<Longrightarrow> (\<not> b \<Longrightarrow> returns Q n) \<Longrightarrow> returns Q (if b then m else n)"
  by simp

lemma returns_option [wp]:
  "(x = None \<Longrightarrow> returns Q m) \<Longrightarrow> (\<And>y. x = Some y \<Longrightarrow> returns Q (f y)) \<Longrightarrow>
   returns Q (case x of None \<Rightarrow> m | Some y \<Rightarrow> f y)"
  by (cases x) auto

text \<open>Code that writes nothing: it keeps the predicate of being the state it started from.\<close>

definition pureA :: "('w, 'a) act \<Rightarrow> bool" where
  "pureA m \<longleftrightarrow> (\<forall>w. snd (m w) = w)"

lemma pureA_keeps: "pureA m \<Longrightarrow> keeps P m"
  by (simp add: pureA_def keeps_def)

lemma pureA_iff_keeps: "pureA m \<longleftrightarrow> (\<forall>w0. keeps ((=) w0) m)"
  by (auto simp: pureA_def keeps_def)

lemma pureA_by_keeps: "(\<And>w0. keeps ((=) w0) m) \<Longrightarrow> pureA m"
  by (simp add: pureA_iff_keeps)

end
