(* ===== verification/Store.thy ===== *)
theory Store
  imports Effects "HOL-Library.DAList"
begin

text \<open>
  The interface of the key-value databases KERIA keeps its state in. The database classes
  (\<open>Suber\<close>, \<open>CesrSuber\<close>, \<open>Komer\<close> of \<open>keri.db\<close>, over LMDB) are not part of the repository,
  so a sub-database is a record of operations and every definition that uses one takes it as
  an argument; \<open>suber_ok\<close>, \<open>dup_ok\<close> and \<open>frames\<close> state the documented behaviour the code
  relies on, as hypotheses of the theorems that need it:
  \<^item> \<open>put\<close> stores a value only under a key that has none and tells whether it did; \<open>pin\<close>
    overwrites; \<open>rem\<close> tells whether there was something to remove;
  \<^item> iterating over the items gives every key once, with its value;
  \<^item> in a database with duplicates a value is at a key at most once, and \<open>add\<close> tells
    whether it was new;
  \<^item> an operation on one sub-database leaves the others alone.
  A key is the tuple of strings the code passes. The last section gives one implementation
  in memory, which shows that the hypotheses can hold together.
\<close>

record ('w, 'k, 'v) suber =
  sget :: "'w \<Rightarrow> 'k \<Rightarrow> 'v option"
  sput :: "'w \<Rightarrow> 'k \<Rightarrow> 'v \<Rightarrow> bool \<times> 'w"
  spin :: "'w \<Rightarrow> 'k \<Rightarrow> 'v \<Rightarrow> bool \<times> 'w"
  srem :: "'w \<Rightarrow> 'k \<Rightarrow> bool \<times> 'w"
  sitems :: "'w \<Rightarrow> ('k \<times> 'v) list"

text \<open>The operations as actions.\<close>

definition getS :: "('w, 'k, 'v) suber \<Rightarrow> 'k \<Rightarrow> ('w, 'v option) act" where
  "getS s k = getA (\<lambda>w. sget s w k)"

definition putS :: "('w, 'k, 'v) suber \<Rightarrow> 'k \<Rightarrow> 'v \<Rightarrow> ('w, bool) act" where
  "putS s k v = opA (\<lambda>w. sput s w k v)"

definition pinS :: "('w, 'k, 'v) suber \<Rightarrow> 'k \<Rightarrow> 'v \<Rightarrow> ('w, bool) act" where
  "pinS s k v = opA (\<lambda>w. spin s w k v)"

definition remS :: "('w, 'k, 'v) suber \<Rightarrow> 'k \<Rightarrow> ('w, bool) act" where
  "remS s k = opA (\<lambda>w. srem s w k)"

definition itemsS :: "('w, 'k, 'v) suber \<Rightarrow> ('w, ('k \<times> 'v) list) act" where
  "itemsS s = getA (sitems s)"

definition suber_ok :: "('w, 'k, 'v) suber \<Rightarrow> bool" where
  "suber_ok s \<longleftrightarrow>
     (\<forall>w k v.
        (sget s w k = None \<longrightarrow>
           fst (sput s w k v) \<and> sget s (snd (sput s w k v)) = (sget s w)(k \<mapsto> v)) \<and>
        (sget s w k \<noteq> None \<longrightarrow> sput s w k v = (False, w)) \<and>
        fst (spin s w k v) \<and> sget s (snd (spin s w k v)) = (sget s w)(k \<mapsto> v) \<and>
        fst (srem s w k) = (sget s w k \<noteq> None) \<and>
        sget s (snd (srem s w k)) = (sget s w)(k := None)) \<and>
     (\<forall>w. map_of (sitems s w) = sget s w \<and> distinct (map fst (sitems s w)))"

definition frames :: "('w, 'k, 'v) suber \<Rightarrow> ('w \<Rightarrow> 'x) \<Rightarrow> bool" where
  "frames s obs \<longleftrightarrow>
     (\<forall>w k v. obs (snd (sput s w k v)) = obs w \<and> obs (snd (spin s w k v)) = obs w \<and>
              obs (snd (srem s w k)) = obs w)"

lemma getS_run [eff]: "getS s k w = (Inr (sget s w k), w)"
  by (simp add: getS_def)

lemma getS_simps [simp]:
  "fst (getS s k w) = Inr (sget s w k)" "snd (getS s k w) = w"
  "getS s k w = (q, w') \<longleftrightarrow> Inr (sget s w k) = q \<and> w = w'" "(q, w') = getS s k w \<longleftrightarrow> q = Inr (sget s w k) \<and> w' = w"
  "(case getS s k w of (a, b) \<Rightarrow> g a b) = g (Inr (sget s w k)) (w)"
  by (auto simp: getS_def)

lemma bindA_getS [simp]: "bindA (getS s k) f w = f (sget s w k) w"
  by (simp add: getS_def)

lemma putS_run [eff]: "putS s k v w = (Inr (fst (sput s w k v)), snd (sput s w k v))"
  by (simp add: putS_def)

lemma putS_simps [simp]:
  "fst (putS s k v w) = Inr (fst (sput s w k v))" "snd (putS s k v w) = snd (sput s w k v)"
  "putS s k v w = (q, w') \<longleftrightarrow> Inr (fst (sput s w k v)) = q \<and> snd (sput s w k v) = w'" "(q, w') = putS s k v w \<longleftrightarrow> q = Inr (fst (sput s w k v)) \<and> w' = snd (sput s w k v)"
  "(case putS s k v w of (a, b) \<Rightarrow> g a b) = g (Inr (fst (sput s w k v))) (snd (sput s w k v))"
  by (auto simp: putS_def)

lemma bindA_putS [simp]: "bindA (putS s k v) f w = f (fst (sput s w k v)) (snd (sput s w k v))"
  by (simp add: putS_def)

lemma pinS_run [eff]: "pinS s k v w = (Inr (fst (spin s w k v)), snd (spin s w k v))"
  by (simp add: pinS_def)

lemma pinS_simps [simp]:
  "fst (pinS s k v w) = Inr (fst (spin s w k v))" "snd (pinS s k v w) = snd (spin s w k v)"
  "pinS s k v w = (q, w') \<longleftrightarrow> Inr (fst (spin s w k v)) = q \<and> snd (spin s w k v) = w'" "(q, w') = pinS s k v w \<longleftrightarrow> q = Inr (fst (spin s w k v)) \<and> w' = snd (spin s w k v)"
  "(case pinS s k v w of (a, b) \<Rightarrow> g a b) = g (Inr (fst (spin s w k v))) (snd (spin s w k v))"
  by (auto simp: pinS_def)

lemma bindA_pinS [simp]: "bindA (pinS s k v) f w = f (fst (spin s w k v)) (snd (spin s w k v))"
  by (simp add: pinS_def)

lemma remS_run [eff]: "remS s k w = (Inr (fst (srem s w k)), snd (srem s w k))"
  by (simp add: remS_def)

lemma remS_simps [simp]:
  "fst (remS s k w) = Inr (fst (srem s w k))" "snd (remS s k w) = snd (srem s w k)"
  "remS s k w = (q, w') \<longleftrightarrow> Inr (fst (srem s w k)) = q \<and> snd (srem s w k) = w'" "(q, w') = remS s k w \<longleftrightarrow> q = Inr (fst (srem s w k)) \<and> w' = snd (srem s w k)"
  "(case remS s k w of (a, b) \<Rightarrow> g a b) = g (Inr (fst (srem s w k))) (snd (srem s w k))"
  by (auto simp: remS_def)

lemma bindA_remS [simp]: "bindA (remS s k) f w = f (fst (srem s w k)) (snd (srem s w k))"
  by (simp add: remS_def)

lemma itemsS_run [eff]: "itemsS s w = (Inr (sitems s w), w)"
  by (simp add: itemsS_def)

lemma itemsS_simps [simp]:
  "fst (itemsS s w) = Inr (sitems s w)" "snd (itemsS s w) = w"
  "itemsS s w = (q, w') \<longleftrightarrow> Inr (sitems s w) = q \<and> w = w'" "(q, w') = itemsS s w \<longleftrightarrow> q = Inr (sitems s w) \<and> w' = w"
  "(case itemsS s w of (a, b) \<Rightarrow> g a b) = g (Inr (sitems s w)) (w)"
  by (auto simp: itemsS_def)

lemma bindA_itemsS [simp]: "bindA (itemsS s) f w = f (sitems s w) w"
  by (simp add: itemsS_def)

lemma keeps_getS [wp]: "keeps P (getS s k)"
  by (simp add: keeps_def)

lemma keeps_itemsS [wp]: "keeps P (itemsS s)"
  by (simp add: keeps_def)

lemma sput_new [store]:
  "suber_ok s \<Longrightarrow> sget s w k = None \<Longrightarrow> fst (sput s w k v)"
  "suber_ok s \<Longrightarrow> sget s w k = None \<Longrightarrow> sget s (snd (sput s w k v)) = (sget s w)(k \<mapsto> v)"
  by (simp_all add: suber_ok_def)

lemma sput_old [store]: "suber_ok s \<Longrightarrow> sget s w k = Some u \<Longrightarrow> sput s w k v = (False, w)"
  by (simp add: suber_ok_def)

lemma spin_ok [store]:
  "suber_ok s \<Longrightarrow> fst (spin s w k v)"
  "suber_ok s \<Longrightarrow> sget s (snd (spin s w k v)) = (sget s w)(k \<mapsto> v)"
  by (simp_all add: suber_ok_def)

lemma srem_ok [store]:
  "suber_ok s \<Longrightarrow> fst (srem s w k) = (sget s w k \<noteq> None)"
  "suber_ok s \<Longrightarrow> sget s (snd (srem s w k)) = (sget s w)(k := None)"
  by (simp_all add: suber_ok_def)

lemma sitems_ok:
  "suber_ok s \<Longrightarrow> map_of (sitems s w) = sget s w"
  "suber_ok s \<Longrightarrow> distinct (map fst (sitems s w))"
  by (simp_all add: suber_ok_def)

lemma sitems_iff: "suber_ok s \<Longrightarrow> (k, v) \<in> set (sitems s w) \<longleftrightarrow> sget s w k = Some v"
  using sitems_ok [of s w] by (metis map_of_eq_Some_iff)

lemma sput_get:
  "suber_ok s \<Longrightarrow> sget s (snd (sput s w k v)) k' =
     (if k' = k \<and> sget s w k = None then Some v else sget s w k')"
  by (cases "sget s w k") (auto simp: store)

lemma sput_fst: "suber_ok s \<Longrightarrow> fst (sput s w k v) = (sget s w k = None)"
  by (cases "sget s w k") (auto simp: store)

lemma frames_store [store]:
  "frames s obs \<Longrightarrow> obs (snd (sput s w k v)) = obs w"
  "frames s obs \<Longrightarrow> obs (snd (spin s w k v)) = obs w"
  "frames s obs \<Longrightarrow> obs (snd (srem s w k)) = obs w"
  by (simp_all add: frames_def)

lemma frames_get:
  "frames s (sget t) \<Longrightarrow> sget t (snd (sput s w k v)) = sget t w"
  "frames s (sget t) \<Longrightarrow> sget t (snd (spin s w k v)) = sget t w"
  "frames s (sget t) \<Longrightarrow> sget t (snd (srem s w k)) = sget t w"
  by (simp_all add: frames_def)

lemma keeps_frames:
  assumes "frames s obs"
  shows "keeps (\<lambda>w. P (obs w)) (putS s k v)" "keeps (\<lambda>w. P (obs w)) (pinS s k v)"
    "keeps (\<lambda>w. P (obs w)) (remS s k)"
  using assms by (simp_all add: keeps_def frames_def)

subsection \<open>Sub-databases with several values at a key\<close>

record ('w, 'k, 'v) dupsuber =
  dget :: "'w \<Rightarrow> 'k \<Rightarrow> 'v list"
  dadd :: "'w \<Rightarrow> 'k \<Rightarrow> 'v \<Rightarrow> bool \<times> 'w"
  drem :: "'w \<Rightarrow> 'k \<Rightarrow> 'v option \<Rightarrow> bool \<times> 'w"
  ditems :: "'w \<Rightarrow> ('k \<times> 'v) list"
  dprefix :: "'w \<Rightarrow> string \<Rightarrow> ('k \<times> 'v) list"

text \<open>
  \<open>dget\<close> is \<open>get\<close> or \<open>getIter\<close>, \<open>drem\<close> removes one value or, without a value, all at the
  key; \<open>dprefix\<close> is \<open>getItemIter\<close> with a key, the branch of keys that start with it.
\<close>

definition getD :: "('w, 'k, 'v) dupsuber \<Rightarrow> 'k \<Rightarrow> ('w, 'v list) act" where
  "getD s k = getA (\<lambda>w. dget s w k)"

definition addD :: "('w, 'k, 'v) dupsuber \<Rightarrow> 'k \<Rightarrow> 'v \<Rightarrow> ('w, bool) act" where
  "addD s k v = opA (\<lambda>w. dadd s w k v)"

definition remD :: "('w, 'k, 'v) dupsuber \<Rightarrow> 'k \<Rightarrow> 'v option \<Rightarrow> ('w, bool) act" where
  "remD s k v = opA (\<lambda>w. drem s w k v)"

definition dup_ok :: "('w, 'k, 'v) dupsuber \<Rightarrow> bool" where
  "dup_ok s \<longleftrightarrow>
     (\<forall>w k v.
        set (dget s (snd (dadd s w k v)) k) = insert v (set (dget s w k)) \<and>
        (\<forall>k'. k' \<noteq> k \<longrightarrow> dget s (snd (dadd s w k v)) k' = dget s w k') \<and>
        fst (dadd s w k v) = (v \<notin> set (dget s w k)) \<and>
        set (dget s (snd (drem s w k (Some v))) k) = set (dget s w k) - {v} \<and>
        dget s (snd (drem s w k None)) k = [] \<and>
        (\<forall>k' x. k' \<noteq> k \<longrightarrow> dget s (snd (drem s w k x)) k' = dget s w k') \<and>
        distinct (dget s w k) \<and>
        ((k, v) \<in> set (ditems s w) \<longleftrightarrow> v \<in> set (dget s w k)))"

definition dframes :: "('w, 'k, 'v) dupsuber \<Rightarrow> ('w \<Rightarrow> 'x) \<Rightarrow> bool" where
  "dframes s obs \<longleftrightarrow>
     (\<forall>w k v x. obs (snd (dadd s w k v)) = obs w \<and> obs (snd (drem s w k x)) = obs w)"

lemma getD_run [eff]: "getD s k w = (Inr (dget s w k), w)"
  by (simp add: getD_def)

lemma getD_simps [simp]:
  "fst (getD s k w) = Inr (dget s w k)" "snd (getD s k w) = w"
  "getD s k w = (q, w') \<longleftrightarrow> Inr (dget s w k) = q \<and> w = w'" "(q, w') = getD s k w \<longleftrightarrow> q = Inr (dget s w k) \<and> w' = w"
  "(case getD s k w of (a, b) \<Rightarrow> g a b) = g (Inr (dget s w k)) (w)"
  by (auto simp: getD_def)

lemma bindA_getD [simp]: "bindA (getD s k) f w = f (dget s w k) w"
  by (simp add: getD_def)

lemma addD_run [eff]: "addD s k v w = (Inr (fst (dadd s w k v)), snd (dadd s w k v))"
  by (simp add: addD_def)

lemma addD_simps [simp]:
  "fst (addD s k v w) = Inr (fst (dadd s w k v))" "snd (addD s k v w) = snd (dadd s w k v)"
  "addD s k v w = (q, w') \<longleftrightarrow> Inr (fst (dadd s w k v)) = q \<and> snd (dadd s w k v) = w'" "(q, w') = addD s k v w \<longleftrightarrow> q = Inr (fst (dadd s w k v)) \<and> w' = snd (dadd s w k v)"
  "(case addD s k v w of (a, b) \<Rightarrow> g a b) = g (Inr (fst (dadd s w k v))) (snd (dadd s w k v))"
  by (auto simp: addD_def)

lemma bindA_addD [simp]: "bindA (addD s k v) f w = f (fst (dadd s w k v)) (snd (dadd s w k v))"
  by (simp add: addD_def)

lemma remD_run [eff]: "remD s k v w = (Inr (fst (drem s w k v)), snd (drem s w k v))"
  by (simp add: remD_def)

lemma remD_simps [simp]:
  "fst (remD s k v w) = Inr (fst (drem s w k v))" "snd (remD s k v w) = snd (drem s w k v)"
  "remD s k v w = (q, w') \<longleftrightarrow> Inr (fst (drem s w k v)) = q \<and> snd (drem s w k v) = w'" "(q, w') = remD s k v w \<longleftrightarrow> q = Inr (fst (drem s w k v)) \<and> w' = snd (drem s w k v)"
  "(case remD s k v w of (a, b) \<Rightarrow> g a b) = g (Inr (fst (drem s w k v))) (snd (drem s w k v))"
  by (auto simp: remD_def)

lemma bindA_remD [simp]: "bindA (remD s k v) f w = f (fst (drem s w k v)) (snd (drem s w k v))"
  by (simp add: remD_def)

lemma keeps_getD [wp]: "keeps P (getD s k)"
  by (simp add: keeps_def)

lemma dadd_ok [store]:
  "dup_ok s \<Longrightarrow> set (dget s (snd (dadd s w k v)) k') =
     (if k' = k then insert v (set (dget s w k)) else set (dget s w k'))"
  "dup_ok s \<Longrightarrow> fst (dadd s w k v) = (v \<notin> set (dget s w k))"
  by (auto simp: dup_ok_def)

lemma drem_ok [store]:
  "dup_ok s \<Longrightarrow> set (dget s (snd (drem s w k (Some v))) k') =
     (if k' = k then set (dget s w k) - {v} else set (dget s w k'))"
  "dup_ok s \<Longrightarrow> dget s (snd (drem s w k None)) k' = (if k' = k then [] else dget s w k')"
  by (auto simp: dup_ok_def)

lemma ditems_iff: "dup_ok s \<Longrightarrow> (k, v) \<in> set (ditems s w) \<longleftrightarrow> v \<in> set (dget s w k)"
  by (auto simp: dup_ok_def)

lemma dframes_store [store]:
  "dframes s obs \<Longrightarrow> obs (snd (dadd s w k v)) = obs w"
  "dframes s obs \<Longrightarrow> obs (snd (drem s w k x)) = obs w"
  by (simp_all add: dframes_def)

lemma frames_Pair:
  "frames s (\<lambda>w. (f w, g w)) \<longleftrightarrow> frames s f \<and> frames s g"
  "dframes d (\<lambda>w. (f w, g w)) \<longleftrightarrow> dframes d f \<and> dframes d g"
  by (auto simp: frames_def dframes_def)

subsection \<open>An implementation in memory\<close>

definition mem_suber ::
  "('w \<Rightarrow> ('k, 'v) alist) \<Rightarrow> (('k, 'v) alist \<Rightarrow> 'w \<Rightarrow> 'w) \<Rightarrow> ('w, 'k, 'v) suber" where
  "mem_suber g u =
     \<lparr>sget = (\<lambda>w k. DAList.lookup (g w) k),
      sput = (\<lambda>w k v. case DAList.lookup (g w) k of
                        None \<Rightarrow> (True, u (DAList.update k v (g w)) w)
                      | Some _ \<Rightarrow> (False, w)),
      spin = (\<lambda>w k v. (True, u (DAList.update k v (g w)) w)),
      srem = (\<lambda>w k. (DAList.lookup (g w) k \<noteq> None, u (DAList.delete k (g w)) w)),
      sitems = (\<lambda>w. DAList.impl_of (g w))\<rparr>"

lemma mem_suber_ok:
  assumes "\<And>a w. g (u a w) = a" shows "suber_ok (mem_suber g u)"
proof -
  have "map_of (DAList.impl_of a) = DAList.lookup a" "distinct (map fst (DAList.impl_of a))" for a
    using impl_of [of a] by (simp_all add: DAList.lookup_def)
  then show ?thesis
    by (auto simp: suber_ok_def mem_suber_def assms split: option.splits)
qed

lemma mem_suber_frames:
  assumes "\<And>a w. obs (u a w) = obs w" shows "frames (mem_suber g u) obs"
  by (simp add: frames_def mem_suber_def assms split: option.splits)

lemma mem_suber_sget [simp]: "sget (mem_suber g u) w k = DAList.lookup (g w) k"
  by (simp add: mem_suber_def)

definition alist_get :: "('k, 'v list) alist \<Rightarrow> 'k \<Rightarrow> 'v list" where
  "alist_get a k = (case DAList.lookup a k of None \<Rightarrow> [] | Some vs \<Rightarrow> remdups vs)"

definition mem_dup ::
  "('w \<Rightarrow> ('k, 'v list) alist) \<Rightarrow> (('k, 'v list) alist \<Rightarrow> 'w \<Rightarrow> 'w) \<Rightarrow>
   ('k \<Rightarrow> string) \<Rightarrow> ('w, 'k, 'v) dupsuber" where
  "mem_dup g u key =
     \<lparr>dget = (\<lambda>w k. alist_get (g w) k),
      dadd = (\<lambda>w k v. if v \<in> set (alist_get (g w) k) then (False, w)
                      else (True, u (DAList.update k (alist_get (g w) k @ [v]) (g w)) w)),
      drem = (\<lambda>w k x. case x of
                 None \<Rightarrow> (alist_get (g w) k \<noteq> [], u (DAList.delete k (g w)) w)
               | Some v \<Rightarrow> (v \<in> set (alist_get (g w) k),
                            u (DAList.update k (removeAll v (alist_get (g w) k)) (g w)) w)),
      ditems = (\<lambda>w. concat (map (\<lambda>(k, vs). map (Pair k) (remdups vs)) (DAList.impl_of (g w)))),
      dprefix = (\<lambda>w p. filter (\<lambda>(k, _). startswith (key k) p)
                   (concat (map (\<lambda>(k, vs). map (Pair k) (remdups vs)) (DAList.impl_of (g w)))))\<rparr>"

lemma alist_get_update [simp]:
  "alist_get (DAList.update k vs a) k' = (if k' = k then remdups vs else alist_get a k')"
  by (simp add: alist_get_def)

lemma alist_get_delete [simp]:
  "alist_get (DAList.delete k a) k' = (if k' = k then [] else alist_get a k')"
  by (simp add: alist_get_def)

lemma distinct_alist_get [simp]: "distinct (alist_get a k)"
  by (simp add: alist_get_def split: option.split)

lemma alist_get_items:
  "(k, v) \<in> set (concat (map (\<lambda>(k, vs). map (Pair k) (remdups vs)) (DAList.impl_of a))) \<longleftrightarrow>
   v \<in> set (alist_get a k)"
proof -
  have d: "distinct (map fst (DAList.impl_of a))" using impl_of [of a] by simp
  have "DAList.lookup a k = Some vs \<longleftrightarrow> (k, vs) \<in> set (DAList.impl_of a)" for vs
    using d by (simp add: DAList.lookup_def map_of_eq_Some_iff)
  then have "v \<in> set (alist_get a k) \<longleftrightarrow> (\<exists>vs. (k, vs) \<in> set (DAList.impl_of a) \<and> v \<in> set vs)"
    by (cases "DAList.lookup a k") (simp_all add: alist_get_def, metis option.inject)
  then show ?thesis by fastforce
qed

lemma mem_dup_ok:
  assumes "\<And>a w. g (u a w) = a" shows "dup_ok (mem_dup g u key)"
  unfolding dup_ok_def mem_dup_def
  by (auto simp add: assms alist_get_items simp del: set_concat split: option.splits)

lemma mem_dup_frames:
  assumes "\<And>a w. obs (u a w) = obs w" shows "dframes (mem_dup g u key) obs"
  by (auto simp: dframes_def mem_dup_def assms split: option.splits)

end
