(* ===== verification/Httping.thy ===== *)
theory Httping
  imports Effects
begin

text \<open>
  \<open>core/httping.py\<close>: the request helpers every endpoint uses. The CORS middleware and
  the choice of server are modelled as functions of what they read; the request logger
  only writes log lines and is left out.
\<close>

subsection \<open>Requests and responses\<close>

text \<open>
  The part of falcon's request and response objects the code reads and writes. Falcon gives
  header names in upper case; \<open>params\<close> are the query parameters, \<open>media\<close> the parsed body.
\<close>

record request =
  rq_method :: string
  rq_path :: string
  rq_headers :: "(string \<times> string) list"
  rq_params :: "(string \<times> json) list"
  rq_media :: "exn + json"
  rq_auth :: "string option"
  rq_content_length :: "int option"
  rq_content_type :: "string option"
  rq_body :: string

record response =
  rs_status :: nat
  rs_headers :: "(string \<times> string) list"
  rs_data :: "json option"
  rs_complete :: bool

text \<open>The response falcon starts a request with.\<close>

definition fresh_response :: response where
  "fresh_response = \<lparr>rs_status = 200, rs_headers = [], rs_data = None, rs_complete = False\<rparr>"

text \<open>Falcon keeps the names of response headers in lower case.\<close>

definition set_header :: "string \<Rightarrow> string \<Rightarrow> response \<Rightarrow> response" where
  "set_header k v r = r\<lparr>rs_headers := dict_set (rs_headers r) (lower k) v\<rparr>"

lemma set_header_get [simp]:
  "dict_get (rs_headers (set_header k v r)) k' =
     (if k' = lower k then Some v else dict_get (rs_headers r) k')"
  by (simp add: set_header_def)

lemma set_header_frame [simp]:
  "rs_status (set_header k v r) = rs_status r" "rs_data (set_header k v r) = rs_data r"
  "rs_complete (set_header k v r) = rs_complete r"
  by (simp_all add: set_header_def)

subsection \<open>HandleCORS\<close>

text \<open>
  \<open>process_request\<close> sets the four headers and ends an \<open>OPTIONS\<close> request with status 200
  (\<open>Inl\<close> is the raised \<open>HTTPStatus\<close>).
\<close>

definition HandleCORS_process_request :: "request \<Rightarrow> response \<Rightarrow> nat + response" where
  "HandleCORS_process_request req resp =
     (let resp = set_header ''Access-Control-Allow-Origin'' ''*'' resp;
          resp = set_header ''Access-Control-Allow-Methods'' ''*'' resp;
          resp = set_header ''Access-Control-Allow-Headers'' ''*'' resp;
          resp = set_header ''Access-Control-Max-Age'' ''1728000'' resp
      in if rq_method req = ''OPTIONS'' then Inl 200 else Inr resp)"

subsection \<open>getRequiredParam\<close>

text \<open>A name between the single quotes of Python's messages.\<close>

abbreviation single_quoted :: "string \<Rightarrow> string" where
  "single_quoted name \<equiv> CHR 0x27 # name @ [CHR 0x27]"

definition getRequiredParam :: "json \<Rightarrow> string \<Rightarrow> exn + json" where
  "getRequiredParam body name =
     (case jget body name of
        Inl e \<Rightarrow> Inl e
      | Inr param \<Rightarrow>
          if param = JNull
          then Inl (HTTPError 400 (''required field '' @ single_quoted name @ '' missing from request''))
          else Inr param)"

lemma getRequiredParam_Inr:
  "getRequiredParam body name = Inr v \<longleftrightarrow>
   (\<exists>d. body = JObj d \<and> dict_get d name = Some v \<and> v \<noteq> JNull)"
  by (cases body) (auto simp: getRequiredParam_def split: option.splits if_splits)

lemma getRequiredParam_present [simp]:
  "dict_get d name = Some v \<Longrightarrow> v \<noteq> JNull \<Longrightarrow> getRequiredParam (JObj d) name = Inr v"
  by (simp add: getRequiredParam_def)

lemma getRequiredParam_missing [simp]:
  "dict_get d name = None \<Longrightarrow>
   getRequiredParam (JObj d) name =
     Inl (HTTPError 400 (''required field '' @ single_quoted name @ '' missing from request''))"
  by (simp add: getRequiredParam_def)

lemma getRequiredParam_error:
  "getRequiredParam (JObj d) name = Inl e \<Longrightarrow>
   e = HTTPError 400 (''required field '' @ single_quoted name @ '' missing from request'')"
  by (auto simp: getRequiredParam_def split: option.splits if_splits)

subsection \<open>parseRangeHeader\<close>

text \<open>
  The header is taken as ASCII text. The pair of results is \<open>(start, end)\<close>; \<open>int()\<close> may
  raise \<open>ValueError\<close>, which gives the defaults.
\<close>

definition range_default :: "int \<times> int \<Rightarrow> int option \<Rightarrow> (int \<Rightarrow> int \<times> int) \<Rightarrow> int \<times> int" where
  "range_default dflt n f = (case n of None \<Rightarrow> dflt | Some i \<Rightarrow> f i)"

definition parseRangeHeader :: "string \<Rightarrow> string \<Rightarrow> int \<Rightarrow> int \<Rightarrow> int \<times> int" where
  "parseRangeHeader header name start stop =
     (if \<not> startswith header (name @ ''='') then (start, stop)
      else
        let header = strip_chars (name @ ''='') header in
        if startswith header ''-'' then
          range_default (start, stop) (py_int (drop 1 header)) (\<lambda>i. (start, i))
        else if endswith header ''-'' then
          range_default (start, stop) (py_int (take (length header - 1) header)) (\<lambda>i. (i, stop))
        else
          (case split_on (CHR ''-'') header of
             [a, b] \<Rightarrow>
               range_default (start, stop) (py_int a)
                 (\<lambda>i. range_default (start, stop) (py_int b) (\<lambda>j. (i, j)))
           | _ \<Rightarrow> (start, stop)))"

text \<open>A range as a client writes it.\<close>

definition range_header :: "string \<Rightarrow> nat \<Rightarrow> nat \<Rightarrow> string" where
  "range_header name i j = name @ ''='' @ show_nat i @ ''-'' @ show_nat j"

definition range_name :: "string \<Rightarrow> bool" where
  "range_name name \<longleftrightarrow> (\<forall>c \<in> set name. \<not> is_digit c \<and> c \<noteq> CHR ''-'')"

lemma minus_notin_show_nat: "CHR ''-'' \<notin> set (show_nat n)"
  using is_digit_show_nat by fastforce

lemma strip_range_name:
  assumes "range_name name" and "s \<noteq> []"
    and "is_digit (hd s) \<or> hd s = CHR ''-''" and "is_digit (last s) \<or> last s = CHR ''-''"
  shows "strip_chars (name @ ''='') ((name @ ''='') @ s) = s"
proof (rule strip_chars_prefix)
  have notin: "c \<notin> set (name @ ''='')" if c: "is_digit c \<or> c = CHR ''-''" for c
  proof
    assume "c \<in> set (name @ ''='')"
    then consider "c \<in> set name" | "c = CHR ''=''" by (simp only: set_append Un_iff) force
    then show False
    proof cases
      case 1 then show ?thesis using assms(1) c unfolding range_name_def by blast
    next
      case 2
      have "\<not> is_digit (CHR ''='')" "CHR ''='' \<noteq> CHR ''-''" by simp_all
      with 2 c show ?thesis by metis
    qed
  qed
  show "hd s \<notin> set (name @ ''='')" by (rule notin) (rule assms(3))
  show "last s \<notin> set (name @ ''='')" by (rule notin) (rule assms(4))
qed (use assms(2) in auto)

lemma endswith_minus: "endswith s ''-'' \<longleftrightarrow> s \<noteq> [] \<and> last s = CHR ''-''"
  by (cases s rule: rev_cases) (auto simp: endswith_def)

lemma startswith_minus: "startswith s ''-'' \<longleftrightarrow> s \<noteq> [] \<and> hd s = CHR ''-''"
  by (cases s) (auto simp: startswith_def)

lemma hd_show_nat_neq [simp]: "hd (show_nat n) \<noteq> CHR ''-''"
  using hd_show_nat [of n] by fastforce

lemma last_show_nat_neq [simp]: "last (show_nat n) \<noteq> CHR ''-''"
  using last_show_nat [of n] by fastforce

lemma parseRangeHeader_sent:
  assumes "range_name name"
  shows "parseRangeHeader (range_header name i j) name start stop = (int i, int j)"
proof -
  let ?s = "show_nat i @ ''-'' @ show_nat j"
  have strip: "strip_chars (name @ ''='') (name @ CHR ''='' # ?s) = ?s"
    using strip_range_name [OF assms, of ?s] by simp
  have split: "split_on (CHR ''-'') ?s = [show_nat i, show_nat j]"
    by (simp add: split_on_append split_on_no_sep minus_notin_show_nat)
  have ends: "\<not> startswith ?s ''-''" "\<not> endswith ?s ''-''"
    by (simp_all add: startswith_minus endswith_minus)
  have prefix: "startswith (range_header name i j) (name @ ''='')"
    by (simp add: range_header_def startswith_def)
  show ?thesis
    unfolding parseRangeHeader_def using strip split ends prefix
    by (simp add: range_header_def range_default_def Let_def)
qed

text \<open>
  Parsing a range header gives back the range a client wrote, for every collection name
  without digits and hyphens (KERIA's are aids and notes) and whatever the defaults are.
\<close>

theorem parseRangeHeader_range_header:
  assumes "range_name name"
  shows "parseRangeHeader (range_header name i j) name start stop = (int i, int j)"
  by (rule parseRangeHeader_sent [OF assms])

theorem parseRangeHeader_range_header_witness:
  "range_name ''aids'' \<and> parseRangeHeader (range_header ''aids'' 3 12) ''aids'' 0 9 = (3, 12)"
proof -
  have h: "range_name ''aids''" by (simp add: range_name_def is_digit_def)
  show ?thesis using h parseRangeHeader_range_header [OF h, of 3 12 0 9] by simp
qed

lemma parseRangeHeader_other:
  "\<not> startswith header (name @ ''='') \<Longrightarrow> parseRangeHeader header name start stop = (start, stop)"
  by (simp add: parseRangeHeader_def)

text \<open>A range with one end: the other end is the default.\<close>

lemma parseRangeHeader_open:
  assumes "range_name name"
  shows "parseRangeHeader (name @ ''='' @ show_nat i @ ''-'') name start stop = (int i, stop)"
    and "parseRangeHeader (name @ ''='' @ ''-'' @ show_nat i) name start stop = (start, int i)"
proof -
  have s: "strip_chars (name @ ''='') (name @ CHR ''='' # show_nat i @ ''-'') = show_nat i @ ''-''"
      "strip_chars (name @ ''='') (name @ CHR ''='' # CHR ''-'' # show_nat i) = CHR ''-'' # show_nat i"
    using strip_range_name [OF assms, of "show_nat i @ ''-''"]
      strip_range_name [OF assms, of "''-'' @ show_nat i"] by simp_all
  show "parseRangeHeader (name @ ''='' @ show_nat i @ ''-'') name start stop = (int i, stop)"
    unfolding parseRangeHeader_def
    by (simp add: s Let_def range_default_def startswith_minus endswith_minus)
      (simp add: startswith_def)
  show "parseRangeHeader (name @ ''='' @ ''-'' @ show_nat i) name start stop = (start, int i)"
    unfolding parseRangeHeader_def
    by (simp add: s Let_def range_default_def startswith_minus) (simp add: startswith_def)
qed

subsection \<open>createHttpServer\<close>

datatype server =
    HttpServer int
  | TlsServer int string string string

definition createHttpServer ::
  "int \<Rightarrow> string option \<Rightarrow> string option \<Rightarrow> string option \<Rightarrow> server" where
  "createHttpServer port keypath certpath cafilepath =
     (case (keypath, certpath, cafilepath) of
        (Some k, Some c, Some ca) \<Rightarrow> TlsServer port k c ca
      | _ \<Rightarrow> HttpServer port)"

end
