(* ===== verification/Longrunning.thy ===== *)
theory Longrunning
  imports Store Httping
begin

text \<open>
  \<open>core/longrunning.py\<close>: the long-running operations an agent tracks for its client. Only the
  request (\<open>op\<close>) is stored; the status is computed from the key event database every time it
  is asked for. That database, the delegation and group processes and the clock are
  arguments (\<open>mon_env\<close>).
\<close>

subsection \<open>Data\<close>

definition OpTypes :: "string list" where
  "OpTypes = [''oobi'', ''witness'', ''delegation'', ''group'', ''query'', ''registry'', ''credential'',
              ''endrole'', ''locscheme'', ''challenge'', ''exchange'', ''submit'', ''done'']"

record opstatus =
  os_code :: int
  os_message :: string

text \<open>
  An \<open>Operation\<close>. The attribute \<open>failed\<close> is not a field of the data class: it can be set, but
  is not part of what is sent to the client (\<open>to_json\<close>).
\<close>

record operation =
  on_name :: string
  on_error :: "opstatus option"
  on_done :: bool
  on_metadata :: json
  on_response :: json
  on_failed :: "opstatus option"

record op =
  op_oid :: string
  op_type :: string
  op_start :: string
  op_metadata :: json

definition opstatus_json :: "opstatus \<Rightarrow> json" where
  "opstatus_json st = JObj [(''code'', JInt (os_code st)), (''message'', JStr (os_message st)), (''details'', JNull)]"

definition to_json :: "operation \<Rightarrow> json" where
  "to_json o' = JObj
     [(''name'', JStr (on_name o')),
      (''error'', case on_error o' of None \<Rightarrow> JNull | Some st \<Rightarrow> opstatus_json st),
      (''done'', JBool (on_done o')), (''metadata'', on_metadata o'), (''response'', on_response o')]"

text \<open>The part of a key state and of the other database records the monitor reads.\<close>

record kever =
  kv_pre :: string
  kv_sn :: int
  kv_toad :: int
  kv_said :: string
  kv_state :: json

record oobi_rec =
  ob_state :: string
  ob_cid :: "string option"

record 'w mon_env =
  me_ops :: "('w, string, op) suber"
  me_now :: "'w \<Rightarrow> int"
  me_nowIso :: "'w \<Rightarrow> string"
  me_fromIso :: "string \<Rightarrow> exn + int"
  me_timeout :: int
  me_kever :: "'w \<Rightarrow> string \<Rightarrow> kever option"
  me_keLast :: "'w \<Rightarrow> string \<Rightarrow> int \<Rightarrow> string option"
  me_wigs :: "'w \<Rightarrow> string \<Rightarrow> string \<Rightarrow> int"
  me_evt :: "'w \<Rightarrow> string \<Rightarrow> string \<Rightarrow> json option"
  me_roobi :: "'w \<Rightarrow> json \<Rightarrow> oobi_rec option"
  me_swain :: "string \<Rightarrow> json \<Rightarrow> ('w, bool) act"
  me_approve :: "string \<Rightarrow> json \<Rightarrow> ('w, unit) act"
  me_counselor :: "string \<Rightarrow> json \<Rightarrow> ('w, bool) act"
  me_anchored :: "'w \<Rightarrow> string \<Rightarrow> json \<Rightarrow> bool"
  me_knas :: "'w \<Rightarrow> string \<Rightarrow> string list"
  me_ksns :: "'w \<Rightarrow> string \<Rightarrow> string option"
  me_credential :: "json \<Rightarrow> ('w, bool) act"
  me_exchange :: "string \<Rightarrow> ('w, bool) act"
  me_ends :: "'w \<Rightarrow> json \<Rightarrow> json \<Rightarrow> json \<Rightarrow> (bool \<times> bool) option"
  me_eans :: "'w \<Rightarrow> json \<Rightarrow> json \<Rightarrow> json \<Rightarrow> string option"
  me_rpys :: "'w \<Rightarrow> string \<Rightarrow> json option"
  me_locs :: "'w \<Rightarrow> json \<Rightarrow> json \<Rightarrow> bool"
  me_reps :: "'w \<Rightarrow> string \<Rightarrow> string list"
  me_exns :: "'w \<Rightarrow> string \<Rightarrow> json option"
  me_submits :: "'w \<Rightarrow> nat \<times> nat"

subsection \<open>Status of an operation\<close>

definition op_name :: "op \<Rightarrow> string" where
  "op_name o' = op_type o' @ ''.'' @ op_oid o'"

definition pending :: "op \<Rightarrow> operation" where
  "pending o' = \<lparr>on_name = op_name o', on_error = None, on_done = False, on_metadata = op_metadata o',
                 on_response = JNull, on_failed = None\<rparr>"

definition finished :: "op \<Rightarrow> json \<Rightarrow> operation" where
  "finished o' r = (pending o')\<lparr>on_done := True, on_response := r\<rparr>"

definition errored :: "op \<Rightarrow> int \<Rightarrow> string \<Rightarrow> operation" where
  "errored o' c msg = (pending o')\<lparr>on_done := True, on_error := Some \<lparr>os_code = c, os_message = msg\<rparr>\<rparr>"

text \<open>\<open>if f not in op.metadata: raise ValidationError\<close>, for a list of fields, and \<open>op.metadata[f]\<close>.\<close>

definition has :: "op \<Rightarrow> string \<Rightarrow> ('w, bool) act" where
  "has o' f = liftA (jin f (op_metadata o'))"

definition field :: "op \<Rightarrow> string \<Rightarrow> ('w, json) act" where
  "field o' f = liftA (jitem (op_metadata o') f)"

definition str_field :: "op \<Rightarrow> string \<Rightarrow> ('w, string) act" where
  "str_field o' f = bindA (field o' f) (\<lambda>v. liftA (jstr v))"

definition invalid_op :: "op \<Rightarrow> exn" where
  "invalid_op o' = ValidationError (''invalid long running '' @ op_type o' @ '' operation, metadata missing required fields'')"

definition required :: "op \<Rightarrow> string list \<Rightarrow> ('w, unit) act" where
  "required o' fs = forA fs (\<lambda>f. bindA (has o' f) (\<lambda>there. guardA there (invalid_op o')))"

definition unknown_pre :: "op \<Rightarrow> string \<Rightarrow> exn" where
  "unknown_pre o' pre = ValidationError (''identifier '' @ pre @ '' not found for long running '' @ op_oid o' @ '' ('' @ op_type o' @ '')'')"

text \<open>\<open>serdering.SerderKERI(raw=bytes(evt)).ked\<close> of a digest that may be missing.\<close>

definition event_of :: "'w mon_env \<Rightarrow> string \<Rightarrow> string option \<Rightarrow> ('w, json) act" where
  "event_of env pre sdig =
     (case sdig of
        None \<Rightarrow> raiseA TypeError
      | Some d \<Rightarrow>
          bindA (getA (\<lambda>w. me_evt env w pre d)) (\<lambda>evt.
          case evt of None \<Rightarrow> raiseA TypeError | Some ked \<Rightarrow> retA ked))"

definition timed_out :: "'w mon_env \<Rightarrow> op \<Rightarrow> operation \<Rightarrow> ('w, operation) act" where
  "timed_out env o' late =
     bindA (liftA (me_fromIso env (op_start o'))) (\<lambda>start.
     bindA (getA (me_now env)) (\<lambda>dtnow.
     retA (if dtnow - start > me_timeout env then late else pending o')))"

definition status_witness :: "'w mon_env \<Rightarrow> op \<Rightarrow> ('w, operation) act" where
  "status_witness env o' =
     seqA (required o' [''pre'', ''sn''])
     (bindA (str_field o' ''pre'') (\<lambda>pre.
      bindA (getA (\<lambda>w. me_kever env w pre)) (\<lambda>kv.
      case kv of
        None \<Rightarrow> raiseA (unknown_pre o' pre)
      | Some kever \<Rightarrow>
          bindA (bindA (field o' ''sn'') (\<lambda>v. liftA (jint v))) (\<lambda>sn.
          bindA (getA (\<lambda>w. me_keLast env w (kv_pre kever) sn)) (\<lambda>sdig.
          case sdig of
            None \<Rightarrow> retA (pending o')
          | Some d \<Rightarrow>
              bindA (getA (\<lambda>w. me_wigs env w (kv_pre kever) d)) (\<lambda>wigs.
              if wigs \<ge> kv_toad kever then
                bindA (event_of env (kv_pre kever) sdig) (\<lambda>ked. retA (finished o' ked))
              else
                timed_out env o'
                  (errored o' 408 (''long running '' @ op_type o' @ '' for '' @ op_oid o' @ '' (pre: '' @ pre @
                     '') operation timed out before receiving sufficient witness receipts''))))))))"

text \<open>A failed resolution sets the attribute \<open>failed\<close>.\<close>

definition status_oobi :: "'w mon_env \<Rightarrow> op \<Rightarrow> ('w, operation) act" where
  "status_oobi env o' =
     seqA (required o' [''oobi''])
     (bindA (field o' ''oobi'') (\<lambda>oobi.
      bindA (getA (\<lambda>w. me_roobi env w oobi)) (\<lambda>obr.
      case obr of
        None \<Rightarrow> retA (pending o')
      | Some obr \<Rightarrow>
          if ob_state obr = ''resolved'' then
            bindA (getA (\<lambda>w. case ob_cid obr of None \<Rightarrow> None
                             | Some c \<Rightarrow> if c = [] then None else me_kever env w c)) (\<lambda>kv.
            retA (finished o' (case kv of Some k \<Rightarrow> kv_state k | None \<Rightarrow> JObj [(''oobi'', oobi)])))
          else if ob_state obr = ''failed'' then
            retA ((pending o')\<lparr>on_done := True,
                    on_failed := Some \<lparr>os_code = 500, os_message = ''resolving OOBI '' @ op_oid o' @ '' failed''\<rparr>\<rparr>)
          else retA (pending o'))))"

definition status_delegation :: "'w mon_env \<Rightarrow> op \<Rightarrow> ('w, operation) act" where
  "status_delegation env o' =
     seqA (required o' [''pre''])
     (bindA (str_field o' ''pre'') (\<lambda>pre.
      bindA (getA (\<lambda>w. me_kever env w pre)) (\<lambda>kv.
      case kv of
        None \<Rightarrow> raiseA (unknown_pre o' pre)
      | Some kever \<Rightarrow>
          bindA (has o' ''sn'') (\<lambda>sn.
          if sn then
            bindA (field o' ''sn'') (\<lambda>sn.
            bindA (liftA (jint sn)) (\<lambda>n.
            bindA (getA (\<lambda>w. me_keLast env w pre n)) (\<lambda>sdig.
            bindA (me_swain env (kv_pre kever) sn) (\<lambda>complete.
            if complete then bindA (event_of env (kv_pre kever) sdig) (\<lambda>ked. retA (finished o' ked))
            else retA (pending o')))))
          else
            bindA (has o' ''teepre'') (\<lambda>tee.
            if tee then
              bindA (str_field o' ''teepre'') (\<lambda>teepre.
              bindA (field o' ''anchor'') (\<lambda>anc.
              bindA (getA (\<lambda>w. me_kever env w teepre)) (\<lambda>tk.
              case tk of
                Some _ \<Rightarrow> retA (finished o' (JStr teepre))
              | None \<Rightarrow> seqA (me_approve env (kv_pre kever) anc) (retA (pending o')))))
            else
              raiseA (HTTPError 400 (''longrunning operation type '' @ op_type o' @
                '' requires one of [sn, teepre], but are missing from request'')))))))"

definition status_group :: "'w mon_env \<Rightarrow> op \<Rightarrow> ('w, operation) act" where
  "status_group env o' =
     seqA (required o' [''pre'', ''sn''])
     (bindA (str_field o' ''pre'') (\<lambda>pre.
      bindA (field o' ''sn'') (\<lambda>sn.
      bindA (me_counselor env pre sn) (\<lambda>complete.
      if complete then
        bindA (liftA (jint sn)) (\<lambda>n.
        bindA (getA (\<lambda>w. me_keLast env w pre n)) (\<lambda>sdig.
        bindA (event_of env pre sdig) (\<lambda>ked. retA (finished o' ked))))
      else retA (pending o')))))"

definition status_query :: "'w mon_env \<Rightarrow> op \<Rightarrow> ('w, operation) act" where
  "status_query env o' =
     seqA (required o' [''pre''])
     (bindA (str_field o' ''pre'') (\<lambda>pre.
      bindA (getA (\<lambda>w. me_kever env w pre)) (\<lambda>kv.
      case kv of
        None \<Rightarrow> retA (pending o')
      | Some kever \<Rightarrow>
          bindA (has o' ''sn'') (\<lambda>sn.
          bindA (has o' ''anchor'') (\<lambda>anchor.
          if sn then
            bindA (field o' ''sn'') (\<lambda>s.
            bindA (liftA (jhex s)) (\<lambda>n.
            retA (if kv_sn kever \<ge> n then finished o' (kv_state kever) else pending o')))
          else if anchor then
            bindA (field o' ''anchor'') (\<lambda>seal.
            bindA (getA (\<lambda>w. me_anchored env w pre seal)) (\<lambda>found.
            retA (if found then finished o' (kv_state kever) else pending o')))
          else
            bindA (getA (\<lambda>w. case me_knas env w pre of [] \<Rightarrow> None | s # _ \<Rightarrow> me_ksns env w s)) (\<lambda>ksn.
            retA (if ksn = Some (kv_said kever) then finished o' (kv_state kever) else pending o')))))))"

definition status_registry :: "'w mon_env \<Rightarrow> op \<Rightarrow> ('w, operation) act" where
  "status_registry env o' =
     seqA (required o' [''pre'', ''anchor''])
     (bindA (str_field o' ''pre'') (\<lambda>pre.
      bindA (getA (\<lambda>w. me_kever env w pre)) (\<lambda>kv.
      case kv of
        None \<Rightarrow> raiseA (unknown_pre o' pre)
      | Some _ \<Rightarrow>
          bindA (field o' ''anchor'') (\<lambda>anchor.
          bindA (getA (\<lambda>w. me_anchored env w pre anchor)) (\<lambda>found.
          retA (if found then finished o' (JObj [(''anchor'', anchor)]) else pending o'))))))"

definition status_credential :: "'w mon_env \<Rightarrow> op \<Rightarrow> ('w, operation) act" where
  "status_credential env o' =
     seqA (required o' [''ced''])
     (bindA (field o' ''ced'') (\<lambda>ced.
      bindA (liftA (jitem ced ''d'')) (\<lambda>said.
      bindA (me_credential env said) (\<lambda>complete.
      retA (if complete then finished o' (JObj [(''ced'', ced)]) else pending o')))))"

definition status_exchange :: "'w mon_env \<Rightarrow> op \<Rightarrow> ('w, operation) act" where
  "status_exchange env o' =
     bindA (me_exchange env (op_oid o')) (\<lambda>complete.
     retA (if complete then finished o' (JObj [(''said'', JStr (op_oid o'))]) else pending o'))"

definition status_endrole :: "'w mon_env \<Rightarrow> op \<Rightarrow> ('w, operation) act" where
  "status_endrole env o' =
     seqA (required o' [''cid'', ''role'', ''eid''])
     (bindA (field o' ''cid'') (\<lambda>cid. bindA (field o' ''role'') (\<lambda>role. bindA (field o' ''eid'') (\<lambda>eid.
      bindA (getA (\<lambda>w. me_ends env w cid role eid)) (\<lambda>e.
      if (case e of None \<Rightarrow> False | Some (enabled, allowed) \<Rightarrow> enabled \<or> allowed) then
        bindA (getA (\<lambda>w. me_eans env w cid role eid)) (\<lambda>saider.
        case saider of
          None \<Rightarrow> raiseA AttributeError
        | Some said \<Rightarrow>
            bindA (getA (\<lambda>w. me_rpys env w said)) (\<lambda>rpy.
            case rpy of None \<Rightarrow> raiseA AttributeError | Some ked \<Rightarrow> retA (finished o' ked)))
      else retA (pending o'))))))"

definition status_locscheme :: "'w mon_env \<Rightarrow> op \<Rightarrow> ('w, operation) act" where
  "status_locscheme env o' =
     seqA (required o' [''eid'', ''scheme'', ''url''])
     (bindA (field o' ''eid'') (\<lambda>eid. bindA (field o' ''scheme'') (\<lambda>scheme. bindA (field o' ''url'') (\<lambda>url.
      bindA (getA (\<lambda>w. me_locs env w eid scheme)) (\<lambda>loc.
      retA (if loc then finished o' (JObj [(''eid'', eid), (''scheme'', scheme), (''url'', url)]) else pending o'))))))"

text \<open>
  The responses to a challenge are searched in the order of the database, up to the first
  whose words are the ones of the operation; a response that is missing or has no words raises.
\<close>

fun find_challenge :: "('w \<Rightarrow> string \<Rightarrow> json option) \<Rightarrow> json \<Rightarrow> string list \<Rightarrow> ('w, json option) act" where
  "find_challenge exns words [] = retA None"
| "find_challenge exns words (said # saids) =
     bindA (getA (\<lambda>w. exns w said)) (\<lambda>exn.
     case exn of
       None \<Rightarrow> raiseA AttributeError
     | Some ked \<Rightarrow>
         bindA (liftA (jitem ked ''a'')) (\<lambda>a.
         bindA (liftA (jitem a ''words'')) (\<lambda>ws.
         if words = ws then retA (Some ked) else find_challenge exns words saids)))"

definition status_challenge :: "'w mon_env \<Rightarrow> op \<Rightarrow> ('w, operation) act" where
  "status_challenge env o' =
     seqA (required o' [''words''])
     (bindA (field o' ''words'') (\<lambda>words.
      bindA (getA (\<lambda>w. me_reps env w (op_oid o'))) (\<lambda>saiders.
      bindA (find_challenge (me_exns env) words saiders) (\<lambda>found.
      retA (case found of Some ked \<Rightarrow> finished o' (JObj [(''exn'', ked)]) | None \<Rightarrow> pending o')))))"

definition status_submit :: "'w mon_env \<Rightarrow> op \<Rightarrow> ('w, operation) act" where
  "status_submit env o' =
     bindA (getA (\<lambda>w. me_kever env w (op_oid o'))) (\<lambda>kv.
     case kv of
       None \<Rightarrow> raiseA (KeyError (op_oid o'))
     | Some kever \<Rightarrow>
         bindA (getA (me_submits env)) (\<lambda>idle.
         if idle = (0, 0) then retA (finished o' (kv_state kever))
         else
           timed_out env o'
             (errored o' 408 (''long running '' @ op_type o' @ '' for '' @ op_oid o' @
                '' operation timed out before receiving sufficient witness receipts''))))"

definition status :: "'w mon_env \<Rightarrow> op \<Rightarrow> ('w, operation) act" where
  "status env o' =
     (let t = op_type o' in
      if t = ''witness'' then status_witness env o'
      else if t = ''oobi'' then status_oobi env o'
      else if t = ''delegation'' then status_delegation env o'
      else if t = ''group'' then status_group env o'
      else if t = ''query'' then status_query env o'
      else if t = ''registry'' then status_registry env o'
      else if t = ''credential'' then status_credential env o'
      else if t = ''exchange'' then status_exchange env o'
      else if t = ''endrole'' then status_endrole env o'
      else if t = ''locscheme'' then status_locscheme env o'
      else if t = ''challenge'' then status_challenge env o'
      else if t = ''submit'' then status_submit env o'
      else if t = ''done'' then bindA (field o' ''response'') (\<lambda>r. retA (finished o' r))
      else retA (errored o' 404 (''long running operation type '' @ t @ '' unknown'')))"

subsection \<open>Monitor\<close>

definition Monitor_get :: "'w mon_env \<Rightarrow> string \<Rightarrow> ('w, operation option) act" where
  "Monitor_get env name =
     bindA (getS (me_ops env) name) (\<lambda>o'.
     case o' of None \<Rightarrow> retA None | Some o' \<Rightarrow> bindA (status env o') (\<lambda>r. retA (Some r)))"

definition Monitor_submit ::
  "'w mon_env \<Rightarrow> string \<Rightarrow> string \<Rightarrow> json \<Rightarrow> ('w, operation option) act" where
  "Monitor_submit env oid typ metadata =
     seqA (guardA (typ \<in> set OpTypes) (InvalidValueError (typ @ '' not a valid long running operation type'')))
     (bindA (getA (me_nowIso env)) (\<lambda>start.
      bindA (pinS (me_ops env) (typ @ ''.'' @ oid)
               \<lparr>op_oid = oid, op_type = typ, op_start = start, op_metadata = metadata\<rparr>) (\<lambda>_.
      Monitor_get env (typ @ ''.'' @ oid))))"

definition get_status :: "'w mon_env \<Rightarrow> op \<Rightarrow> ('w, operation) act" where
  "get_status env o' =
     catchA (status env o')
       (\<lambda>e. if isException e then Some (retA (errored o' 500 (exn_msg e))) else None)"

definition Monitor_getOperations :: "'w mon_env \<Rightarrow> json \<Rightarrow> ('w, operation list) act" where
  "Monitor_getOperations env typ =
     bindA (itemsS (me_ops env)) (\<lambda>ops.
     let ops = (if typ = JNull then ops else filter (\<lambda>(_, o'). JStr (op_type o') = typ) ops)
     in mapA (get_status env) (map snd ops))"

definition Monitor_rem :: "'w mon_env \<Rightarrow> string \<Rightarrow> ('w, bool) act" where
  "Monitor_rem env name = remS (me_ops env) name"

subsection \<open>Endpoints\<close>

definition op_not_found :: "string \<Rightarrow> exn" where
  "op_not_found name = HTTPError 404 (''long running operation '' @ name @ '' not found'')"

definition OperationCollectionEnd_on_get ::
  "'w mon_env \<Rightarrow> request \<Rightarrow> response \<Rightarrow> ('w, response) act" where
  "OperationCollectionEnd_on_get env req rep =
     bindA (retA (case dict_get (rq_params req) ''type'' of None \<Rightarrow> JNull | Some v \<Rightarrow> v)) (\<lambda>typ.
     bindA (Monitor_getOperations env typ) (\<lambda>ops.
     retA (rep\<lparr>rs_data := Some (JArr (map to_json ops)), rs_status := 200\<rparr>)))"

definition OperationResourceEnd_on_get ::
  "'w mon_env \<Rightarrow> string \<Rightarrow> response \<Rightarrow> ('w, response) act" where
  "OperationResourceEnd_on_get env name rep =
     bindA (Monitor_get env name) (\<lambda>o'.
     case o' of
       None \<Rightarrow> raiseA (op_not_found name)
     | Some o' \<Rightarrow> retA (rep\<lparr>rs_data := Some (to_json o'), rs_status := 200\<rparr>))"

definition OperationResourceEnd_on_delete ::
  "'w mon_env \<Rightarrow> string \<Rightarrow> response \<Rightarrow> ('w, response) act" where
  "OperationResourceEnd_on_delete env name rep =
     bindA (Monitor_get env name) (\<lambda>o'.
     if o' = None then raiseA (op_not_found name)
     else
       bindA (Monitor_rem env name) (\<lambda>deleted.
       if deleted then retA (rep\<lparr>rs_status := 204\<rparr>)
       else raiseA (HTTPError 500 (''unable to delete long running operation '' @ name))))"

subsection \<open>What a status says\<close>

text \<open>
  A status is consistent: it names the operation and carries its metadata; while it is pending
  it has no result of any kind; an error comes with \<open>done\<close> and without a response, and the
  attribute \<open>failed\<close> only on an OOBI, again with \<open>done\<close> and without response.
\<close>

definition consistent :: "op \<Rightarrow> operation \<Rightarrow> bool" where
  "consistent o' r \<longleftrightarrow>
     on_name r = op_name o' \<and> on_metadata r = op_metadata o' \<and>
     (\<not> on_done r \<longrightarrow> on_response r = JNull \<and> on_error r = None \<and> on_failed r = None) \<and>
     (on_error r \<noteq> None \<longrightarrow> on_response r = JNull \<and> on_failed r = None) \<and>
     (on_failed r \<noteq> None \<longrightarrow> on_response r = JNull \<and> op_type o' = ''oobi'')"

lemma consistent_pending [simp]: "consistent o' (pending o')"
  by (simp add: consistent_def pending_def)

lemma consistent_finished [simp]: "consistent o' (finished o' r)"
  by (simp add: consistent_def pending_def finished_def)

lemma consistent_errored [simp]: "consistent o' (errored o' c msg)"
  by (simp add: consistent_def pending_def errored_def)

lemma consistent_failed [simp]:
  "op_type o' = ''oobi'' \<Longrightarrow> consistent o' ((pending o')\<lparr>on_done := True, on_failed := Some st\<rparr>)"
  by (simp add: consistent_def pending_def)

lemma returns_timed_out [wp]: "consistent o' late \<Longrightarrow> returns (consistent o') (timed_out env o' late)"
  unfolding timed_out_def by (intro wp) simp

lemma returns_status: "returns (consistent o') (status env o')"
proof -
  have oobi: "op_type o' = ''oobi'' \<Longrightarrow> returns (consistent o') (status_oobi env o')"
    unfolding status_oobi_def by (intro wp) simp_all
  have "returns (consistent o') (status_witness env o')" "returns (consistent o') (status_delegation env o')"
    "returns (consistent o') (status_group env o')" "returns (consistent o') (status_query env o')"
    "returns (consistent o') (status_registry env o')" "returns (consistent o') (status_credential env o')"
    "returns (consistent o') (status_exchange env o')" "returns (consistent o') (status_endrole env o')"
    "returns (consistent o') (status_locscheme env o')" "returns (consistent o') (status_challenge env o')"
    "returns (consistent o') (status_submit env o')"
    unfolding status_witness_def status_delegation_def status_group_def status_query_def status_registry_def
      status_credential_def status_exchange_def status_endrole_def status_locscheme_def status_challenge_def
      status_submit_def
    by (intro wp; simp split: option.split)+
  with oobi show ?thesis
    unfolding status_def Let_def by (intro wp) simp_all
qed

text \<open>
  Whatever is stored, the status the monitor reports is consistent, and what the client is sent
  for a pending operation has neither error nor response.
\<close>

theorem status_consistent:
  assumes "status env o' w = (Inr r, w')"
  shows "consistent o' r \<and>
         (\<not> on_done r \<longrightarrow> to_json r = JObj [(''name'', JStr (op_type o' @ ''.'' @ op_oid o')), (''error'', JNull),
            (''done'', JBool False), (''metadata'', op_metadata o'), (''response'', JNull)])"
  using returnsD [OF returns_status assms]
  by (auto simp: consistent_def to_json_def op_name_def)

lemma get_status_total:
  obtains r w' where "get_status env o' w = (Inr r, w')" and "consistent o' r"
  | w' where "get_status env o' w = (Inl KeyboardInterrupt, w')"
proof -
  obtain s w1 where s: "status env o' w = (s, w1)" by fastforce
  show thesis
  proof (cases s)
    case (Inl e)
    then show ?thesis using s that
      by (cases "isException e") (auto simp: get_status_def catchA_def isException_def)
  next
    case (Inr r)
    then show ?thesis using s that(1) [of r w1] returnsD [OF returns_status, of env o' w r w1]
      by (simp add: get_status_def catchA_def)
  qed
qed

lemma mapA_get_status:
  assumes "mapA (get_status env) os w = (r, w')"
  shows "r = Inl KeyboardInterrupt \<or> (\<exists>rs. r = Inr rs \<and> list_all2 consistent os rs)"
  using assms
proof (induction os arbitrary: w r w')
  case (Cons o' os)
  show ?case
  proof (cases rule: get_status_total [of env o' w])
    case (1 x w1)
    obtain q w2 where q: "mapA (get_status env) os w1 = (q, w2)" by fastforce
    from Cons.IH [OF q] Cons.prems 1 q show ?thesis
      by (cases q) (auto simp: bindA_def)
  next
    case (2 w1)
    with Cons.prems show ?thesis by (simp add: bindA_def)
  qed
qed auto

text \<open>
  The list of operations never fails because of an operation in it: it has one entry for every
  stored operation of the type asked for, in the order of the database, each a consistent
  status of it. An operation whose status can not be computed is listed as done with error 500.
\<close>

theorem getOperations_total:
  assumes "Monitor_getOperations env typ w = (r, w')" and "r \<noteq> Inl KeyboardInterrupt"
  shows "\<exists>rs. r = Inr rs \<and>
           list_all2 consistent
             (map snd (filter (\<lambda>(_, o'). typ = JNull \<or> JStr (op_type o') = typ) (sitems (me_ops env) w))) rs"
proof -
  have ops: "(if typ = JNull then xs else filter (\<lambda>(_, o'). JStr (op_type o') = typ) xs) =
      filter (\<lambda>(_, o'). typ = JNull \<or> JStr (op_type o') = typ) xs" for xs :: "(string \<times> op) list"
    by (simp cong: filter_cong)
  have "mapA (get_status env)
      (map snd (filter (\<lambda>(_, o'). typ = JNull \<or> JStr (op_type o') = typ) (sitems (me_ops env) w))) w = (r, w')"
    using assms(1) by (simp add: Monitor_getOperations_def Let_def ops)
  from mapA_get_status [OF this] assms(2) show ?thesis by blast
qed

text \<open>
  The failure of an OOBI resolution does not reach the client: the operation it is sent is done,
  with neither an error nor a response.
\<close>

theorem oobi_failure_hidden:
  assumes "sget (me_ops env) w name = Some o'" and "op_type o' = ''oobi''"
    and "op_metadata o' = JObj d" and "dict_get d ''oobi'' = Some u"
    and "me_roobi env w u = Some obr" and "ob_state obr = ''failed''"
  shows "OperationResourceEnd_on_get env name rep w =
    (Inr (rep\<lparr>rs_data := Some (JObj [(''name'', JStr (''oobi.'' @ op_oid o')), (''error'', JNull), (''done'', JBool True),
             (''metadata'', JObj d), (''response'', JNull)]), rs_status := 200\<rparr>), w)"
proof -
  have "status env o' w = (Inr ((pending o')\<lparr>on_done := True,
          on_failed := Some \<lparr>os_code = 500, os_message = ''resolving OOBI '' @ op_oid o' @ '' failed''\<rparr>\<rparr>), w)"
    using assms(2-6) by (simp add: status_def status_oobi_def required_def has_def field_def)
  then show ?thesis
    using assms(1-3)
    by (simp add: OperationResourceEnd_on_get_def Monitor_get_def bindA_Inr to_json_def pending_def op_name_def)
qed

text \<open>
  C16. An operation that waits for witness receipts is over as soon as there are enough of them, and
  otherwise as soon as its time is up, then with error 408; before that it is pending. It waits
  for ever only for an event that is not in the key event log.
\<close>

theorem witness_operation_ends:
  assumes "op_type o' = ''witness''" and "op_metadata o' = JObj d"
    and "dict_get d ''pre'' = Some (JStr pre)" and "dict_get d ''sn'' = Some (JInt sn)"
    and "me_kever env w pre = Some kv" and "me_fromIso env (op_start o') = Inr t0"
    and "\<And>dig. me_keLast env w (kv_pre kv) sn = Some dig \<Longrightarrow> me_evt env w (kv_pre kv) dig = Some ked"
  shows "\<exists>r. status env o' w = (Inr r, w) \<and>
    (case me_keLast env w (kv_pre kv) sn of
       None \<Rightarrow> \<not> on_done r
     | Some dig \<Rightarrow>
         (if kv_toad kv \<le> me_wigs env w (kv_pre kv) dig
          then on_done r \<and> on_error r = None \<and> on_response r = ked
          else if me_now env w - t0 > me_timeout env
          then on_done r \<and> map_option os_code (on_error r) = Some 408
          else \<not> on_done r))"
proof (cases "me_keLast env w (kv_pre kv) sn")
  case None
  with assms(1-5) show ?thesis
    by (simp add: status_def status_witness_def required_def has_def field_def str_field_def pending_def)
next
  case (Some dig)
  let ?msg = "''long running '' @ op_type o' @ '' for '' @ op_oid o' @ '' (pre: '' @ pre @
     '') operation timed out before receiving sufficient witness receipts''"
  have run: "status env o' w =
      (if kv_toad kv \<le> me_wigs env w (kv_pre kv) dig then (Inr (finished o' ked), w)
       else timed_out env o' (errored o' 408 ?msg) w)"
    using assms(1-5) assms(7) [OF Some] Some
    by (simp add: status_def status_witness_def required_def has_def field_def str_field_def event_of_def)
  show ?thesis
  proof (cases "kv_toad kv \<le> me_wigs env w (kv_pre kv) dig")
    case True
    with run Some show ?thesis by (simp add: finished_def pending_def)
  next
    case False
    with run Some assms(6) show ?thesis
      by (cases "me_now env w - t0 > me_timeout env") (simp_all add: timed_out_def errored_def pending_def)
  qed
qed

subsection \<open>Storing and removing operations\<close>

text \<open>The checks of the surrounding processes leave the stored operations alone.\<close>

definition mon_ok :: "'w mon_env \<Rightarrow> bool" where
  "mon_ok env \<longleftrightarrow>
     suber_ok (me_ops env) \<and>
     (\<forall>f pre sn. keeps (\<lambda>w. sget (me_ops env) w = f) (me_swain env pre sn)) \<and>
     (\<forall>f pre anc. keeps (\<lambda>w. sget (me_ops env) w = f) (me_approve env pre anc)) \<and>
     (\<forall>f pre sn. keeps (\<lambda>w. sget (me_ops env) w = f) (me_counselor env pre sn)) \<and>
     (\<forall>f said. keeps (\<lambda>w. sget (me_ops env) w = f) (me_credential env said)) \<and>
     (\<forall>f said. keeps (\<lambda>w. sget (me_ops env) w = f) (me_exchange env said))"

lemma keeps_has [wp]: "keeps P (has o' f)" and keeps_field [wp]: "keeps P (field o' f)"
  and keeps_required [wp]: "keeps P (required o' fs)" and keeps_str_field [wp]: "keeps P (str_field o' f)"
  unfolding has_def field_def required_def str_field_def
  by (intro wp)+

lemma keeps_event_of [wp]: "keeps P (event_of env pre d)" and keeps_timed_out [wp]: "keeps P (timed_out env o' late)"
  unfolding event_of_def timed_out_def by (intro wp)+

lemma keeps_find_challenge [wp]: "keeps P (find_challenge exns words saids)"
  by (induction saids) (simp_all only: find_challenge.simps, (intro wp | assumption)+)

lemma keeps_status:
  assumes "mon_ok env" shows "keeps (\<lambda>w. sget (me_ops env) w = f) (status env o')"
proof -
  note ext = assms [unfolded mon_ok_def, THEN conjunct2]
  have e: "keeps (\<lambda>w. sget (me_ops env) w = f) (me_swain env pre sn)"
    "keeps (\<lambda>w. sget (me_ops env) w = f) (me_approve env pre sn)"
    "keeps (\<lambda>w. sget (me_ops env) w = f) (me_counselor env pre sn)"
    "keeps (\<lambda>w. sget (me_ops env) w = f) (me_credential env said)"
    "keeps (\<lambda>w. sget (me_ops env) w = f) (me_exchange env pre)" for pre sn said
    using ext by blast+
  show ?thesis
    unfolding status_def Let_def status_witness_def status_oobi_def status_delegation_def status_group_def
      status_query_def status_registry_def status_credential_def status_exchange_def status_endrole_def
      status_locscheme_def status_challenge_def status_submit_def
    by (intro wp e)
qed

lemma Monitor_get_stored:
  assumes "mon_ok env" and "Monitor_get env name w = (r, w')"
  shows "sget (me_ops env) w' = sget (me_ops env) w"
proof -
  have "keeps (\<lambda>v. sget (me_ops env) v = sget (me_ops env) w) (Monitor_get env name)"
    unfolding Monitor_get_def by (intro wp keeps_status [OF assms(1)])
  from keepsD [OF this refl assms(2)] show ?thesis .
qed

lemma op_name_inj:
  assumes "t @ CHR ''.'' # i = t' @ CHR ''.'' # i'" and "t \<in> set OpTypes" and "t' \<in> set OpTypes"
  shows "t = t' \<and> i = i'"
proof -
  have no: "CHR ''.'' \<notin> set u" if "u \<in> set OpTypes" for u
    using that by (auto simp: OpTypes_def)
  have "takeWhile (\<lambda>c. c \<noteq> CHR ''.'') (u @ CHR ''.'' # v) = u" if "CHR ''.'' \<notin> set u" for u v :: string
    using that by (induction u) auto
  with no assms have "t = t'" by metis
  with assms(1) show ?thesis by simp
qed

lemma Monitor_submit_ops:
  assumes "mon_ok env" and "typ \<in> set OpTypes" and "Monitor_submit env oid typ metadata w = (r, w')"
  shows "sget (me_ops env) w' = (sget (me_ops env) w)(typ @ ''.'' @ oid \<mapsto>
     \<lparr>op_oid = oid, op_type = typ, op_start = me_nowIso env w, op_metadata = metadata\<rparr>)"
proof -
  let ?name = "typ @ ''.'' @ oid"
  let ?w = "snd (spin (me_ops env) w ?name \<lparr>op_oid = oid, op_type = typ, op_start = me_nowIso env w, op_metadata = metadata\<rparr>)"
  have "Monitor_get env ?name ?w = (r, w')" using assms(2,3) by (simp add: Monitor_submit_def)
  from Monitor_get_stored [OF assms(1) this] show ?thesis
    using assms(1) by (simp add: mon_ok_def spin_ok)
qed

lemma Monitor_submit_stored:
  assumes "mon_ok env" and "typ \<in> set OpTypes" and "Monitor_submit env oid typ metadata w = (r, w')"
  shows "\<exists>o'. sget (me_ops env) w' (typ @ ''.'' @ oid) = Some o' \<and> op_type o' = typ \<and> op_oid o' = oid \<and> op_metadata o' = metadata"
  by (rule exI, rule conjI, subst Monitor_submit_ops [OF assms], rule fun_upd_same) simp

text \<open>
  C15. Submitting an operation stores it under its type and target, with the clock started afresh
  and replacing an earlier one for the same target; no other operation changes, whatever its
  type and target. The result is its current status: that of the new operation, computed in the
  world right after it was stored, or the error computing it raises, with which the operation
  stays stored. A type that is not known is refused and nothing is stored.
\<close>

theorem submit_stores:
  assumes "mon_ok env" and "Monitor_submit env oid typ metadata w = (r, w')"
  defines "new \<equiv> \<lparr>op_oid = oid, op_type = typ, op_start = me_nowIso env w, op_metadata = metadata\<rparr>"
  shows "(typ \<notin> set OpTypes \<longrightarrow>
            r = Inl (InvalidValueError (typ @ '' not a valid long running operation type'')) \<and> w' = w) \<and>
         (typ \<in> set OpTypes \<longrightarrow>
            sget (me_ops env) w' (typ @ ''.'' @ oid) = Some new \<and>
            (\<forall>typ' \<in> set OpTypes. \<forall>oid'. (typ', oid') \<noteq> (typ, oid) \<longrightarrow>
               sget (me_ops env) w' (typ' @ ''.'' @ oid') = sget (me_ops env) w (typ' @ ''.'' @ oid')) \<and>
            (case status env new (snd (spin (me_ops env) w (typ @ ''.'' @ oid) new)) of (result, w2) \<Rightarrow>
               w' = w2 \<and> r = (case result of Inl e \<Rightarrow> Inl e | Inr op \<Rightarrow> Inr (Some op))) \<and>
            (\<forall>op. r = Inr (Some op) \<longrightarrow> consistent new op))"
proof (intro conjI impI)
  assume bad: "typ \<notin> set OpTypes"
  then show "r = Inl (InvalidValueError (typ @ '' not a valid long running operation type''))" and "w' = w"
    using assms(2) by (simp_all add: Monitor_submit_def)
next
  let ?name = "typ @ ''.'' @ oid"
  let ?w = "snd (spin (me_ops env) w ?name new)"
  assume valid: "typ \<in> set OpTypes"
  then have run: "Monitor_get env ?name ?w = (r, w')"
    using assms(2) by (simp add: Monitor_submit_def new_def)
  have ops: "sget (me_ops env) ?w = (sget (me_ops env) w)(?name \<mapsto> new)"
    using assms(1) by (simp add: mon_ok_def spin_ok)
  have ops': "sget (me_ops env) w' = (sget (me_ops env) w)(?name \<mapsto> new)"
    using Monitor_submit_ops [OF assms(1) valid assms(2)] by (simp add: new_def)
  then show "sget (me_ops env) w' ?name = Some new" by simp
  show "\<forall>typ' \<in> set OpTypes. \<forall>oid'. (typ', oid') \<noteq> (typ, oid) \<longrightarrow>
               sget (me_ops env) w' (typ' @ ''.'' @ oid') = sget (me_ops env) w (typ' @ ''.'' @ oid')"
  proof (intro ballI allI impI)
    fix t' oid' assume other: "t' \<in> set OpTypes" "(t', oid') \<noteq> (typ, oid)"
    then have "t' @ ''.'' @ oid' \<noteq> ?name" using op_name_inj [of "t'" "oid'" "typ" oid] valid by auto
    with ops' show "sget (me_ops env) w' (t' @ ''.'' @ oid') = sget (me_ops env) w (t' @ ''.'' @ oid')"
      by simp
  qed
  have get: "Monitor_get env ?name ?w = bindA (status env new) (\<lambda>r. retA (Some r)) ?w"
    using ops by (simp add: Monitor_get_def)
  with run have run2: "bindA (status env new) (\<lambda>r. retA (Some r)) ?w = (r, w')" by simp
  then show "case status env new ?w of (result, w2) \<Rightarrow>
      w' = w2 \<and> r = (case result of Inl e \<Rightarrow> Inl e | Inr op \<Rightarrow> Inr (Some op))"
    by (auto simp: bindA_def split: prod.splits sum.splits)
  show "\<forall>op. r = Inr (Some op) \<longrightarrow> consistent new op"
    using run2 by (auto elim!: bindA_eq_InrD dest: returnsD [OF returns_status])
qed

text \<open>
  Deleting an operation that is there answers 204 and leaves the others; after that it is
  not found. But the endpoint computes the status first, so an operation whose status raises
  can not be deleted: the request fails with that exception and the operation stays.
\<close>

theorem delete_operation:
  assumes "mon_ok env" and "sget (me_ops env) w name = Some o'" and "status env o' w = (r, w1)"
  shows "\<exists>w2. (case r of
       Inr _ \<Rightarrow> OperationResourceEnd_on_delete env name rep w = (Inr (rep\<lparr>rs_status := 204\<rparr>), w2) \<and>
                sget (me_ops env) w2 = (sget (me_ops env) w)(name := None) \<and>
                fst (OperationResourceEnd_on_get env name rep w2) = Inl (op_not_found name)
     | Inl e \<Rightarrow> OperationResourceEnd_on_delete env name rep w = (Inl e, w2) \<and>
                sget (me_ops env) w2 = sget (me_ops env) w)"
proof -
  have kept: "sget (me_ops env) w1 = sget (me_ops env) w"
    using keepsD [OF keeps_status [OF assms(1)] refl assms(3)] .
  have ok: "suber_ok (me_ops env)" using assms(1) by (simp add: mon_ok_def)
  show ?thesis
  proof (cases r)
    case (Inl e)
    then have "OperationResourceEnd_on_delete env name rep w = (Inl e, w1)"
      using assms(2,3) by (simp add: OperationResourceEnd_on_delete_def Monitor_get_def bindA_def [of "status env o'"])
    with Inl kept show ?thesis by auto
  next
    case (Inr s)
    let ?w2 = "snd (srem (me_ops env) w1 name)"
    have "OperationResourceEnd_on_delete env name rep w = (Inr (rep\<lparr>rs_status := 204\<rparr>), ?w2)"
      using assms(2,3) Inr kept srem_ok(1) [OF ok]
      by (simp add: OperationResourceEnd_on_delete_def Monitor_get_def Monitor_rem_def bindA_def [of "status env o'"])
    moreover have gone: "sget (me_ops env) ?w2 = (sget (me_ops env) w)(name := None)"
      using srem_ok(2) [OF ok] kept by simp
    moreover have "fst (OperationResourceEnd_on_get env name rep ?w2) = Inl (op_not_found name)"
      by (simp add: OperationResourceEnd_on_get_def Monitor_get_def gone)
    ultimately show ?thesis using Inr by auto
  qed
qed

subsection \<open>A monitor in memory\<close>

type_synonym mem_ops = "(string, op) alist"

definition mem_mon :: "mem_ops mon_env" where
  "mem_mon =
     \<lparr>me_ops = mem_suber (\<lambda>w. w) (\<lambda>a _. a),
      me_now = (\<lambda>_. 5000), me_nowIso = (\<lambda>_. ''t1000''), me_fromIso = (\<lambda>_. Inr 1000), me_timeout = 3600,
      me_kever = (\<lambda>_ pre. if pre = ''E1'' then Some \<lparr>kv_pre = ''E1'', kv_sn = 2, kv_toad = 1, kv_said = ''E9'', kv_state = JStr ''state''\<rparr> else None),
      me_keLast = (\<lambda>_ _ sn. if sn = 2 then Some ''E9'' else None),
      me_wigs = (\<lambda>_ _ _. 0),
      me_evt = (\<lambda>_ _ _. Some (JStr ''ked'')),
      me_roobi = (\<lambda>_ _. Some \<lparr>ob_state = ''failed'', ob_cid = None\<rparr>),
      me_swain = (\<lambda>_ _. retA True), me_approve = (\<lambda>_ _. retA ()), me_counselor = (\<lambda>_ _. retA False),
      me_anchored = (\<lambda>_ _ _. False), me_knas = (\<lambda>_ _. []), me_ksns = (\<lambda>_ _. None),
      me_credential = (\<lambda>_. retA False), me_exchange = (\<lambda>_. retA False),
      me_ends = (\<lambda>_ _ _ _. None), me_eans = (\<lambda>_ _ _ _. None), me_rpys = (\<lambda>_ _. None),
      me_locs = (\<lambda>_ _ _. False), me_reps = (\<lambda>_ _. []), me_exns = (\<lambda>_ _. None), me_submits = (\<lambda>_. (0, 0))\<rparr>"

lemma mem_mon_ok: "mon_ok mem_mon"
  unfolding mon_ok_def by (simp add: mem_mon_def mem_suber_ok keeps_retA)

definition mem_op :: "string \<Rightarrow> string \<Rightarrow> json \<Rightarrow> op" where
  "mem_op t i d = \<lparr>op_oid = i, op_type = t, op_start = ''t1000'', op_metadata = d\<rparr>"

definition mem_store :: mem_ops where
  "mem_store = DAList.update ''oobi.o1'' (mem_op ''oobi'' ''o1'' (JObj [(''oobi'', JStr ''http://x'')]))
     (DAList.update ''submit.E7'' (mem_op ''submit'' ''E7'' JNull) DAList.empty)"

lemma mem_store_get:
  "sget (me_ops mem_mon) mem_store ''oobi.o1'' = Some (mem_op ''oobi'' ''o1'' (JObj [(''oobi'', JStr ''http://x'')]))"
  "sget (me_ops mem_mon) mem_store ''submit.E7'' = Some (mem_op ''submit'' ''E7'' JNull)"
  by (simp_all add: mem_mon_def mem_store_def)

lemma mem_submit_status: "status mem_mon (mem_op ''submit'' ''E7'' JNull) w = (Inl (KeyError ''E7''), w)"
  by (simp add: status_def Let_def status_submit_def mem_op_def mem_mon_def)

theorem status_consistent_witness:
  "consistent (mem_op ''group'' ''E1'' (JObj [(''pre'', JStr ''E1''), (''sn'', JInt 0)]))
     (pending (mem_op ''group'' ''E1'' (JObj [(''pre'', JStr ''E1''), (''sn'', JInt 0)])))"
proof -
  have "status mem_mon (mem_op ''group'' ''E1'' (JObj [(''pre'', JStr ''E1''), (''sn'', JInt 0)])) mem_store =
    (Inr (pending (mem_op ''group'' ''E1'' (JObj [(''pre'', JStr ''E1''), (''sn'', JInt 0)]))), mem_store)"
    by (simp add: status_def Let_def status_group_def mem_op_def required_def has_def field_def str_field_def mem_mon_def)
  from status_consistent [OF this] show ?thesis by blast
qed

theorem getOperations_total_witness:
  "\<exists>rs. fst (Monitor_getOperations mem_mon (JStr ''submit'') mem_store) = Inr rs \<and>
     list_all2 consistent [mem_op ''submit'' ''E7'' JNull] rs"
proof -
  have items: "map snd (filter (\<lambda>(_, o'). JStr ''submit'' = JNull \<or> JStr (op_type o') = JStr ''submit'') (sitems (me_ops mem_mon) mem_store)) =
      [mem_op ''submit'' ''E7'' JNull]"
    by (simp add: mem_mon_def mem_store_def mem_suber_def mem_op_def DAList.update.rep_eq DAList.empty.rep_eq)
  obtain r w' where run: "Monitor_getOperations mem_mon (JStr ''submit'') mem_store = (r, w')" by fastforce
  have "filter (\<lambda>x. case x of (_, o') \<Rightarrow> op_type o' = ''submit'') (sitems (me_ops mem_mon) mem_store) =
      [(''submit.E7'', mem_op ''submit'' ''E7'' JNull)]"
    by (simp add: mem_mon_def mem_store_def mem_suber_def mem_op_def DAList.update.rep_eq DAList.empty.rep_eq)
  then have "r \<noteq> Inl KeyboardInterrupt"
    using run mem_submit_status
    by (auto simp: Monitor_getOperations_def Let_def get_status_def catchA_def isException_def bindA_def)
  from getOperations_total [OF run this] show ?thesis using run items by auto
qed

theorem oobi_failure_hidden_witness:
  "fst (OperationResourceEnd_on_get mem_mon ''oobi.o1'' fresh_response mem_store) =
    Inr (fresh_response\<lparr>rs_data := Some (JObj [(''name'', JStr ''oobi.o1''), (''error'', JNull), (''done'', JBool True),
             (''metadata'', JObj [(''oobi'', JStr ''http://x'')]), (''response'', JNull)]), rs_status := 200\<rparr>)"
  using oobi_failure_hidden [OF mem_store_get(1), of "[(''oobi'', JStr ''http://x'')]" "JStr ''http://x''"
      "\<lparr>ob_state = ''failed'', ob_cid = None\<rparr>" fresh_response]
  by (simp add: mem_op_def mem_mon_def)

theorem witness_operation_ends_witness:
  "\<exists>r. status mem_mon (mem_op ''witness'' ''E1.2'' (JObj [(''pre'', JStr ''E1''), (''sn'', JInt 2)])) mem_store = (Inr r, mem_store) \<and>
     on_done r \<and> map_option os_code (on_error r) = Some 408"
  using witness_operation_ends [of "mem_op ''witness'' ''E1.2'' (JObj [(''pre'', JStr ''E1''), (''sn'', JInt 2)])"
      "[(''pre'', JStr ''E1''), (''sn'', JInt 2)]" "''E1''" 2 mem_mon mem_store
      "\<lparr>kv_pre = ''E1'', kv_sn = 2, kv_toad = 1, kv_said = ''E9'', kv_state = JStr ''state''\<rparr>" 1000 "JStr ''ked''"]
  by (simp add: mem_op_def mem_mon_def)

theorem submit_stores_witness:
  "sget (me_ops mem_mon) (snd (Monitor_submit mem_mon ''E1'' ''done'' JNull mem_store)) ''done.E1'' =
     Some (mem_op ''done'' ''E1'' JNull) \<and>
   fst (Monitor_submit mem_mon ''E1'' ''done'' JNull mem_store) =
     (case fst (status mem_mon (mem_op ''done'' ''E1'' JNull)
                  (snd (spin (me_ops mem_mon) mem_store ''done.E1'' (mem_op ''done'' ''E1'' JNull)))) of
        Inl e \<Rightarrow> Inl e | Inr op \<Rightarrow> Inr (Some op)) \<and>
   sget (me_ops mem_mon) (snd (Monitor_submit mem_mon ''E1'' ''done'' JNull mem_store)) ''oobi.o1'' =
     sget (me_ops mem_mon) mem_store ''oobi.o1''"
proof -
  obtain r w' where run: "Monitor_submit mem_mon ''E1'' ''done'' JNull mem_store = (r, w')" by fastforce
  have t: "''done'' \<in> set OpTypes" "''oobi'' \<in> set OpTypes" by (simp_all add: OpTypes_def)
  from submit_stores [OF mem_mon_ok run] t show ?thesis
    using run by (auto simp: mem_op_def mem_mon_def dest!: bspec [of _ _ "''oobi''"] spec [of _ "''o1''"])
qed

theorem delete_operation_witness:
  "\<exists>w2. OperationResourceEnd_on_delete mem_mon ''submit.E7'' fresh_response mem_store = (Inl (KeyError ''E7''), w2) \<and>
     sget (me_ops mem_mon) w2 = sget (me_ops mem_mon) mem_store"
  using delete_operation [OF mem_mon_ok mem_store_get(2) mem_submit_status] by simp

end
