(* ===== verification/Doers.thy ===== *)
theory Doers
  imports Effects "HOL-Library.Sublist"
begin

text \<open>
  The tasks an agent runs beside its endpoints (\<open>app/agenting.py\<close>): each takes messages off a
  queue (a \<open>Deck\<close>) that the endpoints fill, one turn (\<open>recur\<close>) at a time; \<open>Witnesser.recur\<close> is a generator, whose turn
  resumes it up to the next \<open>yield\<close>. The queues are
  modelled as lists, with the appending end on the right; what a task does with a message, the
  key event, exchange and witness machinery, is an argument (\<open>doer_env\<close>). A message has the parts that its task reads:
  those of \<open>witners\<close> and \<open>groups\<close> are their \<open>serder\<close>, no task reads the prefix, signatures and members put beside it.
\<close>

subsection \<open>Messages and queues\<close>

record serder =
  se_pre :: string
  se_sn :: int
  se_said :: string
  se_ked :: json

record exmsg =
  xm_said :: string
  xm_pre :: string
  xm_topic :: json

record cue =
  cu_kin :: string
  cu_said :: string
  cu_q :: json

text \<open>
  Where the generator \<open>Witnesser.recur\<close> stands between two turns: before the test of its queue, inside the
  \<open>catchup\<close> of the first of the witnesses that are left, inside \<open>receipt\<close>, or ended by an exception.
\<close>

datatype wit_phase =
    WitIdle
  | WitCatchup serder "json list"
  | WitReceipt serder
  | WitEnded

record 'w decks =
  dk_witners :: "serder list"
  dk_witphase :: wit_phase
  dk_anchors :: "json list"
  dk_exchanges :: "exmsg list"
  dk_grants :: "exmsg list"
  dk_admits :: "exmsg list"
  dk_groups :: "serder list"
  dk_queries :: "json list"
  dk_submits :: "json list"
  dk_doers :: nat
  dk_witcues :: "string list"
  dk_saved :: "cue list"
  dk_cues :: "cue list"
  dk_world :: 'w

text \<open>A message cloned from the database: its event and the attachments of its embedded parts.\<close>

record cloned =
  cl_serder :: serder
  cl_pathed :: "(string \<times> string) list"

text \<open>A credential: its message, issuer, attributes and registry.\<close>

record acdc =
  ac_serder :: serder
  ac_issuer :: json
  ac_attrib :: json
  ac_regi :: "string option"

text \<open>
  \<open>Receiptor.catchup\<close> and \<open>Receiptor.receipt\<close> are generators: \<open>de_catchup\<close> and \<open>de_receipt\<close> run one of them, which
  the world holds, up to its next \<open>yield\<close> (\<open>False\<close>) or to its return (\<open>True\<close>).
\<close>

record 'w doer_env =
  de_catchup :: "string \<Rightarrow> json \<Rightarrow> ('w, bool) act"
  de_receipt :: "string \<Rightarrow> int \<Rightarrow> ('w, bool) act"
  de_delegation :: "json \<Rightarrow> json \<Rightarrow> ('w, unit) act"
  de_complete :: "string \<Rightarrow> ('w, bool) act"
  de_clone :: "string \<Rightarrow> ('w, cloned option) act"
  de_habs :: "'w \<Rightarrow> string \<Rightarrow> bool"
  de_lead :: "string \<Rightarrow> string \<Rightarrow> ('w, bool) act"
  de_serialize :: "'w \<Rightarrow> string \<Rightarrow> string"
  de_send :: "json \<Rightarrow> json \<Rightarrow> serder \<times> string \<Rightarrow> ('w, unit) act"
  de_deliver :: "json \<Rightarrow> json \<Rightarrow> ('w, unit) act"
  de_agentKEL :: "'w \<Rightarrow> (serder \<times> string) list"
  de_creds :: "'w \<Rightarrow> json \<Rightarrow> acdc option"
  de_kevers :: "'w \<Rightarrow> json \<Rightarrow> bool"
  de_cloneDelegation :: "'w \<Rightarrow> json \<Rightarrow> (serder \<times> string) list"
  de_clonePreIter :: "'w \<Rightarrow> json \<Rightarrow> (serder \<times> string) list"
  de_cloneTel :: "'w \<Rightarrow> string \<Rightarrow> (serder \<times> string) list"
  de_sources :: "acdc \<Rightarrow> ('w, (acdc \<times> string) list) act"
  de_query :: "json \<Rightarrow> ('w, unit) act"
  de_telquery :: "json \<Rightarrow> json \<Rightarrow> json \<Rightarrow> ('w, unit) act"
  de_parseOne :: "json \<Rightarrow> string \<Rightarrow> ('w, unit) act"
  de_index :: "string \<Rightarrow> ('w, unit) act"
  de_counselor :: "string \<Rightarrow> int \<Rightarrow> string \<Rightarrow> ('w, unit) act"
  de_seqNoQuerier :: "json \<Rightarrow> int \<Rightarrow> ('w, unit) act"
  de_anchorQuerier :: "json \<Rightarrow> json \<Rightarrow> ('w, unit) act"
  de_queryDoer :: "json \<Rightarrow> ('w, unit) act"
  de_habByName :: "'w \<Rightarrow> json \<Rightarrow> (string \<times> int \<times> string list) option"
  de_witSubmit :: "string \<Rightarrow> int \<Rightarrow> ('w, unit) act"

definition dext :: "('w, 'a) act \<Rightarrow> ('w decks, 'a) act" where
  "dext m = zoomA dk_world (\<lambda>w s. s\<lparr>dk_world := w\<rparr>) m"

lemma dext_run: "dext m s = (fst (m (dk_world s)), s\<lparr>dk_world := snd (m (dk_world s))\<rparr>)"
  by (simp add: dext_def zoomA_def split_beta)

subsection \<open>Witnesses, delegators, groups and queries\<close>

text \<open>
  \<open>Witnesser.recur\<close> is a generator that never returns: its loop yields at every point where \<open>catchup\<close> or \<open>receipt\<close>
  does, and once after each round. A turn resumes it where it stands and runs it to the next \<open>yield\<close>, so one event
  takes as many turns as its witnesses need; the next one is taken off the queue when the receipts of the last are in.
\<close>

definition receipts :: "'w doer_env \<Rightarrow> serder \<Rightarrow> ('w decks, unit) act" where
  "receipts env serder =
     bindA (dext (de_receipt env (se_pre serder) (se_sn serder))) (\<lambda>finished.
     modA (\<lambda>s. s\<lparr>dk_witphase := (if finished then WitIdle else WitReceipt serder)\<rparr>))"

fun catchups :: "'w doer_env \<Rightarrow> serder \<Rightarrow> json list \<Rightarrow> ('w decks, unit) act" where
  "catchups env serder [] = receipts env serder"
| "catchups env serder (wit # adds) =
     bindA (dext (de_catchup env (se_pre serder) wit)) (\<lambda>finished.
     if finished then catchups env serder adds
     else modA (\<lambda>s. s\<lparr>dk_witphase := WitCatchup serder (wit # adds)\<rparr>))"

definition take_event :: "'w doer_env \<Rightarrow> ('w decks, unit) act" where
  "take_event env =
     bindA (getA dk_witners) (\<lambda>q.
     case q of
       [] \<Rightarrow> retA ()
     | serder # rest \<Rightarrow>
         seqA (modA (\<lambda>s. s\<lparr>dk_witners := rest\<rparr>))
         (bindA (liftA (jitem (se_ked serder) ''t'')) (\<lambda>t.
          if t \<in> {JStr ''rot'', JStr ''drt''} then
            bindA (liftA (jitem (se_ked serder) ''ba'')) (\<lambda>ba.
            bindA (liftA (jiter ba)) (\<lambda>adds. catchups env serder adds))
          else receipts env serder)))"

definition Witnesser_recur :: "'w doer_env \<Rightarrow> ('w decks, unit) act" where
  "Witnesser_recur env =
     bindA (getA dk_witphase) (\<lambda>phase.
     catchA
       (case phase of
          WitIdle \<Rightarrow> take_event env
        | WitCatchup serder adds \<Rightarrow> catchups env serder adds
        | WitReceipt serder \<Rightarrow> receipts env serder
        | WitEnded \<Rightarrow> retA ())
       (\<lambda>e. Some (seqA (modA (\<lambda>s. s\<lparr>dk_witphase := WitEnded\<rparr>)) (raiseA e))))"

definition Delegator_recur :: "'w doer_env \<Rightarrow> ('w decks, bool) act" where
  "Delegator_recur env =
     bindA (getA dk_anchors) (\<lambda>q.
     case q of
       [] \<Rightarrow> retA False
     | msg # rest \<Rightarrow>
         seqA (modA (\<lambda>s. s\<lparr>dk_anchors := rest\<rparr>))
         (bindA (liftA (jget msg ''sn'')) (\<lambda>sn.
          bindA (liftA (jitem msg ''pre'')) (\<lambda>pre.
          seqA (dext (de_delegation env pre sn)) (retA False)))))"

definition GroupRequester_recur :: "'w doer_env \<Rightarrow> ('w decks, bool) act" where
  "GroupRequester_recur env =
     bindA (getA dk_groups) (\<lambda>q.
     case q of
       [] \<Rightarrow> retA False
     | serder # rest \<Rightarrow>
         seqA (modA (\<lambda>s. s\<lparr>dk_groups := rest\<rparr>))
         (bindA (getA (\<lambda>s. de_habs env (dk_world s) (se_pre serder))) (\<lambda>ghab.
          seqA (guardA ghab (KeyError (se_pre serder)))
          (seqA (dext (de_counselor env (se_pre serder) (se_sn serder) (se_said serder))) (retA False)))))"

definition Querier_recur :: "'w doer_env \<Rightarrow> ('w decks, bool) act \<Rightarrow> ('w decks, bool) act" where
  "Querier_recur env super_recur =
     bindA (getA dk_queries) (\<lambda>q.
     case q of
       [] \<Rightarrow> super_recur
     | msg # rest \<Rightarrow>
         seqA (modA (\<lambda>s. s\<lparr>dk_queries := rest\<rparr>))
         (bindA (liftA (jin ''pre'' msg)) (\<lambda>known.
          if \<not> known then retA False
          else
            bindA (liftA (jitem msg ''pre'')) (\<lambda>pre.
            bindA (liftA (jin ''sn'' msg)) (\<lambda>sn.
            bindA (liftA (jin ''anchor'' msg)) (\<lambda>anchor.
            seqA (if sn then
                    bindA (liftA (jitem msg ''sn'')) (\<lambda>s.
                    bindA (liftA (jhex s)) (\<lambda>n. dext (de_seqNoQuerier env pre n)))
                  else if anchor then
                    bindA (liftA (jitem msg ''anchor'')) (\<lambda>a. dext (de_anchorQuerier env pre a))
                  else dext (de_queryDoer env pre))
              super_recur))))))"

text \<open>
  The only task a \<open>Submitter\<close> runs is the agent's one \<open>witRec\<close>, as often as it was added:
  \<open>dk_doers\<close> counts the entries of \<open>self.doers\<close>, \<open>dk_witcues\<close> holds the cues of \<open>witRec\<close>. The
  loop takes one cue for each entry it visits; with the last cue it removes an entry of the list
  it is iterating over. \<open>hasattr(msg, "code")\<close> is false for every \<open>dict\<close>: a code in the message
  is not looked at.
\<close>

fun witness_cues :: "nat \<Rightarrow> nat \<Rightarrow> string list \<Rightarrow> nat \<times> string list" where
  "witness_cues i n [] = (n, [])"
| "witness_cues i n (c # cs) =
     (if i < n then witness_cues (Suc i) (if cs = [] then n - 1 else n) cs else (n, c # cs))"

definition Submitter_recur :: "'w doer_env \<Rightarrow> ('w decks, bool) act \<Rightarrow> ('w decks, bool) act" where
  "Submitter_recur env super_recur =
     bindA (getA dk_submits) (\<lambda>q.
     case q of
       [] \<Rightarrow>
         seqA (modA (\<lambda>s. case witness_cues 0 (dk_doers s) (dk_witcues s) of
                            (n, cs) \<Rightarrow> s\<lparr>dk_doers := n, dk_witcues := cs\<rparr>))
           super_recur
     | msg # rest \<Rightarrow>
         seqA (modA (\<lambda>s. s\<lparr>dk_submits := rest\<rparr>))
         (bindA (liftA (jitem msg ''alias'')) (\<lambda>alias.
          bindA (getA (\<lambda>s. de_habByName env (dk_world s) alias)) (\<lambda>hab.
          case hab of
            None \<Rightarrow> raiseA AttributeError
          | Some (pre, sn, wits) \<Rightarrow>
              seqA (whenA (wits \<noteq> [])
                      (seqA (modA (\<lambda>s. s\<lparr>dk_doers := Suc (dk_doers s)\<rparr>)) (dext (de_witSubmit env pre sn))))
                super_recur))))"

subsection \<open>Peer-to-peer messages\<close>

text \<open>
  A message whose exchange is not complete goes back to the end of the queue. Every path of
  \<open>ExchangeSender.recur\<close> that does not raise ends with the turn of the deliveries it started.
\<close>

definition send_exchange :: "'w doer_env \<Rightarrow> exmsg \<Rightarrow> ('w, unit) act" where
  "send_exchange env msg =
     bindA (de_clone env (xm_said msg)) (\<lambda>c.
     bindA (getA (\<lambda>w. de_habs env w (xm_pre msg))) (\<lambda>hab.
     seqA (guardA hab (KeyError (xm_pre msg)))
     (case c of
        None \<Rightarrow> retA ()
      | Some c \<Rightarrow>
          bindA (liftA (jitem (se_ked (cl_serder c)) ''rp'')) (\<lambda>rp.
          bindA (if jtrue rp then retA rp
                 else bindA (liftA (jitem (se_ked (cl_serder c)) ''a'')) (\<lambda>a. liftA (jitem a ''i''))) (\<lambda>recp.
          whenA (jtrue recp)
            (bindA (de_lead env (xm_pre msg) (xm_said msg)) (\<lambda>lead.
             whenA lead
               (bindA (getA (\<lambda>w. de_serialize env w (xm_said msg))) (\<lambda>atc.
                bindA (catchA (seqA (de_send env recp (xm_topic msg) (cl_serder c, atc)) (retA True))
                         (\<lambda>e. if isValidationError e then Some (retA False) else None)) (\<lambda>sent.
                whenA sent (de_deliver env recp (xm_topic msg))))))))))))"

definition ExchangeSender_recur :: "'w doer_env \<Rightarrow> ('w decks, bool) act \<Rightarrow> ('w decks, bool) act" where
  "ExchangeSender_recur env super_recur =
     bindA (getA dk_exchanges) (\<lambda>q.
     case q of
       [] \<Rightarrow> super_recur
     | msg # rest \<Rightarrow>
         seqA (modA (\<lambda>s. s\<lparr>dk_exchanges := rest\<rparr>))
         (bindA (dext (de_complete env (xm_said msg))) (\<lambda>complete.
          if \<not> complete then
            seqA (modA (\<lambda>s. s\<lparr>dk_exchanges := dk_exchanges s @ [msg]\<rparr>)) super_recur
          else seqA (dext (send_exchange env msg)) super_recur)))"

text \<open>The key event log of an identifier after those of its delegators (\<open>app/ipexing.py\<close>).\<close>

definition gatherKEL :: "'w doer_env \<Rightarrow> json \<Rightarrow> ('w, (serder \<times> string) list) act" where
  "gatherKEL env pre =
     bindA (getA (\<lambda>w. de_kevers env w pre)) (\<lambda>known.
     seqA (guardA known (KeyError []))
     (getA (\<lambda>w. de_cloneDelegation env w pre @ de_clonePreIter env w pre)))"

definition gatherArtifacts :: "'w doer_env \<Rightarrow> acdc \<Rightarrow> json \<Rightarrow> ('w, (serder \<times> string) list) act" where
  "gatherArtifacts env creder recp =
     bindA (liftA (jin ''i'' (ac_attrib creder))) (\<lambda>has.
     bindA (if has then liftA (jitem (ac_attrib creder) ''i'') else retA JNull) (\<lambda>isse.
     bindA (gatherKEL env (ac_issuer creder)) (\<lambda>issuer.
     bindA (if isse \<noteq> recp then gatherKEL env isse else retA []) (\<lambda>issuee.
     bindA (getA (\<lambda>w. case ac_regi creder of None \<Rightarrow> [] | Some regk \<Rightarrow> de_cloneTel env w regk)) (\<lambda>registry.
     bindA (getA (\<lambda>w. de_cloneTel env w (se_said (ac_serder creder)))) (\<lambda>issued.
     retA (issuer @ issuee @ registry @ issued)))))))"

definition getChainedArtifacts ::
  "'w doer_env \<Rightarrow> json \<Rightarrow> acdc \<Rightarrow> ('w, (serder \<times> string) list) act" where
  "getChainedArtifacts env recp creder =
     bindA (de_sources env creder) (\<lambda>sources.
     bindA (mapA (\<lambda>(source, atc).
                    bindA (gatherArtifacts env source recp) (\<lambda>arts. retA (arts @ [(ac_serder source, atc)])))
              sources)
       (\<lambda>chains. retA (concat chains)))"

definition getCredArtifacts ::
  "'w doer_env \<Rightarrow> json \<Rightarrow> json \<Rightarrow> ('w, (serder \<times> string) list) act" where
  "getCredArtifacts env recp credSaid =
     bindA (getA (\<lambda>w. de_creds env w credSaid)) (\<lambda>creder.
     case creder of
       None \<Rightarrow> raiseA AttributeError
     | Some creder \<Rightarrow>
         bindA (gatherArtifacts env creder recp) (\<lambda>cred.
         bindA (getChainedArtifacts env recp creder) (\<lambda>chain. retA (cred @ chain))))"

fun is_key_error :: "exn \<Rightarrow> bool" where
  "is_key_error (KeyError _) = True"
| "is_key_error _ = False"

definition send_artifacts :: "'w doer_env \<Rightarrow> json \<Rightarrow> json \<Rightarrow> ('w, unit) act" where
  "send_artifacts env recp ked =
     bindA (getA (de_agentKEL env)) (\<lambda>agent_evts.
     bindA (liftA (jitem ked ''e'')) (\<lambda>e.
     bindA (liftA (jitem e ''acdc'')) (\<lambda>acdc.
     bindA (liftA (jitem acdc ''d'')) (\<lambda>credSaid.
     bindA (getCredArtifacts env recp credSaid) (\<lambda>cred_artifacts.
     forA (agent_evts @ cred_artifacts) (de_send env recp (JStr ''credential'')))))))"

text \<open>\<open>ked.get("rp") or ked.get("a", {}).get("i")\<close>.\<close>

definition recipient :: "json \<Rightarrow> exn + json" where
  "recipient ked =
     (case jget ked ''rp'' of
        Inl e \<Rightarrow> Inl e
      | Inr rp \<Rightarrow>
          if jtrue rp then Inr rp
          else (case jgetd ked ''a'' (JObj []) of Inl e \<Rightarrow> Inl e | Inr a \<Rightarrow> jget a ''i''))"

definition post_complete :: "'w doer_env \<Rightarrow> exmsg \<Rightarrow> ('w decks, bool) act" where
  "post_complete env msg =
     bindA (dext (de_clone env (xm_said msg))) (\<lambda>c.
     case c of
       None \<Rightarrow> retA False
     | Some c \<Rightarrow>
         bindA (retA (se_ked (cl_serder c))) (\<lambda>ked.
         bindA (liftA (recipient ked)) (\<lambda>recp.
         bindA (getA (\<lambda>s. de_habs env (dk_world s) (xm_pre msg))) (\<lambda>hab.
         seqA (guardA hab (KeyError (xm_pre msg)))
         (bindA (dext (de_lead env (xm_pre msg) (xm_said msg))) (\<lambda>lead.
          seqA (whenA lead
            (bindA (catchA
               (seqA (dext (send_artifacts env recp ked)) (retA True))
               (\<lambda>e. if isValidationError e \<or> is_key_error e then Some (retA False) else None)) (\<lambda>ok.
             whenA ok (dext (de_deliver env recp (JStr ''credential''))))))
            (retA True)))))))"

definition postGrant :: "'w doer_env \<Rightarrow> exmsg \<Rightarrow> ('w decks, bool) act" where
  "postGrant env msg =
     bindA (dext (de_complete env (xm_said msg))) (\<lambda>complete.
     if \<not> complete then
       seqA (modA (\<lambda>s. s\<lparr>dk_grants := dk_grants s @ [msg]\<rparr>)) (retA False)
     else post_complete env msg)"

text \<open>
  \<open>Granter.recur\<close> takes every message off the queue at once and starts a task for each; a task
  posts its grant in its first turn and ends.
\<close>

definition Granter_recur :: "('w decks, exmsg list) act" where
  "Granter_recur = bindA (getA dk_grants) (\<lambda>q. seqA (modA (\<lambda>s. s\<lparr>dk_grants := []\<rparr>)) (retA q))"

definition GrantDoer_recur :: "'w doer_env \<Rightarrow> exmsg \<Rightarrow> ('w decks, bool) act" where
  "GrantDoer_recur env msg = bindA (postGrant env msg) (\<lambda>_. retA True)"

definition admit_parts :: "'w doer_env \<Rightarrow> json \<Rightarrow> (string \<times> string) list \<Rightarrow> ('w, unit) act" where
  "admit_parts env embeds pathed =
     forA [''anc'', ''iss'', ''acdc''] (\<lambda>label.
       bindA (liftA (jitem embeds label)) (\<lambda>ked.
       case dict_get pathed label of
         None \<Rightarrow> retA ()
       | Some atc \<Rightarrow> whenA (atc \<noteq> []) (de_parseOne env ked atc)))"

text \<open>What an admit does once its exchange is complete: it fetches the grant it answers.\<close>

definition admit :: "'w doer_env \<Rightarrow> exmsg \<Rightarrow> ('w, unit) act" where
  "admit env msg =
     bindA (de_clone env (xm_said msg)) (\<lambda>adm.
     case adm of
       None \<Rightarrow> raiseA AttributeError
     | Some adm \<Rightarrow>
         bindA (liftA (jget (se_ked (cl_serder adm)) ''p'')) (\<lambda>p.
         if \<not> jtrue p then retA ()
         else
           bindA (liftA (jstr p)) (\<lambda>psaid.
           bindA (de_clone env psaid) (\<lambda>grant.
           case grant of
             None \<Rightarrow> raiseA AttributeError
           | Some grant \<Rightarrow>
               bindA (liftA (jitem (se_ked (cl_serder grant)) ''e'')) (\<lambda>embeds.
               bindA (liftA (jitem embeds ''acdc'')) (\<lambda>acdc.
               bindA (liftA (jitem acdc ''i'')) (\<lambda>issr.
               seqA (de_query env issr)
               (bindA (liftA (jin ''ri'' acdc)) (\<lambda>ri.
                seqA (whenA ri
                  (bindA (liftA (jitem acdc ''ri'')) (\<lambda>regk.
                   bindA (liftA (jitem acdc ''d'')) (\<lambda>said. de_telquery env issr regk said))))
                  (admit_parts env embeds (cl_pathed grant)))))))))))"

definition Admitter_recur :: "'w doer_env \<Rightarrow> ('w decks, unit) act" where
  "Admitter_recur env =
     bindA (getA dk_admits) (\<lambda>q.
     case q of
       [] \<Rightarrow> retA ()
     | msg # rest \<Rightarrow>
         seqA (modA (\<lambda>s. s\<lparr>dk_admits := rest\<rparr>))
         (bindA (dext (de_complete env (xm_said msg))) (\<lambda>complete.
          if \<not> complete then modA (\<lambda>s. s\<lparr>dk_admits := dk_admits s @ [msg]\<rparr>)
          else dext (admit env msg))))"

subsection \<open>Indexing\<close>

definition SeekerDoer_recur :: "'w doer_env \<Rightarrow> ('w decks, unit) act" where
  "SeekerDoer_recur env =
     bindA (getA dk_saved) (\<lambda>q.
     case q of
       [] \<Rightarrow> retA ()
     | cue # rest \<Rightarrow>
         seqA (modA (\<lambda>s. s\<lparr>dk_saved := rest\<rparr>))
         (if cu_kin cue = ''saved'' then
            catchA (dext (de_index env (cu_said cue)))
              (\<lambda>e. if isException e then Some (modA (\<lambda>s. s\<lparr>dk_saved := dk_saved s @ [cue]\<rparr>)) else None)
          else modA (\<lambda>s. s\<lparr>dk_saved := dk_saved s @ [cue]\<rparr>)))"

definition ExchangeCueDoer_recur :: "'w doer_env \<Rightarrow> ('w decks, unit) act" where
  "ExchangeCueDoer_recur env =
     bindA (getA dk_cues) (\<lambda>q.
     case q of
       [] \<Rightarrow> retA ()
     | cue # rest \<Rightarrow>
         seqA (modA (\<lambda>s. s\<lparr>dk_cues := rest\<rparr>))
         (if cu_kin cue = ''saved'' then
            catchA (dext (de_index env (cu_said cue)))
              (\<lambda>e. if isException e then Some (modA (\<lambda>s. s\<lparr>dk_cues := dk_cues s @ [cue]\<rparr>)) else None)
          else if cu_kin cue = ''query'' then modA (\<lambda>s. s\<lparr>dk_queries := dk_queries s @ [cu_q cue]\<rparr>)
          else modA (\<lambda>s. s\<lparr>dk_cues := dk_cues s @ [cue]\<rparr>)))"

subsection \<open>Escrows\<close>

text \<open>The escrow processors in their order; the fourth to last is left out when there is no \<open>tvy\<close>.\<close>

definition Escrower_recur :: "(string \<Rightarrow> ('w, unit) act) \<Rightarrow> bool \<Rightarrow> ('w, bool) act" where
  "Escrower_recur process tvy =
     seqA (forA ([''kvy'', ''kvyDelegables'', ''rgy'', ''rvyReply''] @ (if tvy then [''tvy''] else []) @
                 [''exc'', ''vry'', ''registrar'', ''credentialer'']) process)
       (retA False)"

subsection \<open>A queue worked off one message at a turn\<close>

text \<open>
  What several of the tasks promise of their queue: a turn takes the message at the head and
  either is done with it or puts it back at the end. The client lemmas: as many turns as there
  are messages give each message exactly one attempt, in order, and keep exactly the ones that
  were not done, in their order.
\<close>

fun round :: "('w \<Rightarrow> 'm \<Rightarrow> bool \<times> 'w) \<Rightarrow> 'm list \<Rightarrow> 'w \<Rightarrow> 'm list \<times> 'w" where
  "round handle [] w = ([], w)"
| "round handle (m # ms) w =
     (let (done', w1) = handle w m; (left, w2) = round handle ms w1
      in (if done' then left else m # left, w2))"

lemma subseq_round: "subseq (fst (round handle ms w)) ms"
  by (induction ms arbitrary: w) (auto simp: split_beta Let_def)

lemma round_all: "(\<And>w m. m \<in> set ms \<Longrightarrow> fst (handle w m)) \<Longrightarrow> fst (round handle ms w) = []"
  by (induction ms arbitrary: w) (auto simp: split_beta Let_def)

lemma round_stable:
  "(\<And>w m. m \<in> set ms \<Longrightarrow> fst (handle w m) = T m) \<Longrightarrow> fst (round handle ms w) = filter (\<lambda>m. \<not> T m) ms"
  by (induction ms arbitrary: w) (auto simp: split_beta Let_def)

locale deck_consumer =
  fixes step :: "'s \<Rightarrow> 's" and deck :: "'s \<Rightarrow> 'm list" and world :: "'s \<Rightarrow> 'w"
    and handle :: "'w \<Rightarrow> 'm \<Rightarrow> bool \<times> 'w"
  assumes idle: "deck s = [] \<Longrightarrow> deck (step s) = []"
    and turn: "deck s = m # ms \<Longrightarrow>
      deck (step s) = ms @ (if fst (handle (world s) m) then [] else [m]) \<and>
      world (step s) = snd (handle (world s) m)"
begin

lemma turns:
  assumes "deck s = ms @ rest"
  shows "deck ((step ^^ length ms) s) = rest @ fst (round handle ms (world s)) \<and>
         world ((step ^^ length ms) s) = snd (round handle ms (world s))"
  using assms
proof (induction ms arbitrary: s rest)
  case (Cons m ms)
  from Cons.prems have deck: "deck s = m # (ms @ rest)" by simp
  let ?again = "if fst (handle (world s) m) then [] else [m]"
  have "deck (step s) = ms @ (rest @ ?again)" and w: "world (step s) = snd (handle (world s) m)"
    using turn [OF deck] by simp_all
  from Cons.IH [OF this(1)] w show ?case by (simp add: funpow_swap1 split_beta Let_def)
qed simp

lemma one_round:
  "deck ((step ^^ length (deck s)) s) = fst (round handle (deck s) (world s))"
  "world ((step ^^ length (deck s)) s) = snd (round handle (deck s) (world s))"
  using turns [of s "deck s" "[]"] by simp_all

lemma never_grows: "length (deck (step s)) \<le> length (deck s)"
  by (cases "deck s") (simp_all add: idle turn)

lemma nothing_invented: "set (deck ((step ^^ n) s)) \<subseteq> set (deck s)"
proof (induction n)
  case (Suc n)
  have "set (deck (step t)) \<subseteq> set (deck t)" for t
    by (cases "deck t") (auto simp: idle turn split: if_splits)
  with Suc show ?case by fastforce
qed simp

text \<open>A message that is never done, as long as a property of the world holds that every attempt keeps.\<close>

lemma keeps_unfinished:
  assumes "P (world s)" and "\<And>w x. P w \<Longrightarrow> P (snd (handle w x))" and "\<And>w. P w \<Longrightarrow> \<not> fst (handle w m)"
  shows "count_list (deck ((step ^^ n) s)) m = count_list (deck s) m"
proof -
  have one: "count_list (deck (step t)) m = count_list (deck t) m \<and> (deck (step t) = [] \<or> P (world (step t)))"
    if "deck t = [] \<or> P (world t)" for t
  proof (cases "deck t")
    case (Cons x xs)
    with turn [OF Cons] that assms(2,3) show ?thesis by auto
  qed (simp add: idle)
  have "count_list (deck ((step ^^ n) s)) m = count_list (deck s) m \<and>
      (deck ((step ^^ n) s) = [] \<or> P (world ((step ^^ n) s)))"
    by (induction n) (use assms(1) one in auto)
  then show ?thesis by simp
qed

end

text \<open>What a turn of each task does with the message at the head: whether it is done, and its effect.\<close>

definition index_one :: "'w doer_env \<Rightarrow> 'w \<Rightarrow> cue \<Rightarrow> bool \<times> 'w" where
  "index_one env w cue =
     (if cu_kin cue = ''saved''
      then (case de_index env (cu_said cue) w of (r, w') \<Rightarrow> (r \<in> {Inr (), Inl KeyboardInterrupt}, w'))
      else (False, w))"

definition cue_one :: "'w doer_env \<Rightarrow> 'w \<times> json list \<Rightarrow> cue \<Rightarrow> bool \<times> 'w \<times> json list" where
  "cue_one env s cue =
     (if cu_kin cue = ''query'' then (True, fst s, snd s @ [cu_q cue])
      else (case index_one env (fst s) cue of (d, w') \<Rightarrow> (d, w', snd s)))"

definition admit_one :: "'w doer_env \<Rightarrow> 'w \<Rightarrow> exmsg \<Rightarrow> bool \<times> 'w" where
  "admit_one env w msg =
     (case de_complete env (xm_said msg) w of (r, w') \<Rightarrow>
        (r \<noteq> Inr False, if r = Inr True then snd (admit env msg w') else w'))"

definition exchange_one :: "'w doer_env \<Rightarrow> ('w, bool) act \<Rightarrow> 'w \<Rightarrow> exmsg \<Rightarrow> bool \<times> 'w" where
  "exchange_one env deliveries w msg =
     (case de_complete env (xm_said msg) w of (r, w') \<Rightarrow>
        (r \<noteq> Inr False,
         case r of Inl _ \<Rightarrow> w' | Inr c \<Rightarrow> snd (seqA (whenA c (send_exchange env msg)) deliveries w')))"

lemma dext_fields [simp]:
  "fst (dext m s) = fst (m (dk_world s))" "dk_world (snd (dext m s)) = snd (m (dk_world s))"
  "dk_saved (snd (dext m s)) = dk_saved s" "dk_cues (snd (dext m s)) = dk_cues s"
  "dk_queries (snd (dext m s)) = dk_queries s" "dk_admits (snd (dext m s)) = dk_admits s"
  "dk_exchanges (snd (dext m s)) = dk_exchanges s"
  by (simp_all add: dext_run)

interpretation seeker: deck_consumer "\<lambda>s. snd (SeekerDoer_recur env s)" dk_saved dk_world "index_one env"
  by unfold_locales
    (auto simp: SeekerDoer_recur_def index_one_def catchA_def bindA_def dext_run isException_def
      split: prod.splits sum.splits if_splits)

interpretation cues: deck_consumer "\<lambda>s. snd (ExchangeCueDoer_recur env s)" dk_cues
  "\<lambda>s. (dk_world s, dk_queries s)" "cue_one env"
  by unfold_locales
    (auto simp: ExchangeCueDoer_recur_def cue_one_def index_one_def catchA_def bindA_def dext_run isException_def
      split: prod.splits sum.splits if_splits)

interpretation admitter: deck_consumer "\<lambda>s. snd (Admitter_recur env s)" dk_admits dk_world "admit_one env"
  by unfold_locales
    (auto simp: Admitter_recur_def admit_one_def bindA_def dext_run split: prod.splits sum.splits if_splits)

text \<open>The turn of the deliveries an \<open>ExchangeSender\<close> runs acts on the world.\<close>

interpretation sender: deck_consumer "\<lambda>s. snd (ExchangeSender_recur env (dext deliveries) s)"
  dk_exchanges dk_world "exchange_one env deliveries"
  by unfold_locales
    (auto simp: ExchangeSender_recur_def exchange_one_def bindA_def dext_run split: prod.splits sum.splits if_splits)

subsection \<open>No cue and no message is lost\<close>

lemma round_split:
  assumes "\<And>w m. handle w m = (T m, if T m then f m w else w)"
  shows "round handle ms w = (filter (\<lambda>m. \<not> T m) ms, fold f (filter T ms) w)"
  by (induction ms arbitrary: w) (auto simp: assms)

definition unknown_cue :: "cue \<Rightarrow> bool" where
  "unknown_cue c \<longleftrightarrow> cu_kin c \<notin> {''saved'', ''query''}"

lemma round_cues:
  "snd (snd (round (cue_one env) cs s)) = snd s @ map cu_q (filter (\<lambda>c. cu_kin c = ''query'') cs) \<and>
   filter unknown_cue (fst (round (cue_one env) cs s)) = filter unknown_cue cs \<and>
   (\<forall>c \<in> set (fst (round (cue_one env) cs s)). cu_kin c \<noteq> ''query'')"
  by (induction cs arbitrary: s) (auto simp: cue_one_def index_one_def unknown_cue_def split_beta Let_def)

lemma round_cues_indexed:
  assumes "\<And>said w. fst (de_index env said w) = Inr ()"
  shows "fst (round (cue_one env) cs s) = filter unknown_cue cs"
proof -
  have "fst (cue_one env s c) = (\<not> unknown_cue c)" for s c
    using assms by (auto simp: cue_one_def index_one_def unknown_cue_def split_beta)
  from round_stable [where handle = "cue_one env" and ms = cs, OF this] show ?thesis by simp
qed

text \<open>
  As many turns of the exchange cue task as there are cues give every cue one attempt. The
  queries are handed on to the querier, all of them and in order. The cues that stay are a
  subsequence of the old ones: no cue of an unknown kind is ever dropped (nor handled), and a
  saved message stays exactly as long as its indexing fails; if indexing works, none is left.
\<close>

theorem cues_one_round:
  fixes env :: "'w doer_env"
  defines "turn \<equiv> (\<lambda>s. snd (ExchangeCueDoer_recur env s))"
  defines "after \<equiv> (\<lambda>s. (turn ^^ length (dk_cues s)) s)"
  shows "dk_queries (after s) = dk_queries s @ map cu_q (filter (\<lambda>c. cu_kin c = ''query'') (dk_cues s)) \<and>
         subseq (dk_cues (after s)) (dk_cues s) \<and>
         filter unknown_cue (dk_cues (after s)) = filter unknown_cue (dk_cues s) \<and>
         (\<forall>c \<in> set (dk_cues (after s)). cu_kin c \<noteq> ''query'') \<and>
         ((\<forall>said w. fst (de_index env said w) = Inr ()) \<longrightarrow>
            dk_cues (after s) = filter unknown_cue (dk_cues s))"
proof -
  have deck: "dk_cues (after s) = fst (round (cue_one env) (dk_cues s) (dk_world s, dk_queries s))"
    and world: "(dk_world (after s), dk_queries (after s)) = snd (round (cue_one env) (dk_cues s) (dk_world s, dk_queries s))"
    unfolding after_def turn_def by (rule cues.one_round)+
  from world have "dk_queries (after s) = snd (snd (round (cue_one env) (dk_cues s) (dk_world s, dk_queries s)))"
    by (metis snd_conv)
  with deck round_cues [of env "dk_cues s" "(dk_world s, dk_queries s)"] show ?thesis
    by (simp add: subseq_round round_cues_indexed)
qed

definition complete_is :: "'w doer_env \<Rightarrow> (string \<Rightarrow> bool) \<Rightarrow> bool" where
  "complete_is env C \<longleftrightarrow> (\<forall>said w. de_complete env said w = (Inr (C said), w))"

text \<open>
  Messages wait for the signatures of their group. As many turns of the task as there are
  admits process exactly the complete ones, each once and in the order of the queue, and leave
  exactly the incomplete ones, in their order; the same holds for what is left of the messages
  to be sent.
\<close>

theorem messages_wait:
  fixes env :: "'w doer_env" and deliveries :: "('w, bool) act"
  assumes "complete_is env C"
  defines "admit_turn \<equiv> (\<lambda>s. snd (Admitter_recur env s))"
    and "send_turn \<equiv> (\<lambda>s. snd (ExchangeSender_recur env (dext deliveries) s))"
  shows "dk_admits ((admit_turn ^^ length (dk_admits s)) s) = filter (\<lambda>m. \<not> C (xm_said m)) (dk_admits s) \<and>
         dk_world ((admit_turn ^^ length (dk_admits s)) s) =
           fold (\<lambda>m w. snd (admit env m w)) (filter (\<lambda>m. C (xm_said m)) (dk_admits s)) (dk_world s) \<and>
         dk_exchanges ((send_turn ^^ length (dk_exchanges s)) s) =
           filter (\<lambda>m. \<not> C (xm_said m)) (dk_exchanges s)"
proof -
  have "admit_one env w m = (C (xm_said m), if C (xm_said m) then snd (admit env m w) else w)" for w m
    using assms(1) by (auto simp: admit_one_def complete_is_def)
  from round_split [of "admit_one env" "\<lambda>m. C (xm_said m)" "\<lambda>m w. snd (admit env m w)", OF this]
  have r: "round (admit_one env) ms w = (filter (\<lambda>m. \<not> C (xm_said m)) ms,
      fold (\<lambda>m w. snd (admit env m w)) (filter (\<lambda>m. C (xm_said m)) ms) w)" for ms w .
  have "fst (exchange_one env deliveries w m) = C (xm_said m)" for w m
    using assms(1) by (auto simp: exchange_one_def complete_is_def)
  then have x: "fst (round (exchange_one env deliveries) ms w) = filter (\<lambda>m. \<not> C (xm_said m)) ms" for ms w
    by (rule round_stable)
  show ?thesis
    unfolding admit_turn_def send_turn_def
    by (simp only: admitter.one_round sender.one_round r x fst_conv snd_conv simp_thms)
qed

subsection \<open>What a grant sends\<close>

text \<open>
  Where the credential a grant message names is found, in a state of the world where its
  sender is known, leads its group and has all signatures.
\<close>

definition grant_found :: "'w doer_env \<Rightarrow> exmsg \<Rightarrow> 'w \<Rightarrow> json \<Rightarrow> acdc \<Rightarrow> bool" where
  "grant_found env msg w recp creder \<longleftrightarrow>
     (\<exists>c e a said.
        de_complete env (xm_said msg) w = (Inr True, w) \<and>
        de_clone env (xm_said msg) w = (Inr (Some c), w) \<and>
        jget (se_ked (cl_serder c)) ''rp'' = Inr recp \<and> jtrue recp \<and>
        de_habs env w (xm_pre msg) \<and>
        de_lead env (xm_pre msg) (xm_said msg) w = (Inr True, w) \<and>
        jitem (se_ked (cl_serder c)) ''e'' = Inr e \<and> jitem e ''acdc'' = Inr a \<and>
        jitem a ''d'' = Inr said \<and> de_creds env w said = Some creder)"

text \<open>The artifacts of one credential for a recipient, as a list.\<close>

definition kel :: "'w doer_env \<Rightarrow> 'w \<Rightarrow> json \<Rightarrow> (serder \<times> string) list" where
  "kel env w pre = de_cloneDelegation env w pre @ de_clonePreIter env w pre"

definition artifacts :: "'w doer_env \<Rightarrow> 'w \<Rightarrow> json \<Rightarrow> acdc \<Rightarrow> json \<Rightarrow> (serder \<times> string) list" where
  "artifacts env w recp creder isse =
     kel env w (ac_issuer creder) @ (if isse \<noteq> recp then kel env w isse else []) @
     (case ac_regi creder of None \<Rightarrow> [] | Some regk \<Rightarrow> de_cloneTel env w regk) @
     de_cloneTel env w (se_said (ac_serder creder))"

definition holder :: "acdc \<Rightarrow> json" where
  "holder creder = (case jitem (ac_attrib creder) ''i'' of Inr i \<Rightarrow> i | Inl _ \<Rightarrow> JNull)"

definition kels_known :: "'w doer_env \<Rightarrow> 'w \<Rightarrow> json \<Rightarrow> acdc \<Rightarrow> bool" where
  "kels_known env w recp creder \<longleftrightarrow>
     (\<exists>d. ac_attrib creder = JObj d) \<and> de_kevers env w (ac_issuer creder) \<and>
     (holder creder = recp \<or> de_kevers env w (holder creder))"

lemma gatherArtifacts_known:
  "kels_known env w recp creder \<Longrightarrow>
   gatherArtifacts env creder recp w = (Inr (artifacts env w recp creder (holder creder)), w)"
  by (auto simp: kels_known_def gatherArtifacts_def gatherKEL_def artifacts_def kel_def holder_def
      split: option.splits)

lemma gatherArtifacts_untargeted:
  assumes "ac_attrib creder = JObj d" and "dict_get d ''i'' = None" and "recp \<noteq> JNull" and "\<not> de_kevers env w JNull"
  shows "gatherArtifacts env creder recp w = (Inl (KeyError []), w)"
  using assms by (cases "de_kevers env w (ac_issuer creder)") (simp_all add: gatherArtifacts_def gatherKEL_def)

lemma mapA_pure: "(\<And>x. x \<in> set xs \<Longrightarrow> f x w = (Inr (g x), w)) \<Longrightarrow> mapA f xs w = (Inr (map g xs), w)"
  by (induction xs) (simp_all add: bindA_Inr)

lemma getChainedArtifacts_known:
  assumes "de_sources env creder w = (Inr sources, w)"
    and "\<And>s. s \<in> set sources \<Longrightarrow> kels_known env w recp (fst s)"
  shows "getChainedArtifacts env recp creder w =
    (Inr (concat (map (\<lambda>(source, atc). artifacts env w recp source (holder source) @ [(ac_serder source, atc)]) sources)), w)"
proof -
  have "mapA (\<lambda>(source, atc). bindA (gatherArtifacts env source recp) (\<lambda>arts. retA (arts @ [(ac_serder source, atc)]))) sources w =
    (Inr (map (\<lambda>(source, atc). artifacts env w recp source (holder source) @ [(ac_serder source, atc)]) sources), w)"
    by (rule mapA_pure) (auto simp: bindA_Inr gatherArtifacts_known dest!: assms(2) split: prod.splits)
  then show ?thesis
    by (simp add: getChainedArtifacts_def bindA_Inr assms(1))
qed

lemma forA_sent:
  assumes "\<And>x v. f x v = (Inr (), snd (f x v)) \<and> log (snd (f x v)) = log v @ [g x]"
  shows "fst (forA xs f v) = Inr () \<and> log (snd (forA xs f v)) = log v @ map g xs"
proof (induction xs arbitrary: v)
  case (Cons x xs)
  have "f x v = (Inr (), snd (f x v))" using assms by blast
  then have "forA (x # xs) f v = forA xs f (snd (f x v))" by (simp add: bindA_Inr)
  then show ?case using Cons.IH [of "snd (f x v)"] assms [of x v] by simp
qed simp

lemma forA_logged:
  assumes "\<And>x v. f x v = (Inr (), snd (f x v)) \<and> log (snd (f x v)) = log v @ [g x]"
  obtains v where "forA xs f w = (Inr (), v)" and "log v = log w @ map g xs"
  using forA_sent [of f log g xs w, OF assms] by (cases "forA xs f w") simp


text \<open>
  A credential without a holder can not be granted: looking up the key state of \<open>None\<close> raises
  \<open>KeyError\<close>, which the task takes for an invalid grant message. Nothing is sent, nothing is
  queued again, and the task ends as if it had succeeded.
\<close>

theorem grant_untargeted:
  assumes "grant_found env msg (dk_world s) recp creder"
    and "ac_attrib creder = JObj d" and "dict_get d ''i'' = None"
    and "\<not> de_kevers env (dk_world s) JNull"
  shows "GrantDoer_recur env msg s = (Inr True, s)"
proof -
  let ?w = "dk_world s"
  obtain c e a said where found: "de_complete env (xm_said msg) ?w = (Inr True, ?w)"
      "de_clone env (xm_said msg) ?w = (Inr (Some c), ?w)" "jget (se_ked (cl_serder c)) ''rp'' = Inr recp"
      "jtrue recp" "de_habs env ?w (xm_pre msg)" "de_lead env (xm_pre msg) (xm_said msg) ?w = (Inr True, ?w)"
      "jitem (se_ked (cl_serder c)) ''e'' = Inr e" "jitem e ''acdc'' = Inr a" "jitem a ''d'' = Inr said"
      "de_creds env ?w said = Some creder"
    using assms(1) by (auto simp: grant_found_def)
  then have "recp \<noteq> JNull" by auto
  from gatherArtifacts_untargeted [OF assms(2,3) this assms(4)]
  have "send_artifacts env recp (se_ked (cl_serder c)) ?w = (Inl (KeyError []), ?w)"
    using found by (simp add: send_artifacts_def getCredArtifacts_def bindA_Inl)
  then have "postGrant env msg s = (Inr True, s)"
    using found by (simp add: postGrant_def post_complete_def recipient_def bindA_def [of "dext m" for m] bindA_def [of "catchA m h" for m h] dext_run catchA_def)
  then show ?thesis by (simp add: GrantDoer_recur_def bindA_Inr)
qed

subsection \<open>Witnesses\<close>

type_synonym mem_log = "(json \<times> json \<times> serder \<times> string) list"

definition mem_serder :: "string \<Rightarrow> serder" where
  "mem_serder said = \<lparr>se_pre = ''EIss'', se_sn = 0, se_said = said, se_ked =
     JObj [(''rp'', JStr ''ERecp''), (''e'', JObj [(''acdc'', JObj [(''d'', JStr ''ECred'')])])]\<rparr>"

definition mem_acdc :: "(string \<times> json) list \<Rightarrow> acdc" where
  "mem_acdc attrib = \<lparr>ac_serder = mem_serder ''ECred'', ac_issuer = JStr ''EIss'', ac_attrib = JObj attrib, ac_regi = Some ''EReg''\<rparr>"

definition idle_tasks :: "'w doer_env" where
  "idle_tasks =
     \<lparr>de_catchup = (\<lambda>_ _. retA True), de_receipt = (\<lambda>_ _. retA True), de_delegation = (\<lambda>_ _. retA ()),
      de_complete = (\<lambda>_. retA False), de_clone = (\<lambda>_. retA None), de_habs = (\<lambda>_ _. False),
      de_lead = (\<lambda>_ _. retA False), de_serialize = (\<lambda>_ _. []), de_send = (\<lambda>_ _ _. retA ()),
      de_deliver = (\<lambda>_ _. retA ()), de_agentKEL = (\<lambda>_. []), de_creds = (\<lambda>_ _. None),
      de_kevers = (\<lambda>_ _. False), de_cloneDelegation = (\<lambda>_ _. []), de_clonePreIter = (\<lambda>_ _. []),
      de_cloneTel = (\<lambda>_ _. []), de_sources = (\<lambda>_. retA []), de_query = (\<lambda>_. retA ()),
      de_telquery = (\<lambda>_ _ _. retA ()), de_parseOne = (\<lambda>_ _. retA ()), de_index = (\<lambda>_. retA ()),
      de_counselor = (\<lambda>_ _ _. retA ()), de_seqNoQuerier = (\<lambda>_ _. retA ()), de_anchorQuerier = (\<lambda>_ _. retA ()),
      de_queryDoer = (\<lambda>_. retA ()), de_habByName = (\<lambda>_ _. None), de_witSubmit = (\<lambda>_ _. retA ())\<rparr>"

definition mem_doer :: "acdc \<Rightarrow> mem_log doer_env" where
  "mem_doer creder = idle_tasks
     \<lparr>de_complete := (\<lambda>said. retA (said = ''E1'')),
      de_clone := (\<lambda>_. retA (Some \<lparr>cl_serder = mem_serder ''E1'', cl_pathed = []\<rparr>)),
      de_habs := (\<lambda>_ _. True), de_lead := (\<lambda>_ _. retA True),
      de_send := (\<lambda>r t x. modA (\<lambda>w. w @ [(r, t, x)])),
      de_agentKEL := (\<lambda>_. [(mem_serder ''EAgent'', [])]), de_creds := (\<lambda>_ _. Some creder),
      de_kevers := (\<lambda>_ pre. pre \<noteq> JNull),
      de_clonePreIter := (\<lambda>_ pre. case pre of JStr p \<Rightarrow> [(mem_serder p, [])] | _ \<Rightarrow> []),
      de_cloneTel := (\<lambda>_ p. [(mem_serder p, [])]),
      de_sources := (\<lambda>_. retA [(mem_acdc [(''i'', JStr ''ERecp'')], ''atc'')])\<rparr>"

definition no_decks :: "'w \<Rightarrow> 'w decks" where
  "no_decks w =
     \<lparr>dk_witners = [], dk_witphase = WitIdle, dk_anchors = [], dk_exchanges = [], dk_grants = [], dk_admits = [], dk_groups = [],
      dk_queries = [], dk_submits = [], dk_doers = 0, dk_witcues = [], dk_saved = [], dk_cues = [], dk_world = w\<rparr>"

definition mem_decks :: "mem_log decks" where
  "mem_decks = (no_decks [])
     \<lparr>dk_admits := [\<lparr>xm_said = ''E2'', xm_pre = ''EIss'', xm_topic = JNull\<rparr>, \<lparr>xm_said = ''E3'', xm_pre = ''EIss'', xm_topic = JNull\<rparr>],
      dk_cues := [\<lparr>cu_kin = ''other'', cu_said = [], cu_q = JNull\<rparr>, \<lparr>cu_kin = ''query'', cu_said = [], cu_q = JInt 1\<rparr>,
                  \<lparr>cu_kin = ''saved'', cu_said = ''E7'', cu_q = JNull\<rparr>]\<rparr>"

definition mem_grant :: exmsg where
  "mem_grant = \<lparr>xm_said = ''E1'', xm_pre = ''EIss'', xm_topic = JStr ''credential''\<rparr>"

lemma mem_grant_found: "grant_found (mem_doer creder) mem_grant w (JStr ''ERecp'') creder"
  by (simp add: grant_found_def mem_doer_def idle_tasks_def mem_grant_def mem_serder_def)

theorem cues_one_round_witness:
  "dk_cues (((\<lambda>s. snd (ExchangeCueDoer_recur (mem_doer (mem_acdc [])) s)) ^^ 3) mem_decks) =
     [\<lparr>cu_kin = ''other'', cu_said = [], cu_q = JNull\<rparr>] \<and>
   dk_queries (((\<lambda>s. snd (ExchangeCueDoer_recur (mem_doer (mem_acdc [])) s)) ^^ 3) mem_decks) = [JInt 1]"
  using cues_one_round [where env = "mem_doer (mem_acdc [])" and s = mem_decks]
  by (simp add: mem_decks_def no_decks_def mem_doer_def idle_tasks_def unknown_cue_def numeral_3_eq_3)

theorem messages_wait_witness:
  "dk_admits (((\<lambda>s. snd (Admitter_recur (mem_doer (mem_acdc [])) s)) ^^ 2) mem_decks) = dk_admits mem_decks"
proof -
  have "complete_is (mem_doer (mem_acdc [])) (\<lambda>said. said = ''E1'')"
    by (simp add: complete_is_def mem_doer_def idle_tasks_def)
  from messages_wait [OF this, where s = mem_decks and deliveries = "retA False"] show ?thesis
    by (simp add: mem_decks_def no_decks_def numeral_2_eq_2)
qed


theorem grant_untargeted_witness:
  "GrantDoer_recur (mem_doer (mem_acdc [])) mem_grant mem_decks = (Inr True, mem_decks)"
  by (rule grant_untargeted [OF mem_grant_found, where d = "[]"]) (simp_all add: mem_acdc_def mem_doer_def idle_tasks_def)

end
