(* ===== verification/Authing.thy ===== *)
theory Authing
  imports Httping
begin

text \<open>
  \<open>core/authing.py\<close>: \<open>Authenticater\<close>, which checks the signature of a request and signs
  responses, and \<open>SignatureValidationComponent\<close>, the middleware that lets only signed
  requests through. The HTTP signature parser and serialiser (\<open>keri.end.ending\<close>), the keys of
  a controller and the agency's lookup are arguments (\<open>authenv\<close>).
\<close>

subsection \<open>\<open>quote\<close> and \<open>unquote\<close>\<close>

text \<open>
  \<open>urllib.parse\<close>: \<open>quote\<close> keeps letters, digits and \<open>_.-~/\<close> and writes every other byte of
  the UTF-8 encoding as \<open>%XX\<close>; \<open>unquote\<close> turns well-formed escapes back into bytes. The
  bytes an escape gives are taken to form valid UTF-8, as they do for everything \<open>quote\<close> writes.
\<close>

definition quote_safe :: "char \<Rightarrow> bool" where
  "quote_safe c \<longleftrightarrow>
     (let n = of_char c :: nat in
      (48 \<le> n \<and> n \<le> 57) \<or> (65 \<le> n \<and> n \<le> 90) \<or> (97 \<le> n \<and> n \<le> 122) \<or>
      n \<in> {45, 46, 47, 95, 126})"

definition hex_char :: "nat \<Rightarrow> char" where
  "hex_char n = (if n < 10 then char_of (48 + n) else char_of (55 + n))"

definition hex_val :: "char \<Rightarrow> nat option" where
  "hex_val c =
     (let n = of_char c :: nat in
      if 48 \<le> n \<and> n \<le> 57 then Some (n - 48)
      else if 65 \<le> n \<and> n \<le> 70 then Some (n - 55)
      else if 97 \<le> n \<and> n \<le> 102 then Some (n - 87) else None)"

fun quote :: "string \<Rightarrow> string" where
  "quote [] = []"
| "quote (c # s) =
     (if quote_safe c then c # quote s
      else CHR ''%'' # hex_char (of_char c div 16) # hex_char (of_char c mod 16) # quote s)"

fun unquote :: "string \<Rightarrow> string" where
  "unquote (c # a # b # s) =
     (if c = CHR ''%'' then
        (case (hex_val a, hex_val b) of
           (Some x, Some y) \<Rightarrow> char_of (16 * x + y) # unquote s
         | _ \<Rightarrow> c # unquote (a # b # s))
      else c # unquote (a # b # s))"
| "unquote s = s"

lemma unquote_plain: "c \<noteq> CHR ''%'' \<Longrightarrow> unquote (c # s) = c # unquote s"
  by (cases s rule: unquote.cases) auto

lemma hex_val_hex_char: "n < 16 \<Longrightarrow> hex_val (hex_char n) = Some n"
  by (auto simp: hex_val_def hex_char_def)

lemma of_char_div16: "(of_char c :: nat) div 16 < 16"
proof -
  have "(of_char c :: nat) < 256" by (rule nat_of_char_less_256)
  then show ?thesis by (simp add: less_mult_imp_div_less)
qed

lemma unquote_quote [simp]: "unquote (quote s) = s"
proof (induction s)
  case (Cons c s)
  have safe: "c \<noteq> CHR ''%''" if "quote_safe c" using that by (auto simp: quote_safe_def)
  have dm: "16 * ((of_char c :: nat) div 16) + of_char c mod 16 = of_char c" by simp
  show ?case
  proof (cases "quote_safe c")
    case True with Cons safe show ?thesis by (simp add: unquote_plain)
  next
    case False
    with Cons show ?thesis by (simp add: hex_val_hex_char of_char_div16 dm)
  qed
qed simp

lemma hex_char_no_newline: "n < 16 \<Longrightarrow> hex_char n \<noteq> CHR 0x0A"
  using hex_val_hex_char [of n] by (auto simp: hex_val_def)

lemma quote_no_newline: "CHR 0x0A \<notin> set (quote s)"
proof (induction s)
  case (Cons c s)
  have "c \<noteq> CHR 0x0A" if "quote_safe c" using that by (auto simp: quote_safe_def)
  moreover note hex_char_no_newline [OF of_char_div16 [of c]]
  moreover have "hex_char (of_char c mod 16) \<noteq> CHR 0x0A" by (rule hex_char_no_newline) simp
  ultimately show ?case using Cons by auto
qed simp

subsection \<open>Authenticater\<close>

text \<open>An entry of the \<open>Signature-Input\<close> header, as \<open>ending.desiginput\<close> returns it.\<close>

record inputage =
  in_name :: string
  in_fields :: "string list"
  in_created :: int
  in_expires :: "int option"
  in_nonce :: "string option"
  in_keyid :: "string option"
  in_context :: "string option"
  in_alg :: "string option"

text \<open>
  What the authenticater uses of the code around it. \<open>'w\<close> is the state of the world, \<open>'g\<close> an
  agent, \<open>'s\<close> a signature. \<open>au_verfers w g c\<close> are the current public keys of controller \<open>c\<close>
  in agent \<open>g\<close>'s \<open>kevers\<close> (each one as its \<open>verify\<close> function), \<open>None\<close> if it is not there.
\<close>

record ('w, 'g, 's) authenv =
  au_desiginput :: "string \<Rightarrow> exn + inputage list"
  au_normalize :: "string \<Rightarrow> string"
  au_designature :: "string \<Rightarrow> exn + (string \<times> 's) list list"
  au_get :: "string \<Rightarrow> ('w, 'g option) act"
  au_verfers :: "'w \<Rightarrow> 'g \<Rightarrow> string \<Rightarrow> ('s \<Rightarrow> string \<Rightarrow> bool) list option"
  au_pre :: "'g \<Rightarrow> string"
  au_now :: "'w \<Rightarrow> string"
  au_siginput :: "'g \<Rightarrow> string \<Rightarrow> string \<Rightarrow> string \<Rightarrow> (string \<times> string) list \<Rightarrow> string list \<Rightarrow>
                  string \<Rightarrow> string \<Rightarrow> exn + (string \<times> string) list \<times> 's"
  au_signature :: "(string \<times> 's) list \<Rightarrow> (string \<times> string) list"

definition Authenticater_resource :: "request \<Rightarrow> exn + string" where
  "Authenticater_resource req =
     (case dict_get (rq_headers req) ''SIGNIFY-RESOURCE'' of
        None \<Rightarrow> Inl (ValueError ''Missing signify resource header'')
      | Some r \<Rightarrow> Inr r)"

text \<open>The lines of the signature base: one per field the request has a value for.\<close>

definition quoted :: "string \<Rightarrow> string" where
  "quoted f = [CHR 0x22] @ f @ [CHR 0x22]"

definition verify_item :: "(string \<Rightarrow> string) \<Rightarrow> request \<Rightarrow> string \<Rightarrow> string list" where
  "verify_item nrm req field =
     (if startswith field ''@'' then
        (if field = ''@method'' then [quoted field @ '': '' @ rq_method req]
         else if field = ''@path'' then [quoted field @ '': '' @ rq_path req]
         else [])
      else
        (case dict_get (rq_headers req) (upper field) of
           None \<Rightarrow> []
         | Some h \<Rightarrow> [quoted (lower field) @ '': '' @ nrm h]))"

definition verify_params :: "inputage \<Rightarrow> string" where
  "verify_params i =
     join '';''
       ([''('' @ join '' '' (in_fields i) @ '')'', ''created='' @ show_int (in_created i)]
        @ (case in_expires i of None \<Rightarrow> [] | Some e \<Rightarrow> [''expires='' @ show_int e])
        @ (case in_nonce i of None \<Rightarrow> [] | Some n \<Rightarrow> [''nonce='' @ n])
        @ (case in_keyid i of None \<Rightarrow> [] | Some k \<Rightarrow> [''keyid='' @ k])
        @ (case in_context i of None \<Rightarrow> [] | Some c \<Rightarrow> [''context='' @ c])
        @ (case in_alg i of None \<Rightarrow> [] | Some a \<Rightarrow> [''alg='' @ a]))"

definition verify_items :: "(string \<Rightarrow> string) \<Rightarrow> request \<Rightarrow> inputage \<Rightarrow> string list" where
  "verify_items nrm req i =
     concat (map (verify_item nrm req) (in_fields i))
     @ [quoted (''@signature-params: '' @ verify_params i)]"

definition verify_ser :: "(string \<Rightarrow> string) \<Rightarrow> request \<Rightarrow> inputage \<Rightarrow> string" where
  "verify_ser nrm req i = join [CHR 0x0A] (verify_items nrm req i)"

definition unknown_controller :: exn where
  "unknown_controller = AuthNError ''unknown or invalid controller''"

text \<open>One turn of the loop of \<open>verify\<close>.\<close>

definition verify_input ::
  "('w, 'g, 's) authenv \<Rightarrow> request \<Rightarrow> string \<Rightarrow> inputage \<Rightarrow> ('w, unit) act" where
  "verify_input env req signature i =
     bindA (retA (verify_ser (au_normalize env) req i)) (\<lambda>ser.
     bindA (liftA (Authenticater_resource req)) (\<lambda>resource.
     bindA (au_get env resource) (\<lambda>agent.
     case agent of
       None \<Rightarrow> raiseA unknown_controller
     | Some g \<Rightarrow>
         bindA (getA (\<lambda>w. au_verfers env w g resource)) (\<lambda>ckever.
         case ckever of
           None \<Rightarrow> raiseA unknown_controller
         | Some verfers \<Rightarrow>
             bindA (liftA (au_designature env signature)) (\<lambda>signages.
             case signages of
               [] \<Rightarrow> raiseA IndexError
             | markers # _ \<Rightarrow>
                 (case dict_get markers (in_name i) of
                    None \<Rightarrow> raiseA (KeyError (in_name i))
                  | Some cig \<Rightarrow>
                      (case verfers of
                         [] \<Rightarrow> raiseA IndexError
                       | vrf # _ \<Rightarrow> guardA (vrf cig ser) (AuthNError ''Signature invalid''))))))))"

definition verify :: "('w, 'g, 's) authenv \<Rightarrow> request \<Rightarrow> ('w, bool) act" where
  "verify env req =
     (case (dict_get (rq_headers req) ''SIGNATURE-INPUT'', dict_get (rq_headers req) ''SIGNATURE'') of
        (Some siginput, Some signature) \<Rightarrow>
          (if siginput = [] \<or> signature = [] then retA False
           else
             bindA (liftA (au_desiginput env siginput)) (\<lambda>inputs.
               let inputs = filter (\<lambda>i. in_name i = ''signify'') inputs in
               if inputs = [] then retA False
               else seqA (forA inputs (verify_input env req signature)) (retA True)))
      | _ \<Rightarrow> retA False)"

definition DefaultFields :: "string list" where
  "DefaultFields = [''Signify-Resource'', ''@method'', ''@path'', ''Signify-Timestamp'']"

definition sign ::
  "('w, 'g, 's) authenv \<Rightarrow> 'g \<Rightarrow> (string \<times> string) list \<Rightarrow> string \<Rightarrow> string \<Rightarrow> string list option \<Rightarrow>
   exn + (string \<times> string) list" where
  "sign env agent headers method path flds =
     (let flds = (case flds of None \<Rightarrow> DefaultFields | Some fs \<Rightarrow> fs) in
      case au_siginput env agent ''signify'' method path headers flds ''ed25519'' (au_pre env agent) of
        Inl e \<Rightarrow> Inl e
      | Inr (header, qsig) \<Rightarrow>
          Inr ((headers @ header) @ au_signature env [(''signify'', qsig)]))"

text \<open>
  Request, context agent and response, as the middleware leaves them. Reaching the endpoint
  means that \<open>rs_complete\<close> is still false.
\<close>

subsection \<open>SignatureValidationComponent\<close>

definition is_rejection :: "exn \<Rightarrow> bool" where
  "is_rejection e \<longleftrightarrow> (case e of AuthNError _ \<Rightarrow> True | _ \<Rightarrow> isValueError e)"

definition reject401 :: "response \<Rightarrow> response" where
  "reject401 resp = resp\<lparr>rs_complete := True, rs_status := 401\<rparr>"

definition process_request ::
  "('w, 'g, 's) authenv \<Rightarrow> string list \<Rightarrow> request \<Rightarrow> response \<Rightarrow>
   ('w, request \<times> 'g option option \<times> response) act" where
  "process_request env allowed req resp =
     (if \<exists>path \<in> set allowed. startswith (rq_path req) path then retA (req, None, resp)
      else
        let req = req\<lparr>rq_path := quote (rq_path req)\<rparr> in
        catchA
          (bindA (verify env req) (\<lambda>ok.
             if ok then
               let req = req\<lparr>rq_path := unquote (rq_path req)\<rparr> in
               bindA (liftA (Authenticater_resource req)) (\<lambda>resource.
               bindA (au_get env resource) (\<lambda>agent.
               retA (req, Some agent, resp)))
             else retA (req, None, reject401 resp)))
          (\<lambda>e. if is_rejection e then Some (retA (req, None, reject401 resp)) else None))"

definition process_response ::
  "('w, 'g, 's) authenv \<Rightarrow> request \<Rightarrow> 'g option option \<Rightarrow> response \<Rightarrow> ('w, request \<times> response) act" where
  "process_response env req context rep =
     (case context of
        None \<Rightarrow> retA (req, rep)
      | Some None \<Rightarrow> raiseA AttributeError
      | Some (Some agent) \<Rightarrow>
          let req = req\<lparr>rq_path := quote (rq_path req)\<rparr> in
          bindA (getA (au_now env)) (\<lambda>now.
          let rep = set_header ''Signify-Resource'' (au_pre env agent) rep;
              rep = set_header ''Signify-Timestamp'' now rep in
          bindA (liftA (sign env agent (rs_headers rep) (rq_method req) (rq_path req) None)) (\<lambda>headers.
          retA (req, foldl (\<lambda>r (k, v). set_header k v r) rep headers))))"

subsection \<open>What an accepted request has been checked for\<close>

text \<open>
  The signature of input \<open>i\<close> over the signature base of \<open>req\<close> verifies with the first current
  key of the controller the request names, as the agent of that controller holds it.
\<close>

definition input_verified ::
  "('w, 'g, 's) authenv \<Rightarrow> request \<Rightarrow> inputage \<Rightarrow> string \<Rightarrow> 'g \<Rightarrow> 'w \<Rightarrow> bool" where
  "input_verified env req i c g w \<longleftrightarrow>
     (case (au_verfers env w g c,
            case dict_get (rq_headers req) ''SIGNATURE'' of
              None \<Rightarrow> Inr [] | Some s \<Rightarrow> au_designature env s) of
        (Some (vrf # _), Inr (markers # _)) \<Rightarrow>
          (case dict_get markers (in_name i) of
             None \<Rightarrow> False
           | Some cig \<Rightarrow> vrf cig (verify_ser (au_normalize env) req i))
      | _ \<Rightarrow> False)"

lemma input_verifiedI:
  assumes "au_verfers env w g c = Some (vrf # vrfs)"
    and "dict_get (rq_headers req) ''SIGNATURE'' = Some s"
    and "au_designature env s = Inr (markers # ms)" and "dict_get markers (in_name i) = Some cig"
    and "vrf cig (verify_ser (au_normalize env) req i)"
  shows "input_verified env req i c g w"
  using assms by (simp add: input_verified_def)

lemma verify_input_InrD:
  assumes "verify_input env req signature i w = (Inr u, w')"
    and "dict_get (rq_headers req) ''SIGNATURE'' = Some signature"
  shows "\<exists>c g. dict_get (rq_headers req) ''SIGNIFY-RESOURCE'' = Some c \<and>
               au_get env c w = (Inr (Some g), w') \<and> input_verified env req i c g w'"
  using assms
  by (auto simp: verify_input_def Authenticater_resource_def bindA_guardA guardA_def
      elim!: bindA_eq_InrD split: option.splits list.splits sum.splits if_splits) (erule (4) input_verifiedI)

lemma forA_InrD:
  assumes "forA xs f w = (Inr u, w')" and "x \<in> set xs"
  shows "\<exists>w1 w2. f x w1 = (Inr (), w2)"
  using assms
proof (induction xs arbitrary: w)
  case (Cons y ys)
  from Cons.prems(1) obtain z w1 where "f y w = (Inr z, w1)" "forA ys f w1 = (Inr u, w')"
    by (auto simp: seqA_def elim: bindA_eq_InrD)
  with Cons show ?case by auto
qed simp

lemma forA_ConsE:
  assumes "forA (x # xs) f w = (Inr u, w')"
  obtains w1 where "f x w = (Inr (), w1)" and "forA xs f w1 = (Inr (), w')"
  using assms by (auto simp: seqA_def elim: bindA_eq_InrD)

lemma verify_TrueE:
  assumes "verify env req w = (Inr True, w')"
  obtains siginput signature inputs where
    "dict_get (rq_headers req) ''SIGNATURE-INPUT'' = Some siginput"
    and "dict_get (rq_headers req) ''SIGNATURE'' = Some signature"
    and "au_desiginput env siginput = Inr inputs"
    and "filter (\<lambda>i. in_name i = ''signify'') inputs \<noteq> []"
    and "forA (filter (\<lambda>i. in_name i = ''signify'') inputs) (verify_input env req signature) w = (Inr (), w')"
  using assms
  by (auto simp: verify_def Let_def elim!: bindA_eq_InrD split: option.splits if_splits)

text \<open>The inputs of a request that count: the ones named \<open>signify\<close>.\<close>

definition signify_inputs :: "('w, 'g, 's) authenv \<Rightarrow> request \<Rightarrow> inputage list" where
  "signify_inputs env req =
     (case dict_get (rq_headers req) ''SIGNATURE-INPUT'' of
        None \<Rightarrow> []
      | Some s \<Rightarrow> (case au_desiginput env s of
                    Inl _ \<Rightarrow> [] | Inr inputs \<Rightarrow> filter (\<lambda>i. in_name i = ''signify'') inputs))"

lemma verify_verified:
  assumes "verify env req w = (Inr True, w')"
  shows "signify_inputs env req \<noteq> [] \<and>
         (\<forall>i \<in> set (signify_inputs env req). \<exists>c g w1 w2.
            dict_get (rq_headers req) ''SIGNIFY-RESOURCE'' = Some c \<and>
            au_get env c w1 = (Inr (Some g), w2) \<and> input_verified env req i c g w2)"
proof -
  from assms obtain siginput signature inputs where
    h: "dict_get (rq_headers req) ''SIGNATURE-INPUT'' = Some siginput"
      "dict_get (rq_headers req) ''SIGNATURE'' = Some signature"
      "au_desiginput env siginput = Inr inputs"
      "filter (\<lambda>i. in_name i = ''signify'') inputs \<noteq> []"
    and all: "forA (filter (\<lambda>i. in_name i = ''signify'') inputs) (verify_input env req signature) w = (Inr (), w')"
    by (rule verify_TrueE)
  have inputs: "signify_inputs env req = filter (\<lambda>i. in_name i = ''signify'') inputs"
    using h by (simp add: signify_inputs_def)
  show ?thesis
  proof (intro conjI ballI)
    show "signify_inputs env req \<noteq> []" using h inputs by simp
    fix i assume "i \<in> set (signify_inputs env req)"
    with inputs have "i \<in> set (filter (\<lambda>i. in_name i = ''signify'') inputs)" by simp
    from forA_InrD [OF all this] obtain w1 w2 where
      "verify_input env req signature i w1 = (Inr (), w2)" by blast
    from verify_input_InrD [OF this h(2)]
    show "\<exists>c g w1 w2. dict_get (rq_headers req) ''SIGNIFY-RESOURCE'' = Some c \<and>
            au_get env c w1 = (Inr (Some g), w2) \<and> input_verified env req i c g w2"
      by blast
  qed
qed

text \<open>
  C26. \<open>verify\<close> returns \<open>True\<close> only for a request with at least one input named \<open>signify\<close>, and then
  for every such input the agency found an agent for the controller the request names, and
  the signature verified against that controller's first current key, over the signature
  base computed from this very request.
\<close>

theorem verify_sound:
  assumes "verify env req w = (Inr True, w')"
  shows "signify_inputs env req \<noteq> [] \<and>
         (\<forall>i \<in> set (signify_inputs env req). \<exists>c g w1 w2.
            dict_get (rq_headers req) ''SIGNIFY-RESOURCE'' = Some c \<and>
            au_get env c w1 = (Inr (Some g), w2) \<and> input_verified env req i c g w2)"
  by (rule verify_verified [OF assms])

text \<open>
  One concrete surrounding for the witnesses: controller \<open>C\<close> has agent \<open>A\<close>, and a text is
  signed by itself.
\<close>

definition demo_input :: inputage where
  "demo_input = \<lparr>in_name = ''signify'', in_fields = [''@method'', ''@path'', ''Signify-Resource''],
     in_created = 17, in_expires = None, in_nonce = None, in_keyid = Some ''C'',
     in_context = None, in_alg = Some ''ed25519''\<rparr>"

definition demo_env :: "(unit, string, string) authenv" where
  "demo_env =
     \<lparr>au_desiginput = (\<lambda>_. Inr [demo_input]),
      au_normalize = (\<lambda>s. s),
      au_designature = (\<lambda>s. Inr [[(''signify'', s)]]),
      au_get = (\<lambda>c. retA (if c = ''C'' then Some ''A'' else None)),
      au_verfers = (\<lambda>_ _ c. if c = ''C'' then Some [\<lambda>sig ser. sig = ser] else None),
      au_pre = (\<lambda>g. g),
      au_now = (\<lambda>_. ''2024-01-01T00:00:00.000000+00:00''),
      au_siginput = (\<lambda>_ nm _ _ _ _ _ _. Inr ([(''Signature-Input'', nm)], ''sig'')),
      au_signature = (\<lambda>ms. [(''Signature'', concat (map snd ms))])\<rparr>"

definition demo_request :: request where
  "demo_request =
     (let req = \<lparr>rq_method = ''GET'', rq_path = ''/identifiers/a b'',
          rq_headers = [(''SIGNIFY-RESOURCE'', ''C''), (''SIGNATURE-INPUT'', ''signify'')],
          rq_params = [], rq_media = Inr JNull, rq_auth = None, rq_content_length = Some 0,
          rq_content_type = Some ''application/json'', rq_body = []\<rparr>
      in req\<lparr>rq_headers := rq_headers req @
             [(''SIGNATURE'', verify_ser (\<lambda>s. s) (req\<lparr>rq_path := quote (rq_path req)\<rparr>) demo_input)]\<rparr>)"

definition demo_quoted :: request where
  "demo_quoted = demo_request\<lparr>rq_path := quote (rq_path demo_request)\<rparr>"

lemma demo_verify: "verify demo_env demo_quoted () = (Inr True, ())"
  by code_simp

lemma demo_inputs: "signify_inputs demo_env demo_quoted = [demo_input]"
  by code_simp

theorem verify_sound_witness:
  "\<exists>c g w1 w2. dict_get (rq_headers demo_quoted) ''SIGNIFY-RESOURCE'' = Some c \<and>
     au_get demo_env c w1 = (Inr (Some g), w2) \<and> input_verified demo_env demo_quoted demo_input c g w2"
  using verify_sound [OF demo_verify] by (simp only: demo_inputs list.set ball_simps)

subsection \<open>The middleware, over an agency that keeps the agents it has found\<close>

text \<open>
  What the middleware needs of the agency: an agent that was found is found again, and is
  the same one. \<open>Agency.get\<close> provides this (theory \<open>Agency\<close>).
\<close>

locale agent_source =
  fixes lookup :: "string \<Rightarrow> ('w, 'g option) act"
  assumes found_again: "lookup c w = (Inr (Some g), w') \<Longrightarrow> \<exists>w''. lookup c w' = (Inr (Some g), w'')"
begin

lemma one_input:
  assumes "au_get env = lookup" and "dict_get (rq_headers req) ''SIGNATURE'' = Some signature"
    and "verify_input env req signature i w = (Inr (), w')"
  obtains c g where "dict_get (rq_headers req) ''SIGNIFY-RESOURCE'' = Some c"
    and "lookup c w = (Inr (Some g), w')" and "input_verified env req i c g w'"
  using verify_input_InrD [OF assms(3,2)] assms(1) by auto

lemma later_inputs:
  assumes env: "au_get env = lookup" "dict_get (rq_headers req) ''SIGNATURE'' = Some signature"
    and c: "dict_get (rq_headers req) ''SIGNIFY-RESOURCE'' = Some c"
    and "forA is (verify_input env req signature) w = (Inr (), w')" and "lookup c w0 = (Inr (Some g), w)"
  shows "(\<exists>w0. lookup c w0 = (Inr (Some g), w')) \<and> (\<forall>i \<in> set is. \<exists>w1. input_verified env req i c g w1)"
  using assms(4,5)
proof (induction "is" arbitrary: w w0)
  case Nil then show ?case by auto
next
  case (Cons i rest)
  from Cons.prems(1) obtain w1 where
    one: "verify_input env req signature i w = (Inr (), w1)" and
    rest: "forA rest (verify_input env req signature) w1 = (Inr (), w')" by (rule forA_ConsE)
  from one_input [OF env one] c obtain g' where
    g': "lookup c w = (Inr (Some g'), w1)" "input_verified env req i c g' w1" by auto
  with found_again [OF Cons.prems(2)] have "g' = g" by auto
  with g' Cons.IH [OF rest, of w] show ?case by auto
qed

lemma all_inputs_same_agent:
  assumes env: "au_get env = lookup" "dict_get (rq_headers req) ''SIGNATURE'' = Some signature"
    and "forA is (verify_input env req signature) w = (Inr (), w')" and "is \<noteq> []"
  shows "\<exists>c g w0. dict_get (rq_headers req) ''SIGNIFY-RESOURCE'' = Some c \<and>
           lookup c w0 = (Inr (Some g), w') \<and> (\<forall>i \<in> set is. \<exists>w1. input_verified env req i c g w1)"
proof -
  from assms(4) obtain i rest where "is": "is = i # rest" by (cases "is") auto
  from assms(3)[unfolded "is"] obtain w1 where
    one: "verify_input env req signature i w = (Inr (), w1)" and
    rest: "forA rest (verify_input env req signature) w1 = (Inr (), w')" by (rule forA_ConsE)
  from one_input [OF env one] obtain c g where
    c: "dict_get (rq_headers req) ''SIGNIFY-RESOURCE'' = Some c" and
    g: "lookup c w = (Inr (Some g), w1)" "input_verified env req i c g w1" .
  from later_inputs [OF env c rest g(1)] c g "is" show ?thesis by auto
qed

text \<open>
  A request that is let through is either exempt or carries the agent under which every one of
  its \<open>signify\<close> inputs verified; its path is the one it came with.
\<close>

lemma let_through:
  assumes "au_get env = lookup" and "\<not> rs_complete resp"
    and "process_request env allowed req resp w = (Inr (req', ctx, resp'), w')" and "\<not> rs_complete resp'"
  shows "req' = req \<and> resp' = resp \<and>
    (if \<exists>path \<in> set allowed. startswith (rq_path req) path then ctx = None
     else let q = req\<lparr>rq_path := quote (rq_path req)\<rparr> in
       \<exists>c g. ctx = Some (Some g) \<and> dict_get (rq_headers req) ''SIGNIFY-RESOURCE'' = Some c \<and>
         signify_inputs env q \<noteq> [] \<and> (\<forall>i \<in> set (signify_inputs env q). \<exists>w1. input_verified env q i c g w1))"
proof (cases "\<exists>path \<in> set allowed. startswith (rq_path req) path")
  case True
  with assms show ?thesis by (simp add: process_request_def)
next
  case False
  define q where "q = req\<lparr>rq_path := quote (rq_path req)\<rparr>"
  have "catchA (bindA (verify env q) (\<lambda>ok. if ok then
               let req = q\<lparr>rq_path := unquote (rq_path q)\<rparr> in
               bindA (liftA (Authenticater_resource req)) (\<lambda>resource.
               bindA (au_get env resource) (\<lambda>agent. retA (req, Some agent, resp)))
             else retA (q, None, reject401 resp)))
          (\<lambda>e. if is_rejection e then Some (retA (q, None, reject401 resp)) else None) w
        = (Inr (req', ctx, resp'), w')"
    using assms(3) False by (simp add: process_request_def q_def [symmetric])
  then obtain w1 c a where v: "verify env q w = (Inr True, w1)"
    and c: "dict_get (rq_headers req) ''SIGNIFY-RESOURCE'' = Some c"
    and a: "lookup c w1 = (Inr a, w')" "ctx = Some a" "req' = req" "resp' = resp"
    using assms(1,4)
    by (auto simp: catchA_def reject401_def Let_def Authenticater_resource_def q_def
        elim!: bindA_eq_InrD split: prod.splits sum.splits option.splits if_splits)
  from v obtain siginput signature inputs where
    h: "dict_get (rq_headers q) ''SIGNATURE-INPUT'' = Some siginput"
      "dict_get (rq_headers q) ''SIGNATURE'' = Some signature"
      "au_desiginput env siginput = Inr inputs"
      "filter (\<lambda>i. in_name i = ''signify'') inputs \<noteq> []"
    and all: "forA (filter (\<lambda>i. in_name i = ''signify'') inputs) (verify_input env q signature) w = (Inr (), w1)"
    by (rule verify_TrueE)
  have inputs: "signify_inputs env q = filter (\<lambda>i. in_name i = ''signify'') inputs"
    using h by (simp add: signify_inputs_def)
  from all_inputs_same_agent [OF assms(1) h(2) all h(4)] inputs c obtain g w0 where
    "lookup c w0 = (Inr (Some g), w1)" "\<forall>i \<in> set (signify_inputs env q). \<exists>w1. input_verified env q i c g w1"
    by (auto simp: q_def)
  moreover from found_again [OF this(1)] a have "a = Some g" by auto
  ultimately show ?thesis using False a c h(4) inputs by (auto simp: q_def [symmetric] Let_def)
qed

end

subsection \<open>What a signature binds\<close>

text \<open>
  The names of the signed fields come from the request's \<open>Signature-Input\<close>, as strings of a structured field: they may
  hold a space, a quote or a parenthesis, and \<open>verify\<close> joins them with spaces without looking at them. These have none.
\<close>

definition fields_ok :: "inputage \<Rightarrow> bool" where
  "fields_ok i \<longleftrightarrow> list_all (\<lambda>f. f \<noteq> [] \<and> CHR 0x22 \<notin> set f \<and> CHR '' '' \<notin> set f \<and> CHR '')'' \<notin> set f) (in_fields i)"

text \<open>
  No line of the signature base contains a line break; header values of HTTP and quoted paths
  never do.
\<close>

definition lines_ok :: "(string \<Rightarrow> string) \<Rightarrow> request \<Rightarrow> inputage \<Rightarrow> bool" where
  "lines_ok nrm req i \<longleftrightarrow> list_all (\<lambda>l. CHR 0x0A \<notin> set l) (verify_items nrm req i)"

definition item_key :: "string \<Rightarrow> string" where
  "item_key f = (if startswith f ''@'' then f else lower f)"

definition line_key :: "string \<Rightarrow> string" where
  "line_key l = takeWhile (\<lambda>c. c \<noteq> CHR 0x22) (tl l)"

lemma line_key_quoted: "CHR 0x22 \<notin> set f \<Longrightarrow> line_key (quoted f @ v) = f"
proof -
  assume "CHR 0x22 \<notin> set f"
  then have "\<forall>x \<in> set f. x \<noteq> CHR 0x22" by blast
  then show ?thesis by (simp add: line_key_def quoted_def)
qed

lemma lower_char_eq: "lower_char x = CHR 0x22 \<longleftrightarrow> x = CHR 0x22" "lower_char x = CHR ''@'' \<longleftrightarrow> x = CHR ''@''"
  by (auto simp: lower_char_def char_of_eq_iff take_bit_nat_eq_self)

lemma upper_lower_char: "upper_char (lower_char c) = upper_char c"
  by (simp add: upper_char_def lower_char_def)

lemma upper_lower: "upper (lower s) = upper s"
  by (simp add: upper_def lower_def upper_lower_char)

lemma item_key_no_quote: "CHR 0x22 \<notin> set f \<Longrightarrow> CHR 0x22 \<notin> set (item_key f)"
proof -
  assume "CHR 0x22 \<notin> set f"
  then have "\<forall>x \<in> set f. lower_char x \<noteq> CHR 0x22" by (metis lower_char_eq(1))
  then have "CHR 0x22 \<notin> lower_char ` set f" by (metis imageE)
  with \<open>CHR 0x22 \<notin> set f\<close> show ?thesis by (simp add: item_key_def lower_def)
qed

lemma startswith_at_lower: "startswith (lower f) ''@'' \<longleftrightarrow> startswith f ''@''"
  by (cases f) (auto simp: startswith_def lower_def lower_char_eq)

lemma verify_item_key:
  assumes "item_key f = item_key g" shows "verify_item nrm req f = verify_item nrm req g"
proof (cases "startswith f ''@''")
  case True
  with assms have "startswith g ''@''"
    by (metis item_key_def startswith_at_lower)
  with True assms show ?thesis by (simp add: item_key_def)
next
  case False
  with assms have "\<not> startswith g ''@''" by (metis item_key_def startswith_at_lower)
  with False assms have "lower f = lower g" by (simp add: item_key_def)
  then have "upper f = upper g" using upper_lower by metis
  with False \<open>\<not> startswith g ''@''\<close> \<open>lower f = lower g\<close> show ?thesis
    by (simp add: verify_item_def split: option.split)
qed

lemma verify_item_cases:
  obtains (none) "verify_item nrm req f = []"
  | (one) v where "verify_item nrm req f = [quoted (item_key f) @ v]"
proof -
  have "verify_item nrm req f = [] \<or> (\<exists>v. verify_item nrm req f = [quoted (item_key f) @ v])"
    by (auto simp: verify_item_def item_key_def split: option.splits)
  with that show ?thesis by blast
qed

lemma filter_item:
  assumes "CHR 0x22 \<notin> set f"
  shows "filter (\<lambda>l. line_key l = k) (verify_item nrm req f) =
           (if item_key f = k then verify_item nrm req f else [])"
  by (cases nrm req f rule: verify_item_cases)
    (simp_all add: line_key_quoted item_key_no_quote assms)

lemma filter_items:
  assumes "\<forall>f \<in> set fs. CHR 0x22 \<notin> set f" and "f \<in> set fs"
  shows "filter (\<lambda>l. line_key l = item_key f) (concat (map (verify_item nrm req) fs)) =
           concat (replicate (length (filter (\<lambda>g. item_key g = item_key f) fs)) (verify_item nrm req f))"
  using assms(1)
proof (induction fs)
  case (Cons g fs)
  have "filter (\<lambda>l. line_key l = item_key f) (verify_item nrm req g) =
          (if item_key g = item_key f then verify_item nrm req f else [])"
    using Cons.prems filter_item [of g "item_key f" nrm req] verify_item_key [of g f nrm req] by simp
  with Cons show ?case by simp
qed simp

lemma replicate_item:
  assumes "concat (replicate n (verify_item nrm req1 f)) = concat (replicate n (verify_item nrm req2 f))" and "0 < n"
  shows "verify_item nrm req1 f = verify_item nrm req2 f"
  using assms
  by (cases n; cases nrm req1 f rule: verify_item_cases; cases nrm req2 f rule: verify_item_cases) auto

lemma items_eq:
  assumes "concat (map (verify_item nrm req1) fs) = concat (map (verify_item nrm req2) fs)"
    and "\<forall>f \<in> set fs. CHR 0x22 \<notin> set f" and "f \<in> set fs"
  shows "verify_item nrm req1 f = verify_item nrm req2 f"
proof (rule replicate_item)
  show "0 < length (filter (\<lambda>g. item_key g = item_key f) fs)"
    using assms(3) by (auto simp: filter_empty_conv)
qed (metis assms filter_items)

lemma takeWhile_until: "c \<notin> set a \<Longrightarrow> takeWhile (\<lambda>x. x \<noteq> c) (a @ c # b) = a"
  by (induction a) auto

lemma set_join: "set (join s xs) \<subseteq> set s \<union> (\<Union>x \<in> set xs. set x)"
  by (induction s xs rule: join.induct) auto

lemma join_eq_Nil: "(\<And>x. x \<in> set xs \<Longrightarrow> x \<noteq> []) \<Longrightarrow> join s xs = [] \<longleftrightarrow> xs = []"
  by (cases "(s, xs)" rule: join.cases) auto

lemma params_fields:
  assumes "fields_ok i" and "fields_ok j" and "verify_params i = verify_params j"
  shows "in_fields i = in_fields j"
proof -
  have ok: "CHR '')'' \<notin> set (join '' '' (in_fields i))" if "fields_ok i" for i
    using set_join [of "'' ''" "in_fields i"] that by (auto simp: fields_ok_def list_all_iff)
  have start: "\<exists>r. verify_params i = CHR ''('' # join '' '' (in_fields i) @ CHR '')'' # r" for i
    by (simp add: verify_params_def)
  from start [of i] start [of j] obtain r s where
    "verify_params i = CHR ''('' # join '' '' (in_fields i) @ CHR '')'' # r"
    "verify_params j = CHR ''('' # join '' '' (in_fields j) @ CHR '')'' # s" by blast
  with assms(3) have "join '' '' (in_fields i) @ CHR '')'' # r = join '' '' (in_fields j) @ CHR '')'' # s"
    by simp
  then have "join '' '' (in_fields i) = join '' '' (in_fields j)"
    by (metis takeWhile_until ok assms(1,2))
  moreover have "x \<noteq> []" "CHR '' '' \<notin> set x" if "x \<in> set (in_fields i) \<union> set (in_fields j)" for x
    using assms(1,2) that by (auto simp: fields_ok_def list_all_iff)
  ultimately show ?thesis
    by (cases "in_fields i = []"; cases "in_fields j = []")
      (metis UnCI join.simps(1) join_eq_Nil split_on_join)+
qed

lemma same_base_other_fields:
  assumes "list_all (\<lambda>h. dict_get (rq_headers req) h = None) [''X'', ''Y'', ''X Y'']"
  shows "verify_ser nrm req (k\<lparr>in_fields := [''x y'']\<rparr>) = verify_ser nrm req (k\<lparr>in_fields := [''x'', ''y'']\<rparr>)"
proof -
  have up: "upper ''x y'' = ''X Y''" "upper ''x'' = ''X''" "upper ''y'' = ''Y''" by code_simp+
  have "verify_item nrm req ''x y'' = []" "verify_item nrm req ''x'' = []" "verify_item nrm req ''y'' = []"
    using assms by (simp_all add: verify_item_def startswith_def up)
  then show ?thesis by (simp add: verify_ser_def verify_items_def verify_params_def)
qed

text \<open>
  C27. A signature base says everything the signature is to vouch for, if the names of the signed fields are not empty
  and have no space, quote or closing parenthesis, and no line has a line break: two such requests with the same base
  (each with its own signature input) have the same list of signed fields and the same parameters, the same method and
  path when \<open>@method\<close> and \<open>@path\<close> are listed, and for every other field listed the same (normalised) header, or neither
  has it. \<open>verify\<close> does not check the names, and the condition can not be left out: when the request has none of the
  headers, signing the one field \<open>x y\<close> and signing the two fields \<open>x\<close> and \<open>y\<close> have the same base.
\<close>

theorem signature_base_binds:
  assumes "fields_ok i" and "fields_ok j" and "lines_ok nrm req1 i" and "lines_ok nrm req2 j"
    and "verify_ser nrm req1 i = verify_ser nrm req2 j"
  shows "in_fields i = in_fields j \<and> verify_params i = verify_params j \<and>
    (''@method'' \<in> set (in_fields i) \<longrightarrow> rq_method req1 = rq_method req2) \<and>
    (''@path'' \<in> set (in_fields i) \<longrightarrow> rq_path req1 = rq_path req2) \<and>
    (\<forall>f \<in> set (in_fields i). \<not> startswith f ''@'' \<longrightarrow>
       map_option nrm (dict_get (rq_headers req1) (upper f)) =
       map_option nrm (dict_get (rq_headers req2) (upper f))) \<and>
    (\<forall>req k. list_all (\<lambda>h. dict_get (rq_headers req) h = None) [''X'', ''Y'', ''X Y''] \<longrightarrow>
       verify_ser nrm req (k\<lparr>in_fields := [''x y'']\<rparr>) = verify_ser nrm req (k\<lparr>in_fields := [''x'', ''y'']\<rparr>))"
proof -
  have "verify_items nrm req i \<noteq> []" for req i by (simp add: verify_items_def)
  then have "verify_items nrm req1 i = verify_items nrm req2 j"
    using assms(3-5) split_on_join [of _ "CHR 0x0A"] unfolding verify_ser_def lines_ok_def list_all_iff
    by metis
  then have eq: "concat (map (verify_item nrm req1) (in_fields i)) = concat (map (verify_item nrm req2) (in_fields j))"
    and params: "verify_params i = verify_params j"
    by (simp_all add: verify_items_def quoted_def)
  have fields: "in_fields i = in_fields j" using params_fields [OF assms(1,2) params] .
  have "\<forall>f \<in> set (in_fields i). CHR 0x22 \<notin> set f"
    using assms(1) by (simp add: fields_ok_def list_all_iff)
  then have each: "verify_item nrm req1 f = verify_item nrm req2 f" if "f \<in> set (in_fields i)" for f
    using items_eq eq fields that by metis
  have "''@method'' \<in> set (in_fields i) \<longrightarrow> rq_method req1 = rq_method req2"
    using each [of "''@method''"] by (auto simp: verify_item_def startswith_def)
  moreover have "''@path'' \<in> set (in_fields i) \<longrightarrow> rq_path req1 = rq_path req2"
    using each [of "''@path''"] by (auto simp: verify_item_def startswith_def)
  moreover have "map_option nrm (dict_get (rq_headers req1) (upper f)) =
       map_option nrm (dict_get (rq_headers req2) (upper f))"
    if "f \<in> set (in_fields i)" "\<not> startswith f ''@''" for f
    using each [OF that(1)] that(2) by (auto simp: verify_item_def split: option.splits)
  ultimately show ?thesis using fields params same_base_other_fields by blast
qed

text \<open>The same request with other headers around the signed ones and another body.\<close>

definition demo_other :: request where
  "demo_other = demo_quoted\<lparr>rq_headers := (''ACCEPT'', ''*'') # rev (rq_headers demo_quoted), rq_body := ''x''\<rparr>"

lemma demo_base:
  "fields_ok demo_input" "lines_ok (\<lambda>s. s) demo_quoted demo_input" "lines_ok (\<lambda>s. s) demo_other demo_input"
  "verify_ser (\<lambda>s. s) demo_quoted demo_input = verify_ser (\<lambda>s. s) demo_other demo_input"
  by code_simp+

theorem signature_base_binds_witness:
  "rq_path demo_quoted = rq_path demo_other \<and> rq_headers demo_quoted \<noteq> rq_headers demo_other"
  using signature_base_binds [OF demo_base(1) demo_base(1) demo_base(2-4)]
  by (simp add: demo_other_def demo_quoted_def demo_input_def demo_request_def Let_def)

subsection \<open>Rejections and signed responses\<close>

text \<open>A request without both signature headers is answered with 401 and goes no further.\<close>

lemma unsigned_rejected:
  assumes "dict_get (rq_headers req) ''SIGNATURE-INPUT'' = None \<or> dict_get (rq_headers req) ''SIGNATURE'' = None"
    and "\<not> (\<exists>path \<in> set allowed. startswith (rq_path req) path)"
  shows "process_request env allowed req resp w =
           (Inr (req\<lparr>rq_path := quote (rq_path req)\<rparr>, None, reject401 resp), w)"
proof -
  have "verify env (req\<lparr>rq_path := p\<rparr>) = retA False" for p
    using assms(1) by (auto simp: verify_def split: option.splits)
  with assms(2) show ?thesis by (simp add: process_request_def Let_def catchA_def)
qed

text \<open>A response to a request without agent is not signed; the others carry what \<open>sign\<close> returned.\<close>

lemma response_unsigned: "process_response env req None rep w = (Inr (req, rep), w)"
  by (simp add: process_response_def)

lemma set_headers_get:
  "dict_get (rs_headers (foldl (\<lambda>r (k, v). set_header k v r) rep hs)) k =
     (case dict_get (rev (map (\<lambda>(k, v). (lower k, v)) hs)) k of
        Some v \<Rightarrow> Some v | None \<Rightarrow> dict_get (rs_headers rep) k)"
proof (induction hs rule: rev_induct)
  case (snoc h hs)
  then show ?case by (cases h) auto
qed simp

lemma response_signed:
  assumes "process_response env req (Some (Some g)) rep w = (Inr (req', rep'), w')"
  shows "\<exists>hs. sign env g (rs_headers (set_header ''Signify-Timestamp'' (au_now env w)
                 (set_header ''Signify-Resource'' (au_pre env g) rep)))
              (rq_method req) (quote (rq_path req)) None = Inr hs \<and>
            (\<forall>k v. dict_get (rev (map (\<lambda>(k, v). (lower k, v)) hs)) k = Some v \<longrightarrow>
                   dict_get (rs_headers rep') k = Some v)"
  using assms
  by (auto simp: process_response_def Let_def set_headers_get elim!: bindA_eq_InrD split: option.splits)

end
