(* ===== verification/Agency.thy ===== *)
theory Agency
  imports Store Authing
begin

text \<open>
  The agency of \<open>app/agenting.py\<close>: the cache of running agents and the database that maps
  controllers to agents and identifiers to controllers; creation, loading and lookup of agents,
  the configuration an agent starts with, the release of idle agents, and the shutdown of the
  agency with its agents (\<open>app/serving.py\<close> sets its flag).

  The Habery of an agent, the scheduler of hio and the clock are arguments (\<open>agency_env\<close>).
\<close>

subsection \<open>State\<close>

record 'h agent =
  ag_caid :: string
  ag_pre :: string
  ag_hby :: 'h

text \<open>An entry of \<open>Agency.agents\<close>: the agent with its attributes \<open>last\<close> and \<open>shouldShutdown\<close>.\<close>

record 'h entry =
  en_agent :: "'h agent"
  en_last :: int
  en_shut :: bool

record ('h, 'w) agency =
  ay_agents :: "(string \<times> 'h entry) list"
  ay_shut :: bool
  ay_world :: 'w

text \<open>
  The code around the agency. \<open>op_agnt_rem\<close> is the call \<open>adb.agnt.rem(key=caid)\<close>; \<open>op_close\<close> closes
  one of the databases of an agent; \<open>op_run\<close> is the scheduler's turn (\<open>DoDoer.recur\<close>), which is
  told which agents carry their shutdown flag; \<open>op_remove\<close> takes an agent out of the scheduler.
\<close>

record ('h, 'w) agency_env =
  op_habery :: "string \<Rightarrow> (string \<times> json) list option \<Rightarrow> string option \<Rightarrow> ('w, 'h) act"
  op_makeHab :: "'h \<Rightarrow> string \<Rightarrow> string \<Rightarrow> ('w, string) act"
  op_habByName :: "'h \<Rightarrow> string \<Rightarrow> 'w \<Rightarrow> string option"
  op_deleteHab :: "'h \<Rightarrow> string \<Rightarrow> ('w, unit) act"
  op_close :: "string \<Rightarrow> 'h \<Rightarrow> ('w, unit) act"
  op_extend :: "'h agent \<Rightarrow> ('w, unit) act"
  op_remove_doers :: "'h agent \<Rightarrow> ('w, unit) act"
  op_remove :: "'h agent \<Rightarrow> ('w, unit) act"
  op_run :: "'h agent list \<Rightarrow> ('w, unit) act"
  op_done :: "'w \<Rightarrow> 'h agent \<Rightarrow> bool"
  op_agnt_rem :: "string \<Rightarrow> ('w, unit) act"
  op_agnt :: "('w, string, string) suber"
  op_ctrl :: "('w, string, string) suber"
  op_aids :: "('w, string, string) suber"
  op_now :: "'w \<Rightarrow> int"
  op_nowIso :: "'w \<Rightarrow> string"
  op_config :: "(string \<times> json) list option"
  op_name :: string
  op_curls :: "json list option"
  op_iurls :: "json list option"
  op_durls :: "json list option"
  op_timeout :: int

definition ext :: "('w, 'a) act \<Rightarrow> (('h, 'w) agency, 'a) act" where
  "ext m = zoomA ay_world (\<lambda>w s. s\<lparr>ay_world := w\<rparr>) m"

definition set_entry :: "string \<Rightarrow> 'h entry \<Rightarrow> ('h, 'w) agency \<Rightarrow> ('h, 'w) agency" where
  "set_entry caid en s = s\<lparr>ay_agents := dict_set (ay_agents s) caid en\<rparr>"

definition del_entry :: "string \<Rightarrow> ('h, 'w) agency \<Rightarrow> ('h, 'w) agency" where
  "del_entry caid s = s\<lparr>ay_agents := dict_del (ay_agents s) caid\<rparr>"

text \<open>\<open>del self.agents[caid]\<close>.\<close>

definition delA :: "string \<Rightarrow> (('h, 'w) agency, unit) act" where
  "delA caid =
     bindA (getA (\<lambda>s. dict_get (ay_agents s) caid)) (\<lambda>en.
     seqA (guardA (en \<noteq> None) (KeyError caid)) (modA (del_entry caid)))"

subsection \<open>Configuration\<close>

text \<open>\<open>xs + ys\<close> for the URL lists: the configured value has to be a list.\<close>

definition add_urls :: "json \<Rightarrow> json list option \<Rightarrow> exn + json" where
  "add_urls v urls =
     (case urls of
        None \<Rightarrow> Inr v
      | Some us \<Rightarrow> (case v of JArr xs \<Rightarrow> Inr (JArr (xs @ us)) | _ \<Rightarrow> Inl TypeError))"

definition get_default :: "(string \<times> json) list \<Rightarrow> string \<Rightarrow> json \<Rightarrow> json" where
  "get_default d k v = (case dict_get d k of None \<Rightarrow> v | Some x \<Rightarrow> x)"

definition agent_name :: "string \<Rightarrow> string" where
  "agent_name caid = ''agent-'' @ caid"

definition loadConfigForAgent ::
  "('h, 'w) agency_env \<Rightarrow> string \<Rightarrow> string \<Rightarrow> exn + (string \<times> json) list" where
  "loadConfigForAgent env timestamp caid =
     (let config = (case op_config env of Some c \<Rightarrow> c | None \<Rightarrow> [(''dt'', JStr timestamp)]);
          habName = agent_name caid;
          config_name = (if op_name env \<noteq> [] then op_name env else ''keria'');
          config = (case dict_get config config_name of
                      Some v \<Rightarrow> dict_del (dict_set config habName v) config_name
                    | None \<Rightarrow> dict_set config habName (JObj []))
      in case dict_get config habName of
           Some (JObj sect) \<Rightarrow>
             (let sect = dict_set sect ''curls'' (get_default sect ''curls'' (JArr []));
                  sect = dict_set sect ''dt'' (get_default sect ''dt'' (JStr timestamp));
                  config = dict_set config ''iurls'' (get_default config ''iurls'' (JArr []));
                  config = dict_set config ''durls'' (get_default config ''durls'' (JArr []))
              in case add_urls (get_default sect ''curls'' JNull) (op_curls env) of
                   Inl e \<Rightarrow> Inl e
                 | Inr curls \<Rightarrow>
                     (let config = dict_set config habName (JObj (dict_set sect ''curls'' curls))
                      in case add_urls (get_default config ''iurls'' JNull) (op_iurls env) of
                           Inl e \<Rightarrow> Inl e
                         | Inr iurls \<Rightarrow>
                             (let config = dict_set config ''iurls'' iurls
                              in case add_urls (get_default config ''durls'' JNull) (op_durls env) of
                                   Inl e \<Rightarrow> Inl e
                                 | Inr durls \<Rightarrow> Inr (dict_set config ''durls'' durls))))
         | Some _ \<Rightarrow> Inl AttributeError
         | None \<Rightarrow> Inl (KeyError habName))"

subsection \<open>Creating, loading and finding agents\<close>

definition Agency_create ::
  "('h, 'w) agency_env \<Rightarrow> string \<Rightarrow> string option \<Rightarrow> (('h, 'w) agency, 'h agent) act" where
  "Agency_create env caid salt =
     bindA (ext (getA (op_nowIso env))) (\<lambda>timestamp.
     bindA (liftA (loadConfigForAgent env timestamp caid)) (\<lambda>config.
     bindA (ext (op_habery env caid (Some config) salt)) (\<lambda>hby.
     bindA (ext (op_makeHab env hby (agent_name caid) caid)) (\<lambda>pre.
     bindA (retA \<lparr>ag_caid = caid, ag_pre = pre, ag_hby = hby\<rparr>) (\<lambda>agent.
     bindA (ext (getA (op_now env))) (\<lambda>now.
     bindA (ext (pinS (op_agnt env) caid (ag_pre agent))) (\<lambda>_.
     bindA (ext (pinS (op_ctrl env) (ag_pre agent) caid)) (\<lambda>_.
     seqA (modA (set_entry caid \<lparr>en_agent = agent, en_last = now, en_shut = False\<rparr>))
     (seqA (ext (op_extend env agent)) (retA agent))))))))))"

definition Agency_get ::
  "('h, 'w) agency_env \<Rightarrow> string \<Rightarrow> (('h, 'w) agency, 'h agent option) act" where
  "Agency_get env caid =
     bindA (getA (\<lambda>s. dict_get (ay_agents s) caid)) (\<lambda>en.
     case en of
       Some en \<Rightarrow>
         bindA (ext (getA (op_now env))) (\<lambda>now.
         seqA (modA (set_entry caid (en\<lparr>en_last := now\<rparr>))) (retA (Some (en_agent en))))
     | None \<Rightarrow>
         bindA (ext (getS (op_agnt env) caid)) (\<lambda>aaid.
         case aaid of
           None \<Rightarrow> retA None
         | Some aaid \<Rightarrow>
             bindA (ext (op_habery env caid None None)) (\<lambda>hby.
             bindA (ext (getA (op_habByName env hby (agent_name caid)))) (\<lambda>hab.
             case hab of
               None \<Rightarrow> raiseA AttributeError
             | Some pre \<Rightarrow>
                 seqA (guardA (aaid = pre)
                   (ConfigurationError (''invalid agent aid='' @ aaid @ ''/'' @ pre @ '' to controller aid='' @ caid)))
                 (bindA (retA \<lparr>ag_caid = caid, ag_pre = pre, ag_hby = hby\<rparr>) (\<lambda>agent.
                  bindA (ext (getA (op_now env))) (\<lambda>now.
                  seqA (modA (set_entry caid \<lparr>en_agent = agent, en_last = now, en_shut = False\<rparr>))
                  (seqA (ext (op_extend env agent)) (retA (Some agent))))))))))"

definition is_configuration_error :: "exn \<Rightarrow> bool" where
  "is_configuration_error e = (case e of ConfigurationError _ \<Rightarrow> True | _ \<Rightarrow> False)"

definition Agency_lookup ::
  "('h, 'w) agency_env \<Rightarrow> string \<Rightarrow> (('h, 'w) agency, 'h agent option) act" where
  "Agency_lookup env pre =
     bindA (ext (getS (op_aids env) pre)) (\<lambda>managed.
     bindA (ext (getS (op_ctrl env) pre)) (\<lambda>agentaid.
     case (case managed of Some c \<Rightarrow> Some c | None \<Rightarrow> agentaid) of
       None \<Rightarrow> retA None
     | Some caid \<Rightarrow>
         catchA (Agency_get env caid)
           (\<lambda>e. if is_configuration_error e then Some (retA None) else None)))"

text \<open>
  \<open>Agency.incept\<close> writes the agency's database only: the endpoints of an agent call it on that
  database (\<open>incept_aid\<close>).
\<close>

definition incept_aid :: "('w, string, string) suber \<Rightarrow> string \<Rightarrow> string \<Rightarrow> ('w, unit) act" where
  "incept_aid aids caid pre = bindA (pinS aids pre caid) (\<lambda>_. retA ())"

definition Agency_incept ::
  "('h, 'w) agency_env \<Rightarrow> string \<Rightarrow> string \<Rightarrow> (('h, 'w) agency, unit) act" where
  "Agency_incept env caid pre = ext (incept_aid (op_aids env) caid pre)"

lemma Agency_incept_run:
  "Agency_incept env caid pre s = (Inr (), s\<lparr>ay_world := snd (spin (op_aids env) (ay_world s) pre caid)\<rparr>)"
  by (simp add: Agency_incept_def incept_aid_def ext_def zoomA_def)

subsection \<open>Removing agents\<close>

definition Agency_delete :: "('h, 'w) agency_env \<Rightarrow> 'h agent \<Rightarrow> (('h, 'w) agency, unit) act" where
  "Agency_delete env a =
     seqA (ext (op_agnt_rem env (ag_caid a)))
     (seqA (ext (op_deleteHab env (ag_hby a) (ag_caid a)))
     (seqA (ext (op_close env ''ks'' (ag_hby a)))
     (seqA (ext (op_close env ''hby'' (ag_hby a))) (delA (ag_caid a)))))"

text \<open>\<open>Agency.exit\<close>; \<open>DoDoer.remove\<close> calls it for every agent it takes out.\<close>

definition Agency_exit :: "(('h, 'w) agency, unit) act" where
  "Agency_exit = bindA (getA (\<lambda>s. ay_agents s = [] \<and> ay_shut s)) (\<lambda>over. guardA (\<not> over) KeyboardInterrupt)"

definition Agency_remove :: "('h, 'w) agency_env \<Rightarrow> 'h agent \<Rightarrow> (('h, 'w) agency, unit) act" where
  "Agency_remove env a = seqA (ext (op_remove env a)) Agency_exit"

definition is_lmdb_error :: "exn \<Rightarrow> bool" where
  "is_lmdb_error e = (e = LmdbError)"

definition Agency_shut :: "('h, 'w) agency_env \<Rightarrow> 'h agent \<Rightarrow> (('h, 'w) agency, unit) act" where
  "Agency_shut env a =
     seqA (ext (op_remove_doers env a))
     (seqA (Agency_remove env a)
     (seqA (delA (ag_caid a))
       (catchA
          (forA [''ks'', ''seeker'', ''exnseeker'', ''opr'', ''noter'', ''mbx'', ''rgy'', ''rb'', ''hby'']
             (\<lambda>db. ext (op_close env db (ag_hby a))))
          (\<lambda>e. if is_lmdb_error e then Some (retA ()) else None))))"

definition release_one :: "('h, 'w) agency_env \<Rightarrow> string \<Rightarrow> (('h, 'w) agency, unit) act" where
  "release_one env caid =
     bindA (getA (\<lambda>s. dict_get (ay_agents s) caid)) (\<lambda>en.
     case en of None \<Rightarrow> raiseA (KeyError caid) | Some en \<Rightarrow> Agency_shut env (en_agent en))"

definition Releaser_recur :: "('h, 'w) agency_env \<Rightarrow> (('h, 'w) agency, unit) act" where
  "Releaser_recur env =
     bindA (getA (\<lambda>s. map fst (filter (\<lambda>(caid, en). op_now env (ay_world s) - en_last en > op_timeout env)
                            (ay_agents s)))) (\<lambda>idle.
     forA idle (release_one env))"

subsection \<open>Shutting down\<close>

definition shutdown_one :: "('h, 'w) agency_env \<Rightarrow> string \<Rightarrow> (('h, 'w) agency, unit) act" where
  "shutdown_one env caid =
     bindA (getA (\<lambda>s. dict_get (ay_agents s) caid)) (\<lambda>en.
     case en of
       None \<Rightarrow> raiseA (KeyError caid)
     | Some en \<Rightarrow>
         seqA (modA (set_entry caid (en\<lparr>en_shut := True\<rparr>)))
         (bindA (ext (getA (\<lambda>w. op_done env w (en_agent en)))) (\<lambda>finished.
          whenA finished (seqA (Agency_remove env (en_agent en)) (delA caid)))))"

definition shutdownAgency :: "('h, 'w) agency_env \<Rightarrow> (('h, 'w) agency, unit) act" where
  "shutdownAgency env =
     bindA (getA (\<lambda>s. map fst (ay_agents s))) (\<lambda>caids. forA caids (shutdown_one env))"

definition flagged :: "('h, 'w) agency \<Rightarrow> 'h agent list" where
  "flagged s = map (en_agent \<circ> snd) (filter (\<lambda>(_, en). en_shut en) (ay_agents s))"

definition Agency_recur :: "('h, 'w) agency_env \<Rightarrow> (('h, 'w) agency, bool) act" where
  "Agency_recur env =
     bindA (getA (\<lambda>s. (ay_shut s, ay_agents s = []))) (\<lambda>(shut, none).
     if shut \<and> none then retA True
     else
       seqA (whenA (shut \<and> \<not> none) (shutdownAgency env))
       (bindA (getA flagged) (\<lambda>fl. seqA (ext (op_run env fl)) (retA False))))"

text \<open>
  \<open>Agent.recur\<close> and \<open>shutdownAgent\<close>: every database is closed, whether or not the ones before it
  could be.
\<close>

definition shutdownAgent :: "('h, 'w) agency_env \<Rightarrow> 'h agent \<Rightarrow> ('w, unit) act" where
  "shutdownAgent env a =
     seqA (op_remove_doers env a)
       (forA [''seeker'', ''exnseeker'', ''opr'', ''noter'', ''mbx'', ''reger'', ''rb'', ''hby'']
          (\<lambda>db. catchA (op_close env db (ag_hby a)) (\<lambda>e. if is_lmdb_error e then Some (retA ()) else None)))"

definition Agent_recur ::
  "('h, 'w) agency_env \<Rightarrow> ('w, unit) act \<Rightarrow> 'h entry \<Rightarrow> ('w, bool) act" where
  "Agent_recur env super_recur en =
     (if en_shut en then seqA (shutdownAgent env (en_agent en)) (retA True)
      else seqA super_recur (retA False))"

text \<open>\<open>GracefulShutdownDoer\<close>: its signal handlers set a flag, and its turn passes it on.\<close>

definition GracefulShutdownDoer_recur ::
  "bool \<Rightarrow> (('h, 'w) agency, bool) act" where
  "GracefulShutdownDoer_recur shutdown_received =
     (if shutdown_received then seqA (modA (\<lambda>s. s\<lparr>ay_shut := True\<rparr>)) (retA True) else retA False)"

subsection \<open>Evaluation\<close>

lemma ext_run: "ext m s = (fst (m (ay_world s)), s\<lparr>ay_world := snd (m (ay_world s))\<rparr>)"
  by (simp add: ext_def zoomA_def split_beta)

lemma ext_cases:
  assumes "ext m s = (r, s')"
  obtains w' where "m (ay_world s) = (r, w')" and "s' = s\<lparr>ay_world := w'\<rparr>"
  using assms by (cases "m (ay_world s)") (auto simp: ext_run)

lemma bindA_ext_getA [simp]: "bindA (ext (getA f)) g s = g (f (ay_world s)) s"
  by (simp add: bindA_def ext_run)

lemma bindA_ext_getS [simp]: "bindA (ext (getS d k)) g s = g (sget d (ay_world s) k) s"
  by (simp add: bindA_def ext_run)

lemma bindA_ext_pinS [simp]:
  "bindA (ext (pinS d k v)) g s =
     g (fst (spin d (ay_world s) k v)) (s\<lparr>ay_world := snd (spin d (ay_world s) k v)\<rparr>)"
  by (simp add: bindA_def ext_run)

lemma bindA_extI: "m (ay_world s) = (Inr x, w') \<Longrightarrow> bindA (ext m) g s = g x (s\<lparr>ay_world := w'\<rparr>)"
  by (simp add: bindA_def ext_run)

lemma bindA_delA:
  "bindA (delA caid) g s =
     (if dict_get (ay_agents s) caid = None then (Inl (KeyError caid), s) else g () (del_entry caid s))"
  by (simp add: delA_def bindA_guardA)

lemma set_entry_sel [simp]:
  "ay_agents (set_entry caid en s) = dict_set (ay_agents s) caid en"
  "ay_shut (set_entry caid en s) = ay_shut s" "ay_world (set_entry caid en s) = ay_world s"
  by (simp_all add: set_entry_def)

lemma del_entry_sel [simp]:
  "ay_agents (del_entry caid s) = dict_del (ay_agents s) caid"
  "ay_shut (del_entry caid s) = ay_shut s" "ay_world (del_entry caid s) = ay_world s"
  by (simp_all add: del_entry_def)

subsection \<open>Finding an agent again\<close>

text \<open>An agent in the cache is returned without touching the database or the world.\<close>

lemma Agency_get_cached:
  "dict_get (ay_agents s) caid = Some en \<Longrightarrow>
   Agency_get env caid s =
     (Inr (Some (en_agent en)), set_entry caid (en\<lparr>en_last := op_now env (ay_world s)\<rparr>) s)"
  by (simp add: Agency_get_def)

lemma Agency_get_caches:
  assumes "Agency_get env caid s = (Inr (Some g), s')"
  shows "\<exists>en. dict_get (ay_agents s') caid = Some en \<and> en_agent en = g"
  using assms
  by (auto simp: Agency_get_def guardA_def elim!: bindA_eq_InrD ext_cases split: option.splits if_splits)

interpretation agency: agent_source "Agency_get env"
proof
  fix c s g s'
  assume "Agency_get env c s = (Inr (Some g), s')"
  from Agency_get_caches [OF this] obtain en where "dict_get (ay_agents s') c = Some en" "en_agent en = g"
    by blast
  then show "\<exists>s''. Agency_get env c s' = (Inr (Some g), s'')" by (simp add: Agency_get_cached)
qed

text \<open>
  C1. The middleware over the agency: a request that reaches an endpoint either has an exempt path,
  or carries the agent of the controller it names, and every \<open>signify\<close> input of its signature
  header verified under the key of that controller, as that very agent holds it, over the
  request with its path quoted. The path the endpoint sees is the one that was sent.
\<close>

theorem middleware_authentic:
  assumes "au_get env = Agency_get aenv" and "\<not> rs_complete resp"
    and "process_request env allowed req resp s = (Inr (req', ctx, resp'), s')" and "\<not> rs_complete resp'"
  shows "req' = req \<and> resp' = resp \<and>
    (if \<exists>path \<in> set allowed. startswith (rq_path req) path then ctx = None
     else let q = req\<lparr>rq_path := quote (rq_path req)\<rparr> in
       \<exists>c g. ctx = Some (Some g) \<and> dict_get (rq_headers req) ''SIGNIFY-RESOURCE'' = Some c \<and>
         signify_inputs env q \<noteq> [] \<and> (\<forall>i \<in> set (signify_inputs env q). \<exists>w1. input_verified env q i c g w1))"
  using assms by (rule agency.let_through)

subsection \<open>An agency in memory\<close>

record mem_agency =
  w_agnt :: "(string, string) alist"
  w_ctrl :: "(string, string) alist"
  w_aids :: "(string, string) alist"
  w_finished :: "string list"

definition mem_agency_empty :: mem_agency where
  "mem_agency_empty = \<lparr>w_agnt = DAList.empty, w_ctrl = DAList.empty, w_aids = DAList.empty, w_finished = []\<rparr>"

definition mem_env :: "(string, mem_agency) agency_env" where
  "mem_env =
     \<lparr>op_habery = (\<lambda>caid _ _. retA caid),
      op_makeHab = (\<lambda>h _ _. retA (''A'' @ h)),
      op_habByName = (\<lambda>h _ _. Some (''A'' @ h)),
      op_deleteHab = (\<lambda>_ _. retA ()),
      op_close = (\<lambda>_ _. retA ()),
      op_extend = (\<lambda>_. retA ()),
      op_remove_doers = (\<lambda>_. retA ()),
      op_remove = (\<lambda>_. retA ()),
      op_run = (\<lambda>fl. modA (\<lambda>w. w\<lparr>w_finished := map ag_caid fl @ w_finished w\<rparr>)),
      op_done = (\<lambda>w a. ag_caid a \<in> set (w_finished w)),
      op_agnt_rem = (\<lambda>_. raiseA TypeError),
      op_agnt = mem_suber w_agnt (\<lambda>a w. w\<lparr>w_agnt := a\<rparr>),
      op_ctrl = mem_suber w_ctrl (\<lambda>a w. w\<lparr>w_ctrl := a\<rparr>),
      op_aids = mem_suber w_aids (\<lambda>a w. w\<lparr>w_aids := a\<rparr>),
      op_now = (\<lambda>_. 100000),
      op_nowIso = (\<lambda>_. ''2024-01-01T00:00:00.000000+00:00''),
      op_config = Some [(''dt'', JStr ''2022''), (''keria'', JObj [(''curls'', JArr [JStr ''http://a''])]),
                        (''iurls'', JArr [JStr ''http://i''])],
      op_name = ''keria'',
      op_curls = Some [JStr ''http://b''],
      op_iurls = Some [JStr ''http://j''],
      op_durls = None,
      op_timeout = 86400\<rparr>"

definition mem_start :: "(string, mem_agency) agency" where
  "mem_start = \<lparr>ay_agents = [], ay_shut = False, ay_world = mem_agency_empty\<rparr>"

definition mem_one :: "(string, mem_agency) agency" where
  "mem_one = \<lparr>ay_agents = [(''C'', \<lparr>en_agent = \<lparr>ag_caid = ''C'', ag_pre = ''AC'', ag_hby = ''C''\<rparr>,
                                    en_last = 0, en_shut = False\<rparr>)],
              ay_shut = False, ay_world = mem_agency_empty\<rparr>"

definition mem_auth :: "((string, mem_agency) agency, string agent, string) authenv" where
  "mem_auth =
     \<lparr>au_desiginput = au_desiginput demo_env, au_normalize = au_normalize demo_env,
      au_designature = au_designature demo_env, au_get = Agency_get mem_env,
      au_verfers = (\<lambda>_ g c. if c = ''C'' \<and> ag_pre g = ''AC'' then Some [\<lambda>sig ser. sig = ser] else None),
      au_pre = ag_pre, au_now = (\<lambda>s. op_nowIso mem_env (ay_world s)),
      au_siginput = (\<lambda>_ nm _ _ _ _ _ _. Inr ([(''Signature-Input'', nm)], ''sig'')),
      au_signature = au_signature demo_env\<rparr>"

lemma mem_auth_get [simp]: "au_get mem_auth = Agency_get mem_env"
  by (simp add: mem_auth_def)

lemma demo_let_through:
  "case process_request mem_auth [''/agent''] demo_request fresh_response mem_one of
     (Inr (req', ctx, resp'), _) \<Rightarrow> \<not> rs_complete resp' | _ \<Rightarrow> False"
  by code_simp

lemma mem_auth_inputs: "signify_inputs mem_auth demo_quoted = [demo_input]"
  by (simp add: signify_inputs_def mem_auth_def demo_env_def demo_quoted_def demo_request_def demo_input_def Let_def)

theorem middleware_authentic_witness:
  "\<exists>g s' w1. process_request mem_auth [''/agent''] demo_request fresh_response mem_one =
       (Inr (demo_request, Some (Some g), fresh_response), s') \<and>
     input_verified mem_auth demo_quoted demo_input ''C'' g w1"
proof -
  obtain r s' where run: "process_request mem_auth [''/agent''] demo_request fresh_response mem_one = (r, s')"
    by fastforce
  with demo_let_through obtain req' ctx resp' where r: "r = Inr (req', ctx, resp')" and open_: "\<not> rs_complete resp'"
    by (cases r) auto
  have path: "\<not> (\<exists>path \<in> set [''/agent'']. startswith (rq_path demo_request) path)"
    by (simp add: startswith_def demo_request_def Let_def)
  have c: "dict_get (rq_headers demo_request) ''SIGNIFY-RESOURCE'' = Some ''C''"
    by (simp add: demo_request_def Let_def)
  have "\<not> rs_complete fresh_response" by (simp add: fresh_response_def)
  from middleware_authentic [OF mem_auth_get this run [unfolded r] open_] path c mem_auth_inputs
  obtain g w1 where "req' = demo_request" "resp' = fresh_response" "ctx = Some (Some g)"
    "input_verified mem_auth demo_quoted demo_input ''C'' g w1"
    by (auto simp: demo_quoted_def Let_def)
  with run r show ?thesis by blast
qed

subsection \<open>Configuration of an agent\<close>

text \<open>
  An agent's configuration is the agency's with the agency's own section renamed to the
  agent's, and with the URLs of the environment appended to those of the file, in each of the
  three lists; every other section is copied as it is.
\<close>

theorem agent_config:
  assumes "op_config env = Some conf" and "op_name env = nm" and "nm \<noteq> []" and "nm \<noteq> agent_name caid"
    and "nm \<notin> {''iurls'', ''durls''}"
    and "dict_get conf nm = Some (JObj sect)"
    and "get_default sect ''curls'' (JArr []) = JArr cs" and "get_default conf ''iurls'' (JArr []) = JArr is"
    and "get_default conf ''durls'' (JArr []) = JArr ds"
    and "op_curls env = Some cs'" and "op_iurls env = Some is'" and "op_durls env = Some ds'"
  shows "\<exists>conf' sect'. loadConfigForAgent env ts caid = Inr conf' \<and>
    dict_get conf' nm = None \<and> dict_get conf' (agent_name caid) = Some (JObj sect') \<and>
    dict_get sect' ''curls'' = Some (JArr (cs @ cs')) \<and>
    dict_get conf' ''iurls'' = Some (JArr (is @ is')) \<and> dict_get conf' ''durls'' = Some (JArr (ds @ ds')) \<and>
    (\<forall>k. k \<notin> {''curls'', ''dt''} \<longrightarrow> dict_get sect' k = dict_get sect k) \<and>
    (\<forall>k. k \<notin> {nm, agent_name caid, ''iurls'', ''durls''} \<longrightarrow> dict_get conf' k = dict_get conf k)"
proof -
  have ne: "agent_name caid \<noteq> ''iurls''" "agent_name caid \<noteq> ''durls''" by (simp_all add: agent_name_def)
  have gd: "get_default (dict_del (dict_set conf (agent_name caid) v) nm) k d = get_default conf k d"
    if "k \<in> {''iurls'', ''durls''}" for k v d
    using that ne assms(5) by (auto simp: get_default_def)
  show ?thesis
    using assms ne
    by (auto simp: loadConfigForAgent_def Let_def add_urls_def gd get_default_def split: option.splits)
qed

theorem agent_config_witness:
  "\<exists>conf' sect'. loadConfigForAgent (mem_env\<lparr>op_durls := Some [JStr ''http://d'']\<rparr>) ''now'' ''C'' = Inr conf' \<and>
     dict_get conf' ''keria'' = None \<and> dict_get conf' ''agent-C'' = Some (JObj sect') \<and>
     dict_get sect' ''curls'' = Some (JArr [JStr ''http://a'', JStr ''http://b'']) \<and>
     dict_get conf' ''iurls'' = Some (JArr [JStr ''http://i'', JStr ''http://j'']) \<and>
     dict_get conf' ''durls'' = Some (JArr [JStr ''http://d''])"
  using agent_config [of "mem_env\<lparr>op_durls := Some [JStr ''http://d'']\<rparr>" _ "''keria''" "''C''"
      "[(''curls'', JArr [JStr ''http://a''])]" "[JStr ''http://a'']" "[JStr ''http://i'']" "[]"
      "[JStr ''http://b'']" "[JStr ''http://j'']" "[JStr ''http://d'']" "''now''"]
  by (auto simp: mem_env_def agent_name_def get_default_def)

subsection \<open>Creation and lookup\<close>

text \<open>Hypotheses about the code around the agency: its databases, and that the scheduler leaves them alone.\<close>

definition adb_ok :: "('h, 'w) agency_env \<Rightarrow> bool" where
  "adb_ok env \<longleftrightarrow>
     suber_ok (op_agnt env) \<and> suber_ok (op_ctrl env) \<and> suber_ok (op_aids env) \<and>
     frames (op_agnt env) (\<lambda>w. (sget (op_ctrl env) w, sget (op_aids env) w)) \<and>
     frames (op_ctrl env) (\<lambda>w. (sget (op_agnt env) w, sget (op_aids env) w)) \<and>
     frames (op_aids env) (\<lambda>w. (sget (op_agnt env) w, sget (op_ctrl env) w)) \<and>
     (\<forall>a w. fst (op_extend env a w) = Inr () \<and>
        sget (op_agnt env) (snd (op_extend env a w)) = sget (op_agnt env) w \<and>
        sget (op_ctrl env) (snd (op_extend env a w)) = sget (op_ctrl env) w \<and>
        sget (op_aids env) (snd (op_extend env a w)) = sget (op_aids env) w)"

lemma mem_env_ok: "adb_ok mem_env"
  unfolding adb_ok_def
  by (intro conjI; simp add: mem_env_def mem_suber_ok; intro mem_suber_frames; simp add: fun_eq_iff)

lemma Agency_create_run:
  assumes "Agency_create env caid salt s = (Inr a, s')"
  obtains w1 en where "ag_caid a = caid"
    and "en = \<lparr>en_agent = a, en_last = op_now env w1, en_shut = False\<rparr>"
    and "ay_agents s' = dict_set (ay_agents s) caid en" and "ay_shut s' = ay_shut s"
    and "ay_world s' = snd (op_extend env a (snd (spin (op_ctrl env)
            (snd (spin (op_agnt env) w1 caid (ag_pre a))) (ag_pre a) caid)))"
  using assms
  by (auto simp: Agency_create_def elim!: bindA_eq_InrD ext_cases)

text \<open>
  An agent that was created is found: by its controller, by its own identifier (which no managed
  identifier may have), and by every identifier incepted for its controller afterwards. Finding
  it changes nothing in the world, and its prefix is recorded for the controller.
\<close>

theorem created_agent_found:
  assumes "adb_ok env" and "Agency_create env caid salt s = (Inr a, s')"
    and "sget (op_aids env) (ay_world s') (ag_pre a) = None" and "Agency_incept env caid pre s' = (Inr u, s'')"
  shows "fst (Agency_get env caid s'') = Inr (Some a) \<and>
         (pre \<noteq> ag_pre a \<longrightarrow> fst (Agency_lookup env (ag_pre a) s'') = Inr (Some a)) \<and>
         fst (Agency_lookup env pre s'') = Inr (Some a) \<and>
         ay_world (snd (Agency_lookup env pre s'')) = ay_world s'' \<and>
         sget (op_agnt env) (ay_world s'') caid = Some (ag_pre a)"
proof -
  from Agency_create_run [OF assms(2)] obtain w1 en where
    a: "ag_caid a = caid" "en = \<lparr>en_agent = a, en_last = op_now env w1, en_shut = False\<rparr>"
      "ay_agents s' = dict_set (ay_agents s) caid en"
    and w: "ay_world s' = snd (op_extend env a (snd (spin (op_ctrl env)
            (snd (spin (op_agnt env) w1 caid (ag_pre a))) (ag_pre a) caid)))" .
  have ctrl: "sget (op_ctrl env) (ay_world s') (ag_pre a) = Some caid"
    and agnt: "sget (op_agnt env) (ay_world s') caid = Some (ag_pre a)"
    using assms(1) by (simp_all add: w adb_ok_def spin_ok frames_def)
  have s'': "s'' = s'\<lparr>ay_world := snd (spin (op_aids env) (ay_world s') pre caid)\<rparr>"
    using assms(4) by (simp add: Agency_incept_run)
  have get: "dict_get (ay_agents s'') caid = Some en" using a by (simp add: s'')
  have aids: "sget (op_aids env) (ay_world s'') = (sget (op_aids env) (ay_world s'))(pre \<mapsto> caid)"
    and ctrl'': "sget (op_ctrl env) (ay_world s'') = sget (op_ctrl env) (ay_world s')"
    and agnt'': "sget (op_agnt env) (ay_world s'') = sget (op_agnt env) (ay_world s')"
    using assms(1) by (simp_all add: s'' adb_ok_def spin_ok frames_def)
  have found: "Agency_lookup env p s'' = (Inr (Some a), set_entry caid (en\<lparr>en_last := op_now env (ay_world s'')\<rparr>) s'')"
    if "p = pre \<or> p = ag_pre a \<and> p \<noteq> pre" for p
    using that a(2) aids ctrl ctrl'' assms(3)
    by (auto simp: Agency_lookup_def catchA_def Agency_get_cached [OF get])
  show ?thesis
    using found Agency_get_cached [OF get, of env] a(2) agnt agnt'' by auto
qed

lemma demo_create:
  "case Agency_create mem_env ''C'' None mem_start of
     (Inr a, s') \<Rightarrow> sget (op_aids mem_env) (ay_world s') (ag_pre a) = None | _ \<Rightarrow> False"
  by code_simp

theorem created_agent_found_witness:
  "\<exists>a s' s''. Agency_create mem_env ''C'' None mem_start = (Inr a, s') \<and>
     Agency_incept mem_env ''C'' ''E1'' s' = (Inr (), s'') \<and> fst (Agency_lookup mem_env ''E1'' s'') = Inr (Some a)"
proof -
  from demo_create obtain a s' where c: "Agency_create mem_env ''C'' None mem_start = (Inr a, s')"
    and none: "sget (op_aids mem_env) (ay_world s') (ag_pre a) = None"
    by (cases "Agency_create mem_env ''C'' None mem_start") (auto split: sum.splits)
  have i: "Agency_incept mem_env ''C'' ''E1'' s' =
      (Inr (), s'\<lparr>ay_world := snd (spin (op_aids mem_env) (ay_world s') ''E1'' ''C'')\<rparr>)"
    by (rule Agency_incept_run)
  from created_agent_found [OF mem_env_ok c none i] c i show ?thesis by blast
qed

subsection \<open>No agent without its database entry\<close>

text \<open>
  Loading refuses an agent whose Habery holds another identifier than the one recorded for the
  controller, and such an agent is neither cached nor started; \<open>lookup\<close> turns the refusal into
  "not found".
\<close>

theorem mismatched_agent_refused:
  assumes "dict_get (ay_agents s) caid = None" and "sget (op_agnt env) (ay_world s) caid = Some aaid"
    and "op_habery env caid None None (ay_world s) = (Inr hby, w1)"
    and "op_habByName env hby (agent_name caid) w1 = Some pre" and "aaid \<noteq> pre"
    and "sget (op_aids env) (ay_world s) p = Some caid"
  shows "Agency_get env caid s =
           (Inl (ConfigurationError (''invalid agent aid='' @ aaid @ ''/'' @ pre @ '' to controller aid='' @ caid)),
            s\<lparr>ay_world := w1\<rparr>) \<and>
         Agency_lookup env p s = (Inr None, s\<lparr>ay_world := w1\<rparr>)"
proof -
  have "Agency_get env caid s =
      (Inl (ConfigurationError (''invalid agent aid='' @ aaid @ ''/'' @ pre @ '' to controller aid='' @ caid)),
       s\<lparr>ay_world := w1\<rparr>)"
    using assms by (simp add: Agency_get_def bindA_extI)
  then show ?thesis
    using assms by (simp add: Agency_lookup_def catchA_def is_configuration_error_def)
qed

theorem mismatched_agent_refused_witness:
  "Agency_get (mem_env\<lparr>op_habByName := \<lambda>_ _ _. Some ''AX''\<rparr>) ''C''
     (mem_start\<lparr>ay_world := snd (spin (op_aids mem_env) (snd (spin (op_agnt mem_env) mem_agency_empty ''C'' ''AC'')) ''E1'' ''C'')\<rparr>) =
   (Inl (ConfigurationError ''invalid agent aid=AC/AX to controller aid=C''),
    mem_start\<lparr>ay_world := snd (spin (op_aids mem_env) (snd (spin (op_agnt mem_env) mem_agency_empty ''C'' ''AC'')) ''E1'' ''C'')\<rparr>)"
proof -
  let ?w = "snd (spin (op_aids mem_env) (snd (spin (op_agnt mem_env) mem_agency_empty ''C'' ''AC'')) ''E1'' ''C'')"
  have "sget (op_agnt mem_env) ?w ''C'' = Some ''AC''" "sget (op_aids mem_env) ?w ''E1'' = Some ''C''"
    using mem_env_ok by (simp_all add: adb_ok_def frames_def spin_ok)
  then show ?thesis
    using mismatched_agent_refused [of "mem_start\<lparr>ay_world := ?w\<rparr>" "''C''" "mem_env\<lparr>op_habByName := \<lambda>_ _ _. Some ''AX''\<rparr>"
        "''AC''" "''C''" ?w "''AX''" "''E1''"]
    by (simp add: mem_start_def mem_env_def)
qed

subsection \<open>Graceful shutdown\<close>

text \<open>
  What the scheduler is documented to do: an agent can be taken out, and a turn lets every
  agent that carries its shutdown flag finish (its \<open>recur\<close> returns \<open>True\<close>); a finished agent
  stays finished.
\<close>

definition sched_ok :: "('h, 'w) agency_env \<Rightarrow> bool" where
  "sched_ok env \<longleftrightarrow>
     (\<forall>a w. fst (op_remove env a w) = Inr () \<and>
        (\<forall>b. op_done env (snd (op_remove env a w)) b = op_done env w b)) \<and>
     (\<forall>fl w. fst (op_run env fl w) = Inr () \<and> (\<forall>a \<in> set fl. op_done env (snd (op_run env fl w)) a))"

lemma mem_env_sched: "sched_ok mem_env"
  by (simp add: sched_ok_def mem_env_def)

lemma dict_get_fresh: "c \<notin> fst ` set xs \<Longrightarrow> dict_get (xs @ (c, en) # ys) c = Some en"
  by (induction xs) auto

lemma dict_set_fresh: "c \<notin> fst ` set xs \<Longrightarrow> dict_set (xs @ (c, en) # ys) c en' = xs @ (c, en') # ys"
  by (induction xs) auto

lemma dict_del_id: "c \<notin> fst ` set xs \<Longrightarrow> dict_del xs c = xs"
  by (induction xs) (auto simp: dict_del_def)

lemma dict_del_fresh:
  "c \<notin> fst ` set xs \<Longrightarrow> c \<notin> fst ` set ys \<Longrightarrow> dict_del (xs @ (c, en) # ys) c = xs @ ys"
  using dict_del_id [of c xs] dict_del_id [of c ys] by (simp add: dict_del_def)

lemma Agency_remove_run:
  assumes "sched_ok env" and "ay_agents s \<noteq> []"
  shows "Agency_remove env a s = (Inr (), s\<lparr>ay_world := snd (op_remove env a (ay_world s))\<rparr>)"
  using assms by (simp add: Agency_remove_def Agency_exit_def bindA_def ext_run sched_ok_def)

text \<open>The agents a shutdown turn keeps: those not finished, with their flag set.\<close>

definition kept :: "('h, 'w) agency_env \<Rightarrow> 'w \<Rightarrow> (string \<times> 'h entry) list \<Rightarrow> (string \<times> 'h entry) list" where
  "kept env w ens = map (\<lambda>(c, en). (c, en\<lparr>en_shut := True\<rparr>)) (filter (\<lambda>(_, en). \<not> op_done env w (en_agent en)) ens)"

lemma kept_keys: "fst ` set (kept env w ens) \<subseteq> fst ` set ens"
  by (force simp: kept_def)

lemma shutdown_one_run:
  assumes ok: "sched_ok env" and s: "ay_agents s = xs @ (c, en) # ys"
    and fresh: "c \<notin> fst ` set xs" "c \<notin> fst ` set ys"
  shows "\<exists>w'. shutdown_one env c s =
           (Inr (), s\<lparr>ay_agents := xs @ kept env (ay_world s) [(c, en)] @ ys, ay_world := w'\<rparr>) \<and>
         (\<forall>b. op_done env w' b = op_done env (ay_world s) b)"
proof (cases "op_done env (ay_world s) (en_agent en)")
  case True
  have w: "\<forall>b. op_done env (snd (op_remove env a (ay_world s))) b = op_done env (ay_world s) b" for a
    using ok by (simp add: sched_ok_def)
  let ?s = "set_entry c (en\<lparr>en_shut := True\<rparr>) s"
  have a: "ay_agents ?s = xs @ (c, en\<lparr>en_shut := True\<rparr>) # ys"
    by (simp add: s dict_set_fresh fresh)
  then have rem: "Agency_remove env (en_agent en) ?s = (Inr (), ?s\<lparr>ay_world := snd (op_remove env (en_agent en) (ay_world s))\<rparr>)"
    using Agency_remove_run [OF ok, of ?s "en_agent en"] by simp
  have "shutdown_one env c s = delA c (?s\<lparr>ay_world := snd (op_remove env (en_agent en) (ay_world s))\<rparr>)"
    by (simp add: shutdown_one_def s dict_get_fresh fresh True bindA_def [of "Agency_remove env (en_agent en)"] rem)
  also have "\<dots> = (Inr (), s\<lparr>ay_agents := xs @ ys, ay_world := snd (op_remove env (en_agent en) (ay_world s))\<rparr>)"
    by (simp add: delA_def a [unfolded set_entry_sel] dict_get_fresh dict_del_fresh fresh del_entry_def set_entry_def s dict_set_fresh)
  finally show ?thesis using True w by (auto simp: kept_def)
next
  case False
  then show ?thesis
    by (intro exI [of _ "ay_world s"])
      (simp add: shutdown_one_def s dict_get_fresh fresh kept_def set_entry_def dict_set_fresh)
qed

lemma shutdown_all_run:
  assumes ok: "sched_ok env"
  shows "ay_agents s = xs @ ys \<Longrightarrow> distinct (map fst ys) \<Longrightarrow> fst ` set xs \<inter> fst ` set ys = {} \<Longrightarrow>
    \<exists>w'. forA (map fst ys) (shutdown_one env) s =
           (Inr (), s\<lparr>ay_agents := xs @ kept env (ay_world s) ys, ay_world := w'\<rparr>) \<and>
         (\<forall>b. op_done env w' b = op_done env (ay_world s) b)"
proof (induction ys arbitrary: xs s)
  case Nil
  then show ?case by (intro exI [of _ "ay_world s"]) (simp add: kept_def)
next
  case (Cons y ys)
  obtain c en where y: "y = (c, en)" by fastforce
  have fresh: "c \<notin> fst ` set xs" "c \<notin> fst ` set ys" using Cons.prems(2,3) y by simp_all
  let ?k = "kept env (ay_world s) [(c, en)]"
  from shutdown_one_run [OF ok _ fresh, of s en] Cons.prems(1) y obtain w1 where
    one: "shutdown_one env c s = (Inr (), s\<lparr>ay_agents := xs @ ?k @ ys, ay_world := w1\<rparr>)"
    and w1: "\<forall>b. op_done env w1 b = op_done env (ay_world s) b" by auto
  have "fst ` set (xs @ ?k) \<inter> fst ` set ys = {}"
  proof -
    have "fst ` set ?k \<subseteq> {c}" using kept_keys [of env "ay_world s" "[(c, en)]"] by simp
    moreover have "fst ` set xs \<inter> fst ` set ys = {}" using Cons.prems(3) y by auto
    ultimately show ?thesis using fresh by (simp add: image_Un) blast
  qed
  from Cons.IH [OF _ _ this, of "s\<lparr>ay_agents := xs @ ?k @ ys, ay_world := w1\<rparr>"] Cons.prems(2) y obtain w2 where
    rest: "forA (map fst ys) (shutdown_one env) (s\<lparr>ay_agents := xs @ ?k @ ys, ay_world := w1\<rparr>) =
      (Inr (), s\<lparr>ay_agents := (xs @ ?k) @ kept env w1 ys, ay_world := w2\<rparr>)"
    and w2: "\<forall>b. op_done env w2 b = op_done env w1 b" by auto
  have "?k @ kept env w1 ys = kept env (ay_world s) (y # ys)"
    using w1 y by (simp add: kept_def)
  then show ?case
    using one rest w1 w2 y by (intro exI [of _ w2]) (simp add: bindA_Inr)
qed

lemma shutdownAgency_run:
  assumes "sched_ok env" and "distinct (map fst (ay_agents s))"
  obtains w' where "shutdownAgency env s = (Inr (), s\<lparr>ay_agents := kept env (ay_world s) (ay_agents s), ay_world := w'\<rparr>)"
    and "\<forall>b. op_done env w' b = op_done env (ay_world s) b"
  using shutdown_all_run [OF assms(1), of s "[]" "ay_agents s"] assms(2)
  by (auto simp: shutdownAgency_def)

text \<open>The turns of the agency until it says it is done, at most \<open>n\<close> of them.\<close>

fun agency_turns :: "('h, 'w) agency_env \<Rightarrow> nat \<Rightarrow> (('h, 'w) agency, bool) act" where
  "agency_turns env 0 = retA False"
| "agency_turns env (Suc n) = bindA (Agency_recur env) (\<lambda>d. if d then retA True else agency_turns env n)"

lemma Agency_recur_over: "ay_shut s \<Longrightarrow> ay_agents s = [] \<Longrightarrow> Agency_recur env s = (Inr True, s)"
  by (simp add: Agency_recur_def)

lemma Agency_recur_turn:
  assumes ok: "sched_ok env" and d: "distinct (map fst (ay_agents s))" and s: "ay_shut s" "ay_agents s \<noteq> []"
  obtains w' where
    "Agency_recur env s = (Inr False, s\<lparr>ay_agents := kept env (ay_world s) (ay_agents s), ay_world := w'\<rparr>)"
    and "\<forall>(c, en) \<in> set (kept env (ay_world s) (ay_agents s)). op_done env w' (en_agent en)"
proof -
  let ?k = "kept env (ay_world s) (ay_agents s)"
  from shutdownAgency_run [OF ok d] obtain w1 where
    w1: "shutdownAgency env s = (Inr (), s\<lparr>ay_agents := ?k, ay_world := w1\<rparr>)" by blast
  let ?s = "s\<lparr>ay_agents := ?k, ay_world := w1\<rparr>"
  have fl: "flagged ?s = map (en_agent \<circ> snd) ?k"
    by (simp add: flagged_def kept_def comp_def case_prod_unfold filter_map)
  let ?w2 = "snd (op_run env (flagged ?s) w1)"
  have run: "fst (op_run env (flagged ?s) w1) = Inr ()"
    using ok by (simp add: sched_ok_def)
  have "Agency_recur env s = (Inr False, s\<lparr>ay_agents := ?k, ay_world := ?w2\<rparr>)"
    using s by (simp add: Agency_recur_def bindA_def [of "shutdownAgency env"] w1)
      (simp add: bindA_def ext_run run)
  moreover have "\<forall>(c, en) \<in> set ?k. op_done env ?w2 (en_agent en)"
  proof (clarify)
    fix c en assume "(c, en) \<in> set ?k"
    then have "en_agent en \<in> set (flagged ?s)" unfolding fl by force
    then show "op_done env ?w2 (en_agent en)" using ok by (simp add: sched_ok_def)
  qed
  ultimately show thesis by (rule that)
qed

lemma shutdown_turns:
  assumes "sched_ok env" and "distinct (map fst (ay_agents s))" and "ay_shut s"
  shows "\<exists>s'. agency_turns env 3 s = (Inr True, s') \<and> ay_agents s' = [] \<and>
              fst (Agency_exit s') = Inl KeyboardInterrupt \<and>
         (\<forall>s1. Agency_recur env s = (Inr False, s1) \<longrightarrow>
            (\<forall>(c, en) \<in> set (ay_agents s). \<not> op_done env (ay_world s) (en_agent en) \<longrightarrow>
               c \<in> fst ` set (ay_agents s1)))"
proof (cases "ay_agents s = []")
  case True
  then show ?thesis using assms(3)
    by (intro exI [of _ s]) (simp add: numeral_3_eq_3 bindA_Inr [OF Agency_recur_over] Agency_recur_over Agency_exit_def bindA_guardA)
next
  case False
  let ?k = "kept env (ay_world s) (ay_agents s)"
  from Agency_recur_turn [OF assms False] obtain w1 where
    one: "Agency_recur env s = (Inr False, s\<lparr>ay_agents := ?k, ay_world := w1\<rparr>)"
    and finished: "\<forall>(c, en) \<in> set ?k. op_done env w1 (en_agent en)" by blast
  let ?s1 = "s\<lparr>ay_agents := ?k, ay_world := w1\<rparr>"
  have keep: "c \<in> fst ` set ?k" if "(c, en) \<in> set (ay_agents s)" "\<not> op_done env (ay_world s) (en_agent en)" for c en
    using that by (force simp: kept_def image_image)
  have d1: "distinct (map fst (ay_agents ?s1))"
    using assms(2) by (simp add: kept_def comp_def split_beta distinct_map_filter)
  have none: "kept env w1 ?k = []"
    using finished by (auto simp: kept_def [of env w1] filter_empty_conv)
  have "\<exists>s'. agency_turns env 2 ?s1 = (Inr True, s') \<and> ay_agents s' = [] \<and> ay_shut s'"
  proof (cases "?k = []")
    case True
    then show ?thesis using assms(3)
      by (intro exI [of _ ?s1]) (simp add: numeral_2_eq_2 bindA_Inr [OF Agency_recur_over])
  next
    case False
    from Agency_recur_turn [OF assms(1) d1, of] assms(3) False none obtain w2 where
      two: "Agency_recur env ?s1 = (Inr False, s\<lparr>ay_agents := [], ay_world := w2\<rparr>)" by auto
    show ?thesis using assms(3)
      by (intro exI [of _ "s\<lparr>ay_agents := [], ay_world := w2\<rparr>"])
        (simp add: numeral_2_eq_2 bindA_def [of "Agency_recur env"] two Agency_recur_over)
  qed
  then obtain s' where "agency_turns env 2 ?s1 = (Inr True, s')" "ay_agents s' = []" "ay_shut s'" by blast
  then show ?thesis using one keep
    by (intro exI [of _ s'])
      (auto simp: numeral_3_eq_3 numeral_2_eq_2 bindA_def [of "Agency_recur env" _ s] one Agency_exit_def bindA_guardA)
qed

text \<open>
  C4. Once the shutdown flag of the agency is set, it says it is done within three turns, whatever
  agents it holds; then no agent is left, and the exit that follows ends the process. On the
  way no agent is dropped before it has finished.
\<close>

theorem shutdown_completes:
  assumes "sched_ok env" and "distinct (map fst (ay_agents s))" and "ay_shut s"
  shows "\<exists>s'. agency_turns env 3 s = (Inr True, s') \<and> ay_agents s' = [] \<and>
              fst (Agency_exit s') = Inl KeyboardInterrupt \<and>
         (\<forall>s1. Agency_recur env s = (Inr False, s1) \<longrightarrow>
            (\<forall>(c, en) \<in> set (ay_agents s). \<not> op_done env (ay_world s) (en_agent en) \<longrightarrow>
               c \<in> fst ` set (ay_agents s1)))"
  using assms by (rule shutdown_turns)

theorem shutdown_completes_witness:
  "\<exists>s'. agency_turns mem_env 3 (mem_one\<lparr>ay_shut := True\<rparr>) = (Inr True, s') \<and> ay_agents s' = [] \<and>
        fst (Agency_exit s') = Inl KeyboardInterrupt"
proof -
  have "distinct (map fst (ay_agents (mem_one\<lparr>ay_shut := True\<rparr>)))" "ay_shut (mem_one\<lparr>ay_shut := True\<rparr>)"
    by (simp_all add: mem_one_def)
  from shutdown_completes [OF mem_env_sched this] show ?thesis by blast
qed

subsection \<open>Releasing idle agents\<close>

definition agency_inv :: "('h, 'w) agency \<Rightarrow> bool" where
  "agency_inv s \<longleftrightarrow>
     distinct (map fst (ay_agents s)) \<and>
     (\<forall>c en. dict_get (ay_agents s) c = Some en \<longrightarrow> ag_caid (en_agent en) = c \<and> (en_shut en \<longrightarrow> ay_shut s))"

definition release_ok :: "('h, 'w) agency_env \<Rightarrow> bool" where
  "release_ok env \<longleftrightarrow>
     (\<forall>a w. fst (op_remove_doers env a w) = Inr () \<and> fst (op_remove env a w) = Inr ()) \<and>
     (\<forall>db h w. fst (op_close env db h w) \<in> {Inr (), Inl LmdbError})"

lemma closing_run:
  assumes "release_ok env"
  shows "\<exists>w'. catchA (forA dbs (\<lambda>db. ext (op_close env db h)))
           (\<lambda>e. if is_lmdb_error e then Some (retA ()) else None) s = (Inr (), s\<lparr>ay_world := w'\<rparr>)"
proof -
  have "\<exists>r w'. forA dbs (\<lambda>db. ext (op_close env db h)) s = (r, s\<lparr>ay_world := w'\<rparr>) \<and> r \<in> {Inr (), Inl LmdbError}"
  proof (induction dbs arbitrary: s)
    case Nil
    show ?case by (intro exI [of _ "Inr ()"] exI [of _ "ay_world s"]) simp
  next
    case (Cons db dbs)
    obtain r w1 where c: "op_close env db h (ay_world s) = (r, w1)" by fastforce
    then have "r \<in> {Inr (), Inl LmdbError}" using assms unfolding release_ok_def by (metis fst_conv)
    with c Cons [of "s\<lparr>ay_world := w1\<rparr>"] show ?case
      by (auto simp: bindA_def ext_run)
  qed
  then show ?thesis by (auto simp: catchA_def is_lmdb_error_def)
qed

lemma Agency_shut_run:
  assumes "release_ok env" and "dict_get (ay_agents s) (ag_caid a) \<noteq> None"
  obtains w' where "Agency_shut env a s =
      (Inr (), s\<lparr>ay_agents := dict_del (ay_agents s) (ag_caid a), ay_world := w'\<rparr>)"
proof -
  have ne: "ay_agents s \<noteq> []" using assms(2) by auto
  let ?w1 = "snd (op_remove_doers env a (ay_world s))"
  let ?w2 = "snd (op_remove env a ?w1)"
  obtain w' where close: "catchA (forA [''ks'', ''seeker'', ''exnseeker'', ''opr'', ''noter'', ''mbx'', ''rgy'', ''rb'', ''hby'']
             (\<lambda>db. ext (op_close env db (ag_hby a))))
          (\<lambda>e. if is_lmdb_error e then Some (retA ()) else None) (del_entry (ag_caid a) (s\<lparr>ay_world := ?w2\<rparr>)) =
       (Inr (), del_entry (ag_caid a) (s\<lparr>ay_world := ?w2\<rparr>)\<lparr>ay_world := w'\<rparr>)"
    using closing_run [OF assms(1)] by blast
  have "Agency_shut env a s = (Inr (), del_entry (ag_caid a) (s\<lparr>ay_world := ?w2\<rparr>)\<lparr>ay_world := w'\<rparr>)"
    using assms ne
    by (simp add: Agency_shut_def Agency_remove_def Agency_exit_def bindA_def [of "ext m" for m] ext_run
        release_ok_def bindA_guardA bindA_delA close del: forA.simps)
  then show thesis by (intro that) (simp add: del_entry_def)
qed

lemma dict_del_filter: "dict_del (filter P d) c = filter (\<lambda>x. P x \<and> fst x \<noteq> c) d"
  by (auto simp: dict_del_def case_prod_unfold conj_commute)

lemma shut_all_run:
  assumes "release_ok env"
  shows "agency_inv s \<Longrightarrow> distinct cs \<Longrightarrow> (\<forall>c \<in> set cs. dict_get (ay_agents s) c \<noteq> None) \<Longrightarrow>
    \<exists>w'. forA cs (release_one env) s =
     (Inr (), s\<lparr>ay_agents := filter (\<lambda>x. fst x \<notin> set cs) (ay_agents s), ay_world := w'\<rparr>)"
proof (induction cs arbitrary: s)
  case Nil
  then show ?case by (intro exI [of _ "ay_world s"]) simp
next
  case (Cons c cs)
  then obtain en where en: "dict_get (ay_agents s) c = Some en" by auto
  then have c: "ag_caid (en_agent en) = c" using Cons.prems(1) by (auto simp: agency_inv_def)
  from Agency_shut_run [OF assms, of s "en_agent en"] en c obtain w1 where
    one: "Agency_shut env (en_agent en) s = (Inr (), s\<lparr>ay_agents := dict_del (ay_agents s) c, ay_world := w1\<rparr>)"
    by auto
  let ?s = "s\<lparr>ay_agents := dict_del (ay_agents s) c, ay_world := w1\<rparr>"
  have "distinct (map fst (dict_del (ay_agents s) c))"
    using Cons.prems(1) by (simp add: agency_inv_def dict_del_def distinct_map_filter)
  then have "agency_inv ?s" using Cons.prems(1) by (auto simp: agency_inv_def)
  moreover have "\<forall>d \<in> set cs. dict_get (ay_agents ?s) d \<noteq> None"
  proof
    fix d assume "d \<in> set cs"
    with Cons.prems(2,3) have "d \<noteq> c" "dict_get (ay_agents s) d \<noteq> None" by auto
    then show "dict_get (ay_agents ?s) d \<noteq> None" by simp
  qed
  moreover have "distinct cs" using Cons.prems(2) by simp
  ultimately obtain w2 where
    rest: "forA cs (release_one env) ?s =
     (Inr (), ?s\<lparr>ay_agents := filter (\<lambda>x. fst x \<notin> set cs) (dict_del (ay_agents s) c), ay_world := w2\<rparr>)"
    using Cons.IH [of ?s] by auto
  have "filter (\<lambda>x. fst x \<notin> set cs) (dict_del (ay_agents s) c) = filter (\<lambda>x. fst x \<notin> set (c # cs)) (ay_agents s)"
    by (auto simp: dict_del_def case_prod_unfold intro: filter_cong)
  moreover have "release_one env c s = (Inr (), ?s)"
    using en one by (simp add: release_one_def)
  ultimately show ?case
    using rest by (intro exI [of _ w2]) (simp add: bindA_def [of "release_one env c"])
qed

definition idle_for :: "('h, 'w) agency_env \<Rightarrow> 'w \<Rightarrow> 'h entry \<Rightarrow> bool" where
  "idle_for env w en \<longleftrightarrow> op_now env w - en_last en > op_timeout env"

text \<open>
  A turn of the releaser shuts exactly the agents that have been idle for longer than the
  timeout, and keeps the others as they are and in order; that a database is closed already
  does not stop it.
\<close>

theorem releaser_releases_idle:
  assumes "release_ok env" and "agency_inv s"
  shows "\<exists>w'. Releaser_recur env s =
           (Inr (), s\<lparr>ay_agents := filter (\<lambda>(_, en). \<not> idle_for env (ay_world s) en) (ay_agents s), ay_world := w'\<rparr>)"
proof -
  let ?idle = "map fst (filter (\<lambda>(caid, en). op_now env (ay_world s) - en_last en > op_timeout env) (ay_agents s))"
  have d: "distinct (map fst (ay_agents s))" using assms(2) by (simp add: agency_inv_def)
  then have "distinct ?idle" by (simp add: distinct_map_filter)
  moreover have "\<forall>c \<in> set ?idle. dict_get (ay_agents s) c \<noteq> None"
    by (auto simp: dict_get_map_of map_of_eq_None_iff intro: rev_image_eqI)
  ultimately obtain w' where w': "Releaser_recur env s =
      (Inr (), s\<lparr>ay_agents := filter (\<lambda>x. fst x \<notin> set ?idle) (ay_agents s), ay_world := w'\<rparr>)"
    using shut_all_run [OF assms, of ?idle] by (auto simp: Releaser_recur_def)
  have "filter (\<lambda>x. fst x \<notin> set ?idle) (ay_agents s) = filter (\<lambda>(_, en). \<not> idle_for env (ay_world s) en) (ay_agents s)"
  proof (rule filter_cong [OF refl])
    fix x assume "x \<in> set (ay_agents s)"
    then show "(fst x \<notin> set ?idle) = (case x of (_, en) \<Rightarrow> \<not> idle_for env (ay_world s) en)"
      using d by (cases x) (auto simp: idle_for_def image_iff dest: map_of_eq_Some_iff [THEN iffD2] eq_key_imp_eq_value)
  qed
  with w' show ?thesis by auto
qed

lemma mem_env_release: "release_ok mem_env"
  by (simp add: release_ok_def mem_env_def)

theorem releaser_releases_idle_witness:
  "\<exists>w'. Releaser_recur mem_env mem_one = (Inr (), mem_one\<lparr>ay_agents := [], ay_world := w'\<rparr>)"
proof -
  have inv: "agency_inv mem_one" by (simp add: agency_inv_def mem_one_def)
  show ?thesis
    using releaser_releases_idle [OF mem_env_release inv]
    by (simp add: mem_one_def mem_env_def idle_for_def)
qed

subsection \<open>The agency as a state machine\<close>

text \<open>
  Everything that happens to the agency, in any order and whatever it raises: requests that
  create, load, look up, register or delete, the turns of the releaser and of the agency, and
  the signal that asks for the shutdown.
\<close>

inductive agency_step :: "('h, 'w) agency_env \<Rightarrow> ('h, 'w) agency \<Rightarrow> ('h, 'w) agency \<Rightarrow> bool"
  for env :: "('h, 'w) agency_env" where
  create: "Agency_create env caid salt s = (r, s') \<Longrightarrow> agency_step env s s'"
| get: "Agency_get env caid s = (r, s') \<Longrightarrow> agency_step env s s'"
| lookup: "Agency_lookup env pre s = (r, s') \<Longrightarrow> agency_step env s s'"
| incept: "Agency_incept env caid pre s = (r, s') \<Longrightarrow> agency_step env s s'"
| delete: "Agency_delete env a s = (r, s') \<Longrightarrow> agency_step env s s'"
| shut: "Agency_shut env a s = (r, s') \<Longrightarrow> agency_step env s s'"
| release: "Releaser_recur env s = (r, s') \<Longrightarrow> agency_step env s s'"
| turn: "Agency_recur env s = (r, s') \<Longrightarrow> agency_step env s s'"
| signal: "GracefulShutdownDoer_recur received s = (r, s') \<Longrightarrow> agency_step env s s'"
| other: "agency_step env s (s\<lparr>ay_world := w\<rparr>)"

inductive_cases agency_stepE: "agency_step env s s'"

lemma bindA_retA_eq: "bindA (retA x) f = f x"
  by (rule ext) simp

lemma keeps_bind_getA:
  "(\<And>s. P s \<Longrightarrow> P (snd (g (f s) s))) \<Longrightarrow> keeps P (bindA (getA f) g)"
  by (simp add: keeps_def)

lemma keeps_ext: "(\<And>s w. P (s\<lparr>ay_world := w\<rparr>) = P s) \<Longrightarrow> keeps P (ext m)"
  by (simp add: keeps_def ext_run)

definition shut_inv :: "bool \<Rightarrow> ('h, 'w) agency \<Rightarrow> bool" where
  "shut_inv b s \<longleftrightarrow> agency_inv s \<and> (b \<longrightarrow> ay_shut s)"

lemma keeps_ext_inv [wp]: "keeps (shut_inv b) (ext m)"
  by (rule keeps_ext) (simp add: shut_inv_def agency_inv_def)

lemma shut_inv_set:
  "shut_inv b s \<Longrightarrow> ag_caid (en_agent en) = caid \<Longrightarrow> (en_shut en \<Longrightarrow> ay_shut s) \<Longrightarrow>
   shut_inv b (set_entry caid en s)"
  by (auto simp: shut_inv_def agency_inv_def)

lemma shut_inv_entry:
  "shut_inv b s \<Longrightarrow> dict_get (ay_agents s) caid = Some en \<Longrightarrow>
   ag_caid (en_agent en) = caid \<and> (en_shut en \<longrightarrow> ay_shut s)"
  by (auto simp: shut_inv_def agency_inv_def)

lemma keeps_set_new [wp]:
  "keeps (shut_inv b) (modA (set_entry caid \<lparr>en_agent = \<lparr>ag_caid = caid, ag_pre = p, ag_hby = h\<rparr>,
                                            en_last = t, en_shut = False\<rparr>))"
  by (rule keeps_modA) (erule shut_inv_set; simp)

lemma keeps_delA [wp]: "keeps (shut_inv b) (delA caid)"
  unfolding delA_def
  by (intro wp keeps_modA) (auto simp: shut_inv_def agency_inv_def)

lemma keeps_create: "keeps (shut_inv b) (Agency_create env caid salt)"
  unfolding Agency_create_def bindA_retA_eq by (intro wp)

lemma keeps_get: "keeps (shut_inv b) (Agency_get env caid)"
  unfolding Agency_get_def bindA_retA_eq
proof (rule keeps_bind_getA, goal_cases)
  case (1 s)
  show ?case
  proof (cases "dict_get (ay_agents s) caid")
    case None
    have "keeps (shut_inv b) (bindA (ext (getS (op_agnt env) caid)) (\<lambda>aaid.
         case aaid of
           None \<Rightarrow> retA None
         | Some aaid \<Rightarrow>
             bindA (ext (op_habery env caid None None)) (\<lambda>hby.
             bindA (ext (getA (op_habByName env hby (agent_name caid)))) (\<lambda>hab.
             case hab of
               None \<Rightarrow> raiseA AttributeError
             | Some pre \<Rightarrow>
                 seqA (guardA (aaid = pre)
                   (ConfigurationError (''invalid agent aid='' @ aaid @ ''/'' @ pre @ '' to controller aid='' @ caid)))
                 (bindA (ext (getA (op_now env))) (\<lambda>now.
                  seqA (modA (set_entry caid \<lparr>en_agent = \<lparr>ag_caid = caid, ag_pre = pre, ag_hby = hby\<rparr>, en_last = now, en_shut = False\<rparr>))
                  (seqA (ext (op_extend env \<lparr>ag_caid = caid, ag_pre = pre, ag_hby = hby\<rparr>))
                    (retA (Some \<lparr>ag_caid = caid, ag_pre = pre, ag_hby = hby\<rparr>)))))))))"
      by (intro wp)
    then show ?thesis using 1 None by (simp add: keeps_def)
  next
    case (Some en)
    have "shut_inv b (set_entry caid (en\<lparr>en_last := op_now env (ay_world s)\<rparr>) s)"
      using shut_inv_entry [OF 1 Some] by (intro shut_inv_set [OF 1]) auto
    with Some show ?thesis by simp
  qed
qed

lemma keeps_lookup: "keeps (shut_inv b) (Agency_lookup env pre)"
  unfolding Agency_lookup_def by (intro wp keeps_get) (auto split: if_splits intro: wp)

lemma keeps_exit [wp]: "keeps (shut_inv b) Agency_exit"
  unfolding Agency_exit_def by (intro wp)

lemma keeps_shut [wp]: "keeps (shut_inv b) (Agency_shut env a)"
  unfolding Agency_shut_def Agency_remove_def by (intro wp) (auto split: if_splits intro: wp)

lemma keeps_release: "keeps (shut_inv b) (Releaser_recur env)"
  unfolding Releaser_recur_def release_one_def by (intro wp)

lemma keeps_shutdown: "keeps (shut_inv True) (shutdownAgency env)"
proof -
  have "keeps (shut_inv True) (shutdown_one env caid)" for caid
    unfolding shutdown_one_def
  proof (rule keeps_bind_getA, goal_cases)
    case (1 s)
    show ?case
    proof (cases "dict_get (ay_agents s) caid")
      case (Some en)
      let ?m = "bindA (ext (getA (\<lambda>w. op_done env w (en_agent en)))) (\<lambda>finished.
          whenA finished (seqA (Agency_remove env (en_agent en)) (delA caid)))"
      have "keeps (shut_inv True) ?m" unfolding Agency_remove_def by (intro wp)
      moreover have "shut_inv True (set_entry caid (en\<lparr>en_shut := True\<rparr>) s)"
        using 1 shut_inv_entry [OF 1 Some] by (intro shut_inv_set) (auto simp: shut_inv_def)
      ultimately have "shut_inv True (snd (?m (set_entry caid (en\<lparr>en_shut := True\<rparr>) s)))"
        unfolding keeps_def by blast
      with Some show ?thesis by simp
    qed (use 1 in simp)
  qed
  then show ?thesis unfolding shutdownAgency_def by (intro wp)
qed

lemma keeps_recur: "keeps (shut_inv b) (Agency_recur env)"
  unfolding Agency_recur_def
proof (rule keeps_bind_getA, goal_cases)
  case (1 s)
  let ?rest = "bindA (getA flagged) (\<lambda>fl. seqA (ext (op_run env fl)) (retA False))"
  have "keeps (shut_inv (ay_shut s \<or> b)) (seqA (whenA (ay_shut s \<and> ay_agents s \<noteq> []) (shutdownAgency env)) ?rest)"
    by (intro wp) (use keeps_shutdown [of env] in \<open>simp_all\<close>)
  moreover have "shut_inv (ay_shut s \<or> b) s" using 1 by (auto simp: shut_inv_def)
  ultimately have "shut_inv (ay_shut s \<or> b)
      (snd (seqA (whenA (ay_shut s \<and> ay_agents s \<noteq> []) (shutdownAgency env)) ?rest s))"
    unfolding keeps_def by blast
  then have "shut_inv b (snd (seqA (whenA (ay_shut s \<and> ay_agents s \<noteq> []) (shutdownAgency env)) ?rest s))"
    by (auto simp: shut_inv_def simp del: seqA_run)
  then show ?case using 1 by (simp del: seqA_run)
qed

lemma agency_step_inv:
  assumes "agency_step env s s'" and "agency_inv s"
  shows "agency_inv s'"
proof -
  have inv: "shut_inv False s" using assms(2) by (simp add: shut_inv_def)
  have "shut_inv False s'"
    using assms(1)
  proof cases
    case create
    show ?thesis by (rule keepsD [OF keeps_create inv create])
  next
    case get
    show ?thesis by (rule keepsD [OF keeps_get inv get])
  next
    case lookup
    show ?thesis by (rule keepsD [OF keeps_lookup inv lookup])
  next
    case incept
    have "keeps (shut_inv False) (Agency_incept env c p)" for c p unfolding Agency_incept_def by (intro wp)
    from keepsD [OF this inv incept] show ?thesis .
  next
    case delete
    have "keeps (shut_inv False) (Agency_delete env a)" for a unfolding Agency_delete_def by (intro wp)
    from keepsD [OF this inv delete] show ?thesis .
  next
    case shut
    show ?thesis by (rule keepsD [OF keeps_shut inv shut])
  next
    case release
    show ?thesis by (rule keepsD [OF keeps_release inv release])
  next
    case turn
    show ?thesis by (rule keepsD [OF keeps_recur inv turn])
  next
    case signal
    have "keeps (shut_inv False) (GracefulShutdownDoer_recur received)" for received
      unfolding GracefulShutdownDoer_recur_def
      by (intro wp keeps_modA) (auto simp: shut_inv_def agency_inv_def)
    from keepsD [OF this inv signal] show ?thesis .
  next
    case other
    with inv show ?thesis by (simp add: shut_inv_def agency_inv_def)
  qed
  then show ?thesis by (simp add: shut_inv_def)
qed

text \<open>
  C3. In every state the agency can reach from an empty cache, a controller has at most one running
  agent, that agent is its own, no agent is told to shut down unless the agency is shutting
  down, and once the agency has been told to shut down it is over after three turns.
\<close>

theorem agency_reachable:
  assumes "(agency_step env)\<^sup>*\<^sup>* s0 s" and "ay_agents s0 = []" and "sched_ok env"
  shows "distinct (map fst (ay_agents s)) \<and>
         (\<forall>c en. dict_get (ay_agents s) c = Some en \<longrightarrow>
            ag_caid (en_agent en) = c \<and> (en_shut en \<longrightarrow> ay_shut s)) \<and>
         (ay_shut s \<longrightarrow> fst (agency_turns env 3 s) = Inr True)"
proof -
  have "agency_inv s"
    using assms(1)
  proof (induction rule: rtranclp_induct)
    case base
    show ?case by (simp add: agency_inv_def assms(2))
  next
    case (step s1 s2)
    then show ?case by (blast intro: agency_step_inv)
  qed
  then have inv: "distinct (map fst (ay_agents s))"
      "\<forall>c en. dict_get (ay_agents s) c = Some en \<longrightarrow> ag_caid (en_agent en) = c \<and> (en_shut en \<longrightarrow> ay_shut s)"
    by (simp_all add: agency_inv_def)
  have "ay_shut s \<longrightarrow> fst (agency_turns env 3 s) = Inr True"
  proof
    assume "ay_shut s"
    obtain s' where "agency_turns env 3 s = (Inr True, s')"
      using shutdown_turns [OF assms(3) inv(1) \<open>ay_shut s\<close>] by blast
    then show "fst (agency_turns env 3 s) = Inr True" by simp
  qed
  with inv show ?thesis by blast
qed

theorem agency_reachable_witness:
  "fst (agency_turns mem_env 3 ((snd (Agency_create mem_env ''C'' None mem_start))\<lparr>ay_shut := True\<rparr>)) = Inr True"
proof -
  let ?s1 = "snd (Agency_create mem_env ''C'' None mem_start)"
  let ?s2 = "snd (GracefulShutdownDoer_recur True ?s1)"
  have "agency_step mem_env mem_start ?s1" by (rule agency_step.create) (rule prod.collapse [symmetric])
  moreover have "agency_step mem_env ?s1 ?s2" by (rule agency_step.signal) (rule prod.collapse [symmetric])
  ultimately have "(agency_step mem_env)\<^sup>*\<^sup>* mem_start ?s2" by simp
  from agency_reachable [OF this _ mem_env_sched]
  show ?thesis by (simp add: mem_start_def GracefulShutdownDoer_recur_def)
qed

end
