(* ===== verification/Servers.thy ===== *)
theory Servers
  imports Agency
begin

text \<open>
  The three HTTP applications of \<open>app/agenting.py\<close> and their route tables: the boot
  application, the admin application whose requests pass the signature check, and the public
  application that takes key events, serves OOBIs and the API documentation. An endpoint is named
  by its class. How falcon finds the route of a path is third-party code: the theorems take the
  relation \<open>matches template path\<close> as an argument.
\<close>

subsection \<open>Applications\<close>

datatype middleware =
    CorsMiddleware
  | RequestLogger
  | CorsHandler
  | SignatureCheck "string list"

record app =
  ap_middleware :: "middleware list"
  ap_routes :: "(string \<times> string) list"
  ap_sinks :: "(string \<times> string) list"

definition add_route :: "string \<Rightarrow> string \<Rightarrow> app \<Rightarrow> app" where
  "add_route template resource a = a\<lparr>ap_routes := ap_routes a @ [(template, resource)]\<rparr>"

definition add_sink :: "string \<Rightarrow> string \<Rightarrow> app \<Rightarrow> app" where
  "add_sink dir prefix a = a\<lparr>ap_sinks := ap_sinks a @ [(prefix, dir)]\<rparr>"

definition add_middleware :: "middleware \<Rightarrow> app \<Rightarrow> app" where
  "add_middleware m a = a\<lparr>ap_middleware := ap_middleware a @ [m]\<rparr>"

text \<open>Registering several routes one after the other.\<close>

definition add_routes :: "(string \<times> string) list \<Rightarrow> app \<Rightarrow> app" where
  "add_routes rs a = fold (\<lambda>(t, r). add_route t r) rs a"

definition falconApp :: "bool \<Rightarrow> app" where
  "falconApp logRequests =
     \<lparr>ap_middleware = CorsMiddleware # (if logRequests then [RequestLogger] else []), ap_routes = [], ap_sinks = []\<rparr>"

lemma add_simps [simp]:
  "ap_routes (add_route t r a) = ap_routes a @ [(t, r)]" "ap_middleware (add_route t r a) = ap_middleware a"
  "ap_sinks (add_route t r a) = ap_sinks a" "ap_routes (add_middleware m a) = ap_routes a"
  "ap_middleware (add_middleware m a) = ap_middleware a @ [m]" "ap_sinks (add_middleware m a) = ap_sinks a"
  "ap_routes (add_sink d p a) = ap_routes a" "ap_middleware (add_sink d p a) = ap_middleware a"
  "ap_sinks (add_sink d p a) = ap_sinks a @ [(p, d)]"
  by (simp_all add: add_route_def add_middleware_def add_sink_def)

lemma add_routes_simps [simp]:
  "ap_routes (add_routes rs a) = ap_routes a @ rs" "ap_middleware (add_routes rs a) = ap_middleware a"
  "ap_sinks (add_routes rs a) = ap_sinks a"
  by (induction rs arbitrary: a) (auto simp: add_routes_def split: prod.splits)

subsection \<open>The route tables\<close>

definition agenting_loadEnds :: "app \<Rightarrow> app" where
  "agenting_loadEnds = add_routes
     [(''/operations'', ''OperationCollectionEnd''), (''/operations/{name}'', ''OperationResourceEnd''),
      (''/oobis'', ''OOBICollectionEnd''), (''/oobis/{alias}'', ''OobiResourceEnd''),
      (''/states'', ''KeyStateCollectionEnd''), (''/events'', ''KeyEventCollectionEnd''),
      (''/queries'', ''QueryCollectionEnd''), (''/config'', ''ConfigResourceEnd'')]"

definition aiding_loadEnds :: "app \<Rightarrow> app" where
  "aiding_loadEnds = add_routes
     [(''/agent/{caid}'', ''AgentResourceEnd''),
      (''/identifiers'', ''IdentifierCollectionEnd''),
      (''/identifiers/{name}'', ''IdentifierResourceEnd''),
      (''/identifiers/{name}/events'', ''IdentifierResourceEnd''),
      (''/identifiers/{name}/submit'', ''IdentifierResourceEnd''),
      (''/identifiers/{name}/oobis'', ''IdentifierOOBICollectionEnd''),
      (''/identifiers/{name}/endroles'', ''EndRoleCollectionEnd''),
      (''/identifiers/{name}/endroles/{role}'', ''EndRoleCollectionEnd''),
      (''/endroles/{aid}'', ''EndRoleCollectionEnd''),
      (''/endroles/{aid}/{role}'', ''EndRoleCollectionEnd''),
      (''/identifiers/{name}/endroles/{role}/{eid}'', ''EndRoleResourceEnd''),
      (''/identifiers/{name}/locschemes'', ''LocSchemeCollectionEnd''),
      (''/escrows/rpy'', ''RpyEscrowCollectionEnd''),
      (''/challenges'', ''ChallengeCollectionEnd''),
      (''/challenges/{name}'', ''ChallengeResourceEnd''),
      (''/challenges_verify/{source}'', ''ChallengeVerifyResourceEnd''),
      (''/contacts'', ''ContactCollectionEnd''),
      (''/contacts/{prefix}'', ''ContactResourceEnd''),
      (''/contacts/{prefix}/img'', ''ContactImageResourceEnd''),
      (''/identifiers/{name}/members'', ''GroupMemberCollectionEnd'')]"

definition credentialing_loadEnds :: "app \<Rightarrow> app" where
  "credentialing_loadEnds = add_routes
     [(''/schema'', ''SchemaCollectionEnd''), (''/schema/{said}'', ''SchemaResourceEnd''),
      (''/identifiers/{name}/registries'', ''RegistryCollectionEnd''),
      (''/identifiers/{name}/registries/{registryName}'', ''RegistryResourceEnd''),
      (''/identifiers/{name}/credentials'', ''CredentialCollectionEnd''),
      (''/registries/{ri}/{vci}'', ''CredentialRegistryResourceEnd''),
      (''/credentials/{said}'', ''CredentialResourceEnd''),
      (''/identifiers/{name}/credentials/{said}'', ''CredentialResourceDeleteEnd''),
      (''/credentials/query'', ''CredentialQueryCollectionEnd''),
      (''/credentials/verify'', ''CredentialVerificationCollectionEnd'')]"

definition delegating_loadEnds :: "app \<Rightarrow> app" where
  "delegating_loadEnds = add_routes [(''/identifiers/{name}/delegation'', ''DelegatorEnd'')]"

definition notifying_loadEnds :: "app \<Rightarrow> app" where
  "notifying_loadEnds = add_routes
     [(''/notifications'', ''NotificationCollectionEnd''), (''/notifications/{said}'', ''NotificationResourceEnd'')]"

definition grouping_loadEnds :: "app \<Rightarrow> app" where
  "grouping_loadEnds = add_routes
     [(''/identifiers/{name}/multisig/request'', ''MultisigRequestCollectionEnd''),
      (''/identifiers/{name}/multisig/join'', ''MultisigJoinCollectionEnd''),
      (''/multisig/request/{said}'', ''MultisigRequestResourceEnd'')]"

definition exchanging_loadEnds :: "app \<Rightarrow> app" where
  "exchanging_loadEnds = add_routes
     [(''/identifiers/{name}/exchanges'', ''ExchangeCollectionEnd''),
      (''/exchanges/query'', ''ExchangeQueryCollectionEnd''),
      (''/exchanges/{said}'', ''ExchangeResourceEnd'')]"

definition ipexing_loadEnds :: "app \<Rightarrow> app" where
  "ipexing_loadEnds = add_routes
     [(''/identifiers/{name}/ipex/admit'', ''IpexAdmitCollectionEnd''),
      (''/identifiers/{name}/ipex/grant'', ''IpexGrantCollectionEnd''),
      (''/identifiers/{name}/ipex/apply'', ''IpexApplyCollectionEnd''),
      (''/identifiers/{name}/ipex/offer'', ''IpexOfferCollectionEnd''),
      (''/identifiers/{name}/ipex/agree'', ''IpexAgreeCollectionEnd'')]"

definition ending_loadEnds :: "app \<Rightarrow> app" where
  "ending_loadEnds = add_routes
     [(''/oobi'', ''OOBIEnd''), (''/oobi/{aid}'', ''OOBIEnd''), (''/oobi/{aid}/{role}'', ''OOBIEnd''),
      (''/oobi/{aid}/{role}/{eid}'', ''OOBIEnd'')]"

definition indirecting_loadEnds :: "app \<Rightarrow> app" where
  "indirecting_loadEnds = add_route ''/'' ''HttpEnd''"

lemmas loadEnds_defs = agenting_loadEnds_def aiding_loadEnds_def credentialing_loadEnds_def
  delegating_loadEnds_def notifying_loadEnds_def grouping_loadEnds_def exchanging_loadEnds_def
  ipexing_loadEnds_def ending_loadEnds_def indirecting_loadEnds_def

subsection \<open>The servers\<close>

record config =
  cg_adminPort :: int
  cg_httpPort :: "int option"
  cg_bootPort :: int
  cg_keyPath :: "string option"
  cg_certPath :: "string option"
  cg_caFilePath :: "string option"
  cg_logRequests :: bool
  cg_cors :: bool

definition default_config :: config where
  "default_config =
     \<lparr>cg_adminPort = 3901, cg_httpPort = Some 3092, cg_bootPort = 3903, cg_keyPath = None,
      cg_certPath = None, cg_caFilePath = None, cg_logRequests = False, cg_cors = True\<rparr>"

text \<open>A running server task: the server and the application it serves. \<open>opens\<close> tells whether a socket opens.\<close>

datatype doer =
    AgencyDoer
  | ServerDoer server app

definition server_doer :: "(server \<Rightarrow> bool) \<Rightarrow> config \<Rightarrow> string \<Rightarrow> int \<Rightarrow> app \<Rightarrow> exn + doer" where
  "server_doer opens cg message port a =
     (let s = createHttpServer port (cg_keyPath cg) (cg_certPath cg) (cg_caFilePath cg)
      in if opens s then Inr (ServerDoer s a) else Inl (RuntimeError (message @ show_int port)))"

definition bootApp :: "config \<Rightarrow> app" where
  "bootApp cg = add_route ''/health'' ''HealthEnd'' (add_route ''/boot'' ''BootEnd'' (falconApp (cg_logRequests cg)))"

definition createBootServerDoer :: "(server \<Rightarrow> bool) \<Rightarrow> config \<Rightarrow> exn + doer" where
  "createBootServerDoer opens cg =
     server_doer opens cg ''Cannot create boot HTTP server on port '' (cg_bootPort cg) (bootApp cg)"

definition adminApp :: "config \<Rightarrow> app" where
  "adminApp cg =
     (let a = falconApp (cg_logRequests cg);
          a = (if cg_cors cg then add_middleware CorsHandler a else a);
          a = add_middleware (SignatureCheck [''/agent'']) a;
          a = agenting_loadEnds a; a = aiding_loadEnds a; a = credentialing_loadEnds a;
          a = delegating_loadEnds a; a = notifying_loadEnds a; a = grouping_loadEnds a;
          a = exchanging_loadEnds a
      in ipexing_loadEnds a)"

definition createAdminServerDoer :: "(server \<Rightarrow> bool) \<Rightarrow> config \<Rightarrow> exn + app \<times> doer" where
  "createAdminServerDoer opens cg =
     (case server_doer opens cg ''cannot create admin HTTP server on port '' (cg_adminPort cg) (adminApp cg) of
        Inl e \<Rightarrow> Inl e | Inr d \<Rightarrow> Inr (adminApp cg, d))"

definition httpApp :: "config \<Rightarrow> app" where
  "httpApp cg =
     (let a = falconApp (cg_logRequests cg); a = ending_loadEnds a; a = indirecting_loadEnds a;
          a = add_sink ''./static'' ''/swaggerui'' a
      in add_route ''/spec.yaml'' ''AgentSpecResource'' a)"

definition createHttpServerDoer :: "(server \<Rightarrow> bool) \<Rightarrow> config \<Rightarrow> int \<Rightarrow> exn + doer" where
  "createHttpServerDoer opens cg port =
     server_doer opens cg ''cannot create local http server on port '' port (httpApp cg)"

text \<open>The public server is left out when there is no port, or port 0, for it.\<close>

definition setupDoers :: "(server \<Rightarrow> bool) \<Rightarrow> config \<Rightarrow> exn + doer list" where
  "setupDoers opens cg =
     (case createBootServerDoer opens cg of Inl e \<Rightarrow> Inl e | Inr boot \<Rightarrow>
      (case createAdminServerDoer opens cg of Inl e \<Rightarrow> Inl e | Inr (_, admin) \<Rightarrow>
         (case cg_httpPort cg of
            None \<Rightarrow> Inr [AgencyDoer, boot, admin]
          | Some port \<Rightarrow>
              if port = 0 then Inr [AgencyDoer, boot, admin]
              else (case createHttpServerDoer opens cg port of Inl e \<Rightarrow> Inl e
                    | Inr public \<Rightarrow> Inr [AgencyDoer, boot, admin, public]))))"

subsection \<open>Which requests reach which endpoint\<close>

definition first_segment :: "string \<Rightarrow> string" where
  "first_segment p = takeWhile (\<lambda>c. c \<noteq> CHR ''/'') (drop 1 p)"

text \<open>
  What the theorems use of falcon's routing: a path that matches a template whose first segment
  is a literal (has no field in braces) has that first segment.
\<close>

definition routes_literally :: "(string \<Rightarrow> string \<Rightarrow> bool) \<Rightarrow> bool" where
  "routes_literally matches \<longleftrightarrow>
     (\<forall>t p. matches t p \<longrightarrow> CHR ''{'' \<notin> set (first_segment t) \<longrightarrow>
        (\<exists>rest. p = CHR ''/'' # rest) \<and> first_segment p = first_segment t)"

definition allowed_paths :: "app \<Rightarrow> string list" where
  "allowed_paths a = concat (map (\<lambda>m. case m of SignatureCheck paths \<Rightarrow> paths | _ \<Rightarrow> []) (ap_middleware a))"

lemma adminApp_routes:
  "ap_routes (adminApp cg) = ap_routes (ipexing_loadEnds (exchanging_loadEnds (grouping_loadEnds
     (notifying_loadEnds (delegating_loadEnds (credentialing_loadEnds (aiding_loadEnds
       (agenting_loadEnds (falconApp False)))))))))"
  by (simp add: adminApp_def Let_def loadEnds_defs falconApp_def)

lemma adminApp_middleware:
  "ap_middleware (adminApp cg) =
     CorsMiddleware # (if cg_logRequests cg then [RequestLogger] else []) @
     (if cg_cors cg then [CorsHandler] else []) @ [SignatureCheck [''/agent'']]"
  by (simp add: adminApp_def Let_def loadEnds_defs falconApp_def)

lemma adminApp_allowed [simp]: "allowed_paths (adminApp cg) = [''/agent'']"
  by (simp add: allowed_paths_def adminApp_middleware)

definition other_route :: "string \<times> string \<Rightarrow> bool" where
  "other_route tr = (snd tr = ''AgentResourceEnd'' \<or>
     CHR ''{'' \<notin> set (first_segment (fst tr)) \<and> \<not> startswith (first_segment (fst tr)) ''agent'')"

lemma adminApp_other_routes: "list_all other_route (ap_routes (adminApp cg))"
  unfolding adminApp_routes by code_simp

lemma startswith_first_segment:
  assumes "startswith (CHR ''/'' # rest) ''/agent''"
  shows "startswith (first_segment (CHR ''/'' # rest)) ''agent''"
proof -
  obtain u where "rest = ''agent'' @ u" using assms by (auto simp: startswith_iff)
  then show ?thesis by (simp add: first_segment_def startswith_def)
qed

lemma not_exempt:
  assumes "routes_literally matches" and "(t, r) \<in> set (ap_routes (adminApp cg))" and "matches t p"
    and "r \<noteq> ''AgentResourceEnd''"
  shows "\<not> (\<exists>path \<in> set (allowed_paths (adminApp cg)). startswith p path)"
proof -
  have "other_route (t, r)" using adminApp_other_routes [of cg] assms(2) by (auto simp: list_all_iff)
  with assms(4) have t: "CHR ''{'' \<notin> set (first_segment t)" "\<not> startswith (first_segment t) ''agent''"
    by (auto simp: other_route_def)
  then obtain rest where "p = CHR ''/'' # rest" "first_segment p = first_segment t"
    using assms(1,3) unfolding routes_literally_def by blast
  with t startswith_first_segment [of rest] show ?thesis by auto
qed

text \<open>
  C2. On the admin server no endpoint but the one of the agent itself can be reached without a
  signature: a request that the middleware of that application lets through to any other endpoint
  of its route table carries the agent of the controller it names, and each of its \<open>signify\<close>
  signature inputs verified under that controller's key.
\<close>

theorem admin_request_checked:
  assumes "routes_literally matches" and "(t, r) \<in> set (ap_routes (adminApp cg))" and "matches t (rq_path req)"
    and "r \<noteq> ''AgentResourceEnd''"
    and "au_get env = Agency_get aenv" and "\<not> rs_complete resp" and "\<not> rs_complete resp'"
    and "process_request env (allowed_paths (adminApp cg)) req resp s = (Inr (req', ctx, resp'), s')"
  shows "let q = req\<lparr>rq_path := quote (rq_path req)\<rparr> in
    req' = req \<and> (\<exists>c g. ctx = Some (Some g) \<and> dict_get (rq_headers req) ''SIGNIFY-RESOURCE'' = Some c \<and>
      signify_inputs env q \<noteq> [] \<and> (\<forall>i \<in> set (signify_inputs env q). \<exists>w1. input_verified env q i c g w1))"
  using agency.let_through [OF assms(5,6,8,7)] not_exempt [OF assms(1-4)] by (auto simp: Let_def)

definition mem_matches :: "string \<Rightarrow> string \<Rightarrow> bool" where
  "mem_matches t p \<longleftrightarrow> p \<noteq> [] \<and> hd p = CHR ''/'' \<and> first_segment p = first_segment t \<and>
     count_list p (CHR ''/'') = count_list t (CHR ''/'')"

lemma mem_matches_ok: "routes_literally mem_matches"
  by (auto simp: routes_literally_def mem_matches_def neq_Nil_conv)

theorem admin_request_checked_witness:
  "\<exists>g s' w1. process_request mem_auth [''/agent''] demo_request fresh_response mem_one =
       (Inr (demo_request, Some (Some g), fresh_response), s') \<and>
     input_verified mem_auth demo_quoted demo_input ''C'' g w1"
proof -
  obtain r s' where run: "process_request mem_auth [''/agent''] demo_request fresh_response mem_one = (r, s')"
    by fastforce
  with demo_let_through obtain req' ctx resp' where r: "r = Inr (req', ctx, resp')" and open_: "\<not> rs_complete resp'"
    by (cases r) auto
  have route: "(''/identifiers/{name}'', ''IdentifierResourceEnd'') \<in> set (ap_routes (adminApp default_config))"
    unfolding adminApp_routes by (simp add: loadEnds_defs)
  have match: "mem_matches ''/identifiers/{name}'' (rq_path demo_request)"
    by (simp add: mem_matches_def first_segment_def demo_request_def Let_def)
  have fresh: "\<not> rs_complete fresh_response" by (simp add: fresh_response_def)
  have "''IdentifierResourceEnd'' \<noteq> ''AgentResourceEnd''" by simp
  from admin_request_checked [OF mem_matches_ok route match this mem_auth_get fresh open_, where s = mem_one and s' = s']
  obtain g w1 where "req' = demo_request" "ctx = Some (Some g)"
    "input_verified mem_auth demo_quoted demo_input ''C'' g w1"
    using run r mem_auth_inputs by (auto simp: demo_quoted_def Let_def demo_request_def)
  moreover from agency.let_through [OF mem_auth_get fresh run [unfolded r] open_] have "resp' = fresh_response" by simp
  ultimately show ?thesis using run r by blast
qed

subsection \<open>What the servers expose\<close>

definition served :: "doer list \<Rightarrow> app list" where
  "served ds = concat (map (\<lambda>d. case d of AgencyDoer \<Rightarrow> [] | ServerDoer s a \<Rightarrow> [a]) ds)"

definition resources :: "app \<Rightarrow> string set" where
  "resources a = snd ` set (ap_routes a)"

lemma setupDoers_served:
  "setupDoers opens cg = Inr ds \<Longrightarrow>
   served ds = [bootApp cg, adminApp cg] @ (if cg_httpPort cg \<in> {None, Some 0} then [] else [httpApp cg])"
  by (auto simp: setupDoers_def createBootServerDoer_def createAdminServerDoer_def createHttpServerDoer_def
      server_doer_def Let_def served_def split: if_splits option.splits)

definition public_resources :: "string list" where
  "public_resources = [''BootEnd'', ''HealthEnd'', ''OOBIEnd'', ''HttpEnd'', ''AgentSpecResource'']"

lemma open_resources:
  "resources (bootApp cg) \<subseteq> set public_resources" "resources (httpApp cg) \<subseteq> set public_resources"
  by (auto simp: resources_def bootApp_def httpApp_def falconApp_def Let_def loadEnds_defs public_resources_def)

lemma admin_resources: "list_all (\<lambda>tr. snd tr \<notin> set public_resources) (ap_routes (adminApp cg))"
  unfolding adminApp_routes by code_simp

text \<open>
  Set-up either raises or starts the agency and the servers. Every application served is one
  of the three, the public one exactly if a port is configured for it, and no endpoint is on both
  sides: an endpoint of the admin application is served by no application without the signature
  check, whatever the configuration.
\<close>

theorem setup_exposes:
  assumes "setupDoers opens cg = Inr ds" and "a \<in> set (served ds)"
  shows "(httpApp cg \<in> set (served ds) \<longleftrightarrow> cg_httpPort cg \<notin> {None, Some 0}) \<and>
         (resources a \<inter> resources (adminApp cg) \<noteq> {} \<longrightarrow> allowed_paths a = [''/agent''] \<and>
            SignatureCheck [''/agent''] \<in> set (ap_middleware a))"
proof -
  have disjoint: "resources b \<inter> resources (adminApp cg) = {}" if "resources b \<subseteq> set public_resources" for b
    using that admin_resources [of cg] by (fastforce simp: resources_def list_all_iff)
  have "httpApp cg \<noteq> bootApp cg"
    by (auto simp: httpApp_def bootApp_def Let_def add_sink_def add_route_def falconApp_def loadEnds_defs app.splits
        dest!: arg_cong [where f = ap_sinks])
  moreover have "httpApp cg \<noteq> adminApp cg"
    by (auto dest!: arg_cong [where f = ap_middleware] simp: adminApp_middleware)
      (auto simp: httpApp_def Let_def loadEnds_defs falconApp_def)
  ultimately have "httpApp cg \<in> set (served ds) \<longleftrightarrow> cg_httpPort cg \<notin> {None, Some 0}"
    using setupDoers_served [OF assms(1)] by auto
  moreover have "resources a \<inter> resources (adminApp cg) \<noteq> {} \<Longrightarrow> a = adminApp cg"
    using setupDoers_served [OF assms(1)] assms(2) disjoint [OF open_resources(1)] disjoint [OF open_resources(2)]
    by (auto split: if_splits)
  moreover have "SignatureCheck [''/agent''] \<in> set (ap_middleware (adminApp cg))"
    by (simp add: adminApp_middleware)
  ultimately show ?thesis using adminApp_allowed by metis
qed

theorem setup_exposes_witness:
  "\<exists>ds. setupDoers (\<lambda>_. True) default_config = Inr ds \<and> httpApp default_config \<in> set (served ds)"
proof -
  obtain ds where ds: "setupDoers (\<lambda>_. True) default_config = Inr ds"
    by (simp add: setupDoers_def createBootServerDoer_def createAdminServerDoer_def createHttpServerDoer_def
        server_doer_def default_config_def)
  have "adminApp default_config \<in> set (served ds)" using setupDoers_served [OF ds] by simp
  from setup_exposes [OF ds this] ds show ?thesis by (simp add: default_config_def)
qed

end
