(* ===== verification/ApiDocs.thy ===== *)
theory ApiDocs
  imports Servers "HOL-Library.Multiset"
begin

text \<open>
  The API documentation: the OpenAPI resource that lists the routes of the applications
  (\<open>app/specing.py\<close>) and the page that shows it (\<open>static/swaggerui/swagger-initializer.js\<close>). The
  schemas registered in the constructor of \<open>AgentSpecResource\<close> are data for the \<open>apispec\<close>
  package and are left out; the vendored Swagger UI bundle is an argument of the model.
\<close>

subsection \<open>The routes of an application\<close>

text \<open>
  A node of falcon's routing tree: its URI template, its resource (the docstring of the class) with
  the handler of each method (its module and docstring), and the nodes below it.
\<close>

datatype route =
  Route (rt_template: string) (rt_resource: "string option") (rt_methods: "(string \<times> string \<times> string) list")
    (rt_children: "route list")

text \<open>
  \<open>load_operations_from_docstring\<close> and \<open>load_yaml_from_docstring\<close> of \<open>apispec\<close> are arguments; a
  docstring without YAML gives an empty dictionary.
\<close>

definition method_operation ::
  "(string \<Rightarrow> json) \<Rightarrow> string list \<Rightarrow> string \<times> string \<times> string \<Rightarrow> (string \<times> json) list \<Rightarrow> (string \<times> json) list" where
  "method_operation load_yaml valid m operations =
     (case m of (name, module, doc) \<Rightarrow>
        if module = ''falcon.responders'' then operations
        else if lower name \<notin> set valid then operations
        else dict_set operations (lower name) (jor (load_yaml doc) (JObj [])))"

definition route_operations ::
  "(string \<Rightarrow> (string \<times> json) list) \<Rightarrow> (string \<Rightarrow> json) \<Rightarrow> string list \<Rightarrow> route \<Rightarrow> (string \<times> json) list" where
  "route_operations load_ops load_yaml valid r =
     (case rt_resource r of
        None \<Rightarrow> []
      | Some doc \<Rightarrow> fold (method_operation load_yaml valid) (rt_methods r) (load_ops doc))"

text \<open>
  The loop of \<open>addRoutes\<close> runs over a list that it extends with the children of each node it
  visits. The result is the calls of \<open>spec.path\<close>, in their order.
\<close>

definition visit :: "(route \<Rightarrow> (string \<times> json) list) \<Rightarrow> route \<Rightarrow> (string \<times> (string \<times> json) list) list" where
  "visit ops r = (if rt_resource r = None then [] else [(rt_template r, ops r)])"

function addRoutes_loop ::
  "(route \<Rightarrow> (string \<times> json) list) \<Rightarrow> route list \<Rightarrow> (string \<times> (string \<times> json) list) list" where
  "addRoutes_loop ops [] = []"
| "addRoutes_loop ops (r # rs) = visit ops r @ addRoutes_loop ops (rs @ rt_children r)"
  by pat_completeness auto

lemma size_children: "sum_list (map size (rt_children r)) < size r"
  by (cases r) (simp add: size_list_conv_sum_list)

termination addRoutes_loop
  by (relation "measure (\<lambda>(ops, rs). sum_list (map size rs))") (auto simp: size_children)

definition addRoutes ::
  "(string \<Rightarrow> (string \<times> json) list) \<Rightarrow> (string \<Rightarrow> json) \<Rightarrow> string list \<Rightarrow> route list \<Rightarrow>
   (string \<times> (string \<times> json) list) list" where
  "addRoutes load_ops load_yaml valid roots = addRoutes_loop (route_operations load_ops load_yaml valid) roots"

text \<open>The same nodes level by level, and the tree in preorder.\<close>

fun level :: "nat \<Rightarrow> route list \<Rightarrow> route list" where
  "level 0 rs = rs"
| "level (Suc n) rs = level n (concat (map rt_children rs))"

fun nodes :: "route \<Rightarrow> route list" where
  "nodes (Route t res ms rs) = Route t res ms rs # concat (map nodes rs)"

fun depth :: "route \<Rightarrow> nat" where
  "depth (Route t res ms rs) = Suc (fold max (map depth rs) 0)"

lemma loop_level:
  "addRoutes_loop ops (rs @ later) =
   concat (map (visit ops) rs) @ addRoutes_loop ops (later @ concat (map rt_children rs))"
  by (induction rs arbitrary: later) simp_all

lemma fold_max_le: "fold max ns (a::nat) \<le> m \<longleftrightarrow> a \<le> m \<and> (\<forall>n \<in> set ns. n \<le> m)"
  by (induction ns arbitrary: a) auto

lemma depth_child: "c \<in> set (rt_children r) \<Longrightarrow> depth c < depth r"
  using fold_max_le [of "map depth (rt_children r)" 0 "fold max (map depth (rt_children r)) 0"]
  by (cases r) (auto simp: less_Suc_eq_le)

lemma loop_levels:
  "(\<And>r. r \<in> set rs \<Longrightarrow> depth r \<le> n) \<Longrightarrow>
   addRoutes_loop ops rs = concat (map (\<lambda>i. concat (map (visit ops) (level i rs))) [0..<n])"
proof (induction n arbitrary: rs)
  case 0
  have "rs = []"
  proof (rule ccontr)
    assume "rs \<noteq> []"
    then obtain r where "r \<in> set rs" by (cases rs) auto
    with 0 show False by (cases r) fastforce
  qed
  then show ?case by simp
next
  case (Suc n)
  let ?cs = "concat (map rt_children rs)"
  have "depth c \<le> n" if c: "c \<in> set ?cs" for c
  proof -
    from c obtain r where "r \<in> set rs" "c \<in> set (rt_children r)" by auto
    with Suc.prems depth_child show ?thesis by fastforce
  qed
  from Suc.IH [OF this] have "addRoutes_loop ops ?cs = concat (map (\<lambda>i. concat (map (visit ops) (level i ?cs))) [0..<n])" .
  moreover have "[0..<Suc n] = 0 # map Suc [0..<n]" by (simp add: map_Suc_upt upt_conv_Cons)
  ultimately show ?case
    using loop_level [of ops rs "[]"] by (simp add: comp_def)
qed

lemma nodes_children: "mset (nodes r) = {#r#} + mset (concat (map nodes (rt_children r)))"
  by (cases r) simp

lemma loop_mset: "mset (addRoutes_loop ops rs) = mset (concat (map (visit ops) (concat (map nodes rs))))"
proof (induction ops rs rule: addRoutes_loop.induct)
  case (2 ops r rs)
  have "mset (concat (map (visit ops) (nodes r))) =
      mset (visit ops r) + mset (concat (map (visit ops) (concat (map nodes (rt_children r)))))"
    by (cases r) simp
  with 2 show ?case by simp
qed simp

lemma visit_templates:
  "map fst (concat (map (visit ops) rs)) = map rt_template (filter (\<lambda>r. rt_resource r \<noteq> None) rs)"
  by (induction rs) (auto simp: visit_def)

text \<open>
  C35. The documentation lists every route of the application exactly once: the loop over the list
  that grows while it is visited ends, it visits the nodes of the routing tree level by level, and
  what it reports are the nodes with a resource, as often as they are in the tree.
\<close>

theorem addRoutes_all:
  fixes load_ops :: "string \<Rightarrow> (string \<times> json) list" and load_yaml :: "string \<Rightarrow> json" and valid :: "string list"
  shows "addRoutes load_ops load_yaml valid roots =
      concat (map (\<lambda>i. concat (map (visit (route_operations load_ops load_yaml valid)) (level i roots)))
                [0..<fold max (map depth roots) 0]) \<and>
    mset (map fst (addRoutes load_ops load_yaml valid roots)) =
      mset (map rt_template (filter (\<lambda>r. rt_resource r \<noteq> None) (concat (map nodes roots))))"
    (is "_ = ?levels \<and> _ = ?templates")
proof
  have "depth r \<le> fold max (map depth roots) 0" if "r \<in> set roots" for r
    using that fold_max_le [of "map depth roots" 0 "fold max (map depth roots) 0"] by auto
  then show "addRoutes load_ops load_yaml valid roots = ?levels"
    unfolding addRoutes_def by (rule loop_levels)
  have "mset (map fst (addRoutes_loop ops roots)) = mset (map fst (concat (map (visit ops) (concat (map nodes roots)))))" for ops
    by (simp only: mset_map loop_mset)
  then show "mset (map fst (addRoutes load_ops load_yaml valid roots)) = ?templates"
    unfolding addRoutes_def by (simp only: visit_templates)
qed

subsection \<open>The page that shows the documentation\<close>

text \<open>
  The values and errors of JavaScript the script deals with. A function has an identity and
  properties. The window is the dictionary of the global variables; calling a function is an
  argument (\<open>call function argument window\<close>), because the functions are those of the vendored bundle.
\<close>

datatype jsval =
    JsUndefined
  | JsString string
  | JsBool bool
  | JsArray "jsval list"
  | JsObject "(string \<times> jsval) list"
  | JsFunction string "(string \<times> jsval) list"

datatype js_error =
    ReferenceError string
  | JsTypeError
  | Thrown jsval

type_synonym window = "(string \<times> jsval) list"
type_synonym js_call = "jsval \<Rightarrow> jsval \<Rightarrow> window \<Rightarrow> (js_error + jsval) \<times> window"

definition js_global :: "window \<Rightarrow> string \<Rightarrow> js_error + jsval" where
  "js_global w x = (case dict_get w x of None \<Rightarrow> Inl (ReferenceError x) | Some v \<Rightarrow> Inr v)"

fun js_get :: "jsval \<Rightarrow> string \<Rightarrow> js_error + jsval" where
  "js_get JsUndefined k = Inl JsTypeError"
| "js_get (JsObject d) k = Inr (case dict_get d k of None \<Rightarrow> JsUndefined | Some v \<Rightarrow> v)"
| "js_get (JsFunction f d) k = Inr (case dict_get d k of None \<Rightarrow> JsUndefined | Some v \<Rightarrow> v)"
| "js_get _ k = Inr JsUndefined"

fun js_callable :: "jsval \<Rightarrow> bool" where
  "js_callable (JsFunction f d) = True"
| "js_callable _ = False"

definition js_bind :: "js_error + 'a \<Rightarrow> ('a \<Rightarrow> js_error + 'b) \<Rightarrow> js_error + 'b" where
  "js_bind r f = (case r of Inl e \<Rightarrow> Inl e | Inr x \<Rightarrow> f x)"

lemma js_bind_simps [simp]: "js_bind (Inl e) f = Inl e" "js_bind (Inr x) f = f x"
  by (simp_all add: js_bind_def)

text \<open>The object literal passed to \<open>SwaggerUIBundle\<close>, evaluated from top to bottom.\<close>

definition ui_config :: "window \<Rightarrow> js_error + jsval" where
  "ui_config w =
     js_bind (js_global w ''SwaggerUIBundle'') (\<lambda>b1.
     js_bind (js_get b1 ''presets'') (\<lambda>presets.
     js_bind (js_get presets ''apis'') (\<lambda>apis.
     js_bind (js_global w ''SwaggerUIStandalonePreset'') (\<lambda>preset.
     js_bind (js_global w ''SwaggerUIBundle'') (\<lambda>b2.
     js_bind (js_get b2 ''plugins'') (\<lambda>plugins.
     js_bind (js_get plugins ''DownloadUrl'') (\<lambda>download.
     Inr (JsObject
       [(''url'', JsString ''/spec.yaml''),
        (''dom_id'', JsString ''#swagger-ui''),
        (''deepLinking'', JsBool True),
        (''presets'', JsArray [apis, preset]),
        (''plugins'', JsArray [download]),
        (''layout'', JsString ''StandaloneLayout'')]))))))))"

text \<open>
  The handler: the name of the function is looked up first, then the argument is evaluated, then
  the function is called, and its result becomes \<open>window.ui\<close>.
\<close>

definition onload_handler :: "js_call \<Rightarrow> window \<Rightarrow> (js_error + unit) \<times> window" where
  "onload_handler call w =
     (case js_bind (js_global w ''SwaggerUIBundle'') (\<lambda>f. js_bind (ui_config w) (\<lambda>c.
              if js_callable f then Inr (f, c) else Inl JsTypeError)) of
        Inl e \<Rightarrow> (Inl e, w)
      | Inr (f, c) \<Rightarrow>
          (case call f c w of
             (Inl e, w') \<Rightarrow> (Inl e, w')
           | (Inr ui, w') \<Rightarrow> (Inr (), dict_set w' ''ui'' ui)))"

text \<open>The script itself only installs the handler.\<close>

definition initializer_script :: "window \<Rightarrow> window" where
  "initializer_script w = dict_set w ''onload'' (JsFunction ''onload_handler'' [])"

text \<open>What the two scripts loaded before it leave in the window (\<open>swagger-ui-bundle.js\<close>,
  \<open>swagger-ui-standalone-preset.js\<close>).\<close>

definition bundle_loaded :: "window \<Rightarrow> string \<Rightarrow> jsval \<Rightarrow> jsval \<Rightarrow> bool" where
  "bundle_loaded w f apis download \<longleftrightarrow>
     (\<exists>ps presets plugins.
        dict_get w ''SwaggerUIBundle'' = Some (JsFunction f ps) \<and>
        dict_get ps ''presets'' = Some (JsObject presets) \<and> dict_get presets ''apis'' = Some apis \<and>
        dict_get ps ''plugins'' = Some (JsObject plugins) \<and> dict_get plugins ''DownloadUrl'' = Some download)"

lemma ui_config_loaded:
  assumes "bundle_loaded w f apis download" and "dict_get w ''SwaggerUIStandalonePreset'' = Some preset"
  shows "ui_config w = Inr (JsObject
       [(''url'', JsString ''/spec.yaml''), (''dom_id'', JsString ''#swagger-ui''), (''deepLinking'', JsBool True),
        (''presets'', JsArray [apis, preset]), (''plugins'', JsArray [download]), (''layout'', JsString ''StandaloneLayout'')])"
  using assms by (auto simp: ui_config_def js_global_def bundle_loaded_def)

lemma initializer_get [simp]:
  "dict_get (initializer_script w) k = (if k = ''onload'' then Some (JsFunction ''onload_handler'' []) else dict_get w k)"
  by (simp add: initializer_script_def)

lemma bundle_loaded_script [simp]: "bundle_loaded (initializer_script w) f a d = bundle_loaded w f a d"
  by (simp add: bundle_loaded_def)

text \<open>
  C34. When the page has loaded its scripts, its load event calls the bundle exactly once, with a
  configuration whose document URL is a route of the public application that serves the OpenAPI
  resource without any signature check, and which shows the result in the element \<open>#swagger-ui\<close>
  with both presets. What the bundle returns is \<open>window.ui\<close> afterwards; if it throws, the error is
  the handler's and \<open>window.ui\<close> is as the bundle left it.
\<close>

theorem docs_page_started:
  assumes "bundle_loaded w f apis download" and "dict_get w ''SwaggerUIStandalonePreset'' = Some preset"
  defines "w1 \<equiv> initializer_script w"
  shows "\<exists>ps c. onload_handler call w1 =
      (case call (JsFunction f ps) (JsObject c) w1 of
         (Inl e, w2) \<Rightarrow> (Inl e, w2) | (Inr ui, w2) \<Rightarrow> (Inr (), dict_set w2 ''ui'' ui)) \<and>
    dict_get w ''SwaggerUIBundle'' = Some (JsFunction f ps) \<and>
    (\<exists>url. dict_get c ''url'' = Some (JsString url) \<and> (url, ''AgentSpecResource'') \<in> set (ap_routes (httpApp cg)) \<and>
       url \<notin> fst ` set (ap_routes (adminApp cg))) \<and>
    allowed_paths (httpApp cg) = [] \<and> (\<forall>paths. SignatureCheck paths \<notin> set (ap_middleware (httpApp cg))) \<and>
    (''/swaggerui'', ''./static'') \<in> set (ap_sinks (httpApp cg)) \<and>
    dict_get c ''dom_id'' = Some (JsString ''#swagger-ui'') \<and>
    dict_get c ''presets'' = Some (JsArray [apis, preset]) \<and> dict_get c ''plugins'' = Some (JsArray [download])"
proof -
  obtain ps where ps: "dict_get w ''SwaggerUIBundle'' = Some (JsFunction f ps)"
    using assms(1) by (auto simp: bundle_loaded_def)
  have "ui_config w1 = Inr (JsObject
       [(''url'', JsString ''/spec.yaml''), (''dom_id'', JsString ''#swagger-ui''), (''deepLinking'', JsBool True),
        (''presets'', JsArray [apis, preset]), (''plugins'', JsArray [download]), (''layout'', JsString ''StandaloneLayout'')])"
    (is "_ = Inr (JsObject ?c)")
    unfolding w1_def by (rule ui_config_loaded [where f = f]) (simp_all add: assms(1,2))
  then have "onload_handler call w1 =
      (case call (JsFunction f ps) (JsObject ?c) w1 of
         (Inl e, w2) \<Rightarrow> (Inl e, w2) | (Inr ui, w2) \<Rightarrow> (Inr (), dict_set w2 ''ui'' ui))"
    using ps by (simp add: onload_handler_def js_global_def w1_def)
  moreover have "''/spec.yaml'' \<notin> fst ` set (ap_routes (adminApp cg))"
    unfolding adminApp_routes by (auto simp: loadEnds_defs falconApp_def)
  ultimately show ?thesis
    using ps by (intro exI [of _ ps] exI [of _ ?c])
      (auto simp: httpApp_def Let_def loadEnds_defs falconApp_def allowed_paths_def)
qed

text \<open>
  If one of the two scripts has not been loaded the page shows nothing and fails cleanly: the
  load event ends with the \<open>ReferenceError\<close> that names the missing script's variable (the bundle's
  if both are missing), calls nothing and leaves the window as it was.
\<close>

theorem docs_page_incomplete:
  assumes "dict_get w ''SwaggerUIBundle'' = None \<or>
      bundle_loaded w f apis download \<and> dict_get w ''SwaggerUIStandalonePreset'' = None"
  shows "onload_handler call w =
    (Inl (ReferenceError (if dict_get w ''SwaggerUIBundle'' = None then ''SwaggerUIBundle''
                          else ''SwaggerUIStandalonePreset'')), w)"
  using assms by (auto simp: onload_handler_def ui_config_def js_global_def bundle_loaded_def)

definition demo_window :: window where
  "demo_window =
     [(''SwaggerUIBundle'', JsFunction ''bundle'' [(''presets'', JsObject [(''apis'', JsString ''apis'')]),
                                                  (''plugins'', JsObject [(''DownloadUrl'', JsString ''download'')])])]"

lemma demo_window_loaded: "bundle_loaded demo_window ''bundle'' (JsString ''apis'') (JsString ''download'')"
  "bundle_loaded (demo_window @ [(''SwaggerUIStandalonePreset'', JsString ''preset'')]) ''bundle'' (JsString ''apis'') (JsString ''download'')"
  by (simp_all add: bundle_loaded_def demo_window_def)

theorem docs_page_started_witness:
  "dict_get (snd (onload_handler (\<lambda>f c w. (Inr (JsBool True), w))
     (initializer_script (demo_window @ [(''SwaggerUIStandalonePreset'', JsString ''preset'')])))) ''ui'' = Some (JsBool True)"
  using docs_page_started [OF demo_window_loaded(2), of "JsString ''preset''" "\<lambda>f c w. (Inr (JsBool True), w)" default_config]
  by (auto simp: demo_window_def)

theorem docs_page_incomplete_witness:
  "onload_handler (\<lambda>f c w. (Inr c, w)) demo_window = (Inl (ReferenceError ''SwaggerUIStandalonePreset''), demo_window)"
  using docs_page_incomplete [of demo_window "''bundle''" "JsString ''apis''" "JsString ''download''" "\<lambda>f c w. (Inr c, w)"]
    demo_window_loaded(1) by (simp add: demo_window_def)

end
