(* ===== verification/Seeking.thy ===== *)
theory Seeking
  imports Store
begin

text \<open>
  \<open>db/basing.py\<close>: the indexes an agent keeps of its verified credentials (\<open>Seeker\<close>) and of
  exchange messages (\<open>ExnSeeker\<close>). The sub-databases are arguments, as is \<open>Pather\<close> of \<open>keri\<close>, which
  makes a path of labels or text and resolves it in a message. \<open>self.indexes\<close> is the dictionary
  \<open>sk_indexes\<close> from the name of an index to the key of its sub-database.
\<close>

record index_record =
  ix_subkey :: string
  ix_paths :: "string list"

record creder =
  cd_said :: string
  cd_schema :: string
  cd_sad :: json

record 'w seek_env =
  se_saved :: "('w, string, string) suber"
  se_creds :: "('w, string, creder) suber"
  se_schema :: "'w \<Rightarrow> string \<Rightarrow> json option"
  se_schIdx :: "('w, string, string) dupsuber"
  se_dynIdx :: "('w, string, index_record) suber"
  se_idx :: "string \<Rightarrow> ('w, string, string) dupsuber"
  se_path :: "string list \<Rightarrow> string"
  se_bext :: "string \<Rightarrow> exn + string"
  se_resolve :: "string \<Rightarrow> json \<Rightarrow> exn + json"

record 'w seeker =
  sk_indexes :: "(string \<times> string) list"
  sk_world :: 'w

definition sext :: "('w, 'a) act \<Rightarrow> ('w seeker, 'a) act" where
  "sext m = zoomA sk_world (\<lambda>w s. s\<lparr>sk_world := w\<rparr>) m"

lemma sext_run: "sext m s = (fst (m (sk_world s)), s\<lparr>sk_world := snd (m (sk_world s))\<rparr>)"
  by (simp add: sext_def zoomA_def split_beta)

definition ISSUER_FIELD :: "'w seek_env \<Rightarrow> string" where
  "ISSUER_FIELD env = se_path env [''i'']"

definition ISSUEE_FIELD :: "'w seek_env \<Rightarrow> string" where
  "ISSUEE_FIELD env = se_path env [''a'', ''i'']"

definition SCHEMA_FIELD :: "'w seek_env \<Rightarrow> string" where
  "SCHEMA_FIELD env = se_path env [''s'']"

definition REGISTRY_FIELD :: "'w seek_env \<Rightarrow> string" where
  "REGISTRY_FIELD env = se_path env [''ri'']"

definition subkey_of :: "string list \<Rightarrow> string" where
  "subkey_of ps = join ''.'' ps"

definition SCALAR_TYPES :: "json list" where
  "SCALAR_TYPES = [JStr ''string'', JStr ''number'']"

subsection \<open>Creating indexes\<close>

definition open_index :: "string \<Rightarrow> string \<Rightarrow> ('w seeker, unit) act" where
  "open_index key subkey = modA (\<lambda>s. s\<lparr>sk_indexes := dict_set (sk_indexes s) key subkey\<rparr>)"

definition Seeker_createIndex :: "'w seek_env \<Rightarrow> string \<Rightarrow> ('w seeker, unit) act" where
  "Seeker_createIndex env key =
     bindA (sext (getS (se_dynIdx env) key)) (\<lambda>old.
     whenA (old = None)
       (seqA (open_index key key)
         (bindA (sext (pinS (se_dynIdx env) key \<lparr>ix_subkey = key, ix_paths = [key]\<rparr>)) (\<lambda>_. retA ()))))"

definition Seeker_reopen :: "'w seek_env \<Rightarrow> ('w seeker, unit) act" where
  "Seeker_reopen env =
     bindA (sext (itemsS (se_dynIdx env))) (\<lambda>items.
     seqA (forA items (\<lambda>(name, idx). open_index name (ix_subkey idx)))
     (seqA (Seeker_createIndex env (SCHEMA_FIELD env))
     (seqA (Seeker_createIndex env (REGISTRY_FIELD env))
     (forA [ISSUER_FIELD env, ISSUEE_FIELD env] (\<lambda>field.
        seqA (Seeker_createIndex env field)
          (Seeker_createIndex env (subkey_of [field, SCHEMA_FIELD env])))))))"

text \<open>One index of a schema: opened and recorded unless it is there already, and listed for the schema.\<close>

definition list_index :: "'w seek_env \<Rightarrow> string \<Rightarrow> string \<Rightarrow> ('w seeker, unit) act" where
  "list_index env said key = bindA (sext (addD (se_schIdx env) said key)) (\<lambda>_. retA ())"

definition schema_index :: "'w seek_env \<Rightarrow> string \<Rightarrow> string list \<Rightarrow> ('w seeker, unit) act" where
  "schema_index env said paths =
     (let key = subkey_of paths in
      bindA (getA (\<lambda>s. dict_get (sk_indexes s) key)) (\<lambda>old.
      seqA (whenA (old = None)
              (seqA (open_index key key)
                (bindA (sext (pinS (se_dynIdx env) key \<lparr>ix_subkey = key, ix_paths = paths\<rparr>)) (\<lambda>_. retA ()))))
        (list_index env said key)))"

definition property_indexes :: "'w seek_env \<Rightarrow> string \<Rightarrow> string \<times> json \<Rightarrow> ('w seeker, unit) act" where
  "property_indexes env said pv =
     (case pv of (p, val) \<Rightarrow>
        bindA (liftA (jitem val ''type'')) (\<lambda>t.
        whenA (t \<in> set SCALAR_TYPES)
          (let path = se_path env [''a'', p] in
           seqA (schema_index env said [path])
           (seqA (schema_index env said [SCHEMA_FIELD env, path])
           (forA [ISSUER_FIELD env, ISSUEE_FIELD env] (\<lambda>field.
              seqA (schema_index env said [field, path])
                (schema_index env said [field, SCHEMA_FIELD env, path])))))))"

text \<open>\<open>find_object\<close> is the loop that takes the first alternative of type object.\<close>

fun find_object :: "json \<Rightarrow> json list \<Rightarrow> exn + json" where
  "find_object payload [] = Inr payload"
| "find_object payload (p # ps) =
     (case jitem p ''type'' of
        Inl e \<Rightarrow> Inl e
      | Inr t \<Rightarrow> if t = JStr ''object'' then Inr p else find_object payload ps)"

fun jitems :: "json \<Rightarrow> exn + (string \<times> json) list" where
  "jitems (JObj d) = Inr d"
| "jitems _ = Inl AttributeError"

definition is_dict :: "json \<Rightarrow> bool" where
  "is_dict x = (case x of JObj _ \<Rightarrow> True | _ \<Rightarrow> False)"

definition payload_of :: "json \<Rightarrow> ('w seeker, json) act" where
  "payload_of sed =
     bindA (liftA (jitem sed ''properties'')) (\<lambda>properties.
     bindA (liftA (jitem properties ''a'')) (\<lambda>payload.
     bindA (liftA (jin ''oneOf'' payload)) (\<lambda>alternatives.
     if alternatives then
       bindA (liftA (jitem payload ''oneOf'')) (\<lambda>oo.
       bindA (liftA (jiter oo)) (\<lambda>ps. liftA (find_object payload ps)))
     else retA payload)))"

definition generateIndexes :: "'w seek_env \<Rightarrow> string \<Rightarrow> ('w seeker, string list) act" where
  "generateIndexes env said =
     bindA (getA (\<lambda>s. se_schema env (sk_world s) said)) (\<lambda>schemer.
     case schemer of
       None \<Rightarrow> raiseA (ValueError (said @ '' is not a valid schema SAID to index''))
     | Some sed \<Rightarrow>
         bindA (payload_of sed) (\<lambda>payload.
         seqA (guardA (is_dict payload) (ValueError (''schema with SAID='' @ said @ '' is not value, no payload of values'')))
         (bindA (liftA (jitem payload ''properties'')) (\<lambda>properties.
          bindA (liftA (jin ''i'' properties)) (\<lambda>has_issuee.
          seqA (list_index env said (SCHEMA_FIELD env))
          (seqA (list_index env said (ISSUER_FIELD env))
          (seqA (list_index env said (REGISTRY_FIELD env))
          (seqA (list_index env said (subkey_of [ISSUER_FIELD env, SCHEMA_FIELD env]))
          (seqA (whenA has_issuee
                  (seqA (list_index env said (ISSUEE_FIELD env))
                    (list_index env said (subkey_of [ISSUEE_FIELD env, SCHEMA_FIELD env]))))
          (bindA (liftA (jitems properties)) (\<lambda>ps.
           seqA (forA ps (property_indexes env said))
             (sext (getD (se_schIdx env) said)))))))))))))"

subsection \<open>Indexing a credential\<close>

text \<open>\<open>"".join(values)\<close> of the values a message has at the paths of an index.\<close>

fun join_values :: "json list \<Rightarrow> exn + string" where
  "join_values [] = Inr []"
| "join_values (JStr s # vs) = (case join_values vs of Inl e \<Rightarrow> Inl e | Inr t \<Rightarrow> Inr (s @ t))"
| "join_values (_ # vs) = Inl TypeError"

definition index_value :: "'w seek_env \<Rightarrow> json \<Rightarrow> string list \<Rightarrow> ('w seeker, string) act" where
  "index_value env sad paths =
     bindA (mapA (\<lambda>path. liftA (se_resolve env path sad)) paths) (\<lambda>values. liftA (join_values values))"

text \<open>What happens for each index, and the part the two operations share.\<close>

definition at_index ::
  "'w seek_env \<Rightarrow> json \<Rightarrow> (('w, string, string) dupsuber \<Rightarrow> string \<Rightarrow> ('w, bool) act) \<Rightarrow> string \<Rightarrow> ('w seeker, unit) act" where
  "at_index env sad wr index =
     bindA (getA (\<lambda>s. dict_get (sk_indexes s) index)) (\<lambda>db.
     case db of
       None \<Rightarrow> raiseA (KeyError index)
     | Some subkey \<Rightarrow>
         bindA (sext (getS (se_dynIdx env) index)) (\<lambda>idx.
         case idx of
           None \<Rightarrow> raiseA AttributeError
         | Some r \<Rightarrow>
             bindA (index_value env sad (ix_paths r)) (\<lambda>value.
             bindA (sext (wr (se_idx env subkey) value)) (\<lambda>_. retA ()))))"

definition load_creder :: "'w seek_env \<Rightarrow> string \<Rightarrow> ('w seeker, creder) act" where
  "load_creder env said =
     bindA (sext (getS (se_saved env) said)) (\<lambda>saider.
     case saider of
       None \<Rightarrow> raiseA (ValueError (said @ '' is not a verified credential''))
     | Some saider \<Rightarrow>
         bindA (sext (getS (se_creds env) saider)) (\<lambda>creder.
         case creder of None \<Rightarrow> raiseA AttributeError | Some creder \<Rightarrow> retA creder))"

definition Seeker_index :: "'w seek_env \<Rightarrow> string \<Rightarrow> ('w seeker, unit) act" where
  "Seeker_index env said =
     bindA (load_creder env said) (\<lambda>creder.
     bindA (sext (getD (se_schIdx env) (cd_schema creder))) (\<lambda>known.
     bindA (if known = [] then generateIndexes env (cd_schema creder) else retA known) (\<lambda>indexes.
     forA indexes (at_index env (cd_sad creder) (\<lambda>db value. addD db value (cd_said creder))))))"

text \<open>\<open>unindex\<close> removes the digest under which the credential is saved.\<close>

definition Seeker_unindex :: "'w seek_env \<Rightarrow> string \<Rightarrow> ('w seeker, unit) act" where
  "Seeker_unindex env said =
     bindA (sext (getS (se_saved env) said)) (\<lambda>saider.
     bindA (load_creder env said) (\<lambda>creder.
     bindA (sext (getD (se_schIdx env) (cd_schema creder))) (\<lambda>indexes.
     seqA (guardA (indexes \<noteq> []) (ValueError (''No known indexes for schema '' @ cd_schema creder)))
     (case saider of
        None \<Rightarrow> raiseA AttributeError
      | Some saider \<Rightarrow>
          forA indexes (at_index env (cd_sad creder) (\<lambda>db value. remD db value (Some saider)))))))"

definition Seeker_value :: "'w seek_env \<Rightarrow> string \<Rightarrow> ('w seeker, json) act" where
  "Seeker_value env said =
     bindA (sext (getS (se_saved env) said)) (\<lambda>saider.
     case saider of
       None \<Rightarrow> raiseA AttributeError
     | Some saider \<Rightarrow>
         bindA (sext (getS (se_creds env) saider)) (\<lambda>creder.
         case creder of None \<Rightarrow> raiseA AttributeError | Some creder \<Rightarrow> retA (cd_sad creder)))"

subsection \<open>Indexing an exchange message\<close>

definition exn_fields :: "'w seek_env \<Rightarrow> string list" where
  "exn_fields env = map (se_path env) [[''r''], [''i''], [''a'', ''i''], [''dt''], [''e'', ''acdc'', ''s'']]"

definition ExnSeeker_createIndex :: "string \<Rightarrow> ('w seeker, unit) act" where
  "ExnSeeker_createIndex key = open_index key key"

definition ExnSeeker_reopen :: "'w seek_env \<Rightarrow> ('w seeker, unit) act" where
  "ExnSeeker_reopen env =
     forA (exn_fields env) (\<lambda>field.
       seqA (ExnSeeker_createIndex field)
         (forA (exn_fields env) (\<lambda>subfield.
            whenA (field \<noteq> subfield) (ExnSeeker_createIndex (subkey_of [field, subfield])))))"

text \<open>Paths a message does not have are skipped; \<open>exns\<close> gives the digest and content of a message.\<close>

fun present_values :: "'w seek_env \<Rightarrow> json \<Rightarrow> string list \<Rightarrow> exn + json list" where
  "present_values env sad [] = Inr []"
| "present_values env sad (p # ps) =
     (case se_resolve env p sad of
        Inl (KeyError k) \<Rightarrow> present_values env sad ps
      | Inl e \<Rightarrow> Inl e
      | Inr v \<Rightarrow> (case present_values env sad ps of Inl e \<Rightarrow> Inl e | Inr vs \<Rightarrow> Inr (v # vs)))"

definition exn_index_one :: "'w seek_env \<Rightarrow> string \<Rightarrow> json \<Rightarrow> string \<times> string \<Rightarrow> ('w seeker, unit) act" where
  "exn_index_one env saider ked ix =
     (case ix of (index, subkey) \<Rightarrow>
        bindA (liftA (present_values env ked (split_on (CHR ''.'') index))) (\<lambda>values.
        bindA (liftA (join_values values)) (\<lambda>value.
        whenA (value \<noteq> [])
          (bindA (sext (addD (se_idx env subkey) value saider)) (\<lambda>_. retA ())))))"

definition ExnSeeker_index :: "'w seek_env \<Rightarrow> ('w \<Rightarrow> string \<Rightarrow> (string \<times> json) option) \<Rightarrow> string \<Rightarrow> ('w seeker, unit) act" where
  "ExnSeeker_index env exns said =
     bindA (getA (\<lambda>s. exns (sk_world s) said)) (\<lambda>serder.
     case serder of
       None \<Rightarrow> raiseA (ValueError (said @ '' is not a valid exn''))
     | Some (saider, ked) \<Rightarrow>
         bindA (getA sk_indexes) (\<lambda>indexes. forA indexes (exn_index_one env saider ked)))"

subsection \<open>What an index holds\<close>

text \<open>The index databases are independent of each other and of the databases that describe them.\<close>

definition seek_ok :: "'w seek_env \<Rightarrow> bool" where
  "seek_ok env \<longleftrightarrow>
     dup_ok (se_schIdx env) \<and> suber_ok (se_dynIdx env) \<and>
     (\<forall>k. dup_ok (se_idx env k) \<and>
          (\<forall>k'. k' \<noteq> k \<longrightarrow> dframes (se_idx env k) (dget (se_idx env k'))) \<and>
          dframes (se_idx env k) (dget (se_schIdx env)) \<and> dframes (se_idx env k) (sget (se_dynIdx env)) \<and>
          dframes (se_idx env k) (sget (se_saved env)) \<and> dframes (se_idx env k) (sget (se_creds env))) \<and>
     frames (se_dynIdx env) (dget (se_schIdx env)) \<and> frames (se_dynIdx env) (sget (se_saved env)) \<and>
     frames (se_dynIdx env) (sget (se_creds env)) \<and>
     dframes (se_schIdx env) (sget (se_dynIdx env)) \<and> dframes (se_schIdx env) (sget (se_saved env)) \<and>
     dframes (se_schIdx env) (sget (se_creds env))"

lemma mapA_liftA: "mapA (\<lambda>x. liftA (f x)) xs s = (mapE f xs, s)"
  by (induction xs) (auto simp: bindA_def split: sum.splits)

text \<open>Where an index files a message: the sub-database and the value.\<close>

definition entry :: "'w seek_env \<Rightarrow> (string \<times> string) list \<Rightarrow> (string \<Rightarrow> index_record option) \<Rightarrow> json \<Rightarrow> string \<Rightarrow> exn + string \<times> string" where
  "entry env ixs dyn sad index =
     (case dict_get ixs index of
        None \<Rightarrow> Inl (KeyError index)
      | Some subkey \<Rightarrow>
          (case dyn index of
             None \<Rightarrow> Inl AttributeError
           | Some r \<Rightarrow>
               (case mapE (\<lambda>p. se_resolve env p sad) (ix_paths r) of
                  Inl e \<Rightarrow> Inl e
                | Inr vs \<Rightarrow> (case join_values vs of Inl e \<Rightarrow> Inl e | Inr v \<Rightarrow> Inr (subkey, v)))))"

lemma index_value_run:
  "index_value env sad paths s =
    ((case mapE (\<lambda>p. se_resolve env p sad) paths of Inl e \<Rightarrow> Inl e | Inr vs \<Rightarrow> join_values vs), s)"
  by (simp add: index_value_def bindA_def mapA_liftA split: sum.splits)

lemma sext_getS_run [simp]: "bindA (sext (getS db k)) f s = f (sget db (sk_world s) k) s"
  and sext_getD_run [simp]: "bindA (sext (getD d k)) g s = g (dget d (sk_world s) k) s"
  by (simp_all add: bindA_def sext_run)

lemma at_index_run:
  assumes "\<And>db v w. wr db v w = (Inr (fst (op db v w)), snd (op db v w))"
  shows "at_index env sad wr index s =
    (case entry env (sk_indexes s) (sget (se_dynIdx env) (sk_world s)) sad index of
       Inl e \<Rightarrow> (Inl e, s)
     | Inr (subkey, v) \<Rightarrow> (Inr (), s\<lparr>sk_world := snd (op (se_idx env subkey) v (sk_world s))\<rparr>))"
  by (auto simp: at_index_def entry_def bindA_def [of "index_value env sad p" for p]
      bindA_def [of "sext m" for m] index_value_run sext_run assms split: option.splits sum.splits)

definition write_all ::
  "'w seek_env \<Rightarrow> (('w, string, string) dupsuber \<Rightarrow> string \<Rightarrow> 'w \<Rightarrow> bool \<times> 'w) \<Rightarrow> (string \<times> string) list \<Rightarrow> 'w \<Rightarrow> 'w" where
  "write_all env op es w = fold (\<lambda>(subkey, v) w. snd (op (se_idx env subkey) v w)) es w"

lemma forA_at_index:
  assumes w: "\<And>db v w. wr db v w = (Inr (fst (op db v w)), snd (op db v w))"
    and frame: "\<And>k v w. sget (se_dynIdx env) (snd (op (se_idx env k) v w)) = sget (se_dynIdx env) w"
  shows "case mapE (entry env (sk_indexes s) (sget (se_dynIdx env) (sk_world s)) sad) indexes of
      Inl e \<Rightarrow> fst (forA indexes (at_index env sad wr) s) = Inl e
    | Inr es \<Rightarrow> forA indexes (at_index env sad wr) s = (Inr (), s\<lparr>sk_world := write_all env op es (sk_world s)\<rparr>)"
proof (induction indexes arbitrary: s)
  case Nil
  show ?case by (simp add: write_all_def)
next
  case (Cons i rest)
  show ?case
  proof (cases "entry env (sk_indexes s) (sget (se_dynIdx env) (sk_world s)) sad i")
    case (Inl e)
    then show ?thesis by (simp add: at_index_run [OF w] bindA_def)
  next
    case (Inr sv)
    let ?s = "s\<lparr>sk_world := snd (op (se_idx env (fst sv)) (snd sv) (sk_world s))\<rparr>"
    have "forA (i # rest) (at_index env sad wr) s = forA rest (at_index env sad wr) ?s"
      using Inr by (simp add: at_index_run [OF w] bindA_def split_beta)
    with Cons.IH [of ?s] Inr show ?thesis
      by (simp add: frame write_all_def split_beta split: sum.splits)
  qed
qed

lemma add_all_get:
  assumes "seek_ok env"
  shows "set (dget (se_idx env k) (write_all env (\<lambda>db v w. dadd db w v x) es w) u) =
    (if (k, u) \<in> set es then insert x (set (dget (se_idx env k) w u)) else set (dget (se_idx env k) w u))"
proof (induction es arbitrary: w)
  case Nil
  show ?case by (simp add: write_all_def)
next
  case (Cons e es)
  let ?w = "snd (dadd (se_idx env (fst e)) w (snd e) x)"
  have "set (dget (se_idx env k) ?w u) =
      (if e = (k, u) then insert x (set (dget (se_idx env k) w u)) else set (dget (se_idx env k) w u))"
    using assms by (cases e; cases "k = fst e") (auto simp: seek_ok_def dadd_ok dframes_store)
  with Cons.IH [of ?w] show ?case by (auto simp: write_all_def split_beta)
qed

lemma rem_all_get:
  assumes "seek_ok env"
  shows "set (dget (se_idx env k) (write_all env (\<lambda>db v w. drem db w v (Some x)) es w) u) =
    (if (k, u) \<in> set es then set (dget (se_idx env k) w u) - {x} else set (dget (se_idx env k) w u))"
proof (induction es arbitrary: w)
  case Nil
  show ?case by (simp add: write_all_def)
next
  case (Cons e es)
  let ?w = "snd (drem (se_idx env (fst e)) w (snd e) (Some x))"
  have "set (dget (se_idx env k) ?w u) =
      (if e = (k, u) then set (dget (se_idx env k) w u) - {x} else set (dget (se_idx env k) w u))"
    using assms by (cases e; cases "k = fst e") (auto simp: seek_ok_def drem_ok dframes_store)
  with Cons.IH [of ?w] show ?case by (auto simp: write_all_def split_beta)
qed

lemma write_all_frame:
  "(\<And>k v w. obs (snd (op (se_idx env k) v w)) = obs w) \<Longrightarrow> obs (write_all env op es w) = obs w"
  by (induction es arbitrary: w) (auto simp: write_all_def split_beta)

lemma add_all_frame:
  assumes "seek_ok env"
  shows "sget (se_dynIdx env) (write_all env (\<lambda>db v w. dadd db w v x) es w) = sget (se_dynIdx env) w"
    "sget (se_saved env) (write_all env (\<lambda>db v w. dadd db w v x) es w) = sget (se_saved env) w"
    "sget (se_creds env) (write_all env (\<lambda>db v w. dadd db w v x) es w) = sget (se_creds env) w"
    "dget (se_schIdx env) (write_all env (\<lambda>db v w. dadd db w v x) es w) = dget (se_schIdx env) w"
  using assms by (auto intro!: write_all_frame simp: seek_ok_def dframes_store)

text \<open>
  A credential that is stored under its own digest and whose schema has been indexed.
\<close>

definition indexed_credential :: "'w seek_env \<Rightarrow> 'w \<Rightarrow> string \<Rightarrow> creder \<Rightarrow> bool" where
  "indexed_credential env w said c \<longleftrightarrow>
     sget (se_saved env) w said = Some (cd_said c) \<and> sget (se_creds env) w (cd_said c) = Some c \<and>
     dget (se_schIdx env) w (cd_schema c) \<noteq> []"

abbreviation entries :: "'w seek_env \<Rightarrow> 'w seeker \<Rightarrow> creder \<Rightarrow> exn + (string \<times> string) list" where
  "entries env s c \<equiv>
     mapE (entry env (sk_indexes s) (sget (se_dynIdx env) (sk_world s)) (cd_sad c))
       (dget (se_schIdx env) (sk_world s) (cd_schema c))"

lemma load_creder_run:
  "indexed_credential env (sk_world s) said c \<Longrightarrow> bindA (load_creder env said) f s = f c s"
  by (simp add: load_creder_def indexed_credential_def)

lemma Seeker_index_run:
  assumes "seek_ok env" and "indexed_credential env (sk_world s) said c"
  shows "case entries env s c of
      Inl e \<Rightarrow> fst (Seeker_index env said s) = Inl e
    | Inr es \<Rightarrow> Seeker_index env said s =
        (Inr (), s\<lparr>sk_world := write_all env (\<lambda>db v w. dadd db w v (cd_said c)) es (sk_world s)\<rparr>)"
proof -
  have "Seeker_index env said s =
      forA (dget (se_schIdx env) (sk_world s) (cd_schema c))
        (at_index env (cd_sad c) (\<lambda>db v. addD db v (cd_said c))) s"
    using assms(2) by (simp add: Seeker_index_def load_creder_run) (simp add: indexed_credential_def)
  then show ?thesis
    by (simp only:) (rule forA_at_index [where op = "\<lambda>db v w. dadd db w v (cd_said c)"],
      use assms(1) in \<open>auto simp: addD_def seek_ok_def dframes_store\<close>)
qed

lemma Seeker_unindex_run:
  assumes "seek_ok env" and "indexed_credential env (sk_world s) said c"
  shows "case entries env s c of
      Inl e \<Rightarrow> fst (Seeker_unindex env said s) = Inl e
    | Inr es \<Rightarrow> Seeker_unindex env said s =
        (Inr (), s\<lparr>sk_world := write_all env (\<lambda>db v w. drem db w v (Some (cd_said c))) es (sk_world s)\<rparr>)"
proof -
  have "Seeker_unindex env said s =
      forA (dget (se_schIdx env) (sk_world s) (cd_schema c))
        (at_index env (cd_sad c) (\<lambda>db v. remD db v (Some (cd_said c)))) s"
    using assms(2) by (simp add: Seeker_unindex_def load_creder_run) (simp add: indexed_credential_def)
  then show ?thesis
    by (simp only:) (rule forA_at_index [where op = "\<lambda>db v w. drem db w v (Some (cd_said c))"],
      use assms(1) in \<open>auto simp: remD_def seek_ok_def dframes_store\<close>)
qed

text \<open>
  C29. Indexing files the credential in every index of its schema under the values it has there, and
  in no other place: afterwards a credential is at a value of an index if it was there before or
  is the new one at one of its values. Indexing again changes nothing more, and removing it from
  the indexes takes out exactly those entries. If a path of one of the indexes can not be resolved
  to text the indexing raises.
\<close>

theorem index_unindex:
  assumes "seek_ok env" and "indexed_credential env (sk_world s) said c"
  shows "(case entries env s c of
      Inl e \<Rightarrow> fst (Seeker_index env said s) = Inl e
    | Inr es \<Rightarrow> (\<exists>s1 s2.
        Seeker_index env said s = (Inr (), s1) \<and> Seeker_unindex env said s1 = (Inr (), s2) \<and>
        (\<forall>k v x. x \<in> set (dget (se_idx env k) (sk_world s1) v) \<longleftrightarrow>
           x \<in> set (dget (se_idx env k) (sk_world s) v) \<or> x = cd_said c \<and> (k, v) \<in> set es) \<and>
        (\<forall>k v x. x \<in> set (dget (se_idx env k) (sk_world s2) v) \<longleftrightarrow>
           x \<in> set (dget (se_idx env k) (sk_world s) v) \<and> \<not> (x = cd_said c \<and> (k, v) \<in> set es)) \<and>
        (\<forall>k v. set (dget (se_idx env k) (sk_world (snd (Seeker_index env said s1))) v) =
               set (dget (se_idx env k) (sk_world s1) v))))"
proof (cases "entries env s c")
  case (Inl e)
  with Seeker_index_run [OF assms] show ?thesis by simp
next
  case (Inr es)
  let ?s1 = "s\<lparr>sk_world := write_all env (\<lambda>db v w. dadd db w v (cd_said c)) es (sk_world s)\<rparr>"
  let ?s2 = "?s1\<lparr>sk_world := write_all env (\<lambda>db v w. drem db w v (Some (cd_said c))) es (sk_world ?s1)\<rparr>"
  have same: "entries env ?s1 c = Inr es" "indexed_credential env (sk_world ?s1) said c"
    using Inr assms(2) by (simp_all add: add_all_frame [OF assms(1)] indexed_credential_def)
  have i: "Seeker_index env said s = (Inr (), ?s1)" using Seeker_index_run [OF assms] Inr by simp
  have u: "Seeker_unindex env said ?s1 = (Inr (), ?s2)"
    using Seeker_unindex_run [OF assms(1) same(2)] same(1) by simp
  have again: "Seeker_index env said ?s1 =
      (Inr (), ?s1\<lparr>sk_world := write_all env (\<lambda>db v w. dadd db w v (cd_said c)) es (sk_world ?s1)\<rparr>)"
    using Seeker_index_run [OF assms(1) same(2)] same(1) by simp
  show ?thesis
    unfolding Inr sum.case
    by (rule exI [of _ ?s1], rule exI [of _ ?s2], intro conjI allI i u; (unfold again)?)
      (simp_all add: add_all_get [OF assms(1)] rem_all_get [OF assms(1)], auto)
qed

subsection \<open>A credential that can not be indexed\<close>

text \<open>
  An index of the credential's schema has a path at which the credential has no text: a number,
  or nothing at all.
\<close>

definition unresolvable :: "'w seek_env \<Rightarrow> json \<Rightarrow> index_record \<Rightarrow> bool" where
  "unresolvable env sad r \<longleftrightarrow>
     (case mapE (\<lambda>p. se_resolve env p sad) (ix_paths r) of
        Inl e \<Rightarrow> isException e
      | Inr vs \<Rightarrow> \<exists>v \<in> set vs. \<forall>t. v \<noteq> JStr t)"

definition doomed :: "'w seek_env \<Rightarrow> string \<Rightarrow> creder \<Rightarrow> string \<Rightarrow> index_record \<Rightarrow> 'w seeker \<Rightarrow> bool" where
  "doomed env said c i r s \<longleftrightarrow>
     sget (se_saved env) (sk_world s) said = Some (cd_said c) \<and>
     sget (se_creds env) (sk_world s) (cd_said c) = Some c \<and>
     i \<in> set (dget (se_schIdx env) (sk_world s) (cd_schema c)) \<and>
     dict_get (sk_indexes s) i \<noteq> None \<and> sget (se_dynIdx env) (sk_world s) i = Some r"

lemma doomed_sext_addD:
  assumes "seek_ok env"
  shows "keeps (doomed env said c i r) (sext (addD (se_schIdx env) k v))"
    "keeps (doomed env said c i r) (sext (addD (se_idx env j) k v))"
  using assms by (auto simp: keeps_def sext_run doomed_def seek_ok_def dadd_ok dframes_store)

lemma keeps_sext_reads [wp]: "keeps P (sext (getS db k))" "keeps P (sext (getD d k))"
  by (simp_all add: keeps_def sext_run)

lemma doomed_schema_index:
  assumes "seek_ok env"
  shows "keeps (doomed env said c i r) (schema_index env x paths)"
  unfolding keeps_def
proof (intro allI impI)
  fix s assume d: "doomed env said c i r s"
  let ?key = "subkey_of paths"
  let ?rec = "\<lparr>ix_subkey = ?key, ix_paths = paths\<rparr>"
  have add: "keeps (doomed env said c i r) (list_index env x ?key)"
    unfolding list_index_def by (intro wp doomed_sext_addD(1) [OF assms])
  show "doomed env said c i r (snd (schema_index env x paths s))"
  proof (cases "dict_get (sk_indexes s) ?key")
    case None
    let ?s = "s\<lparr>sk_indexes := dict_set (sk_indexes s) ?key ?key,
                sk_world := snd (spin (se_dynIdx env) (sk_world s) ?key ?rec)\<rparr>"
    have "?key \<noteq> i" using None d by (auto simp: doomed_def)
    with assms d have "doomed env said c i r ?s"
      by (auto simp: doomed_def seek_ok_def spin_ok frames_store)
    moreover have "schema_index env x paths s = list_index env x ?key ?s"
      using None by (simp add: schema_index_def Let_def open_index_def bindA_def [of "sext m" for m] sext_run)
    ultimately show ?thesis using add by (simp add: keeps_def)
  next
    case (Some k)
    then have "schema_index env x paths s = list_index env x ?key s"
      by (simp add: schema_index_def Let_def)
    with add d show ?thesis by (simp add: keeps_def)
  qed
qed

lemma doomed_index:
  assumes "seek_ok env" shows "keeps (doomed env said c i r) (Seeker_index env x)"
proof -
  note rules = wp doomed_sext_addD [OF assms] doomed_schema_index [OF assms]
  have p: "keeps (doomed env said c i r) (property_indexes env y pv)" for y pv
    unfolding property_indexes_def Let_def by (intro rules)
  have l: "keeps (doomed env said c i r) (list_index env y k)" for y k
    unfolding list_index_def by (intro rules)
  have "keeps (doomed env said c i r) (generateIndexes env y)" for y
    unfolding generateIndexes_def payload_of_def by (intro rules p l)
  then show ?thesis
    unfolding Seeker_index_def load_creder_def at_index_def index_value_def by (intro rules)
qed

lemma join_values_Inl: "v \<in> set vs \<Longrightarrow> (\<forall>t. v \<noteq> JStr t) \<Longrightarrow> join_values vs = Inl TypeError"
proof (induction vs)
  case (Cons x vs)
  then show ?case by (cases x) auto
qed simp

lemma join_values_error: "join_values vs = Inl e \<Longrightarrow> e = TypeError"
  by (induction vs arbitrary: e rule: join_values.induct) (auto split: sum.splits)

lemma doomed_fails:
  assumes "seek_ok env" and "doomed env said c i r s" and "unresolvable env (cd_sad c) r"
    and "\<And>p e. se_resolve env p (cd_sad c) = Inl e \<Longrightarrow> isException e"
  shows "\<exists>e. fst (Seeker_index env said s) = Inl e \<and> isException e"
proof -
  have ic: "indexed_credential env (sk_world s) said c"
    using assms(2) by (auto simp: doomed_def indexed_credential_def)
  obtain sub where i: "i \<in> set (dget (se_schIdx env) (sk_world s) (cd_schema c))"
    "dict_get (sk_indexes s) i = Some sub" "sget (se_dynIdx env) (sk_world s) i = Some r"
    using assms(2) by (auto simp: doomed_def)
  have "\<exists>e. entry env (sk_indexes s) (sget (se_dynIdx env) (sk_world s)) (cd_sad c) i = Inl e"
    using i assms(3) by (auto simp: entry_def unresolvable_def split: sum.splits dest: join_values_Inl)
  with i(1) obtain e where e: "entries env s c = Inl e"
    using mapE_Inl [of i _ "entry env (sk_indexes s) (sget (se_dynIdx env) (sk_world s)) (cd_sad c)"] by blast
  then obtain j where "entry env (sk_indexes s) (sget (se_dynIdx env) (sk_world s)) (cd_sad c) j = Inl e"
    using mapE_error [of "entry env (sk_indexes s) (sget (se_dynIdx env) (sk_world s)) (cd_sad c)"] by blast
  then have "isException e"
    using assms(4) by (auto simp: entry_def isException_def split: option.splits sum.splits
        dest: join_values_error dest!: mapE_error)
  with e Seeker_index_run [OF assms(1) ic] show ?thesis by auto
qed

subsection \<open>A seeker in memory\<close>

record mem_seek =
  ms_saved :: "(string, string) alist"
  ms_creds :: "(string, creder) alist"
  ms_sch :: "(string, string list) alist"
  ms_dyn :: "(string, index_record) alist"
  ms_ix :: "string \<Rightarrow> (string, string list) alist"

text \<open>Paths as text: a dash before each label; a path is read up to the first dot.\<close>

fun walk :: "string list \<Rightarrow> json \<Rightarrow> exn + json" where
  "walk [] x = Inr x"
| "walk (l # ls) x = (case jitem x l of Inl e \<Rightarrow> Inl e | Inr y \<Rightarrow> walk ls y)"

lemma walk_error: "walk ls x = Inl e \<Longrightarrow> isException e"
proof (induction ls arbitrary: x)
  case (Cons l ls)
  have "isException e" if "jitem y l = Inl e" for y
    using that by (cases y) (auto simp: isException_def split: option.splits)
  with Cons show ?case by (auto split: sum.splits)
qed simp

definition mem_seek_env :: "mem_seek seek_env" where
  "mem_seek_env =
     \<lparr>se_saved = mem_suber ms_saved (\<lambda>a w. w\<lparr>ms_saved := a\<rparr>),
      se_creds = mem_suber ms_creds (\<lambda>a w. w\<lparr>ms_creds := a\<rparr>),
      se_schema = (\<lambda>_ _. None),
      se_schIdx = mem_dup ms_sch (\<lambda>a w. w\<lparr>ms_sch := a\<rparr>) (\<lambda>k. k),
      se_dynIdx = mem_suber ms_dyn (\<lambda>a w. w\<lparr>ms_dyn := a\<rparr>),
      se_idx = (\<lambda>k. mem_dup (\<lambda>w. ms_ix w k) (\<lambda>a w. w\<lparr>ms_ix := (ms_ix w)(k := a)\<rparr>) (\<lambda>v. v)),
      se_path = (\<lambda>ps. concat (map (\<lambda>p. CHR ''-'' # p) ps)),
      se_bext = (\<lambda>f. Inr f),
      se_resolve = (\<lambda>p sad. walk (tl (split_on (CHR ''-'') (hd (split_on (CHR ''.'') p)))) sad)\<rparr>"

lemma mem_seek_ok: "seek_ok mem_seek_env"
  unfolding seek_ok_def mem_seek_env_def seek_env.select_convs
  by (intro conjI allI impI mem_dup_ok mem_suber_ok mem_dup_frames mem_suber_frames;
      simp add: fun_eq_iff; intro conjI allI mem_dup_frames; simp add: mem_dup_def)

definition mem_cred :: creder where
  "mem_cred = \<lparr>cd_said = ''EC'', cd_schema = ''ES'', cd_sad =
     JObj [(''i'', JStr ''EI''), (''s'', JStr ''ES''), (''a'', JObj [(''n'', JInt 5)])]\<rparr>"

text \<open>The credential is saved and the indexes of its schema are the given ones.\<close>

definition mem_seeker :: "string list \<Rightarrow> mem_seek seeker" where
  "mem_seeker keys =
     \<lparr>sk_indexes = map (\<lambda>k. (k, k)) keys,
      sk_world = \<lparr>ms_saved = DAList.update ''EC'' ''EC'' DAList.empty,
                  ms_creds = DAList.update ''EC'' mem_cred DAList.empty,
                  ms_sch = DAList.update ''ES'' keys DAList.empty,
                  ms_dyn = fold (\<lambda>k. DAList.update k \<lparr>ix_subkey = k, ix_paths = [k]\<rparr>) keys DAList.empty,
                  ms_ix = (\<lambda>_. DAList.empty)\<rparr>\<rparr>"

theorem index_unindex_witness:
  "\<exists>s1. Seeker_index mem_seek_env ''EC'' (mem_seeker [''-s'', ''-i'']) = (Inr (), s1) \<and>
     ''EC'' \<in> set (dget (se_idx mem_seek_env ''-i'') (sk_world s1) ''EI'')"
proof -
  have ic: "indexed_credential mem_seek_env (sk_world (mem_seeker [''-s'', ''-i''])) ''EC'' mem_cred"
    by (simp add: indexed_credential_def mem_seek_env_def mem_seeker_def mem_cred_def mem_dup_def)
  have es: "entries mem_seek_env (mem_seeker [''-s'', ''-i'']) mem_cred = Inr [(''-s'', ''ES''), (''-i'', ''EI'')]"
    by (simp add: mem_seek_env_def mem_seeker_def mem_cred_def mem_dup_def entry_def)
  from index_unindex [OF mem_seek_ok ic] show ?thesis
    unfolding es sum.case by (auto simp: mem_cred_def)
qed

end
