(* ===== verification/Cursors.thy ===== *)
theory Cursors
  imports Seeking "HOL-Library.Sublist"
begin

text \<open>
  The search of \<open>db/basing.py\<close>: a filter becomes a list of operators, the operators are answered
  from the indexes where there are some and by scanning the messages where there are none, and
  the result is sorted by an index and cut to a page.
\<close>

datatype operator =
    Eq string string json
  | Begins string string string

text \<open>The field, its path and the value of an operator; the value of \<open>Begins\<close> is text.\<close>

fun op_name :: "operator \<Rightarrow> string" where
  "op_name (Eq f p v) = p"
| "op_name (Begins f p v) = p"

fun op_value :: "operator \<Rightarrow> json" where
  "op_value (Eq f p v) = v"
| "op_value (Begins f p v) = JStr v"

fun is_Eq :: "operator \<Rightarrow> bool" where
  "is_Eq (Eq _ _ _) = True"
| "is_Eq _ = False"

definition make_Eq :: "'w seek_env \<Rightarrow> string \<Rightarrow> json \<Rightarrow> exn + operator" where
  "make_Eq env f v = (case se_bext env f of Inl e \<Rightarrow> Inl e | Inr p \<Rightarrow> Inr (Eq f p v))"

definition make_Begins :: "'w seek_env \<Rightarrow> string \<Rightarrow> json \<Rightarrow> exn + operator" where
  "make_Begins env f v =
     (case se_bext env f of
        Inl e \<Rightarrow> Inl e
      | Inr p \<Rightarrow> (case v of JStr t \<Rightarrow> Inr (Begins f p t)
                 | _ \<Rightarrow> Inl (ValueError ''invalid type for begins, must be `str`'')))"

text \<open>An operator name that is not known is left out.\<close>

fun field_operators :: "'w seek_env \<Rightarrow> string \<Rightarrow> (string \<times> json) list \<Rightarrow> exn + operator list" where
  "field_operators env f [] = Inr []"
| "field_operators env f ((name, v) # rest) =
     (if name \<in> {''$eq'', ''$begins''} then
        (case (if name = ''$eq'' then make_Eq env f v else make_Begins env f v) of
           Inl e \<Rightarrow> Inl e
         | Inr x \<Rightarrow> (case field_operators env f rest of Inl e \<Rightarrow> Inl e | Inr xs \<Rightarrow> Inr (x # xs)))
      else field_operators env f rest)"

fun operators :: "'w seek_env \<Rightarrow> (string \<times> json) list \<Rightarrow> exn + operator list" where
  "operators env [] = Inr []"
| "operators env ((f, v) # rest) =
     (case (case v of JObj d \<Rightarrow> field_operators env f d
            | _ \<Rightarrow> (case make_Eq env f v of Inl e \<Rightarrow> Inl e | Inr x \<Rightarrow> Inr [x])) of
        Inl e \<Rightarrow> Inl e
      | Inr xs \<Rightarrow> (case operators env rest of Inl e \<Rightarrow> Inl e | Inr ys \<Rightarrow> Inr (xs @ ys)))"

text \<open>Calling an operator on a message, and answering it from an index.\<close>

fun op_call :: "'w seek_env \<Rightarrow> operator \<Rightarrow> json \<Rightarrow> exn + bool" where
  "op_call env (Eq f p v) sad = (case se_resolve env p sad of Inl e \<Rightarrow> Inl e | Inr x \<Rightarrow> Inr (x = v))"
| "op_call env (Begins f p v) sad =
     (case se_resolve env p sad of
        Inl e \<Rightarrow> Inl e
      | Inr (JStr s) \<Rightarrow> Inr (startswith s v)
      | Inr _ \<Rightarrow> Inl (ValueError ''invalid type for begins, must be `str`''))"

fun op_index :: "operator \<Rightarrow> ('w, string, string) dupsuber \<Rightarrow> ('w seeker, string list) act" where
  "op_index (Eq f p v) idx = bindA (liftA (jstr v)) (\<lambda>key. sext (getD idx key))"
| "op_index (Begins f p v) idx = getA (\<lambda>s. map snd (dprefix idx (sk_world s) v))"

subsection \<open>The cursor\<close>

text \<open>
  What a cursor needs of its seeker: the saids of the table, the content of a message, and the
  saids a full scan goes through.
\<close>

record 'w cursor_env =
  ce_seek :: "'w seek_env"
  ce_table :: "('w seeker, string list) act"
  ce_value :: "string \<Rightarrow> ('w seeker, json) act"
  ce_scan :: "('w seeker, string list) act"

record cursor =
  cu_filtr :: "(string \<times> json) list"
  cu_ops :: "operator list"
  cu_sort :: "string list"
  cu_skip :: int
  cu_limit :: int

definition make_cursor ::
  "'w seek_env \<Rightarrow> (string \<times> json) list \<Rightarrow> string list option \<Rightarrow> int option \<Rightarrow> int option \<Rightarrow> exn + cursor" where
  "make_cursor env filtr srt skip limit =
     (case operators env filtr of
        Inl e \<Rightarrow> Inl e
      | Inr ops \<Rightarrow> Inr \<lparr>cu_filtr = filtr, cu_ops = ops,
          cu_sort = (case srt of None \<Rightarrow> [] | Some xs \<Rightarrow> xs),
          cu_skip = (case skip of None \<Rightarrow> 0 | Some n \<Rightarrow> n),
          cu_limit = (case limit of None \<Rightarrow> 25 | Some n \<Rightarrow> n)\<rparr>)"

definition Cursor_sort :: "string list \<Rightarrow> cursor \<Rightarrow> cursor" where
  "Cursor_sort srt c = c\<lparr>cu_sort := srt\<rparr>"

definition Cursor_skip :: "int \<Rightarrow> cursor \<Rightarrow> cursor" where
  "Cursor_skip n c = c\<lparr>cu_skip := n\<rparr>"

definition Cursor_limit :: "int \<Rightarrow> cursor \<Rightarrow> cursor" where
  "Cursor_limit n c = c\<lparr>cu_limit := n\<rparr>"

definition seeker_cursor :: "'w seek_env \<Rightarrow> 'w cursor_env" where
  "seeker_cursor env =
     \<lparr>ce_seek = env,
      ce_table = getA (\<lambda>s. map fst (sitems (se_saved env) (sk_world s))),
      ce_value = Seeker_value env,
      ce_scan = getA (\<lambda>s. map snd (sitems (se_saved env) (sk_world s)))\<rparr>"

text \<open>
  \<open>ExnSeeker.saidIter\<close> yields the bare said where the full scan expects a pair: unpacking a
  string of more than two characters raises \<open>ValueError\<close>.
\<close>

definition exn_cursor ::
  "'w seek_env \<Rightarrow> ('w \<Rightarrow> string \<Rightarrow> (string \<times> json) option) \<Rightarrow> ('w \<Rightarrow> string list) \<Rightarrow> 'w cursor_env" where
  "exn_cursor env exns items =
     \<lparr>ce_seek = env,
      ce_table = getA (\<lambda>s. items (sk_world s)),
      ce_value = (\<lambda>said. bindA (getA (\<lambda>s. exns (sk_world s) said)) (\<lambda>x.
                    case x of None \<Rightarrow> raiseA AttributeError | Some (_, ked) \<Rightarrow> retA ked)),
      ce_scan = bindA (getA (\<lambda>s. items (sk_world s))) (\<lambda>saids.
                  case saids of [] \<Rightarrow> retA []
                  | said # _ \<Rightarrow> if length said = 2 then raiseA AttributeError
                                else raiseA (ValueError ''too many values to unpack''))\<rparr>"

definition tableScan :: "'w cursor_env \<Rightarrow> string list \<Rightarrow> operator list \<Rightarrow> ('w seeker, string list) act" where
  "tableScan ce saids ops =
     bindA (mapA (\<lambda>said.
              bindA (ce_value ce said) (\<lambda>val.
              bindA (mapA (\<lambda>x. liftA (op_call (ce_seek ce) x val)) ops) (\<lambda>bs.
              retA (map (\<lambda>_. said) (filter (\<lambda>b. b) bs))))) saids)
       (\<lambda>res. retA (concat res))"

definition fullTableScan :: "'w cursor_env \<Rightarrow> cursor \<Rightarrow> ('w seeker, string list) act" where
  "fullTableScan ce c = bindA (ce_scan ce) (\<lambda>saids. tableScan ce saids (cu_ops c))"

definition open_db :: "'w cursor_env \<Rightarrow> string \<Rightarrow> ('w seeker, ('w, string, string) dupsuber) act" where
  "open_db ce index =
     bindA (getA (\<lambda>s. dict_get (sk_indexes s) index)) (\<lambda>subkey.
     case subkey of None \<Rightarrow> raiseA (KeyError index) | Some k \<Rightarrow> retA (se_idx (ce_seek ce) k))"

definition indexSearch :: "'w cursor_env \<Rightarrow> cursor \<Rightarrow> ('w seeker, string list option) act" where
  "indexSearch ce c =
     bindA (getA sk_indexes) (\<lambda>ixs.
     case cu_ops c of
       [x] \<Rightarrow>
         if dict_get ixs (op_name x) \<noteq> None then
           bindA (open_db ce (op_name x)) (\<lambda>idx. bindA (op_index x idx) (\<lambda>saids. retA (Some saids)))
         else retA None
     | ops \<Rightarrow>
         let index = subkey_of (map op_name ops) in
         if \<not> (list_all is_Eq ops \<and> dict_get ixs index \<noteq> None) then retA None
         else
           bindA (open_db ce index) (\<lambda>idx.
           bindA (liftA (join_values (map op_value ops))) (\<lambda>val.
           bindA (sext (getD idx val)) (\<lambda>saids. retA (Some saids)))))"

text \<open>An ordered set keeps the first of equal elements; \<open>&=\<close> keeps the order of the left side.\<close>

fun oset :: "'a list \<Rightarrow> 'a list" where
  "oset [] = []"
| "oset (x # xs) = x # filter (\<lambda>y. y \<noteq> x) (oset xs)"

definition index_saids :: "'w cursor_env \<Rightarrow> operator \<Rightarrow> ('w seeker, string list) act" where
  "index_saids ce x = bindA (open_db ce (op_name x)) (op_index x)"

fun narrow :: "'w cursor_env \<Rightarrow> string list \<Rightarrow> operator list \<Rightarrow> ('w seeker, string list) act" where
  "narrow ce saids [] = retA saids"
| "narrow ce saids (x # xs) =
     bindA (index_saids ce x) (\<lambda>nxt. narrow ce (filter (\<lambda>said. said \<in> set nxt) saids) xs)"

definition indexScan :: "'w cursor_env \<Rightarrow> cursor \<Rightarrow> ('w seeker, string list) act" where
  "indexScan ce c =
     bindA (getA sk_indexes) (\<lambda>ixs.
     let indexed = filter (\<lambda>x. dict_get ixs (op_name x) \<noteq> None) (cu_ops c);
         scan = filter (\<lambda>x. dict_get ixs (op_name x) = None) (cu_ops c) in
     case indexed of
       [] \<Rightarrow> fullTableScan ce c
     | x # rest \<Rightarrow>
         bindA (index_saids ce x) (\<lambda>first.
         let saids = oset first in
         if saids = [] then retA []
         else
           bindA (narrow ce saids rest) (\<lambda>saids.
           if scan = [] then retA saids else tableScan ce saids scan)))"

subsection \<open>Order and page\<close>

text \<open>\<open>xs[i:j]\<close> with Python's treatment of negative indexes.\<close>

definition py_index :: "int \<Rightarrow> nat \<Rightarrow> nat" where
  "py_index i n = (if i < 0 then nat (max 0 (i + int n)) else min (nat i) n)"

definition py_slice :: "'a list \<Rightarrow> int \<Rightarrow> int \<Rightarrow> 'a list" where
  "py_slice xs i j = (let a = py_index i (length xs); b = py_index j (length xs) in take (b - a) (drop a xs))"

definition slice :: "cursor \<Rightarrow> string list \<Rightarrow> string list" where
  "slice c saids =
     (if cu_skip c \<ge> int (length saids) then [] else py_slice saids (cu_skip c) (cu_skip c + cu_limit c))"

text \<open>\<open>next(ctx)\<close> until enough members are skipped; \<open>None\<close> where it raises \<open>StopIteration\<close>.\<close>

fun run_off :: "int \<Rightarrow> string list \<Rightarrow> string list \<Rightarrow> string list option" where
  "run_off n saids items =
     (if n \<le> 0 then Some items
      else (case items of [] \<Rightarrow> None
            | x # xs \<Rightarrow> run_off (if x \<in> set saids then n - 1 else n) saids xs))"

declare run_off.simps [simp del]

fun take_order :: "int \<Rightarrow> string list \<Rightarrow> string list \<Rightarrow> string list \<Rightarrow> string list" where
  "take_order limit saids res [] = res"
| "take_order limit saids res (x # xs) =
     (let res = (if x \<in> set saids then res @ [x] else res) in
      if int (length res) = limit then res else take_order limit saids res xs)"

definition indexOrder :: "'w cursor_env \<Rightarrow> cursor \<Rightarrow> string list \<Rightarrow> ('w seeker, string list option) act" where
  "indexOrder ce c saids =
     bindA (liftA (mapE (se_bext (ce_seek ce)) (cu_sort c))) (\<lambda>paths.
     bindA (getA (\<lambda>s. dict_get (sk_indexes s) (subkey_of paths))) (\<lambda>subkey.
     case subkey of
       None \<Rightarrow> retA None
     | Some k \<Rightarrow>
         bindA (getA (\<lambda>s. map snd (ditems (se_idx (ce_seek ce) k) (sk_world s)))) (\<lambda>items.
         case run_off (cu_skip c) saids items of
           None \<Rightarrow> raiseA StopIteration
         | Some rest \<Rightarrow> retA (Some (take_order (cu_limit c) saids [] rest)))))"

definition order :: "'w cursor_env \<Rightarrow> cursor \<Rightarrow> string list \<Rightarrow> ('w seeker, string list) act" where
  "order ce c saids =
     (if cu_sort c = [] then retA (slice c saids)
      else bindA (indexOrder ce c saids) (\<lambda>res.
           case res of Some xs \<Rightarrow> retA xs | None \<Rightarrow> retA (slice c saids)))"

definition query_saids :: "'w cursor_env \<Rightarrow> cursor \<Rightarrow> ('w seeker, string list) act" where
  "query_saids ce c =
     (if cu_filtr c = [] then ce_table ce
      else
        bindA (indexSearch ce c) (\<lambda>found.
        case found of Some saids \<Rightarrow> retA saids | None \<Rightarrow> indexScan ce c))"

definition Cursor_query :: "'w cursor_env \<Rightarrow> cursor \<Rightarrow> ('w seeker, string list) act" where
  "Cursor_query ce c = bindA (query_saids ce c) (order ce c)"

text \<open>
  A loop over the cursor: the query runs with the first \<open>__next__\<close>, and a \<open>StopIteration\<close> that
  comes out of it ends the loop like the end of the list does.
\<close>

definition Cursor_list :: "'w cursor_env \<Rightarrow> cursor \<Rightarrow> ('w seeker, string list) act" where
  "Cursor_list ce c = catchA (Cursor_query ce c) (\<lambda>e. if e = StopIteration then Some (retA []) else None)"

definition Seeker_find ::
  "'w cursor_env \<Rightarrow> (string \<times> json) list \<Rightarrow> string list option \<Rightarrow> int option \<Rightarrow> int option \<Rightarrow> ('w seeker, string list) act" where
  "Seeker_find ce filtr srt skip limit =
     bindA (liftA (make_cursor (ce_seek ce) filtr srt skip limit)) (Cursor_list ce)"

subsection \<open>A page of the result\<close>

lemma run_off_spec:
  "0 \<le> n \<Longrightarrow>
   (case run_off n saids items of
      None \<Rightarrow> length (filter (\<lambda>x. x \<in> set saids) items) < nat n
    | Some rest \<Rightarrow> filter (\<lambda>x. x \<in> set saids) rest = drop (nat n) (filter (\<lambda>x. x \<in> set saids) items))"
proof (induction items arbitrary: n)
  case Nil
  then show ?case by (simp add: run_off.simps)
next
  case (Cons x xs)
  show ?case
  proof (cases "n = 0")
    case True
    then show ?thesis by (simp add: run_off.simps)
  next
    case False
    with Cons.prems have pos: "0 \<le> n - 1" "nat n = Suc (nat (n - 1))" by simp_all
    show ?thesis
      using Cons.IH [OF pos(1)] Cons.IH [OF Cons.prems] False Cons.prems pos(2)
      by (subst run_off.simps) (auto split: option.splits)
  qed
qed

lemma take_order_spec:
  "int (length res) < limit \<Longrightarrow>
   take_order limit saids res items = res @ take (nat limit - length res) (filter (\<lambda>x. x \<in> set saids) items)"
proof (induction items arbitrary: res)
  case (Cons x xs)
  show ?case
  proof (cases "x \<in> set saids")
    case True
    show ?thesis
    proof (cases "int (length (res @ [x])) = limit")
      case True
      then have "nat limit - length res = Suc 0" by auto
      with True \<open>x \<in> set saids\<close> show ?thesis by (simp add: Let_def)
    next
      case False
      with Cons.prems have "int (length (res @ [x])) < limit" by simp
      moreover have "nat limit - length res = Suc (nat limit - length (res @ [x]))" using Cons.prems by simp
      ultimately show ?thesis using Cons.IH [of "res @ [x]"] False \<open>x \<in> set saids\<close> by (simp add: Let_def)
    qed
  next
    case False
    with Cons show ?thesis by (simp add: Let_def)
  qed
qed simp

lemma py_slice_page: "0 \<le> i \<Longrightarrow> 0 < n \<Longrightarrow> i < int (length xs) \<Longrightarrow> py_slice xs i (i + n) = take (nat n) (drop (nat i) xs)"
  by (auto simp: py_slice_def py_index_def Let_def min_def nat_add_distrib)

lemma slice_page: "0 \<le> cu_skip c \<Longrightarrow> 0 < cu_limit c \<Longrightarrow> slice c xs = take (nat (cu_limit c)) (drop (nat (cu_skip c)) xs)"
  by (auto simp: slice_def py_slice_page)

lemma Cursor_list_page:
  assumes "0 \<le> cu_skip c" and "0 < cu_limit c"
    and "query_saids ce c s = (Inr saids, s1)"
    and "mapE (se_bext (ce_seek ce)) (cu_sort c) = Inr paths"
  defines "xs \<equiv> (if cu_sort c = [] then saids
     else case dict_get (sk_indexes s1) (subkey_of paths) of
            None \<Rightarrow> saids
          | Some k \<Rightarrow> filter (\<lambda>x. x \<in> set saids) (map snd (ditems (se_idx (ce_seek ce) k) (sk_world s1))))"
  shows "Cursor_list ce c s = (Inr (take (nat (cu_limit c)) (drop (nat (cu_skip c)) xs)), s1) \<and>
         length (take (nat (cu_limit c)) (drop (nat (cu_skip c)) xs)) \<le> nat (cu_limit c)"
proof -
  have q: "Cursor_query ce c s = order ce c saids s1"
    using assms(3) by (simp add: Cursor_query_def bindA_Inr)
  have "Cursor_list ce c s = (Inr (take (nat (cu_limit c)) (drop (nat (cu_skip c)) xs)), s1)"
  proof (cases "cu_sort c = [] \<or> dict_get (sk_indexes s1) (subkey_of paths) = None")
    case True
    then show ?thesis
      using q assms(1,2,4)
      by (auto simp: Cursor_list_def catchA_def order_def indexOrder_def slice_page xs_def)
  next
    case False
    then obtain k where k: "dict_get (sk_indexes s1) (subkey_of paths) = Some k" "cu_sort c \<noteq> []" by auto
    let ?items = "map snd (ditems (se_idx (ce_seek ce) k) (sk_world s1))"
    have xs: "xs = filter (\<lambda>x. x \<in> set saids) ?items" using k by (simp add: xs_def)
    show ?thesis
    proof (cases "run_off (cu_skip c) saids ?items")
      case None
      with run_off_spec [OF assms(1), of saids ?items] have "length xs < nat (cu_skip c)"
        unfolding xs by simp
      with None k q assms(4) show ?thesis
        by (simp add: Cursor_list_def catchA_def order_def indexOrder_def)
    next
      case (Some rest)
      with run_off_spec [OF assms(1), of saids ?items]
      have "filter (\<lambda>x. x \<in> set saids) rest = drop (nat (cu_skip c)) xs" unfolding xs by simp
      moreover have "Cursor_list ce c s = (Inr (take_order (cu_limit c) saids [] rest), s1)"
        using Some k q assms(4) by (simp add: Cursor_list_def catchA_def order_def indexOrder_def)
      ultimately show ?thesis using assms(2) by (simp add: take_order_spec)
    qed
  qed
  then show ?thesis by simp
qed

text \<open>
  C30. A search returns one page. Whatever the filter found is put in the order of the index for the
  sort fields, if there is one (what that index does not have is left out), or kept as it is; of
  that list the search returns the elements from \<open>skip\<close> on, at most \<open>limit\<close> of them. A \<open>skip\<close> beyond
  the end gives an empty page, although the index order then ends in \<open>StopIteration\<close>.
\<close>

theorem cursor_page:
  assumes "0 \<le> cu_skip c" and "0 < cu_limit c"
    and "query_saids ce c s = (Inr saids, s1)"
    and "mapE (se_bext (ce_seek ce)) (cu_sort c) = Inr paths"
  defines "xs \<equiv> (if cu_sort c = [] then saids
     else case dict_get (sk_indexes s1) (subkey_of paths) of
            None \<Rightarrow> saids
          | Some k \<Rightarrow> filter (\<lambda>x. x \<in> set saids) (map snd (ditems (se_idx (ce_seek ce) k) (sk_world s1))))"
  shows "Cursor_list ce c s = (Inr (take (nat (cu_limit c)) (drop (nat (cu_skip c)) xs)), s1) \<and>
         length (take (nat (cu_limit c)) (drop (nat (cu_skip c)) xs)) \<le> nat (cu_limit c)"
  unfolding xs_def by (rule Cursor_list_page [OF assms(1-4)])

subsection \<open>Scanning and searching\<close>

text \<open>
  A scan does not look for the messages that satisfy all operators: it lists a message once for
  each operator it satisfies, so it returns messages that satisfy only some of them, and returns a
  message several times if it satisfies several.
\<close>

theorem scan_any:
  assumes "\<And>said. said \<in> set saids \<Longrightarrow> ce_value ce said s = (Inr (V said), s)"
    and "\<And>said x. said \<in> set saids \<Longrightarrow> x \<in> set ops \<Longrightarrow> op_call (ce_seek ce) x (V said) = Inr (B said x)"
  shows "tableScan ce saids ops s =
      (Inr (concat (map (\<lambda>said. replicate (length (filter (B said) ops)) said) saids)), s) \<and>
    (\<forall>said. said \<in> set (concat (map (\<lambda>said. replicate (length (filter (B said) ops)) said) saids)) \<longleftrightarrow>
       said \<in> set saids \<and> (\<exists>x \<in> set ops. B said x))"
proof
  have ops: "mapE (\<lambda>x. op_call (ce_seek ce) x (V said)) xs = Inr (map (B said) xs)"
    if "said \<in> set saids" "set xs \<subseteq> set ops" for said xs
    using that(2) assms(2) [OF that(1)] by (induction xs) auto
  have count: "map (\<lambda>_. said) (filter (\<lambda>b. b) (map (B said) xs)) = replicate (length (filter (B said) xs)) said" for said xs
    by (induction xs) auto
  have "mapA (\<lambda>said.
        bindA (ce_value ce said) (\<lambda>val.
        bindA (mapA (\<lambda>x. liftA (op_call (ce_seek ce) x val)) ops) (\<lambda>bs.
        retA (map (\<lambda>_. said) (filter (\<lambda>b. b) bs))))) ys s =
      (Inr (map (\<lambda>said. replicate (length (filter (B said) ops)) said) ys), s)" if "set ys \<subseteq> set saids" for ys
    using that
  proof (induction ys)
    case (Cons y ys)
    then have y: "y \<in> set saids" by simp
    have "mapA (\<lambda>x. liftA (op_call (ce_seek ce) x (V y))) ops s = (Inr (map (B y) ops), s)"
      using ops [OF y] by (simp add: mapA_liftA)
    with Cons show ?case by (simp add: bindA_Inr assms(1) [OF y] count)
  qed simp
  then show "tableScan ce saids ops s =
      (Inr (concat (map (\<lambda>said. replicate (length (filter (B said) ops)) said) saids)), s)"
    by (simp add: tableScan_def bindA_Inr)
qed (auto simp: filter_empty_conv)

text \<open>
  The index of issuer and schema is created with one path, its own name. \<open>Pather\<close> reads the first
  path off that text, which is the issuer's: \<open>reads_first\<close>.
\<close>

definition reads_first :: "'w seek_env \<Rightarrow> bool" where
  "reads_first env \<longleftrightarrow>
     (\<forall>sad. se_resolve env (subkey_of [ISSUER_FIELD env, SCHEMA_FIELD env]) sad = se_resolve env (ISSUER_FIELD env) sad)"

lemma created_index:
  "sget (se_dynIdx env) (sk_world s) key = None \<Longrightarrow> suber_ok (se_dynIdx env) \<Longrightarrow>
   sget (se_dynIdx env) (sk_world (snd (Seeker_createIndex env key s))) key = Some \<lparr>ix_subkey = key, ix_paths = [key]\<rparr> \<and>
   dict_get (sk_indexes (snd (Seeker_createIndex env key s))) key = Some key"
  by (simp add: Seeker_createIndex_def open_index_def bindA_def [of "sext m" for m] sext_run spin_ok)

text \<open>
  A credential is not found by its issuer and schema. The index for that pair files credentials
  under the issuer alone, but a search for both looks them up under the two values put together:
  after the credential has been indexed, a search for its issuer and its schema returns what it
  returned before, and nothing if nothing was filed there.
\<close>

theorem issuer_schema_missed:
  fixes env :: "'w seek_env"
  defines "K \<equiv> subkey_of [ISSUER_FIELD env, SCHEMA_FIELD env]"
  assumes "seek_ok env" and "indexed_credential env (sk_world s) said c" and "entries env s c = Inr es"
    and "reads_first env" and "se_resolve env (ISSUER_FIELD env) (cd_sad c) = Inr (JStr X)" and "Y \<noteq> []"
    and "dict_get (sk_indexes s) K = Some K" and "sget (se_dynIdx env) (sk_world s) K = Some \<lparr>ix_subkey = K, ix_paths = [K]\<rparr>"
    and "\<And>i. dict_get (sk_indexes s) i = Some K \<Longrightarrow> i = K"
    and "dget (se_idx env K) (sk_world s) (X @ Y) = []"
    and "se_bext env ''-i'' = Inr (ISSUER_FIELD env)" and "se_bext env ''-s'' = Inr (SCHEMA_FIELD env)"
  shows "\<exists>s1. Seeker_index env said s = (Inr (), s1) \<and>
    Seeker_find (seeker_cursor env) [(''-i'', JStr X), (''-s'', JStr Y)] None None None s1 = (Inr [], s1)"
proof -
  let ?w = "write_all env (\<lambda>db v w. dadd db w v (cd_said c)) es (sk_world s)"
  let ?s1 = "s\<lparr>sk_world := ?w\<rparr>"
  have run: "Seeker_index env said s = (Inr (), ?s1)"
    using Seeker_index_run [OF assms(2,3)] assms(4) by simp
  have "(K, X @ Y) \<notin> set es"
  proof
    assume "(K, X @ Y) \<in> set es"
    then obtain i where "entry env (sk_indexes s) (sget (se_dynIdx env) (sk_world s)) (cd_sad c) i = Inr (K, X @ Y)"
      using mapE_Inr [OF assms(4)] by blast
    moreover from this have "i = K" by (auto simp: entry_def split: option.splits sum.splits intro!: assms(10))
    ultimately have "X @ Y = X"
      using assms(5,6,9) by (auto simp: entry_def reads_first_def K_def split: option.splits sum.splits)
    with assms(7) show False by simp
  qed
  then have empty: "dget (se_idx env K) ?w (X @ Y) = []"
    using add_all_get [OF assms(2), of K "cd_said c" es "sk_world s" "X @ Y"] assms(11) by simp
  have "Seeker_find (seeker_cursor env) [(''-i'', JStr X), (''-s'', JStr Y)] None None None ?s1 = (Inr [], ?s1)"
    using assms(8) empty
    by (simp add: Seeker_find_def make_cursor_def seeker_cursor_def make_Eq_def assms(12,13) Cursor_list_def
        catchA_def Cursor_query_def query_saids_def indexSearch_def open_db_def K_def [symmetric] order_def slice_def)
  with run show ?thesis by blast
qed

subsection \<open>Witnesses\<close>

text \<open>A table of two messages, one of which satisfies the first operator only and one both.\<close>

definition demo_table :: "mem_seek cursor_env" where
  "demo_table =
     \<lparr>ce_seek = mem_seek_env, ce_table = retA [''A'', ''B''],
      ce_value = (\<lambda>said. retA (JObj [(''x'', JStr ''1''), (''y'', JStr said)])),
      ce_scan = retA [''A'', ''B'']\<rparr>"

definition demo_cursor :: cursor where
  "demo_cursor = \<lparr>cu_filtr = [], cu_ops = [], cu_sort = [], cu_skip = 1, cu_limit = 5\<rparr>"

theorem cursor_page_witness:
  "Cursor_list demo_table demo_cursor (mem_seeker []) = (Inr [''B''], mem_seeker [])"
proof -
  have "query_saids demo_table demo_cursor (mem_seeker []) = (Inr [''A'', ''B''], mem_seeker [])"
    by (simp add: query_saids_def demo_table_def demo_cursor_def)
  from cursor_page [OF _ _ this, of "[]"] show ?thesis by (simp add: demo_cursor_def)
qed

theorem scan_any_witness:
  "tableScan demo_table [''A'', ''B''] [Eq ''-x'' ''-x'' (JStr ''1''), Begins ''-y'' ''-y'' ''B''] (mem_seeker []) =
     (Inr [''A'', ''B'', ''B''], mem_seeker [])"
proof -
  let ?V = "\<lambda>said. JObj [(''x'', JStr ''1''), (''y'', JStr said)]"
  let ?B = "\<lambda>said x. is_Eq x \<or> startswith said ''B''"
  have v: "ce_value demo_table said s = (Inr (?V said), s)" for said s
    by (simp add: demo_table_def)
  have "op_call (ce_seek demo_table) x (?V said) = Inr (?B said x)"
    if "x \<in> set [Eq ''-x'' ''-x'' (JStr ''1''), Begins ''-y'' ''-y'' ''B'']" for said x
    using that by (auto simp: demo_table_def mem_seek_env_def)
  from scan_any [of "[''A'', ''B'']" demo_table "mem_seeker []" ?V
      "[Eq ''-x'' ''-x'' (JStr ''1''), Begins ''-y'' ''-y'' ''B'']" ?B, OF v this]
  show ?thesis by (simp add: startswith_def)
qed

theorem issuer_schema_missed_witness:
  "\<exists>s1. Seeker_index mem_seek_env ''EC'' (mem_seeker [''-i.-s'']) = (Inr (), s1) \<and>
     Seeker_find (seeker_cursor mem_seek_env) [(''-i'', JStr ''EI''), (''-s'', JStr ''ES'')] None None None s1 = (Inr [], s1)"
proof -
  note defs = mem_seek_env_def ISSUER_FIELD_def SCHEMA_FIELD_def subkey_of_def
  have ic: "indexed_credential mem_seek_env (sk_world (mem_seeker [''-i.-s''])) ''EC'' mem_cred"
    by (simp add: indexed_credential_def mem_seek_env_def mem_seeker_def mem_cred_def mem_dup_def)
  have es: "entries mem_seek_env (mem_seeker [''-i.-s'']) mem_cred = Inr [(''-i.-s'', ''EI'')]"
    by (simp add: mem_seek_env_def mem_seeker_def mem_cred_def mem_dup_def entry_def)
  have first: "reads_first mem_seek_env" by (simp add: reads_first_def defs)
  have x: "se_resolve mem_seek_env (ISSUER_FIELD mem_seek_env) (cd_sad mem_cred) = Inr (JStr ''EI'')"
    by (simp add: defs mem_cred_def)
  show ?thesis
    by (rule issuer_schema_missed [OF mem_seek_ok ic es first x])
      (simp_all add: defs mem_seeker_def mem_dup_def alist_get_def split: if_splits)
qed

end
