(* ===== verification/Keeping.thy ===== *)
theory Keeping
  imports Store
begin

text \<open>
  \<open>core/keeping.py\<close>: the parameters KERIA keeps for the keys a Signify client manages. One
  keeper per algorithm (\<open>SaltyManager\<close>, \<open>RandyManager\<close>, \<open>GroupManager\<close>, \<open>ExternKeeper\<close>), over
  the sub-databases of \<open>RemoteKeeper\<close>. A verfer, diger or cipher of \<open>keri\<close> is represented by
  its qualified text (\<open>qb64\<close>); the check \<open>Cipher(qb64=..)\<close> makes on the text is an argument.
\<close>

subsection \<open>Records\<close>

record prefix_rec =
  pp_pidx :: json
  pp_algo :: string

record salty_prm =
  sp_sxlt :: json
  sp_pidx :: json
  sp_kidx :: json
  sp_stem :: json
  sp_tier :: json
  sp_dcode :: json
  sp_icodes :: json
  sp_ncodes :: json
  sp_transferable :: json

text \<open>\<open>PubLot\<close> and \<open>PreSit\<close> of \<open>keri.app.keeping\<close>, as far as this module uses them.\<close>

record publot =
  pl_pubs :: "string list"
  pl_dt :: string

record presit =
  ps_new :: publot
  ps_nxt :: publot

text \<open>\<open>RemoteKeeper\<close>: its sub-databases, the clock, and the check of a cipher's text.\<close>

record 'w remote_keeper =
  rb_gbls :: "('w, string, string) suber"
  rb_prxs :: "('w, string, string) suber"
  rb_nxts :: "('w, string, string) suber"
  rb_mhabs :: "('w, string, string) suber"
  rb_pres :: "('w, string, prefix_rec) suber"
  rb_sprms :: "('w, string, salty_prm) suber"
  rb_sits :: "('w, string, presit) suber"
  rb_now :: "'w \<Rightarrow> string"
  rb_cipher :: "json \<Rightarrow> exn + string"

definition asdict :: "salty_prm \<Rightarrow> json" where
  "asdict sp = JObj
     [(''sxlt'', sp_sxlt sp), (''pidx'', sp_pidx sp), (''kidx'', sp_kidx sp), (''stem'', sp_stem sp),
      (''tier'', sp_tier sp), (''dcode'', sp_dcode sp), (''icodes'', sp_icodes sp),
      (''ncodes'', sp_ncodes sp), (''transferable'', sp_transferable sp)]"

definition already :: "string \<Rightarrow> exn" where
  "already pre = ValueError (''Already incepted pre='' @ pre @ ''.'')"

definition nonexistent :: "string \<Rightarrow> exn" where
  "nonexistent pre = ValueError (''Attempt to load nonexistent pre='' @ pre @ ''.'')"

definition load_invalid :: "string \<Rightarrow> exn" where
  "load_invalid pre = ValueError (''Attempt to load nonexistent or invalid pre='' @ pre @ ''.'')"

definition rotate_invalid :: "string \<Rightarrow> exn" where
  "rotate_invalid pre = ValueError (''Attempt to rotate nonexistent or invalid pre='' @ pre @ ''.'')"

text \<open>\<open>(pp := self.rb.pres.get(pre)) is None or pp.algo != algo\<close>.\<close>

definition has_algo :: "'w remote_keeper \<Rightarrow> string \<Rightarrow> string \<Rightarrow> 'w \<Rightarrow> bool" where
  "has_algo rb pre algo w =
     (case sget (rb_pres rb) w pre of None \<Rightarrow> False | Some pp \<Rightarrow> pp_algo pp = algo)"

definition check_algo :: "'w remote_keeper \<Rightarrow> string \<Rightarrow> string \<Rightarrow> exn \<Rightarrow> ('w, unit) act" where
  "check_algo rb pre algo e = bindA (getA (has_algo rb pre algo)) (\<lambda>ok. guardA ok e)"

subsection \<open>SaltyManager\<close>

definition SaltyManager_incept ::
  "'w remote_keeper \<Rightarrow> string \<Rightarrow> salty_prm \<Rightarrow> ('w, unit) act" where
  "SaltyManager_incept rb pre sp =
     bindA (retA \<lparr>pp_pidx = sp_pidx sp, pp_algo = ''salty''\<rparr>) (\<lambda>pp.
     bindA (putS (rb_pres rb) pre pp) (\<lambda>ok.
     seqA (guardA ok (already pre))
     (bindA (putS (rb_sprms rb) pre sp) (\<lambda>ok.
      guardA ok (ValueError (''Already incepted prm for pre='' @ pre @ ''.''))))))"

definition SaltyManager_rotate ::
  "'w remote_keeper \<Rightarrow> string \<Rightarrow> salty_prm \<Rightarrow> ('w, unit) act" where
  "SaltyManager_rotate rb pre new =
     seqA (check_algo rb pre ''salty'' (rotate_invalid pre))
     (bindA (getS (rb_sprms rb) pre) (\<lambda>old.
      case old of
        None \<Rightarrow> raiseA (rotate_invalid pre)
      | Some sp \<Rightarrow>
          bindA (pinS (rb_sprms rb) pre (new\<lparr>sp_tier := sp_tier sp, sp_icodes := sp_icodes sp\<rparr>)) (\<lambda>ok.
          guardA ok (ValueError (''Unable to rotate salty prms for pre='' @ pre @ ''.'')))))"

definition SaltyManager_params :: "'w remote_keeper \<Rightarrow> string \<Rightarrow> ('w, json) act" where
  "SaltyManager_params rb pre =
     seqA (check_algo rb pre ''salty'' (load_invalid pre))
     (bindA (getS (rb_sprms rb) pre) (\<lambda>pp.
      case pp of
        None \<Rightarrow> raiseA (nonexistent pre)
      | Some sp \<Rightarrow> retA (JObj [(''salty'', asdict sp)])))"

subsection \<open>RandyManager\<close>

text \<open>
  The secrets of a set of keys, in the order of the keys; they are what the request brings. \<open>len\<close>
  and \<open>enumerate\<close> see the elements \<open>jiter\<close> gives.
\<close>

definition put_ciphers ::
  "'w remote_keeper \<Rightarrow> ('w, string, string) suber \<Rightarrow> (string \<times> json) list \<Rightarrow> ('w, unit) act" where
  "put_ciphers rb db kvs =
     forA kvs (\<lambda>(key, prx).
       bindA (liftA (rb_cipher rb prx)) (\<lambda>cipher.
       bindA (putS db key cipher) (\<lambda>_. retA ())))"

definition presit_of :: "string list \<Rightarrow> string list \<Rightarrow> string \<Rightarrow> presit" where
  "presit_of verfers digers dt =
     \<lparr>ps_new = \<lparr>pl_pubs = verfers, pl_dt = dt\<rparr>, ps_nxt = \<lparr>pl_pubs = digers, pl_dt = dt\<rparr>\<rparr>"

definition randy_secrets ::
  "'w remote_keeper \<Rightarrow> string list \<Rightarrow> string list \<Rightarrow> json \<Rightarrow> json \<Rightarrow> string \<Rightarrow> ('w, unit) act" where
  "randy_secrets rb verfers digers prxs nxts msg =
     bindA (liftA (jiter prxs)) (\<lambda>ps.
     seqA (guardA (length ps = length verfers)
             (ValueError ''If encrypted private keys are provided, must match verfers''))
     (seqA (put_ciphers rb (rb_prxs rb) (zip verfers ps))
      (if nxts = JNull then retA ()
       else
         bindA (liftA (jiter nxts)) (\<lambda>ns.
         seqA (guardA (length ns = length digers) (ValueError msg))
           (put_ciphers rb (rb_nxts rb) (zip digers ns))))))"

definition RandyManager_incept ::
  "'w remote_keeper \<Rightarrow> string \<Rightarrow> string list \<Rightarrow> string list \<Rightarrow> json \<Rightarrow> json \<Rightarrow> ('w, unit) act" where
  "RandyManager_incept rb pre verfers digers prxs nxts =
     bindA (putS (rb_pres rb) pre \<lparr>pp_pidx = JInt 0, pp_algo = ''randy''\<rparr>) (\<lambda>ok.
     seqA (guardA ok (already pre))
     (bindA (getA (rb_now rb)) (\<lambda>dt.
      bindA (putS (rb_sits rb) pre (presit_of verfers digers dt)) (\<lambda>ok.
      seqA (guardA ok (ValueError (''Already incepted sit for pre='' @ pre @ ''.'')))
        (randy_secrets rb verfers digers prxs nxts
           ''If encrypted private next keys are provided, must match digers'')))))"

definition RandyManager_rotate ::
  "'w remote_keeper \<Rightarrow> string \<Rightarrow> string list \<Rightarrow> string list \<Rightarrow> json \<Rightarrow> json \<Rightarrow> ('w, unit) act" where
  "RandyManager_rotate rb pre verfers digers prxs nxts =
     seqA (check_algo rb pre ''randy''
             (ValueError (''Attempt to rotate non-existant or invalid pre='' @ pre @ ''.'')))
     (bindA (getA (rb_now rb)) (\<lambda>dt.
      bindA (pinS (rb_sits rb) pre (presit_of verfers digers dt)) (\<lambda>ok.
      seqA (guardA ok (ValueError (''Already incepted sit for pre='' @ pre @ ''.'')))
        (randy_secrets rb verfers digers prxs nxts
           ''If encrypted private keys are provided, must match verfers''))))"

definition present :: "('w, string, string) suber \<Rightarrow> string list \<Rightarrow> 'w \<Rightarrow> string list" where
  "present db pubs w = List.map_filter (sget db w) pubs"

definition RandyManager_params :: "'w remote_keeper \<Rightarrow> string \<Rightarrow> ('w, json) act" where
  "RandyManager_params rb pre =
     seqA (check_algo rb pre ''randy'' (load_invalid pre))
     (bindA (getS (rb_sits rb) pre) (\<lambda>ps.
      case ps of
        None \<Rightarrow> raiseA (nonexistent pre)
      | Some ps \<Rightarrow>
          bindA (getA (present (rb_prxs rb) (pl_pubs (ps_new ps)))) (\<lambda>prxs.
          bindA (getA (present (rb_nxts rb) (pl_pubs (ps_nxt ps)))) (\<lambda>nxts.
          retA (JObj [(''randy'', JObj [(''prxs'', jstrs prxs), (''nxts'', jstrs nxts)])])))))"

subsection \<open>GroupManager and ExternKeeper\<close>

definition GroupManager_incept ::
  "'w remote_keeper \<Rightarrow> string \<Rightarrow> string \<Rightarrow> string list \<Rightarrow> string list \<Rightarrow> ('w, unit) act" where
  "GroupManager_incept rb pre mpre verfers digers =
     bindA (putS (rb_pres rb) pre \<lparr>pp_pidx = JInt 0, pp_algo = ''group''\<rparr>) (\<lambda>ok.
     seqA (guardA ok (already pre))
     (bindA (putS (rb_mhabs rb) pre mpre) (\<lambda>ok.
      seqA (guardA ok (already pre))
      (bindA (getA (rb_now rb)) (\<lambda>dt.
       bindA (putS (rb_sits rb) pre (presit_of verfers digers dt)) (\<lambda>ok.
       guardA ok (ValueError (''Already incepted sit for pre='' @ pre @ ''.''))))))))"

text \<open>
  The message of the first \<open>ValueError\<close> reads \<open>pp.algo\<close>, which raises \<open>AttributeError\<close> when there
  is no \<open>pp\<close>.
\<close>

definition GroupManager_rotate ::
  "'w remote_keeper \<Rightarrow> string \<Rightarrow> string list \<Rightarrow> string list \<Rightarrow> ('w, unit) act" where
  "GroupManager_rotate rb pre verfers digers =
     bindA (getS (rb_pres rb) pre) (\<lambda>pp.
     case pp of
       None \<Rightarrow> raiseA AttributeError
     | Some pp \<Rightarrow>
         seqA (guardA (pp_algo pp = ''group'')
           (ValueError (''Attempt to rotate nonexistant or invalid  pre='' @ pre @ '', algo='' @ pp_algo pp @ ''.'')))
         (bindA (getA (rb_now rb)) (\<lambda>dt.
          bindA (pinS (rb_sits rb) pre (presit_of verfers digers dt)) (\<lambda>ok.
          guardA ok (ValueError (''Error saving sit rotating pre='' @ pre @ ''.''))))))"

datatype keeper = Salty | Randy | Group | Extern

definition keeper_of_algo :: "string \<Rightarrow> keeper" where
  "keeper_of_algo algo =
     (if algo = ''salty'' then Salty else if algo = ''randy'' then Randy
      else if algo = ''group'' then Group else Extern)"

definition RemoteManager_get ::
  "'w remote_keeper \<Rightarrow> string \<Rightarrow> string option \<Rightarrow> ('w, keeper) act" where
  "RemoteManager_get rb algo pre =
     (case pre of
        None \<Rightarrow> retA (keeper_of_algo algo)
      | Some pre \<Rightarrow>
          bindA (getS (rb_pres rb) pre) (\<lambda>pp.
          case pp of
            None \<Rightarrow> raiseA (nonexistent pre)
          | Some pp \<Rightarrow> retA (keeper_of_algo (pp_algo pp))))"

text \<open>
  \<open>params\<close> of the keeper found for \<open>pre\<close>. A group asks for its member's parameters, whose
  keeper may again be a group: the first argument bounds Python's stack, and a chain that is
  longer raises \<open>RecursionError\<close>.
\<close>

fun keeper_params :: "nat \<Rightarrow> 'w remote_keeper \<Rightarrow> keeper \<Rightarrow> string \<Rightarrow> ('w, json) act" where
  "keeper_params n rb Salty pre = SaltyManager_params rb pre"
| "keeper_params n rb Randy pre = RandyManager_params rb pre"
| "keeper_params n rb Extern pre = raiseA AttributeError"
| "keeper_params 0 rb Group pre = raiseA RecursionError"
| "keeper_params (Suc n) rb Group pre =
     seqA (check_algo rb pre ''group'' (load_invalid pre))
     (bindA (getS (rb_mhabs rb) pre) (\<lambda>mpre.
      case mpre of
        None \<Rightarrow> raiseA (nonexistent pre)
      | Some mpre \<Rightarrow>
          bindA (getS (rb_sits rb) pre) (\<lambda>ps.
          case ps of
            None \<Rightarrow> raiseA (ValueError (''Attempt to load invalid sit for pre='' @ pre @ ''.''))
          | Some ps \<Rightarrow>
              bindA (RemoteManager_get rb [] (Some mpre)) (\<lambda>k.
              bindA (keeper_params n rb k mpre) (\<lambda>mhab.
              retA (JObj [(''group'', JObj
                [(''mhab'', mhab), (''keys'', jstrs (pl_pubs (ps_new ps))),
                 (''ndigs'', jstrs (pl_pubs (ps_nxt ps)))])]))))))"

definition GroupManager_params :: "nat \<Rightarrow> 'w remote_keeper \<Rightarrow> string \<Rightarrow> ('w, json) act" where
  "GroupManager_params n rb pre = keeper_params n rb Group pre"

definition RemoteManager_params :: "nat \<Rightarrow> 'w remote_keeper \<Rightarrow> string \<Rightarrow> ('w, json) act" where
  "RemoteManager_params n rb pre =
     bindA (RemoteManager_get rb [] (Some pre)) (\<lambda>k. keeper_params n rb k pre)"

definition ExternKeeper_incept :: "('w, unit) act" where
  "ExternKeeper_incept = retA ()"

text \<open>The global salt.\<close>

definition RemoteManager_sxlt :: "'w remote_keeper \<Rightarrow> ('w, string option) act" where
  "RemoteManager_sxlt rb = getS (rb_gbls rb) ''sxlt''"

definition RemoteManager_set_sxlt :: "'w remote_keeper \<Rightarrow> string \<Rightarrow> ('w, unit) act" where
  "RemoteManager_set_sxlt rb s = bindA (pinS (rb_gbls rb) ''sxlt'' s) (\<lambda>_. retA ())"

definition RemoteManager_delete_sxlt :: "'w remote_keeper \<Rightarrow> ('w, bool) act" where
  "RemoteManager_delete_sxlt rb = remS (rb_gbls rb) ''sxlt''"

subsection \<open>A well-behaved database\<close>

definition rb_ok :: "'w remote_keeper \<Rightarrow> bool" where
  "rb_ok rb \<longleftrightarrow>
     suber_ok (rb_prxs rb) \<and> suber_ok (rb_nxts rb) \<and> suber_ok (rb_mhabs rb) \<and>
     suber_ok (rb_pres rb) \<and> suber_ok (rb_sprms rb) \<and> suber_ok (rb_sits rb) \<and>
     frames (rb_pres rb) (\<lambda>w. (sget (rb_prxs rb) w, sget (rb_nxts rb) w, sget (rb_mhabs rb) w,
                              sget (rb_sprms rb) w, sget (rb_sits rb) w)) \<and>
     frames (rb_sprms rb) (\<lambda>w. (sget (rb_pres rb) w, sget (rb_prxs rb) w, sget (rb_nxts rb) w,
                               sget (rb_mhabs rb) w, sget (rb_sits rb) w)) \<and>
     frames (rb_sits rb) (\<lambda>w. (sget (rb_pres rb) w, sget (rb_prxs rb) w, sget (rb_nxts rb) w,
                              sget (rb_mhabs rb) w, sget (rb_sprms rb) w)) \<and>
     frames (rb_mhabs rb) (\<lambda>w. (sget (rb_pres rb) w, sget (rb_prxs rb) w, sget (rb_nxts rb) w,
                               sget (rb_sits rb) w, sget (rb_sprms rb) w)) \<and>
     frames (rb_prxs rb) (\<lambda>w. (sget (rb_pres rb) w, sget (rb_nxts rb) w, sget (rb_mhabs rb) w,
                              sget (rb_sits rb) w, sget (rb_sprms rb) w)) \<and>
     frames (rb_nxts rb) (\<lambda>w. (sget (rb_pres rb) w, sget (rb_prxs rb) w, sget (rb_mhabs rb) w,
                              sget (rb_sits rb) w, sget (rb_sprms rb) w))"

named_theorems rb \<open>reading the sub-databases of a well-behaved keeper\<close>

lemma rb_put [rb]:
  assumes "rb_ok r"
  shows "fst (sput (rb_pres r) w k v) = (sget (rb_pres r) w k = None)"
    and "fst (sput (rb_sprms r) w k sp) = (sget (rb_sprms r) w k = None)"
    and "fst (sput (rb_sits r) w k ps) = (sget (rb_sits r) w k = None)"
    and "fst (sput (rb_mhabs r) w k s) = (sget (rb_mhabs r) w k = None)"
    and "fst (spin (rb_sprms r) w k sp)" and "fst (spin (rb_sits r) w k ps)"
  using assms by (simp_all add: rb_ok_def sput_fst spin_ok)

lemma rb_get [rb]:
  assumes "rb_ok r"
  shows "sget (rb_pres r) (snd (sput (rb_pres r) w k v)) k' =
           (if k' = k \<and> sget (rb_pres r) w k = None then Some v else sget (rb_pres r) w k')"
    and "sget (rb_sprms r) (snd (sput (rb_sprms r) w k sp)) k' =
           (if k' = k \<and> sget (rb_sprms r) w k = None then Some sp else sget (rb_sprms r) w k')"
    and "sget (rb_sits r) (snd (sput (rb_sits r) w k ps)) k' =
           (if k' = k \<and> sget (rb_sits r) w k = None then Some ps else sget (rb_sits r) w k')"
    and "sget (rb_mhabs r) (snd (sput (rb_mhabs r) w k s)) k' =
           (if k' = k \<and> sget (rb_mhabs r) w k = None then Some s else sget (rb_mhabs r) w k')"
    and "sget (rb_prxs r) (snd (sput (rb_prxs r) w k s)) k' =
           (if k' = k \<and> sget (rb_prxs r) w k = None then Some s else sget (rb_prxs r) w k')"
    and "sget (rb_nxts r) (snd (sput (rb_nxts r) w k s)) k' =
           (if k' = k \<and> sget (rb_nxts r) w k = None then Some s else sget (rb_nxts r) w k')"
    and "sget (rb_sprms r) (snd (spin (rb_sprms r) w k sp)) = (sget (rb_sprms r) w)(k \<mapsto> sp)"
    and "sget (rb_sits r) (snd (spin (rb_sits r) w k ps)) = (sget (rb_sits r) w)(k \<mapsto> ps)"
  using assms by (simp_all add: rb_ok_def sput_get spin_ok)

lemma rb_other_pres [rb]:
  assumes "rb_ok r"
  shows "sget (rb_sprms r) (snd (sput (rb_pres r) w k v)) = sget (rb_sprms r) w"
    and "sget (rb_sits r) (snd (sput (rb_pres r) w k v)) = sget (rb_sits r) w"
    and "sget (rb_mhabs r) (snd (sput (rb_pres r) w k v)) = sget (rb_mhabs r) w"
    and "sget (rb_prxs r) (snd (sput (rb_pres r) w k v)) = sget (rb_prxs r) w"
    and "sget (rb_nxts r) (snd (sput (rb_pres r) w k v)) = sget (rb_nxts r) w"
  using assms by (simp_all add: rb_ok_def frames_def)

lemma rb_other_sprms [rb]:
  assumes "rb_ok r"
  shows "sget (rb_pres r) (snd (sput (rb_sprms r) w k sp)) = sget (rb_pres r) w"
    and "sget (rb_pres r) (snd (spin (rb_sprms r) w k sp)) = sget (rb_pres r) w"
  using assms by (simp_all add: rb_ok_def frames_def)

lemma rb_other_sits [rb]:
  assumes "rb_ok r"
  shows "sget (rb_pres r) (snd (sput (rb_sits r) w k ps)) = sget (rb_pres r) w"
    and "sget (rb_prxs r) (snd (sput (rb_sits r) w k ps)) = sget (rb_prxs r) w"
    and "sget (rb_nxts r) (snd (sput (rb_sits r) w k ps)) = sget (rb_nxts r) w"
    and "sget (rb_mhabs r) (snd (sput (rb_sits r) w k ps)) = sget (rb_mhabs r) w"
    and "sget (rb_pres r) (snd (spin (rb_sits r) w k ps)) = sget (rb_pres r) w"
    and "sget (rb_prxs r) (snd (spin (rb_sits r) w k ps)) = sget (rb_prxs r) w"
    and "sget (rb_nxts r) (snd (spin (rb_sits r) w k ps)) = sget (rb_nxts r) w"
    and "sget (rb_mhabs r) (snd (spin (rb_sits r) w k ps)) = sget (rb_mhabs r) w"
  using assms by (simp_all add: rb_ok_def frames_def)

lemma rb_other_secrets [rb]:
  assumes "rb_ok r"
  shows "sget (rb_pres r) (snd (sput (rb_prxs r) w k s)) = sget (rb_pres r) w"
    and "sget (rb_sits r) (snd (sput (rb_prxs r) w k s)) = sget (rb_sits r) w"
    and "sget (rb_nxts r) (snd (sput (rb_prxs r) w k s)) = sget (rb_nxts r) w"
    and "sget (rb_pres r) (snd (sput (rb_nxts r) w k s)) = sget (rb_pres r) w"
    and "sget (rb_sits r) (snd (sput (rb_nxts r) w k s)) = sget (rb_sits r) w"
    and "sget (rb_prxs r) (snd (sput (rb_nxts r) w k s)) = sget (rb_prxs r) w"
  using assms by (simp_all add: rb_ok_def frames_def)

lemma rb_other_mhabs [rb]:
  assumes "rb_ok r"
  shows "sget (rb_pres r) (snd (sput (rb_mhabs r) w k s)) = sget (rb_pres r) w"
    and "sget (rb_sits r) (snd (sput (rb_mhabs r) w k s)) = sget (rb_sits r) w"
  using assms by (simp_all add: rb_ok_def frames_def)

lemma check_algo_bind [simp]:
  "bindA (check_algo r pre algo e) f w = (if has_algo r pre algo w then f () w else (Inl e, w))"
  by (simp add: check_algo_def bindA_assoc bindA_guardA)

subsection \<open>The contract of a keeper\<close>

text \<open>
  An identifier is incepted once: \<open>incept\<close> registers it, whatever else happens, and refuses an
  identifier that is registered without touching anything.
\<close>

definition registered :: "'w remote_keeper \<Rightarrow> string \<Rightarrow> 'w \<Rightarrow> bool" where
  "registered rb pre w \<longleftrightarrow> sget (rb_pres rb) w pre \<noteq> None"

locale keeper_contract =
  fixes incept :: "'w remote_keeper \<Rightarrow> string \<Rightarrow> 'p \<Rightarrow> ('w, unit) act"
    and params :: "'w remote_keeper \<Rightarrow> string \<Rightarrow> ('w, json) act"
  assumes incept_registered:
      "rb_ok rb \<Longrightarrow> registered rb pre w \<Longrightarrow> incept rb pre p w = (Inl (already pre), w)"
    and incept_registers: "rb_ok rb \<Longrightarrow> registered rb pre (snd (incept rb pre p w))"
    and incept_others: "rb_ok rb \<Longrightarrow> pre' \<noteq> pre \<Longrightarrow>
      registered rb pre' (snd (incept rb pre p w)) = registered rb pre' w"
    and params_unregistered: "\<not> registered rb pre w \<Longrightarrow> params rb pre w = (Inl (load_invalid pre), w)"
begin

lemma incept_again:
  assumes "rb_ok rb" shows "incept rb pre q (snd (incept rb pre p w)) = (Inl (already pre), snd (incept rb pre p w))"
  by (rule incept_registered [OF assms incept_registers [OF assms]])

text \<open>Of any number of attempts, each one's exception caught, only the first changes anything.\<close>

lemma first_attempt_decides:
  assumes "rb_ok rb"
  shows "snd (forA (p # ps) (\<lambda>q. catchA (incept rb pre q) (\<lambda>_. Some (retA ()))) w) =
           snd (incept rb pre p w)"
proof -
  define att where "att = (\<lambda>q. catchA (incept rb pre q) (\<lambda>_. Some (retA ())))"
  have attempt: "att q w = (Inr (), snd (incept rb pre q w))" for q w
    by (cases "incept rb pre q w") (auto simp: att_def catchA_def split: sum.splits)
  have stay: "forA qs att w = (Inr (), w)" if "registered rb pre w" for qs w
    using that
  proof (induction qs)
    case (Cons q qs)
    then show ?case by (simp add: bindA_def attempt incept_registered [OF assms])
  qed simp
  show ?thesis unfolding att_def [symmetric]
    by (simp add: bindA_def attempt stay incept_registers [OF assms])
qed

lemma never_registered_no_params:
  assumes "rb_ok rb" and "pre' \<noteq> pre" and "\<not> registered rb pre' w"
  shows "fst (params rb pre' (snd (incept rb pre p w))) = Inl (load_invalid pre')"
  using assms by (simp add: params_unregistered incept_others)

end

subsection \<open>The keepers keep the contract\<close>

lemma keeps_guard_bind [wp]: "keeps P m \<Longrightarrow> keeps P (seqA (guardA b e) m)"
  by (simp add: keeps_seqA keeps_guardA)

lemma put_ciphers_pres:
  assumes "rb_ok rb" and "db \<in> {rb_prxs rb, rb_nxts rb}"
  shows "keeps (\<lambda>w. Q (sget (rb_pres rb) w)) (put_ciphers rb db kvs)"
  unfolding put_ciphers_def
proof (rule keeps_forA)
  fix x assume "x \<in> set kvs"
  have "keeps (\<lambda>w. Q (sget (rb_pres rb) w)) (putS db k v)" for k v
    using assms by (auto simp: keeps_def rb)
  then show "keeps (\<lambda>w. Q (sget (rb_pres rb) w))
      (case x of (key, prx) \<Rightarrow>
         bindA (liftA (rb_cipher rb prx)) (\<lambda>cipher. bindA (putS db key cipher) (\<lambda>_. retA ())))"
    by (auto intro!: wp split: prod.split)
qed

lemma randy_secrets_pres:
  assumes "rb_ok rb"
  shows "keeps (\<lambda>w. Q (sget (rb_pres rb) w)) (randy_secrets rb verfers digers prxs nxts msg)"
  unfolding randy_secrets_def
  by (auto intro!: wp put_ciphers_pres [OF assms] split: option.split)

text \<open>What follows \<open>pres.put\<close> in each \<open>incept\<close> leaves \<open>pres\<close> as it is.\<close>

definition randy_rest ::
  "'w remote_keeper \<Rightarrow> string \<Rightarrow> string list \<Rightarrow> string list \<Rightarrow> json \<Rightarrow> json \<Rightarrow> ('w, unit) act" where
  "randy_rest rb pre verfers digers prxs nxts =
     bindA (getA (rb_now rb)) (\<lambda>dt.
      bindA (putS (rb_sits rb) pre (presit_of verfers digers dt)) (\<lambda>ok.
      seqA (guardA ok (ValueError (''Already incepted sit for pre='' @ pre @ ''.'')))
        (randy_secrets rb verfers digers prxs nxts
           ''If encrypted private next keys are provided, must match digers'')))"

lemma RandyManager_incept_alt:
  "RandyManager_incept rb pre verfers digers prxs nxts =
     bindA (putS (rb_pres rb) pre \<lparr>pp_pidx = JInt 0, pp_algo = ''randy''\<rparr>) (\<lambda>ok.
     seqA (guardA ok (already pre)) (randy_rest rb pre verfers digers prxs nxts))"
  by (simp add: RandyManager_incept_def randy_rest_def)

lemma keeps_puts:
  assumes "rb_ok rb"
  shows "keeps (\<lambda>w. Q (sget (rb_pres rb) w)) (putS (rb_sits rb) k ps)"
    and "keeps (\<lambda>w. Q (sget (rb_pres rb) w)) (putS (rb_sprms rb) k sp)"
    and "keeps (\<lambda>w. Q (sget (rb_pres rb) w)) (putS (rb_mhabs rb) k s)"
  using assms by (simp_all add: keeps_def rb)

lemma randy_rest_pres:
  assumes "rb_ok rb"
  shows "keeps (\<lambda>w. Q (sget (rb_pres rb) w)) (randy_rest rb pre verfers digers prxs nxts)"
  unfolding randy_rest_def
  by (intro wp randy_secrets_pres [OF assms] keeps_puts [OF assms])

lemma putting_pres:
  fixes rb :: "'w remote_keeper" and pre :: string and pp :: prefix_rec and m :: "('w, unit) act"
  assumes "rb_ok rb" and "\<And>Q. keeps (\<lambda>w. Q (sget (rb_pres rb) w)) m"
  defines "inc \<equiv> bindA (putS (rb_pres rb) pre pp) (\<lambda>ok. seqA (guardA ok (already pre)) m)"
  shows "registered rb pre w \<Longrightarrow> inc w = (Inl (already pre), w)"
    and "registered rb pre (snd (inc w))"
    and "pre' \<noteq> pre \<Longrightarrow> registered rb pre' (snd (inc w)) = registered rb pre' w"
proof -
  have old: "inc w = (Inl (already pre), w)" if "registered rb pre w"
    using assms(1) that sput_old [of "rb_pres rb" w pre _ pp]
    by (auto simp: inc_def registered_def rb_ok_def)
  then show "registered rb pre w \<Longrightarrow> inc w = (Inl (already pre), w)" .
  let ?w = "snd (sput (rb_pres rb) w pre pp)"
  have new: "inc w = m ?w" if "\<not> registered rb pre w"
    using assms(1) that by (simp add: inc_def registered_def rb)
  have m: "Q (sget (rb_pres rb) (snd (m ?w)))" if "Q (sget (rb_pres rb) ?w)" for Q
    using assms(2) [of Q] that by (auto simp: keeps_def)
  show "registered rb pre (snd (inc w))"
  proof (cases "registered rb pre w")
    case False
    then have "sget (rb_pres rb) ?w pre \<noteq> None" using assms(1) by (simp add: registered_def rb)
    with m [of "\<lambda>f. f pre \<noteq> None"] new False show ?thesis by (simp add: registered_def)
  qed (simp add: old)
  show "registered rb pre' (snd (inc w)) = registered rb pre' w" if "pre' \<noteq> pre"
  proof (cases "registered rb pre w")
    case False
    have "sget (rb_pres rb) ?w pre' = sget (rb_pres rb) w pre'" using assms(1) that by (simp add: rb)
    with m [of "\<lambda>f. f pre' = sget (rb_pres rb) w pre'"] new False show ?thesis
      by (simp add: registered_def)
  qed (simp add: old)
qed

lemma has_algo_registered: "has_algo rb pre algo w \<Longrightarrow> registered rb pre w"
  by (auto simp: has_algo_def registered_def split: option.splits)

interpretation salty: keeper_contract SaltyManager_incept SaltyManager_params
proof (unfold_locales, goal_cases)
  case (1 rb pre w p)
  then show ?case unfolding SaltyManager_incept_def bindA_retA
    by (intro putting_pres(1) wp keeps_puts)
next
  case (2 rb pre p w)
  then show ?case unfolding SaltyManager_incept_def bindA_retA
    by (intro putting_pres(2) wp keeps_puts)
next
  case (3 rb pre' pre p w)
  then show ?case unfolding SaltyManager_incept_def bindA_retA
    by (intro putting_pres(3) wp keeps_puts)
next
  case (4 rb pre w)
  then show ?case by (auto simp: SaltyManager_params_def dest: has_algo_registered)
qed

definition randy_incept where
  "randy_incept rb pre = (\<lambda>(verfers, digers, prxs, nxts). RandyManager_incept rb pre verfers digers prxs nxts)"

definition group_incept where
  "group_incept rb pre = (\<lambda>(mpre, verfers, digers). GroupManager_incept rb pre mpre verfers digers)"

interpretation randy: keeper_contract randy_incept RandyManager_params
proof (unfold_locales, goal_cases)
  case (1 rb pre w p)
  then show ?case unfolding randy_incept_def split_beta RandyManager_incept_alt
    by (intro putting_pres(1) randy_rest_pres)
next
  case (2 rb pre p w)
  then show ?case unfolding randy_incept_def split_beta RandyManager_incept_alt
    by (intro putting_pres(2) randy_rest_pres)
next
  case (3 rb pre' pre p w)
  then show ?case unfolding randy_incept_def split_beta RandyManager_incept_alt
    by (intro putting_pres(3) randy_rest_pres)
next
  case (4 rb pre w)
  then show ?case by (auto simp: RandyManager_params_def dest: has_algo_registered)
qed

interpretation grp: keeper_contract group_incept "GroupManager_params (Suc n)"
proof (unfold_locales, goal_cases)
  case (1 rb pre w p)
  then show ?case unfolding group_incept_def split_beta GroupManager_incept_def
    by (intro putting_pres(1) wp keeps_puts)
next
  case (2 rb pre p w)
  then show ?case unfolding group_incept_def split_beta GroupManager_incept_def
    by (intro putting_pres(2) wp keeps_puts)
next
  case (3 rb pre' pre p w)
  then show ?case unfolding group_incept_def split_beta GroupManager_incept_def
    by (intro putting_pres(3) wp keeps_puts)
next
  case (4 rb pre w)
  then show ?case by (auto simp: GroupManager_params_def dest: has_algo_registered)
qed

subsection \<open>What the keepers promise\<close>

text \<open>
  Inception is decided by the first attempt: whatever further attempts are made on an
  identifier with the same algorithm, and whatever they raise, the database is the one the first
  attempt left; and no keeper touches the database for an identifier that is registered.
\<close>

theorem incept_decided_once:
  assumes "rb_ok rb"
  shows "snd (forA (sp # sps) (\<lambda>q. catchA (SaltyManager_incept rb pre q) (\<lambda>_. Some (retA ()))) w) =
           snd (SaltyManager_incept rb pre sp w) \<and>
         snd (forA (rp # rps) (\<lambda>q. catchA (randy_incept rb pre q) (\<lambda>_. Some (retA ()))) w) =
           snd (randy_incept rb pre rp w) \<and>
         snd (forA (gp # gps) (\<lambda>q. catchA (group_incept rb pre q) (\<lambda>_. Some (retA ()))) w) =
           snd (group_incept rb pre gp w) \<and>
         registered rb pre (snd (randy_incept rb pre rp w)) \<and>
         SaltyManager_incept rb pre sp (snd (randy_incept rb pre rp w)) =
           (Inl (already pre), snd (randy_incept rb pre rp w))"
  using assms
  by (simp only: salty.first_attempt_decides randy.first_attempt_decides grp.first_attempt_decides
      randy.incept_registers salty.incept_registered simp_thms)

text \<open>
  C28. The parameters of a salty identifier are those it was incepted with, and after a rotation
  those of the rotation, except that the tier and the codes of the current keys stay the ones of
  the inception, whatever the rotation was given.
\<close>

theorem salty_incept_rotate_params:
  assumes "rb_ok rb" and "\<not> registered rb pre w" and "sget (rb_sprms rb) w pre = None"
  shows "\<exists>w1 w2.
    SaltyManager_incept rb pre sp w = (Inr (), w1) \<and>
    RemoteManager_params n rb pre w1 = (Inr (JObj [(''salty'', asdict sp)]), w1) \<and>
    SaltyManager_rotate rb pre new w1 = (Inr (), w2) \<and>
    RemoteManager_params n rb pre w2 =
      (Inr (JObj [(''salty'', asdict (new\<lparr>sp_tier := sp_tier sp, sp_icodes := sp_icodes sp\<rparr>))]), w2)"
  using assms
  by (simp add: SaltyManager_incept_def SaltyManager_rotate_def SaltyManager_params_def rb
      RemoteManager_params_def RemoteManager_get_def registered_def has_algo_def keeper_of_algo_def)

text \<open>Secrets given as texts.\<close>

definition texts :: "('k \<times> string) list \<Rightarrow> ('k \<times> json) list" where
  "texts kvs = map (\<lambda>(k, v). (k, JStr v)) kvs"

lemma zip_texts: "zip ks (map JStr vs) = texts (zip ks vs)"
  by (simp add: texts_def zip_map2)

lemma jiter_jstrs [simp]: "jiter (jstrs xs) = Inr (map JStr xs)"
  by (simp add: jstrs_def)

lemma jstrs_not_null [simp]: "jstrs xs \<noteq> JNull"
  by (simp add: jstrs_def)

lemma put_ciphers_ok:
  assumes "suber_ok db" and "frames db obs" and "distinct (map fst kvs)"
    and "\<forall>(k, v) \<in> set kvs. rb_cipher rb (JStr v) = Inr v \<and> sget db w k = None"
  shows "\<exists>w'. put_ciphers rb db (texts kvs) w = (Inr (), w') \<and>
           sget db w' = sget db w ++ map_of kvs \<and> obs w' = obs w"
  using assms(3,4)
proof (induction kvs arbitrary: w)
  case Nil then show ?case by (simp add: put_ciphers_def texts_def)
next
  case (Cons kv kvs)
  obtain k v where kv: "kv = (k, v)" by fastforce
  let ?w = "snd (sput db w k v)"
  have get: "sget db ?w = (sget db w)(k \<mapsto> v)"
    using Cons.prems kv assms(1) by (auto simp: sput_new)
  have "\<forall>(k, v) \<in> set kvs. rb_cipher rb (JStr v) = Inr v \<and> sget db ?w k = None"
    using Cons.prems kv get by force
  with Cons.IH [of ?w] Cons.prems obtain w' where w':
    "put_ciphers rb db (texts kvs) ?w = (Inr (), w')"
    "sget db w' = sget db ?w ++ map_of kvs" "obs w' = obs ?w" by auto
  have "(sget db w)(k \<mapsto> v) ++ map_of kvs = sget db w ++ map_of (kv # kvs)"
    using Cons.prems(1) kv by (simp add: map_add_upd_left dom_map_of_conv_image_fst)
  with w' get have "sget db w' = sget db w ++ map_of (kv # kvs)" by simp
  moreover have "obs w' = obs w" using w'(3) assms(2) by (simp add: frames_def)
  moreover have "put_ciphers rb db (texts (kv # kvs)) w = (Inr (), w')"
    using w'(1) Cons.prems kv by (simp add: put_ciphers_def texts_def)
  ultimately show ?case by blast
qed

lemma map_filter_Some: "map f ks = map Some vs \<Longrightarrow> List.map_filter f ks = vs"
  by (induction ks arbitrary: vs) (auto simp: List.map_filter_simps)

lemma present_zip:
  assumes "length ks = length vs" and "distinct ks" and "sget db w = m ++ map_of (zip ks vs)"
  shows "present db ks w = vs"
proof -
  have "map (sget db w) ks = map Some vs"
    using assms by (intro nth_equalityI) (auto simp: map_add_Some_iff map_of_zip_nth)
  then show ?thesis by (simp add: present_def map_filter_Some)
qed

lemma randy_secrets_ok:
  assumes rb: "rb_ok rb" and len: "length prxs = length verfers" "length nxts = length digers"
    and dist: "distinct verfers" "distinct digers"
    and valid: "\<forall>c \<in> set prxs \<union> set nxts. rb_cipher rb (JStr c) = Inr c"
    and fresh: "\<forall>k \<in> set verfers. sget (rb_prxs rb) w k = None" "\<forall>k \<in> set digers. sget (rb_nxts rb) w k = None"
  shows "\<exists>w'. randy_secrets rb verfers digers (jstrs prxs) (jstrs nxts) msg w = (Inr (), w') \<and>
           present (rb_prxs rb) verfers w' = prxs \<and> present (rb_nxts rb) digers w' = nxts \<and>
           sget (rb_pres rb) w' = sget (rb_pres rb) w \<and> sget (rb_sits rb) w' = sget (rb_sits rb) w"
proof -
  have ok: "suber_ok (rb_prxs rb)" "suber_ok (rb_nxts rb)" using rb by (simp_all add: rb_ok_def)
  have fr: "frames (rb_prxs rb) (\<lambda>w. (sget (rb_pres rb) w, sget (rb_sits rb) w, sget (rb_nxts rb) w))"
    "frames (rb_nxts rb) (\<lambda>w. (sget (rb_pres rb) w, sget (rb_sits rb) w, sget (rb_prxs rb) w))"
    using rb by (simp_all add: rb_ok_def frames_def)
  have z: "set (zip verfers prxs) \<subseteq> set verfers \<times> set prxs" "set (zip digers nxts) \<subseteq> set digers \<times> set nxts"
    by (auto dest: set_zip_leftD set_zip_rightD)
  have "distinct (map fst (zip verfers prxs))" "\<forall>(k, v) \<in> set (zip verfers prxs). rb_cipher rb (JStr v) = Inr v \<and> sget (rb_prxs rb) w k = None"
    using len dist valid fresh z by auto
  from put_ciphers_ok [where rb = rb, OF ok(1) fr(1) this] obtain w1 where w1:
    "put_ciphers rb (rb_prxs rb) (texts (zip verfers prxs)) w = (Inr (), w1)"
    "sget (rb_prxs rb) w1 = sget (rb_prxs rb) w ++ map_of (zip verfers prxs)"
    "sget (rb_pres rb) w1 = sget (rb_pres rb) w" "sget (rb_sits rb) w1 = sget (rb_sits rb) w"
    "sget (rb_nxts rb) w1 = sget (rb_nxts rb) w" by auto
  have "distinct (map fst (zip digers nxts))" "\<forall>(k, v) \<in> set (zip digers nxts). rb_cipher rb (JStr v) = Inr v \<and> sget (rb_nxts rb) w1 k = None"
    using len dist valid fresh z w1 by auto
  from put_ciphers_ok [where rb = rb, OF ok(2) fr(2) this] obtain w2 where w2:
    "put_ciphers rb (rb_nxts rb) (texts (zip digers nxts)) w1 = (Inr (), w2)"
    "sget (rb_nxts rb) w2 = sget (rb_nxts rb) w1 ++ map_of (zip digers nxts)"
    "sget (rb_pres rb) w2 = sget (rb_pres rb) w1" "sget (rb_sits rb) w2 = sget (rb_sits rb) w1"
    "sget (rb_prxs rb) w2 = sget (rb_prxs rb) w1" by auto
  have "present (rb_prxs rb) verfers w2 = prxs" "present (rb_nxts rb) digers w2 = nxts"
    using w1 w2 len dist by (auto intro: present_zip [OF len(1)[symmetric]] present_zip [OF len(2)[symmetric]])
  moreover have "randy_secrets rb verfers digers (jstrs prxs) (jstrs nxts) msg w = (Inr (), w2)"
    using w1(1) w2(1) len by (simp add: randy_secrets_def bindA_Inr zip_texts)
  ultimately show ?thesis using w1 w2 by auto
qed

text \<open>
  The encrypted keys of a randy identifier come back from \<open>params\<close> in the order of its public
  keys, when as many of them are given as there are keys. With another number of current
  keys the inception is refused, but the identifier stays registered: it can not be incepted
  again, and its parameters are empty lists.
\<close>

theorem randy_incept_params:
  assumes "rb_ok rb" and "\<not> registered rb pre w" and "sget (rb_sits rb) w pre = None"
    and "distinct verfers" and "distinct digers" and "length nxts = length digers"
    and "\<forall>c \<in> set prxs \<union> set nxts. rb_cipher rb (JStr c) = Inr c"
    and "\<forall>k \<in> set verfers. sget (rb_prxs rb) w k = None" and "\<forall>k \<in> set digers. sget (rb_nxts rb) w k = None"
  defines "inc \<equiv> RandyManager_incept rb pre verfers digers (jstrs prxs) (jstrs nxts)"
  shows "\<exists>r w1. inc w = (r, w1) \<and>
    (if length prxs = length verfers
     then r = Inr () \<and> RandyManager_params rb pre w1 =
            (Inr (JObj [(''randy'', JObj [(''prxs'', jstrs prxs), (''nxts'', jstrs nxts)])]), w1)
     else r = Inl (ValueError ''If encrypted private keys are provided, must match verfers'') \<and>
          inc w1 = (Inl (already pre), w1) \<and>
          RandyManager_params rb pre w1 =
            (Inr (JObj [(''randy'', JObj [(''prxs'', jstrs []), (''nxts'', jstrs [])])]), w1))"
proof -
  let ?w1 = "snd (sput (rb_pres rb) w pre \<lparr>pp_pidx = JInt 0, pp_algo = ''randy''\<rparr>)"
  let ?dt = "rb_now rb ?w1"
  let ?w2 = "snd (sput (rb_sits rb) ?w1 pre (presit_of verfers digers ?dt))"
  let ?msg = "''If encrypted private next keys are provided, must match digers''"
  have none: "sget (rb_pres rb) w pre = None" using assms(2) by (simp add: registered_def)
  have inc: "inc w = randy_secrets rb verfers digers (jstrs prxs) (jstrs nxts) ?msg ?w2"
    using assms(1,3) none by (simp add: inc_def RandyManager_incept_def rb)
  have pres: "sget (rb_pres rb) ?w2 pre = Some \<lparr>pp_pidx = JInt 0, pp_algo = ''randy''\<rparr>"
    and sits: "sget (rb_sits rb) ?w2 pre = Some (presit_of verfers digers ?dt)"
    and fresh: "\<forall>k \<in> set verfers. sget (rb_prxs rb) ?w2 k = None" "\<forall>k \<in> set digers. sget (rb_nxts rb) ?w2 k = None"
    using assms(1,3,8,9) none by (simp_all add: rb)
  show ?thesis
  proof (cases "length prxs = length verfers")
    case True
    from randy_secrets_ok [OF assms(1) True assms(6,4,5,7) fresh, of ?msg] obtain w3 where w3:
      "randy_secrets rb verfers digers (jstrs prxs) (jstrs nxts) ?msg ?w2 = (Inr (), w3)"
      "present (rb_prxs rb) verfers w3 = prxs" "present (rb_nxts rb) digers w3 = nxts"
      "sget (rb_pres rb) w3 = sget (rb_pres rb) ?w2" "sget (rb_sits rb) w3 = sget (rb_sits rb) ?w2" by blast
    then have "RandyManager_params rb pre w3 =
        (Inr (JObj [(''randy'', JObj [(''prxs'', jstrs prxs), (''nxts'', jstrs nxts)])]), w3)"
      using pres sits by (simp add: RandyManager_params_def has_algo_def presit_of_def)
    with inc w3 True show ?thesis by auto
  next
    case False
    have "present (rb_prxs rb) verfers ?w2 = []" "present (rb_nxts rb) digers ?w2 = []"
      using fresh by (auto simp: present_def List.map_filter_def filter_empty_conv)
    then have "RandyManager_params rb pre ?w2 =
        (Inr (JObj [(''randy'', JObj [(''prxs'', jstrs []), (''nxts'', jstrs [])])]), ?w2)"
      using pres sits by (simp add: RandyManager_params_def has_algo_def presit_of_def)
    moreover have "inc ?w2 = (Inl (already pre), ?w2)"
      using randy.incept_registered [OF assms(1), of pre ?w2 "(verfers, digers, jstrs prxs, jstrs nxts)"] pres
      by (simp add: registered_def randy_incept_def inc_def)
    moreover have "inc w = (Inl (ValueError ''If encrypted private keys are provided, must match verfers''), ?w2)"
      using inc False by (simp add: randy_secrets_def)
    ultimately show ?thesis using False by auto
  qed
qed

lemma keeps_check_algo [wp]: "keeps P (check_algo rb pre algo e)"
  unfolding check_algo_def by (intro wp)

lemma keeps_RemoteManager_get [wp]: "keeps P (RemoteManager_get rb algo pre)"
  unfolding RemoteManager_get_def by (intro wp)

lemma keeps_leaf_params: "keeps P (SaltyManager_params rb pre)" "keeps P (RandyManager_params rb pre)"
  unfolding SaltyManager_params_def RandyManager_params_def by (intro wp)+

lemma keeper_params_keeps: "keeps P (keeper_params n rb k p)"
proof (induction n arbitrary: k p)
  case base: 0
  show ?case by (cases k) (simp_all add: keeps_leaf_params keeps_raiseA)
next
  case (Suc n)
  show ?case
    by (cases k; simp only: keeper_params.simps) (intro wp keeps_leaf_params Suc.IH)+
qed

lemma keeper_params_pure: "pureA (keeper_params n rb k p)"
  by (rule pureA_by_keeps) (rule keeper_params_keeps)

lemma keeper_params_state: "keeper_params n rb k p w = (r, w') \<Longrightarrow> w' = w"
  using keeper_params_pure [of n rb k p] by (auto simp: pureA_def dest: spec [of _ w])

text \<open>The run of \<open>params\<close> of a group, when it returns.\<close>

lemma group_paramsE:
  assumes "keeper_params (Suc n) rb Group p w = (Inr j, w')"
  obtains (run) m ps pp mj where "has_algo rb p ''group'' w" and "sget (rb_mhabs rb) w p = Some m"
    and "sget (rb_sits rb) w p = Some ps" and "sget (rb_pres rb) w m = Some pp"
    and "keeper_params n rb (keeper_of_algo (pp_algo pp)) m w = (Inr mj, w)"
    and "j = JObj [(''group'', JObj [(''mhab'', mj), (''keys'', jstrs (pl_pubs (ps_new ps))),
                 (''ndigs'', jstrs (pl_pubs (ps_nxt ps)))])]"
proof -
  have "w' = w" by (rule keeper_params_state [OF assms])
  with assms show thesis
    by (auto simp: RemoteManager_get_def elim!: bindA_eq_InrD split: if_splits option.splits)
      (metis run)
qed

lemma group_paramsI:
  assumes "has_algo rb p ''group'' w" and "sget (rb_mhabs rb) w p = Some m"
    and "sget (rb_sits rb) w p = Some ps" and "sget (rb_pres rb) w m = Some pp"
    and "keeper_params n rb (keeper_of_algo (pp_algo pp)) m w = (Inr mj, w)"
  shows "keeper_params (Suc n) rb Group p w =
    (Inr (JObj [(''group'', JObj [(''mhab'', mj), (''keys'', jstrs (pl_pubs (ps_new ps))),
                 (''ndigs'', jstrs (pl_pubs (ps_nxt ps)))])]), w)"
  using assms by (simp add: RemoteManager_get_def bindA_Inr)

definition agree_but :: "'w remote_keeper \<Rightarrow> string \<Rightarrow> 'w \<Rightarrow> 'w \<Rightarrow> bool" where
  "agree_but rb g w w' \<longleftrightarrow>
     sget (rb_prxs rb) w' = sget (rb_prxs rb) w \<and> sget (rb_nxts rb) w' = sget (rb_nxts rb) w \<and>
     (\<forall>k. k \<noteq> g \<longrightarrow> sget (rb_pres rb) w' k = sget (rb_pres rb) w k \<and>
        sget (rb_sprms rb) w' k = sget (rb_sprms rb) w k \<and>
        sget (rb_sits rb) w' k = sget (rb_sits rb) w k \<and> sget (rb_mhabs rb) w' k = sget (rb_mhabs rb) w k)"

text \<open>Parameters that could be read stay readable when an unregistered identifier is added.\<close>

lemma keeper_params_extend:
  assumes agree: "agree_but rb g w w'" and new: "sget (rb_pres rb) w g = None"
  shows "keeper_params n rb k p w = (Inr j, w) \<Longrightarrow> keeper_params n rb k p w' = (Inr j, w')"
proof (induction n arbitrary: k p j)
  case base: 0
  then have "p \<noteq> g" using new
    by (cases k) (auto simp: SaltyManager_params_def RandyManager_params_def has_algo_def split: if_splits)
  with base agree show ?case
    by (cases k) (auto simp: SaltyManager_params_def RandyManager_params_def agree_but_def has_algo_def
        present_def split: if_splits option.splits)
next
  case (Suc n)
  show ?case
  proof (cases "k = Group")
    case True
    from Suc.prems [unfolded True] obtain m ps pp mj where
      run: "has_algo rb p ''group'' w" "sget (rb_mhabs rb) w p = Some m"
        "sget (rb_sits rb) w p = Some ps" "sget (rb_pres rb) w m = Some pp"
        "keeper_params n rb (keeper_of_algo (pp_algo pp)) m w = (Inr mj, w)"
      and j: "j = JObj [(''group'', JObj [(''mhab'', mj), (''keys'', jstrs (pl_pubs (ps_new ps))),
                 (''ndigs'', jstrs (pl_pubs (ps_nxt ps)))])]" by (rule group_paramsE)
    have "p \<noteq> g" "m \<noteq> g" using run new by (auto simp: has_algo_def)
    then show ?thesis
      unfolding True j using run Suc.IH [OF run(5)] agree
      by (intro group_paramsI) (auto simp: agree_but_def has_algo_def)
  next
    case False
    with Suc.prems have "p \<noteq> g" using new
      by (cases k) (auto simp: SaltyManager_params_def RandyManager_params_def has_algo_def split: if_splits)
    with Suc.prems False agree show ?thesis
      by (cases k) (auto simp: SaltyManager_params_def RandyManager_params_def agree_but_def has_algo_def
          present_def split: if_splits option.splits)
  qed
qed

text \<open>
  After the inception of a group identifier its parameters are the keys of the group and the
  parameters of its local member, which reading them through the group does not change.
\<close>

theorem group_incept_params:
  assumes "rb_ok rb" and "\<not> registered rb gpre w"
    and "sget (rb_mhabs rb) w gpre = None" and "sget (rb_sits rb) w gpre = None"
    and "RemoteManager_params n rb mpre w = (Inr j, w)"
  shows "\<exists>w1. GroupManager_incept rb gpre mpre verfers digers w = (Inr (), w1) \<and>
           RemoteManager_params (Suc n) rb gpre w1 =
             (Inr (JObj [(''group'', JObj [(''mhab'', j), (''keys'', jstrs verfers),
                                          (''ndigs'', jstrs digers)])]), w1) \<and>
           RemoteManager_params n rb mpre w1 = (Inr j, w1)"
proof -
  let ?w1 = "snd (sput (rb_pres rb) w gpre \<lparr>pp_pidx = JInt 0, pp_algo = ''group''\<rparr>)"
  let ?w2 = "snd (sput (rb_mhabs rb) ?w1 gpre mpre)"
  let ?w3 = "snd (sput (rb_sits rb) ?w2 gpre (presit_of verfers digers (rb_now rb ?w2)))"
  have none: "sget (rb_pres rb) w gpre = None" using assms(2) by (simp add: registered_def)
  have inc: "GroupManager_incept rb gpre mpre verfers digers w = (Inr (), ?w3)"
    using assms(1,3,4) none by (simp add: GroupManager_incept_def rb)
  have frame: "sget (rb_sprms rb) ?w3 = sget (rb_sprms rb) w" "sget (rb_prxs rb) ?w3 = sget (rb_prxs rb) w"
    "sget (rb_nxts rb) ?w3 = sget (rb_nxts rb) w"
    using assms(1) by (simp_all add: rb_ok_def frames_def)
  have agree: "agree_but rb gpre w ?w3"
    using assms(1) frame by (simp add: agree_but_def rb)
  obtain pp where pp: "sget (rb_pres rb) w mpre = Some pp"
    and mem: "keeper_params n rb (keeper_of_algo (pp_algo pp)) mpre w = (Inr j, w)"
    using assms(5) by (auto simp: RemoteManager_params_def RemoteManager_get_def elim!: bindA_eq_InrD
        split: option.splits)
  have "mpre \<noteq> gpre" using pp none by auto
  have pres: "sget (rb_pres rb) ?w3 mpre = Some pp" "has_algo rb gpre ''group'' ?w3"
    "sget (rb_pres rb) ?w3 gpre = Some \<lparr>pp_pidx = JInt 0, pp_algo = ''group''\<rparr>"
    "sget (rb_mhabs rb) ?w3 gpre = Some mpre"
    "sget (rb_sits rb) ?w3 gpre = Some (presit_of verfers digers (rb_now rb ?w2))"
    using assms(1,3,4) none pp \<open>mpre \<noteq> gpre\<close> by (simp_all add: rb has_algo_def)
  note mem3 = keeper_params_extend [OF agree none mem]
  have "RemoteManager_params n rb mpre ?w3 = (Inr j, ?w3)"
    using pres(1) mem3 by (simp add: RemoteManager_params_def RemoteManager_get_def)
  moreover have "RemoteManager_params (Suc n) rb gpre ?w3 =
      (Inr (JObj [(''group'', JObj [(''mhab'', j), (''keys'', jstrs verfers), (''ndigs'', jstrs digers)])]), ?w3)"
    using group_paramsI [OF pres(2,4,5,1) mem3] pres(3)
    by (simp add: RemoteManager_params_def RemoteManager_get_def keeper_of_algo_def presit_of_def)
  ultimately show ?thesis using inc by blast
qed

text \<open>A group that is its own member has no parameters: reading them never ends.\<close>

lemma group_of_itself:
  assumes "has_algo rb g ''group'' w" and "sget (rb_mhabs rb) w g = Some g" and "sget (rb_sits rb) w g = Some ps"
  shows "fst (RemoteManager_params n rb g w) = Inl RecursionError"
proof -
  obtain pp where pp: "sget (rb_pres rb) w g = Some pp" "pp_algo pp = ''group''"
    using assms(1) by (auto simp: has_algo_def split: option.splits)
  have "keeper_params n rb Group g w = (Inl RecursionError, w)"
  proof (induction n)
    case (Suc n)
    then show ?case using assms pp
      by (simp add: RemoteManager_get_def keeper_of_algo_def bindA_Inl)
  qed simp
  with pp show ?thesis by (simp add: RemoteManager_params_def RemoteManager_get_def keeper_of_algo_def)
qed

subsection \<open>A keeper in memory\<close>

record mem_rks =
  m_gbls :: "(string, string) alist"
  m_prxs :: "(string, string) alist"
  m_nxts :: "(string, string) alist"
  m_mhabs :: "(string, string) alist"
  m_pres :: "(string, prefix_rec) alist"
  m_sprms :: "(string, salty_prm) alist"
  m_sits :: "(string, presit) alist"

definition mem_empty :: mem_rks where
  "mem_empty = \<lparr>m_gbls = DAList.empty, m_prxs = DAList.empty, m_nxts = DAList.empty,
     m_mhabs = DAList.empty, m_pres = DAList.empty, m_sprms = DAList.empty, m_sits = DAList.empty\<rparr>"

definition mem_keeper :: "mem_rks remote_keeper" where
  "mem_keeper =
     \<lparr>rb_gbls = mem_suber m_gbls (\<lambda>a w. w\<lparr>m_gbls := a\<rparr>),
      rb_prxs = mem_suber m_prxs (\<lambda>a w. w\<lparr>m_prxs := a\<rparr>),
      rb_nxts = mem_suber m_nxts (\<lambda>a w. w\<lparr>m_nxts := a\<rparr>),
      rb_mhabs = mem_suber m_mhabs (\<lambda>a w. w\<lparr>m_mhabs := a\<rparr>),
      rb_pres = mem_suber m_pres (\<lambda>a w. w\<lparr>m_pres := a\<rparr>),
      rb_sprms = mem_suber m_sprms (\<lambda>a w. w\<lparr>m_sprms := a\<rparr>),
      rb_sits = mem_suber m_sits (\<lambda>a w. w\<lparr>m_sits := a\<rparr>),
      rb_now = (\<lambda>_. ''2024-01-01T00:00:00.000000+00:00''),
      rb_cipher = (\<lambda>v. case v of JStr c \<Rightarrow> if startswith c ''P'' then Inr c else Inl (ValueError c) | _ \<Rightarrow> Inl TypeError)\<rparr>"

lemma mem_keeper_ok: "rb_ok mem_keeper"
  unfolding rb_ok_def by (intro conjI; simp add: mem_keeper_def mem_suber_ok; intro mem_suber_frames; simp add: fun_eq_iff)

lemma mem_keeper_get:
  "sget (rb_pres mem_keeper) mem_empty k = None" "sget (rb_sprms mem_keeper) mem_empty k = None"
  "sget (rb_sits mem_keeper) mem_empty k = None" "sget (rb_mhabs mem_keeper) mem_empty k = None"
  "sget (rb_prxs mem_keeper) mem_empty k = None" "sget (rb_nxts mem_keeper) mem_empty k = None"
  by (simp_all add: mem_keeper_def mem_empty_def)

definition demo_salty :: salty_prm where
  "demo_salty = \<lparr>sp_sxlt = JStr ''1AAH'', sp_pidx = JInt 0, sp_kidx = JInt 0, sp_stem = JStr ''signify'',
     sp_tier = JStr ''low'', sp_dcode = JStr ''E'', sp_icodes = jstrs [''A''], sp_ncodes = jstrs [''A''],
     sp_transferable = JBool True\<rparr>"

theorem incept_decided_once_witness:
  "SaltyManager_incept mem_keeper ''E1'' demo_salty
     (snd (randy_incept mem_keeper ''E1'' ([], [], jstrs [], JNull) mem_empty)) =
   (Inl (already ''E1''), snd (randy_incept mem_keeper ''E1'' ([], [], jstrs [], JNull) mem_empty))"
  using incept_decided_once [OF mem_keeper_ok, of demo_salty "[]" "''E1''" mem_empty
      "([], [], jstrs [], JNull)" "[]" "(''E0'', [], [])" "[]"] by blast

theorem salty_incept_rotate_params_witness:
  "\<exists>w1 w2. SaltyManager_incept mem_keeper ''E1'' demo_salty mem_empty = (Inr (), w1) \<and>
     RemoteManager_params 1 mem_keeper ''E1'' w1 = (Inr (JObj [(''salty'', asdict demo_salty)]), w1) \<and>
     SaltyManager_rotate mem_keeper ''E1'' (demo_salty\<lparr>sp_kidx := JInt 1, sp_tier := JStr ''high''\<rparr>) w1 = (Inr (), w2) \<and>
     RemoteManager_params 1 mem_keeper ''E1'' w2 =
       (Inr (JObj [(''salty'', asdict (demo_salty\<lparr>sp_kidx := JInt 1\<rparr>))]), w2)"
  using salty_incept_rotate_params [OF mem_keeper_ok, of "''E1''" mem_empty demo_salty 1
      "demo_salty\<lparr>sp_kidx := JInt 1, sp_tier := JStr ''high''\<rparr>"]
  by (simp add: registered_def mem_keeper_get demo_salty_def)

theorem randy_incept_params_witness:
  "\<exists>r w1. RandyManager_incept mem_keeper ''E2'' [''D1''] [''E9''] (jstrs [''P1'']) (jstrs [''P2'']) mem_empty = (r, w1) \<and>
     r = Inr () \<and> RandyManager_params mem_keeper ''E2'' w1 =
       (Inr (JObj [(''randy'', JObj [(''prxs'', jstrs [''P1'']), (''nxts'', jstrs [''P2''])])]), w1)"
proof -
  have c: "rb_cipher mem_keeper (JStr ''P1'') = Inr ''P1''" "rb_cipher mem_keeper (JStr ''P2'') = Inr ''P2''"
    by (simp_all add: mem_keeper_def startswith_def)
  show ?thesis
    using randy_incept_params [OF mem_keeper_ok, of "''E2''" mem_empty "[''D1'']" "[''E9'']" "[''P2'']" "[''P1'']"] c
    by (simp add: registered_def mem_keeper_get)
qed

theorem group_incept_params_witness:
  "\<exists>w1. GroupManager_incept mem_keeper ''EG'' ''E1'' [''D1'', ''D2''] [''E8'', ''E9'']
          (snd (SaltyManager_incept mem_keeper ''E1'' demo_salty mem_empty)) = (Inr (), w1) \<and>
     RemoteManager_params 1 mem_keeper ''EG'' w1 =
       (Inr (JObj [(''group'', JObj [(''mhab'', JObj [(''salty'', asdict demo_salty)]),
          (''keys'', jstrs [''D1'', ''D2'']), (''ndigs'', jstrs [''E8'', ''E9''])])]), w1)"
proof -
  let ?w = "snd (SaltyManager_incept mem_keeper ''E1'' demo_salty mem_empty)"
  let ?w1 = "snd (sput (rb_pres mem_keeper) mem_empty ''E1'' \<lparr>pp_pidx = JInt 0, pp_algo = ''salty''\<rparr>)"
  have w: "?w = snd (sput (rb_sprms mem_keeper) ?w1 ''E1'' demo_salty)"
    by (simp add: SaltyManager_incept_def mem_keeper_get rb mem_keeper_ok demo_salty_def)
  have other: "sget (rb_mhabs mem_keeper) (snd (sput (rb_sprms mem_keeper) v k sp)) = sget (rb_mhabs mem_keeper) v"
    "sget (rb_sits mem_keeper) (snd (sput (rb_sprms mem_keeper) v k sp)) = sget (rb_sits mem_keeper) v" for v k sp
    using mem_keeper_ok by (simp_all add: rb_ok_def frames_def)
  have fresh: "\<not> registered mem_keeper ''EG'' ?w" "sget (rb_mhabs mem_keeper) ?w ''EG'' = None"
    "sget (rb_sits mem_keeper) ?w ''EG'' = None"
    unfolding w by (simp_all add: registered_def rb mem_keeper_ok mem_keeper_get other)
  have "RemoteManager_params 0 mem_keeper ''E1'' ?w = (Inr (JObj [(''salty'', asdict demo_salty)]), ?w)"
    unfolding w by (simp add: RemoteManager_params_def RemoteManager_get_def SaltyManager_params_def
        has_algo_def keeper_of_algo_def rb mem_keeper_ok mem_keeper_get)
  from group_incept_params [OF mem_keeper_ok fresh this, of "[''D1'', ''D2'']" "[''E8'', ''E9'']"]
  show ?thesis by auto
qed

end
