(* ===== verification/Booting.thy ===== *)
theory Booting
  imports Agency Keeping
begin

text \<open>
  The boot endpoint of \<open>app/agenting.py\<close>: \<open>BootEnd\<close> with its optional Basic authentication.
\<close>

subsection \<open>Base64\<close>

text \<open>
  \<open>base64.b64decode\<close> without validation: characters outside the alphabet are skipped, complete
  padding ends the input, and an incomplete group is an error. The state is the position in
  the group of four, the bits left over and the number of pad characters seen.
\<close>

definition b64_char :: "nat \<Rightarrow> char" where
  "b64_char n =
     (if n < 26 then char_of (65 + n) else if n < 52 then char_of (71 + n)
      else if n < 62 then char_of (n - 4) else if n = 62 then CHR ''+'' else CHR ''/'')"

definition b64_val :: "char \<Rightarrow> nat option" where
  "b64_val c =
     (let n = of_char c :: nat in
      if 65 \<le> n \<and> n \<le> 90 then Some (n - 65) else if 97 \<le> n \<and> n \<le> 122 then Some (n - 71)
      else if 48 \<le> n \<and> n \<le> 57 then Some (n + 4) else if n = 43 then Some 62
      else if n = 47 then Some 63 else None)"

fun b64_loop :: "nat \<Rightarrow> nat \<Rightarrow> nat \<Rightarrow> string \<Rightarrow> exn + string" where
  "b64_loop quad left pads [] = (if quad = 0 then Inr [] else Inl BinasciiError)"
| "b64_loop quad left pads (c # cs) =
     (if c = CHR ''='' then
        (if 2 \<le> quad \<and> 4 \<le> quad + Suc pads then Inr [] else b64_loop quad left (if 2 \<le> quad then Suc pads else pads) cs)
      else
        (case b64_val c of
           None \<Rightarrow> b64_loop quad left pads cs
         | Some v \<Rightarrow>
             (if quad = 0 then b64_loop 1 v 0 cs
              else if quad = 1 then map_sum id ((#) (char_of (left * 4 + v div 16))) (b64_loop 2 (v mod 16) 0 cs)
              else if quad = 2 then map_sum id ((#) (char_of (left * 16 + v div 4))) (b64_loop 3 (v mod 4) 0 cs)
              else map_sum id ((#) (char_of (left * 64 + v))) (b64_loop 0 0 0 cs))))"

definition is_ascii :: "string \<Rightarrow> bool" where
  "is_ascii s \<longleftrightarrow> list_all (\<lambda>c. (of_char c :: nat) < 128) s"

definition b64decode :: "string \<Rightarrow> exn + string" where
  "b64decode s =
     (if is_ascii s then b64_loop 0 0 0 s
      else Inl (ValueError ''string argument should contain only ASCII characters''))"

text \<open>What a client sends (\<open>base64.b64encode\<close>).\<close>

fun b64encode :: "string \<Rightarrow> string" where
  "b64encode (a # b # c # s) =
     (let x = of_char a :: nat; y = of_char b; z = of_char c in
      b64_char (x div 4) # b64_char (x mod 4 * 16 + y div 16) # b64_char (y mod 16 * 4 + z div 64)
        # b64_char (z mod 64) # b64encode s)"
| "b64encode [a, b] =
     (let x = of_char a :: nat; y = of_char b in
      [b64_char (x div 4), b64_char (x mod 4 * 16 + y div 16), b64_char (y mod 16 * 4), CHR ''=''])"
| "b64encode [a] =
     (let x = of_char a :: nat in [b64_char (x div 4), b64_char (x mod 4 * 16), CHR ''='', CHR ''=''])"
| "b64encode [] = []"

lemma b64_val_char: "n < 64 \<Longrightarrow> b64_val (b64_char n) = Some n"
  by (auto simp: b64_val_def b64_char_def Let_def take_bit_nat_eq_self)

lemma b64_char_not_pad: "n < 64 \<Longrightarrow> b64_char n \<noteq> CHR ''=''"
  using b64_val_char [of n] by (auto simp: b64_val_def)

lemma of_char_less: "(of_char c :: nat) < 256"
  by (rule nat_of_char_less_256)

lemma digits: "k < (n :: nat) \<Longrightarrow> (m * n + k) div n = m" "k < (n :: nat) \<Longrightarrow> (m * n + k) mod n = k"
  by simp_all

lemma byte_parts:
  assumes "y < (256 :: nat)" shows "y div 16 < 16" and "y div 64 < 4" and "y div 4 < 64"
  using assms by (simp_all add: less_mult_imp_div_less)

lemma b64_bounds:
  assumes "y < (256 :: nat)"
  shows "y div 4 < 64" and "x mod 4 * 16 + y div 16 < 64" and "x mod 16 * 4 + y div 64 < 64"
proof -
  have "x mod 4 < 4" "x mod 16 < 16" by simp_all
  with byte_parts [OF assms]
  show "y div 4 < 64" "x mod 4 * 16 + y div 16 < 64" "x mod 16 * 4 + y div 64 < 64" by linarith+
qed

lemma b64_parts:
  assumes "y < (256 :: nat)"
  shows "x div 4 * 4 + (x mod 4 * 16 + y div 16) div 16 = x"
    and "(x mod 4 * 16 + y div 16) mod 16 = y div 16"
    and "(x mod 16 * 4 + y div 64) div 4 = x mod 16" and "(x mod 16 * 4 + y div 64) mod 4 = y div 64"
  using byte_parts [OF assms] by (simp_all add: digits)

lemma b64_short:
  "x mod 4 * 16 div 16 = (x mod 4 :: nat)" "x mod 4 * 16 mod 16 = (0 :: nat)"
  "x mod 16 * 4 div 4 = (x mod 16 :: nat)" "x div 4 * 4 + x mod 4 = (x :: nat)"
  "x div 16 * 16 + x mod 16 = (x :: nat)" "x div 64 * 64 + x mod 64 = (x :: nat)"
  by simp_all

lemma b64_step:
  assumes "n < 64"
  shows "b64_loop 0 l p (b64_char n # cs) = b64_loop 1 n 0 cs"
    and "b64_loop (Suc 0) l p (b64_char n # cs) = map_sum id ((#) (char_of (l * 4 + n div 16))) (b64_loop 2 (n mod 16) 0 cs)"
    and "b64_loop 2 l p (b64_char n # cs) = map_sum id ((#) (char_of (l * 16 + n div 4))) (b64_loop 3 (n mod 4) 0 cs)"
    and "b64_loop 3 l p (b64_char n # cs) = map_sum id ((#) (char_of (l * 64 + n))) (b64_loop 0 0 0 cs)"
  using assms by (simp_all add: b64_char_not_pad b64_val_char)

lemma b64_pad: "b64_loop 3 l 0 (CHR ''='' # cs) = Inr []" "b64_loop 2 l 0 (CHR ''='' # CHR ''='' # cs) = Inr []"
  by simp_all

declare b64_loop.simps(2) [simp del]

lemma b64_loop_encode: "b64_loop 0 0 0 (b64encode s) = Inr s"
proof (induction s rule: b64encode.induct)
  case (1 a b c s)
  note lt = of_char_less [of a] of_char_less [of b] of_char_less [of c]
  note bd = b64_bounds [OF lt(1)] b64_bounds [OF lt(2)] b64_bounds [OF lt(3)]
  have "(of_char c :: nat) mod 64 < 64" by simp
  with 1 show ?case
    by (simp add: Let_def b64_step bd b64_parts [OF lt(2)] b64_parts [OF lt(3)] b64_short
        byte_parts [OF lt(2)] byte_parts [OF lt(3)])
next
  case (2 a b)
  note lt = of_char_less [of a] of_char_less [of b]
  have "(of_char b :: nat) mod 16 * 4 < 64" using mod_less_divisor [of 16 "of_char b :: nat"] by simp
  then show ?case
    by (simp add: Let_def b64_step b64_pad b64_bounds [OF lt(1)] b64_bounds [OF lt(2)] b64_parts [OF lt(2)] b64_short
        byte_parts [OF lt(2)])
next
  case (3 a)
  have "(of_char a :: nat) mod 4 * 16 < 64" using mod_less_divisor [of 4 "of_char a :: nat"] by simp
  then show ?case
    by (simp add: Let_def b64_step b64_pad b64_bounds [OF of_char_less] b64_short)
qed simp

lemma is_ascii_b64_char: "n < 64 \<Longrightarrow> (of_char (b64_char n) :: nat) < 128"
  by (auto simp: b64_char_def take_bit_nat_eq_self)

lemma is_ascii_encode: "is_ascii (b64encode s)"
proof (induction s rule: b64encode.induct)
  case (1 a b c s)
  have "(of_char c :: nat) mod 64 < 64" by simp
  with 1 show ?case
    by (simp add: is_ascii_def Let_def is_ascii_b64_char b64_bounds [OF of_char_less])
next
  case (2 a b)
  have "(of_char b :: nat) mod 16 * 4 < 64" using mod_less_divisor [of 16 "of_char b :: nat"] by simp
  then show ?case
    by (simp add: is_ascii_def Let_def is_ascii_b64_char b64_bounds [OF of_char_less])
next
  case (3 a)
  have "(of_char a :: nat) mod 4 * 16 < 64" using mod_less_divisor [of 4 "of_char a :: nat"] by simp
  then show ?case
    by (simp add: is_ascii_def Let_def is_ascii_b64_char b64_bounds [OF of_char_less])
qed (simp add: is_ascii_def)

lemma b64_roundtrip: "b64decode (b64encode s) = Inr s"
  by (simp add: b64decode_def is_ascii_encode b64_loop_encode)

subsection \<open>BootEnd\<close>

record ('h, 'w) boot_env =
  bo_agency :: "('h, 'w) agency_env"
  bo_username :: "string option"
  bo_password :: "string option"
  bo_serder :: "json \<Rightarrow> exn + string"
  bo_siger :: "json \<Rightarrow> exn + string"
  bo_makeSignify :: "'h \<Rightarrow> string \<Rightarrow> json \<Rightarrow> string \<Rightarrow> ('w, string \<times> string list \<times> string list) act"
  bo_rb :: "'h \<Rightarrow> 'w remote_keeper"
  bo_state :: "'w \<Rightarrow> 'h agent \<Rightarrow> json"

definition parseBasicAuth :: "string option \<Rightarrow> exn + string option \<times> string option" where
  "parseBasicAuth auth =
     (case auth of
        None \<Rightarrow> Inr (None, None)
      | Some a \<Rightarrow>
          if \<not> startswith a ''Basic '' then Inr (None, None)
          else
            (case b64decode (drop 6 a) of
               Inl e \<Rightarrow> Inl e
             | Inr token \<Rightarrow>
                 (case find_char (CHR '':'') token of
                    None \<Rightarrow> Inr (None, None)
                  | Some i \<Rightarrow> Inr (Some (take i token), Some (drop (i + 1) token)))))"

definition unauthorized :: exn where
  "unauthorized = HTTPError 401 ''Unauthorized''"

definition authenticate :: "string option \<Rightarrow> string option \<Rightarrow> string option \<Rightarrow> exn + unit" where
  "authenticate user pass auth =
     (if user = None \<and> pass = None then Inr ()
      else if auth = None then Inl unauthorized
      else
        (case parseBasicAuth auth of
           Inl _ \<Rightarrow> Inl unauthorized
         | Inr (u, p) \<Rightarrow> if u = user \<and> p = pass then Inr () else Inl unauthorized))"

definition invalid_icp :: "string \<Rightarrow> exn" where
  "invalid_icp caid = HTTPError 400 (''invalid icp event for caid '' @ caid)"

definition missing_field :: "string \<Rightarrow> string \<Rightarrow> exn" where
  "missing_field f place = HTTPError 400 (''required field \"'' @ f @ ''\" missing from '' @ place)"

definition require_in :: "json \<Rightarrow> string \<Rightarrow> string \<Rightarrow> ('s, json) act" where
  "require_in body f place =
     bindA (liftA (jin f body)) (\<lambda>there.
     seqA (guardA there (missing_field f place)) (liftA (jitem body f)))"

text \<open>The parameters of the controller's own keys, when the request brings them.\<close>

definition boot_salty ::
  "('h, 'w) boot_env \<Rightarrow> 'h agent \<Rightarrow> json \<Rightarrow> (('h, 'w) agency, unit) act" where
  "boot_salty env agent salt =
     bindA (liftA (getRequiredParam salt ''stem'')) (\<lambda>stem.
     bindA (liftA (getRequiredParam salt ''pidx'')) (\<lambda>pidx.
     bindA (liftA (getRequiredParam salt ''tier'')) (\<lambda>tier.
     bindA (liftA (getRequiredParam salt ''sxlt'')) (\<lambda>sxlt.
     bindA (liftA (getRequiredParam salt ''icodes'')) (\<lambda>icodes.
     bindA (liftA (getRequiredParam salt ''ncodes'')) (\<lambda>ncodes.
     ext (SaltyManager_incept (bo_rb env (ag_hby agent)) (ag_caid agent)
       \<lparr>sp_sxlt = sxlt, sp_pidx = pidx, sp_kidx = JInt 0, sp_stem = stem, sp_tier = tier,
        sp_dcode = JStr ''E'', sp_icodes = icodes, sp_ncodes = ncodes, sp_transferable = JBool True\<rparr>)))))))"

text \<open>
  The call of \<open>RandyManager.incept\<close> leaves out its argument \<open>transferable\<close>, which has no default:
  it raises \<open>TypeError\<close>.
\<close>

definition boot_randy :: "json \<Rightarrow> (('h, 'w) agency, unit) act" where
  "boot_randy rand =
     bindA (require_in rand ''pris'' ''body.rand'') (\<lambda>pris.
     bindA (require_in rand ''nxts'' ''body.rand'') (\<lambda>nxts. raiseA TypeError))"

definition boot_keys ::
  "('h, 'w) boot_env \<Rightarrow> 'h agent \<Rightarrow> json \<Rightarrow> (('h, 'w) agency, unit) act" where
  "boot_keys env agent body =
     bindA (liftA (jin ''salty'' body)) (\<lambda>salty.
     bindA (liftA (jin ''randy'' body)) (\<lambda>randy.
     bindA (liftA (jin ''group'' body)) (\<lambda>grp.
     if salty then bindA (liftA (jitem body ''salty'')) (boot_salty env agent)
     else if randy then bindA (liftA (jitem body ''randy'')) boot_randy
     else if grp then raiseA (HTTPError 400 ''multisig groups not supported as agent controller'')
     else retA ())))"

definition boot_signify ::
  "('h, 'w) boot_env \<Rightarrow> 'h agent \<Rightarrow> json \<Rightarrow> string \<Rightarrow> (('h, 'w) agency, unit) act" where
  "boot_signify env agent icp siger =
     bindA (catchA (ext (bo_makeSignify env (ag_hby agent) (ag_caid agent) icp siger))
              (\<lambda>e. if isException e
                   then Some (seqA (Agency_delete (bo_agency env) agent) (raiseA (invalid_icp (ag_caid agent))))
                   else None))
       (\<lambda>(pre, _, _).
          whenA (pre \<noteq> ag_caid agent)
            (seqA (Agency_delete (bo_agency env) agent) (raiseA (invalid_icp (ag_caid agent)))))"

definition BootEnd_on_post ::
  "('h, 'w) boot_env \<Rightarrow> request \<Rightarrow> response \<Rightarrow> (('h, 'w) agency, response) act" where
  "BootEnd_on_post env req rep =
     seqA (liftA (authenticate (bo_username env) (bo_password env) (rq_auth req)))
     (bindA (liftA (rq_media req)) (\<lambda>body.
      bindA (require_in body ''icp'' ''body'') (\<lambda>icp.
      bindA (liftA (bo_serder env icp)) (\<lambda>caid.
      bindA (require_in body ''sig'' ''body'') (\<lambda>sg.
      bindA (liftA (bo_siger env sg)) (\<lambda>siger.
      bindA (Agency_get (bo_agency env) caid) (\<lambda>old.
      seqA (guardA (old = None) (HTTPError 409 (''agent for controller '' @ caid @ '' already exists'')))
      (bindA (Agency_create (bo_agency env) caid None) (\<lambda>agent.
       seqA (boot_signify env agent icp siger)
       (seqA (boot_keys env agent body)
       (bindA (getA (\<lambda>s. bo_state env (ay_world s) agent)) (\<lambda>state.
        retA (rep\<lparr>rs_status := 202, rs_data := Some state\<rparr>)))))))))))))"

subsection \<open>Who may boot\<close>

lemma parseBasicAuth_sent:
  assumes "CHR '':'' \<notin> set u"
  shows "parseBasicAuth (Some (''Basic '' @ b64encode (u @ CHR '':'' # p))) = Inr (Some u, Some p)"
proof -
  have "startswith (''Basic '' @ x) ''Basic ''" "drop 6 (''Basic '' @ x) = x" for x
    by (simp_all add: startswith_def)
  then show ?thesis
    by (simp only: parseBasicAuth_def option.case not_True_eq_False if_False b64_roundtrip sum.case
        find_char_append [OF assms]) simp
qed

text \<open>
  With a user name and a password configured, the credentials a client sends in the standard
  encoding are accepted exactly if both are the configured ones, for every user name the
  encoding can carry (one without a colon), and whatever characters the password has.
\<close>

theorem boot_credentials:
  assumes "CHR '':'' \<notin> set u'"
  shows "authenticate (Some u) (Some p) (Some (''Basic '' @ b64encode (u' @ CHR '':'' # p'))) =
           (if u' = u \<and> p' = p then Inr () else Inl unauthorized)"
  unfolding authenticate_def parseBasicAuth_sent [OF assms] by simp

theorem boot_credentials_witness:
  "authenticate (Some ''user'') (Some ''p:w'') (Some (''Basic '' @ b64encode ''user:p:w'')) = Inr ()"
  using boot_credentials [of "''user''" "''user''" "''p:w''" "''p:w''"] by simp

lemma parseBasicAuth_user:
  "parseBasicAuth auth = Inr (u, p) \<Longrightarrow> (u = None \<and> p = None) \<or> (\<exists>x y. u = Some x \<and> p = Some y \<and> CHR '':'' \<notin> set x)"
  by (auto simp: parseBasicAuth_def dest: find_char_SomeD split: option.splits sum.splits if_splits)

text \<open>
  A configuration with only one of the two, or with a user name that contains a colon, locks
  everybody out, whatever they send; without any, everybody may boot.
\<close>

theorem boot_lockout:
  "(user = None \<and> pass = None \<longrightarrow> authenticate user pass auth = Inr ()) \<and>
   ((user = None) \<noteq> (pass = None) \<or> (\<exists>u. user = Some u \<and> CHR '':'' \<in> set u) \<longrightarrow>
      authenticate user pass auth = Inl unauthorized)"
proof (intro conjI impI)
  show "authenticate user pass auth = Inr ()" if "user = None \<and> pass = None"
    using that by (simp add: authenticate_def)
  show "authenticate user pass auth = Inl unauthorized"
    if bad: "(user = None) \<noteq> (pass = None) \<or> (\<exists>u. user = Some u \<and> CHR '':'' \<in> set u)"
  proof (cases "parseBasicAuth auth")
    case (Inr r)
    obtain u p where r: "r = (u, p)" by fastforce
    have "\<not> (u = user \<and> p = pass)" using parseBasicAuth_user [of auth u p] Inr r bad by auto
    with Inr r bad show ?thesis by (auto simp: authenticate_def)
  qed (use bad in \<open>auto simp: authenticate_def\<close>)
qed

theorem boot_lockout_witness:
  "authenticate (Some ''us:er'') (Some ''pw'') (Some (''Basic '' @ b64encode ''us:er:pw'')) = Inl unauthorized"
  using boot_lockout [of "Some ''us:er''" "Some ''pw''" "Some (''Basic '' @ b64encode ''us:er:pw'')"] by simp

subsection \<open>What a boot leaves behind\<close>

lemma keeps_ext_agents: "keeps (\<lambda>s. Q (ay_agents s)) (ext m)"
  by (rule keeps_ext) simp

lemma keeps_boot_keys: "keeps (\<lambda>s. Q (ay_agents s)) (boot_keys env agent body)"
  unfolding boot_keys_def boot_salty_def boot_randy_def require_in_def
  by (intro wp keeps_ext_agents)

lemma boot_signify_InrD:
  assumes "boot_signify env agent icp siger s = (Inr u, s')"
  shows "ay_agents s' = ay_agents s \<and>
    (\<exists>vs ds w'. bo_makeSignify env (ag_hby agent) (ag_caid agent) icp siger (ay_world s) = (Inr (ag_caid agent, vs, ds), w'))"
proof -
  obtain r w' where m: "bo_makeSignify env (ag_hby agent) (ag_caid agent) icp siger (ay_world s) = (r, w')" by fastforce
  show ?thesis
    using assms m
    by (cases r)
      (auto simp: boot_signify_def catchA_def ext_run bindA_def whenA_def split: if_splits prod.splits sum.splits)
qed

lemma Agency_create_agent:
  assumes "Agency_create env caid salt s = (Inr a, s')"
  shows "\<exists>en. dict_get (ay_agents s') caid = Some en \<and> en_agent en = a \<and> ag_caid a = caid"
proof -
  from Agency_create_run [OF assms] obtain w1 en where
    "ag_caid a = caid" "en = \<lparr>en_agent = a, en_last = op_now env w1, en_shut = False\<rparr>"
    "ay_agents s' = dict_set (ay_agents s) caid en" .
  then show ?thesis by simp
qed

lemma require_in_InrD:
  "require_in body f place s = (Inr v, s') \<Longrightarrow> jin f body = Inr True \<and> jitem body f = Inr v \<and> s' = s"
  by (auto simp: require_in_def guardA_def elim!: bindA_eq_InrD split: if_splits)

lemma guardA_InrD: "guardA b e s = (Inr u, s') \<Longrightarrow> b \<and> s' = s"
  by (cases b) auto

lemma boot_keys_no_randy:
  assumes "boot_keys env agent body s = (Inr u, s')"
  shows "jin ''salty'' body = Inr True \<or> jin ''randy'' body = Inr False"
  using assms
  by (auto simp: boot_keys_def boot_randy_def elim!: bindA_eq_InrD split: if_splits)

lemma boot_runE:
  assumes "BootEnd_on_post env req rep s = (Inr rep', s')"
  obtains (run) body icp caid siger agent s1 s2 s3
  where "authenticate (bo_username env) (bo_password env) (rq_auth req) = Inr ()"
    and "rq_media req = Inr body" and "jitem body ''icp'' = Inr icp" and "bo_serder env icp = Inr caid"
    and "Agency_get (bo_agency env) caid s = (Inr None, s1)"
    and "Agency_create (bo_agency env) caid None s1 = (Inr agent, s2)"
    and "boot_signify env agent icp siger s2 = (Inr (), s3)"
    and "boot_keys env agent body s3 = (Inr (), s')" and "rs_status rep' = 202"
proof -
  have "\<exists>body icp caid siger agent s1 s2 s3.
    authenticate (bo_username env) (bo_password env) (rq_auth req) = Inr () \<and>
    rq_media req = Inr body \<and> jitem body ''icp'' = Inr icp \<and> bo_serder env icp = Inr caid \<and>
    Agency_get (bo_agency env) caid s = (Inr None, s1) \<and>
    Agency_create (bo_agency env) caid None s1 = (Inr agent, s2) \<and>
    boot_signify env agent icp siger s2 = (Inr (), s3) \<and>
    boot_keys env agent body s3 = (Inr (), s') \<and> rs_status rep' = 202"
    using assms unfolding BootEnd_on_post_def
    by (auto elim!: bindA_eq_InrD dest!: require_in_InrD guardA_InrD) blast
  then show thesis using run by blast
qed

text \<open>
  C5. A boot that is answered with 202 was authorised, named a controller that had no agent, and
  brought an inception event that its agent's Habery accepted as this very controller's; from
  then on the controller has an agent. The keys were salty ones or of no kind: a request with
  randy keys is never answered with 202.
\<close>

theorem boot_accepted:
  assumes "BootEnd_on_post env req rep s = (Inr rep', s')"
  shows "authenticate (bo_username env) (bo_password env) (rq_auth req) = Inr () \<and> rs_status rep' = 202 \<and>
    (\<exists>body icp caid siger en vs ds w w'.
       rq_media req = Inr body \<and> jitem body ''icp'' = Inr icp \<and> bo_serder env icp = Inr caid \<and>
       fst (Agency_get (bo_agency env) caid s) = Inr None \<and>
       bo_makeSignify env (ag_hby (en_agent en)) caid icp siger w = (Inr (caid, vs, ds), w') \<and>
       dict_get (ay_agents s') caid = Some en \<and> ag_caid (en_agent en) = caid \<and>
       (jin ''salty'' body = Inr True \<or> jin ''randy'' body = Inr False))"
proof -
  let ?agy = "bo_agency env"
  from assms obtain body icp caid siger agent s1 s2 s3
    where auth: "authenticate (bo_username env) (bo_password env) (rq_auth req) = Inr ()"
    and body: "rq_media req = Inr body" and icp: "jitem body ''icp'' = Inr icp" "bo_serder env icp = Inr caid"
    and get: "Agency_get ?agy caid s = (Inr None, s1)"
    and create: "Agency_create ?agy caid None s1 = (Inr agent, s2)"
    and sig: "boot_signify env agent icp siger s2 = (Inr (), s3)"
    and keys: "boot_keys env agent body s3 = (Inr (), s')"
    and fin: "rs_status rep' = 202"
    by (rule boot_runE)
  from Agency_create_agent [OF create] obtain en where
    en: "dict_get (ay_agents s2) caid = Some en" "en_agent en = agent" "ag_caid agent = caid" by blast
  from boot_signify_InrD [OF sig] en obtain vs ds w' where
    s3: "ay_agents s3 = ay_agents s2" and
    mk: "bo_makeSignify env (ag_hby agent) caid icp siger (ay_world s2) = (Inr (caid, vs, ds), w')" by auto
  have "ay_agents s' = ay_agents s2"
    using keepsD [OF keeps_boot_keys [where Q = "(=) (ay_agents s2)"] _ keys] s3 by simp
  with en have "dict_get (ay_agents s') caid = Some en" by simp
  moreover have "fst (Agency_get ?agy caid s) = Inr None" using get by simp
  moreover have "jin ''salty'' body = Inr True \<or> jin ''randy'' body = Inr False"
    by (rule boot_keys_no_randy [OF keys])
  ultimately show ?thesis using auth body icp mk en(2,3) fin by blast
qed

text \<open>A request that gets as far as creating the agent.\<close>

definition boot_creates ::
  "('h, 'w) boot_env \<Rightarrow> request \<Rightarrow> json \<Rightarrow> string \<Rightarrow> string \<Rightarrow> 'h agent \<Rightarrow> ('h, 'w) agency \<Rightarrow> ('h, 'w) agency \<Rightarrow> bool" where
  "boot_creates env req icp siger caid agent s s2 \<longleftrightarrow>
     authenticate (bo_username env) (bo_password env) (rq_auth req) = Inr () \<and>
     (case rq_media req of
        Inr (JObj d) \<Rightarrow> dict_get d ''icp'' = Some icp \<and> (\<exists>sg. dict_get d ''sig'' = Some sg \<and> bo_siger env sg = Inr siger)
      | _ \<Rightarrow> False) \<and>
     bo_serder env icp = Inr caid \<and>
     (\<exists>s1. Agency_get (bo_agency env) caid s = (Inr None, s1) \<and> Agency_create (bo_agency env) caid None s1 = (Inr agent, s2))"

lemma bindA_liftA_eq: "bindA (liftA (Inr y)) f = f y"
  by (rule ext) simp

lemma boot_creates_run:
  assumes "boot_creates env req icp siger caid agent s s2"
  shows "BootEnd_on_post env req rep s =
     seqA (boot_signify env agent icp siger)
       (seqA (bindA (liftA (rq_media req)) (boot_keys env agent))
       (bindA (getA (\<lambda>s. bo_state env (ay_world s) agent)) (\<lambda>state.
        retA (rep\<lparr>rs_status := 202, rs_data := Some state\<rparr>)))) s2"
proof -
  from assms obtain d sg s1 where d: "rq_media req = Inr (JObj d)" "dict_get d ''icp'' = Some icp"
      "dict_get d ''sig'' = Some sg" "bo_siger env sg = Inr siger"
    and g: "Agency_get (bo_agency env) caid s = (Inr None, s1)"
    and c: "Agency_create (bo_agency env) caid None s1 = (Inr agent, s2)"
    and o: "authenticate (bo_username env) (bo_password env) (rq_auth req) = Inr ()" "bo_serder env icp = Inr caid"
    by (auto simp: boot_creates_def split: sum.splits json.splits)
  show ?thesis
    by (simp add: BootEnd_on_post_def d o require_in_def bindA_def [of "Agency_get (bo_agency env) caid"] g
        bindA_def [of "Agency_create (bo_agency env) caid None"] c bindA_liftA_eq)
qed

text \<open>Any later request for a controller that has an agent in the cache is a conflict.\<close>

lemma boot_again:
  assumes "boot_creates env req icp siger caid agent s s2" and "dict_get (ay_agents t) caid = Some en"
  shows "fst (BootEnd_on_post env req rep t) = Inl (HTTPError 409 (''agent for controller '' @ caid @ '' already exists''))"
proof -
  from assms(1) obtain d sg where d: "rq_media req = Inr (JObj d)" "dict_get d ''icp'' = Some icp"
      "dict_get d ''sig'' = Some sg" "bo_siger env sg = Inr siger"
      "authenticate (bo_username env) (bo_password env) (rq_auth req) = Inr ()" "bo_serder env icp = Inr caid"
    by (auto simp: boot_creates_def split: sum.splits json.splits)
  show ?thesis
    by (simp add: BootEnd_on_post_def d require_in_def bindA_def [of "Agency_get (bo_agency env) caid"]
        Agency_get_cached [OF assms(2)])
qed

text \<open>
  A controller with randy keys can not boot, and can not try again: the request fails with an
  exception no handler expects, after the agent was created, and every repetition is told that
  the agent already exists.
\<close>

theorem boot_randy_stuck:
  assumes "boot_creates env req icp siger caid agent s s2"
    and "boot_signify env agent icp siger s2 = (Inr (), s3)"
    and "rq_media req = Inr (JObj d)" and "dict_get d ''salty'' = None" and "dict_get d ''randy'' = Some (JObj r)"
    and "dict_get r ''pris'' \<noteq> None" and "dict_get r ''nxts'' \<noteq> None"
  shows "BootEnd_on_post env req rep s = (Inl TypeError, s3) \<and>
         fst (BootEnd_on_post env req rep s3) = Inl (HTTPError 409 (''agent for controller '' @ caid @ '' already exists''))"
proof -
  have "boot_keys env agent (JObj d) s3 = (Inl TypeError, s3)"
    using assms(4-7) by (auto simp: boot_keys_def boot_randy_def require_in_def)
  then have "BootEnd_on_post env req rep s = (Inl TypeError, s3)"
    using assms(3) by (simp add: boot_creates_run [OF assms(1)] bindA_def [of "boot_signify env agent icp siger"]
        assms(2) bindA_Inl)
  moreover
  from assms(1) obtain s1 where "Agency_create (bo_agency env) caid None s1 = (Inr agent, s2)"
    by (auto simp: boot_creates_def)
  from Agency_create_agent [OF this] boot_signify_InrD [OF assms(2)] obtain en where
    "dict_get (ay_agents s3) caid = Some en" by auto
  note boot_again [OF assms(1) this]
  ultimately show ?thesis by blast
qed

text \<open>
  An inception event the Habery refuses is answered with 400 and the agent is gone, if the
  database accepts the call that forgets it. If that call raises (it passes \<open>key\<close> where the
  database's \<open>rem\<close> takes \<open>keys\<close>, a \<open>TypeError\<close>), the request ends with that exception, the agent
  stays, and a corrected request for the same controller is refused as a conflict.
\<close>

theorem boot_invalid_icp:
  assumes "boot_creates env req icp siger caid agent s s2"
    and "bo_makeSignify env (ag_hby agent) caid icp siger (ay_world s2) = (Inl e, w3)" and "isException e"
    and "\<forall>h nm w. fst (op_deleteHab (bo_agency env) h nm w) = Inr ()"
    and "\<forall>db h w. fst (op_close (bo_agency env) db h w) = Inr ()"
  shows "(\<forall>w4. op_agnt_rem (bo_agency env) caid w3 = (Inr (), w4) \<longrightarrow>
            (\<exists>s'. BootEnd_on_post env req rep s = (Inl (invalid_icp caid), s') \<and> dict_get (ay_agents s') caid = None)) \<and>
         (\<forall>w4. op_agnt_rem (bo_agency env) caid w3 = (Inl TypeError, w4) \<longrightarrow>
            (\<exists>s'. BootEnd_on_post env req rep s = (Inl TypeError, s') \<and>
                  fst (BootEnd_on_post env req rep s') =
                    Inl (HTTPError 409 (''agent for controller '' @ caid @ '' already exists''))))"
proof -
  from assms(1) obtain s1 where create: "Agency_create (bo_agency env) caid None s1 = (Inr agent, s2)"
    by (auto simp: boot_creates_def)
  from Agency_create_agent [OF this] obtain en where
    en: "dict_get (ay_agents s2) caid = Some en" "ag_caid agent = caid" by blast
  let ?s3 = "s2\<lparr>ay_world := w3\<rparr>"
  have run: "BootEnd_on_post env req rep s = (Inl f, s')"
    if "seqA (Agency_delete (bo_agency env) agent) (raiseA (invalid_icp caid)) ?s3 = (Inl f, s')" for f s'
  proof -
    have "boot_signify env agent icp siger s2 = (Inl f, s')"
      using that assms(2,3) en(2) by (simp add: boot_signify_def bindA_def catchA_def ext_run split: prod.splits sum.splits)
    then show ?thesis by (simp add: boot_creates_run [OF assms(1)] bindA_Inl)
  qed
  show ?thesis
  proof (intro conjI allI impI)
    fix w4 assume r: "op_agnt_rem (bo_agency env) caid w3 = (Inr (), w4)"
    have del: "\<exists>s'. Agency_delete (bo_agency env) agent ?s3 = (Inr (), s') \<and> dict_get (ay_agents s') caid = None"
      using assms(4,5) en r by (simp add: Agency_delete_def bindA_def ext_run delA_def)
    then obtain s' where "Agency_delete (bo_agency env) agent ?s3 = (Inr (), s')" "dict_get (ay_agents s') caid = None" by blast
    with run [of "invalid_icp caid" s']
    show "\<exists>s'. BootEnd_on_post env req rep s = (Inl (invalid_icp caid), s') \<and> dict_get (ay_agents s') caid = None"
      by (auto simp: bindA_Inr)
  next
    fix w4 assume r: "op_agnt_rem (bo_agency env) caid w3 = (Inl TypeError, w4)"
    have "Agency_delete (bo_agency env) agent ?s3 = (Inl TypeError, s2\<lparr>ay_world := w4\<rparr>)"
      using en r by (simp add: Agency_delete_def bindA_def ext_run)
    then have "BootEnd_on_post env req rep s = (Inl TypeError, s2\<lparr>ay_world := w4\<rparr>)"
      by (intro run) (simp add: bindA_Inl)
    moreover have "dict_get (ay_agents (s2\<lparr>ay_world := w4\<rparr>)) caid = Some en" using en by simp
    note boot_again [OF assms(1) this]
    ultimately show "\<exists>s'. BootEnd_on_post env req rep s = (Inl TypeError, s') \<and>
                  fst (BootEnd_on_post env req rep s') =
                    Inl (HTTPError 409 (''agent for controller '' @ caid @ '' already exists''))"
      by blast
  qed
qed

subsection \<open>A boot endpoint over the agency in memory\<close>

definition null_suber :: "('w, 'k, 'v) suber" where
  "null_suber = \<lparr>sget = (\<lambda>_ _. None), sput = (\<lambda>w _ _. (True, w)), spin = (\<lambda>w _ _. (True, w)),
                 srem = (\<lambda>w _. (False, w)), sitems = (\<lambda>_. [])\<rparr>"

definition null_keeper :: "'w remote_keeper" where
  "null_keeper = \<lparr>rb_gbls = null_suber, rb_prxs = null_suber, rb_nxts = null_suber, rb_mhabs = null_suber,
     rb_pres = null_suber, rb_sprms = null_suber, rb_sits = null_suber, rb_now = (\<lambda>_. []), rb_cipher = (\<lambda>_. Inl TypeError)\<rparr>"

text \<open>The Habery accepts the event of \<open>C\<close> only when it is signed with \<open>good\<close>.\<close>

definition mem_boot :: "(string, mem_agency) boot_env" where
  "mem_boot =
     \<lparr>bo_agency = mem_env, bo_username = None, bo_password = None,
      bo_serder = (\<lambda>j. case jitem j ''i'' of Inl e \<Rightarrow> Inl e | Inr v \<Rightarrow> jstr v),
      bo_siger = jstr,
      bo_makeSignify = (\<lambda>h nm icp sg. if sg = ''good'' then retA (nm, [''D''], [''E'']) else raiseA (ValidationError sg)),
      bo_rb = (\<lambda>_. null_keeper), bo_state = (\<lambda>_ a. JStr (ag_pre a))\<rparr>"

definition boot_request :: "string \<Rightarrow> (string \<times> json) list \<Rightarrow> request" where
  "boot_request sg extra = \<lparr>rq_method = ''POST'', rq_path = ''/boot'', rq_headers = [], rq_params = [],
     rq_media = Inr (JObj ([(''icp'', JObj [(''i'', JStr ''C'')]), (''sig'', JStr sg)] @ extra)),
     rq_auth = None, rq_content_length = Some 0, rq_content_type = Some ''application/json'', rq_body = []\<rparr>"

lemma mem_get_none: "Agency_get mem_env ''C'' mem_start = (Inr None, mem_start)"
  by (simp add: Agency_get_def mem_start_def mem_env_def mem_agency_empty_def)

lemma mem_created: "\<exists>a s2. Agency_create mem_env ''C'' None mem_start = (Inr a, s2) \<and> ag_caid a = ''C'' \<and> ag_hby a = ''C''"
proof -
  from demo_create obtain a s2 where "Agency_create mem_env ''C'' None mem_start = (Inr a, s2)"
    by (cases "Agency_create mem_env ''C'' None mem_start") (auto split: sum.splits)
  then show ?thesis
    by (auto simp: Agency_create_def mem_env_def ext_run bindA_def split: prod.splits sum.splits)
qed

lemma mem_boot_creates:
  assumes "Agency_create mem_env ''C'' None mem_start = (Inr a, s2)"
  shows "boot_creates mem_boot (boot_request sg extra) (JObj [(''i'', JStr ''C'')]) sg ''C'' a mem_start s2"
  using assms mem_get_none
  by (auto simp: boot_creates_def mem_boot_def authenticate_def boot_request_def)

lemma mem_signify:
  "ag_caid a = ''C'' \<Longrightarrow> boot_signify mem_boot a icp ''good'' s = (Inr (), s)"
  by (simp add: boot_signify_def mem_boot_def catchA_def ext_run bindA_def)

theorem boot_accepted_witness:
  "\<exists>rep' s' en. BootEnd_on_post mem_boot (boot_request ''good'' []) fresh_response mem_start = (Inr rep', s') \<and>
     rs_status rep' = 202 \<and> dict_get (ay_agents s') ''C'' = Some en \<and> ag_caid (en_agent en) = ''C''"
proof -
  from mem_created obtain a s2 where c: "Agency_create mem_env ''C'' None mem_start = (Inr a, s2)" "ag_caid a = ''C''" by blast
  have "\<exists>rep'. BootEnd_on_post mem_boot (boot_request ''good'' []) fresh_response mem_start = (Inr rep', s2)"
    by (simp add: boot_creates_run [OF mem_boot_creates [OF c(1)]]
        bindA_def [of "boot_signify mem_boot a icp sg" for icp sg] mem_signify [OF c(2)])
      (simp add: boot_request_def boot_keys_def)
  then obtain rep' where r: "BootEnd_on_post mem_boot (boot_request ''good'' []) fresh_response mem_start = (Inr rep', s2)" by blast
  from boot_accepted [OF r] have "rs_status rep' = 202" "\<exists>en. dict_get (ay_agents s2) ''C'' = Some en \<and> ag_caid (en_agent en) = ''C''"
    by (auto simp: boot_request_def mem_boot_def)
  with r show ?thesis by blast
qed

theorem boot_randy_stuck_witness:
  "\<exists>s'. BootEnd_on_post mem_boot (boot_request ''good'' [(''randy'', JObj [(''pris'', JArr []), (''nxts'', JArr [])])])
            fresh_response mem_start = (Inl TypeError, s')"
proof -
  from mem_created obtain a s2 where c: "Agency_create mem_env ''C'' None mem_start = (Inr a, s2)" "ag_caid a = ''C''" by blast
  from boot_randy_stuck [OF mem_boot_creates [OF c(1)] mem_signify [OF c(2)]]
  show ?thesis by (simp add: boot_request_def)
qed

theorem boot_invalid_icp_witness:
  "\<exists>s'. BootEnd_on_post mem_boot (boot_request ''bad'' []) fresh_response mem_start = (Inl TypeError, s') \<and>
     fst (BootEnd_on_post mem_boot (boot_request ''bad'' []) fresh_response s') =
       Inl (HTTPError 409 ''agent for controller C already exists'')"
proof -
  from mem_created obtain a s2 where c: "Agency_create mem_env ''C'' None mem_start = (Inr a, s2)" by blast
  have "bo_makeSignify mem_boot (ag_hby a) ''C'' (JObj [(''i'', JStr ''C'')]) ''bad'' (ay_world s2) =
      (Inl (ValidationError ''bad''), ay_world s2)" by (simp add: mem_boot_def)
  moreover have "isException (ValidationError ''bad'')" by (simp add: isException_def)
  moreover have "\<forall>h nm w. fst (op_deleteHab (bo_agency mem_boot) h nm w) = Inr ()"
    "\<forall>db h w. fst (op_close (bo_agency mem_boot) db h w) = Inr ()" by (simp_all add: mem_boot_def mem_env_def)
  moreover have "op_agnt_rem (bo_agency mem_boot) ''C'' (ay_world s2) = (Inl TypeError, ay_world s2)"
    by (simp add: mem_boot_def mem_env_def)
  ultimately show ?thesis
    using boot_invalid_icp [OF mem_boot_creates [OF c]] by simp
qed

end
