(* ===== verification/AgentEnds.thy ===== *)
theory AgentEnds
  imports Doers Longrunning
begin

text \<open>
  The agent's own endpoints in \<open>app/agenting.py\<close>: key states and events of an identifier, OOBI
  resolution and OOBIs of an identifier, queries, configuration, and the health of the boot server.
  They run on the queues of the agent (\<open>decks\<close>), because a query is put on one of them.
\<close>

record ohab =
  oh_pre :: string
  oh_wits :: "string list"

record 'w agent_env =
  ae_mon :: "'w mon_env"
  ae_nowIso :: "'w \<Rightarrow> string"
  ae_salt :: "('w, string) act"
  ae_state :: "'w \<Rightarrow> json \<Rightarrow> json option"
  ae_fel :: "'w \<Rightarrow> string \<Rightarrow> string list"
  ae_evt :: "'w \<Rightarrow> string \<Rightarrow> string \<Rightarrow> (json \<times> string) option"
  ae_pinOobi :: "json \<Rightarrow> json \<Rightarrow> ('w, unit) act"
  ae_habByName :: "'w \<Rightarrow> string \<Rightarrow> ohab option"
  ae_fetchUrls :: "'w \<Rightarrow> string \<Rightarrow> string \<Rightarrow> string \<Rightarrow> (string \<times> string) list"
  ae_fetchRoleUrls :: "'w \<Rightarrow> string \<Rightarrow> string \<Rightarrow> (string \<times> (string \<times> (string \<times> string) list) list) list"
  ae_resetKeyState :: "json \<Rightarrow> ('w, unit) act"
  ae_config :: "'w \<Rightarrow> json"

definition HealthEnd_on_get :: "'w agent_env \<Rightarrow> response \<Rightarrow> ('w, response) act" where
  "HealthEnd_on_get env resp =
     bindA (getA (ae_nowIso env)) (\<lambda>now.
     retA (resp\<lparr>rs_status := 200, rs_data := Some (JObj [(''message'', JStr (''Health is okay. Time is '' @ now))])\<rparr>))"

text \<open>The query parameter \<open>pre\<close> is one value or a list of values; identifiers that are not known are left out.\<close>

definition known_states :: "'w agent_env \<Rightarrow> 'w \<Rightarrow> json list \<Rightarrow> json list" where
  "known_states env w pres = List.map_filter (ae_state env w) pres"

definition KeyStateCollectionEnd_on_get :: "'w agent_env \<Rightarrow> request \<Rightarrow> response \<Rightarrow> ('w, response) act" where
  "KeyStateCollectionEnd_on_get env req rep =
     (case dict_get (rq_params req) ''pre'' of
        None \<Rightarrow> raiseA (HTTPError 400 ''required parameter 'pre' missing'')
      | Some pre \<Rightarrow>
          bindA (retA (case pre of JArr xs \<Rightarrow> xs | x \<Rightarrow> [x])) (\<lambda>pres.
          bindA (getA (\<lambda>w. known_states env w pres)) (\<lambda>states.
          retA (rep\<lparr>rs_status := 200, rs_data := Some (JArr states)\<rparr>))))"

definition event_entry :: "'w agent_env \<Rightarrow> string \<Rightarrow> string \<Rightarrow> ('w, json) act" where
  "event_entry env pre dig =
     bindA (getA (\<lambda>w. ae_evt env w pre dig)) (\<lambda>msg.
     case msg of
       None \<Rightarrow> raiseA (HTTPError 500 (''Missing event for dig='' @ dig @ ''.''))
     | Some (ked, atc) \<Rightarrow> retA (JObj [(''ked'', ked), (''atc'', JStr atc)]))"

definition KeyEventCollectionEnd_on_get :: "'w agent_env \<Rightarrow> request \<Rightarrow> response \<Rightarrow> ('w, response) act" where
  "KeyEventCollectionEnd_on_get env req rep =
     (case dict_get (rq_params req) ''pre'' of
        None \<Rightarrow> raiseA (HTTPError 400 ''required parameter 'pre' missing'')
      | Some (JStr pre) \<Rightarrow>
          bindA (getA (\<lambda>w. ae_fel env w pre)) (\<lambda>digs.
          bindA (mapA (event_entry env pre) digs) (\<lambda>events.
          retA (rep\<lparr>rs_status := 200, rs_data := Some (JArr events)\<rparr>)))
      | Some _ \<Rightarrow> raiseA AttributeError)"

subsection \<open>OOBIs\<close>

text \<open>An operation that was submitted is answered with status 202 and its JSON.\<close>

definition accepted :: "response \<Rightarrow> operation option \<Rightarrow> ('s, response) act" where
  "accepted rep o' =
     (case o' of
        None \<Rightarrow> raiseA AttributeError
      | Some o' \<Rightarrow> retA (rep\<lparr>rs_status := 202, rs_data := Some (to_json o')\<rparr>))"

definition sent_200 :: "response \<Rightarrow> operation option \<Rightarrow> ('s, response) act" where
  "sent_200 rep o' =
     (case o' of
        None \<Rightarrow> raiseA AttributeError
      | Some o' \<Rightarrow> retA (rep\<lparr>rs_status := 200, rs_data := Some (to_json o')\<rparr>))"

definition OOBICollectionEnd_on_post :: "'w agent_env \<Rightarrow> request \<Rightarrow> response \<Rightarrow> ('w, response) act" where
  "OOBICollectionEnd_on_post env req rep =
     bindA (liftA (rq_media req)) (\<lambda>body.
     bindA (liftA (jin ''url'' body)) (\<lambda>url.
     if url then
       bindA (liftA (jitem body ''url'')) (\<lambda>oobi.
       bindA (getA (ae_nowIso env)) (\<lambda>now.
       bindA (liftA (jin ''oobialias'' body)) (\<lambda>has_alias.
       bindA (if has_alias then liftA (jitem body ''oobialias'') else retA JNull) (\<lambda>alias.
       seqA (ae_pinOobi env oobi (JObj [(''date'', JStr now), (''oobialias'', alias)]))
       (bindA (ae_salt env) (\<lambda>oid.
        bindA (Monitor_submit (ae_mon env) oid ''oobi'' (JObj [(''oobi'', oobi)])) (accepted rep)))))))
     else
       bindA (liftA (jin ''rpy'' body)) (\<lambda>rpy.
       raiseA (if rpy then HTTPError 501 ''`rpy` support not implemented yet''
               else HTTPError 400 ''invalid OOBI request body, either `rpy` or `url` is required''))))"

text \<open>
  \<open>urljoin\<close> of a URL with a scheme and a network location, which is what a location holds, and
  an absolute path: the path replaces everything after the network location.
\<close>

fun after_scheme :: "string \<Rightarrow> (string \<times> string) option" where
  "after_scheme [] = None"
| "after_scheme (c # cs) =
     (if startswith (c # cs) ''://'' then Some ([], drop 3 (c # cs))
      else map_option (\<lambda>(s, r). (c # s, r)) (after_scheme cs))"

definition urljoin :: "string \<Rightarrow> string \<Rightarrow> string" where
  "urljoin url path =
     (case after_scheme url of
        None \<Rightarrow> path
      | Some (scheme, rest) \<Rightarrow>
          lower scheme @ ''://'' @ takeWhile (\<lambda>c. c \<notin> set ''/?#'') rest @ path)"

definition pick_url :: "(string \<times> string) list \<Rightarrow> exn + string" where
  "pick_url urls =
     (case dict_get urls ''http'' of
        Some u \<Rightarrow> Inr u
      | None \<Rightarrow> (case dict_get urls ''https'' of Some u \<Rightarrow> Inr u | None \<Rightarrow> Inl (KeyError ''https'')))"

definition fetch_any :: "'w agent_env \<Rightarrow> string \<Rightarrow> string \<Rightarrow> ('w, (string \<times> string) list) act" where
  "fetch_any env pre eid =
     getA (\<lambda>w. let urls = ae_fetchUrls env w pre eid ''http'' in
               if urls \<noteq> [] then urls else ae_fetchUrls env w pre eid ''https'')"

definition witness_oobi :: "'w agent_env \<Rightarrow> ohab \<Rightarrow> string \<Rightarrow> ('w, string) act" where
  "witness_oobi env hab wit =
     bindA (fetch_any env (oh_pre hab) wit) (\<lambda>urls.
     seqA (guardA (urls \<noteq> []) (HTTPError 404 (''unable to query witness '' @ wit @ '', no http endpoint'')))
     (bindA (liftA (pick_url urls)) (\<lambda>url.
      retA (urljoin url (''/oobi/'' @ oh_pre hab @ ''/witness/'' @ wit)))))"

definition no_endpoint :: "ohab \<Rightarrow> exn" where
  "no_endpoint hab = HTTPError 404 (''unable to query controller '' @ oh_pre hab @ '', no http endpoint'')"

text \<open>
  When there is no URL with the scheme http, the lookup of the https ones is written
  \<open>hab.fetchRoleurls\<close>, which does not exist. The list is put into the result in the loop: without a
  participant in the role there is no list.
\<close>

definition OobiResourceEnd_on_get :: "'w agent_env \<Rightarrow> request \<Rightarrow> response \<Rightarrow> string \<Rightarrow> ('w, response) act" where
  "OobiResourceEnd_on_get env req rep alias =
     bindA (getA (\<lambda>w. ae_habByName env w alias)) (\<lambda>hab.
     case hab of
       None \<Rightarrow> raiseA (HTTPError 400 ''Invalid alias to generate OOBI'')
     | Some hab \<Rightarrow>
         bindA (case dict_get (rq_params req) ''role'' of None \<Rightarrow> raiseA (KeyError ''role'') | Some r \<Rightarrow> retA r) (\<lambda>role.
         if role = JStr ''witness'' then
           bindA (mapA (witness_oobi env hab) (oh_wits hab)) (\<lambda>oobis.
           retA (rep\<lparr>rs_status := 200, rs_data := Some (JObj [(''role'', role), (''oobis'', jstrs oobis)])\<rparr>))
         else if role = JStr ''controller'' then
           bindA (fetch_any env (oh_pre hab) (oh_pre hab)) (\<lambda>urls.
           seqA (guardA (urls \<noteq> []) (no_endpoint hab))
           (bindA (liftA (pick_url urls)) (\<lambda>url.
            retA (rep\<lparr>rs_status := 200, rs_data :=
              Some (JObj [(''role'', role), (''oobis'', jstrs [urljoin url (''/oobi/'' @ oh_pre hab @ ''/controller'')])])\<rparr>))))
         else if role = JStr ''agent'' then
           bindA (getA (\<lambda>w. ae_fetchRoleUrls env w (oh_pre hab) ''http'')) (\<lambda>roleUrls.
           seqA (guardA (roleUrls \<noteq> []) AttributeError)
           (case dict_get roleUrls ''agent'' of
              None \<Rightarrow> raiseA (KeyError ''agent'')
            | Some agents \<Rightarrow>
                bindA (mapA (\<lambda>(eid, urls). bindA (liftA (pick_url urls)) (\<lambda>url.
                         retA (urljoin url (''/oobi/'' @ oh_pre hab @ ''/agent/'' @ eid)))) agents) (\<lambda>oobis.
                retA (rep\<lparr>rs_status := 200, rs_data :=
                  Some (JObj ((''role'', role) # (if oobis = [] then [] else [(''oobis'', jstrs oobis)])))\<rparr>))))
         else retA (rep\<lparr>rs_status := 404\<rparr>)))"

subsection \<open>Queries and configuration\<close>

text \<open>
  The text an f-string makes of a value; only text and numbers are used in what follows, the
  text of other values is left to the argument \<open>show\<close> of the model.
\<close>

definition show_value :: "(json \<Rightarrow> string) \<Rightarrow> json \<Rightarrow> string" where
  "show_value show_other v = (case v of JStr s \<Rightarrow> s | JInt i \<Rightarrow> show_int i | _ \<Rightarrow> show_other v)"

definition QueryCollectionEnd_on_post ::
  "'w agent_env \<Rightarrow> (json \<Rightarrow> string) \<Rightarrow> request \<Rightarrow> response \<Rightarrow> ('w decks, response) act" where
  "QueryCollectionEnd_on_post env show_other req rep =
     bindA (liftA (rq_media req)) (\<lambda>body.
     bindA (liftA (getRequiredParam body ''pre'')) (\<lambda>pre.
     bindA (liftA (jin ''anchor'' body)) (\<lambda>anchor.
     bindA (liftA (jin ''sn'' body)) (\<lambda>sn.
     bindA (if anchor then
              bindA (liftA (jitem body ''anchor'')) (\<lambda>a.
              bindA (liftA (jitem a ''d'')) (\<lambda>d.
              retA (JObj [(''pre'', pre), (''anchor'', a)], show_value show_other pre @ ''.'' @ show_value show_other d)))
            else if sn then
              bindA (liftA (jitem body ''sn'')) (\<lambda>n.
              retA (JObj [(''pre'', pre), (''sn'', n)], show_value show_other pre @ ''.'' @ show_value show_other n))
            else
              seqA (dext (ae_resetKeyState env pre)) (retA (JObj [(''pre'', pre)], show_value show_other pre))) (\<lambda>(qry, oid).
     seqA (modA (\<lambda>s. s\<lparr>dk_queries := dk_queries s @ [qry]\<rparr>))
     (bindA (dext (Monitor_submit (ae_mon env) oid ''query'' qry)) (accepted rep)))))))"

definition ConfigResourceEnd_on_get :: "'w agent_env \<Rightarrow> response \<Rightarrow> ('w, response) act" where
  "ConfigResourceEnd_on_get env rep =
     bindA (getA (ae_config env)) (\<lambda>config.
     bindA (liftA (jin ''iurls'' config)) (\<lambda>has_iurls.
     bindA (if has_iurls then bindA (liftA (jitem config ''iurls'')) (\<lambda>x. retA [(''iurls'', x)]) else retA []) (\<lambda>subset.
     retA (rep\<lparr>rs_status := 200, rs_data := Some (JObj subset)\<rparr>))))"

subsection \<open>A query from the endpoint to the task\<close>

lemma query_enqueued:
  assumes "rq_media req = Inr (JObj body)" and "dict_get body ''pre'' = Some (JStr pre)"
    and "dict_get body ''anchor'' = None" and "dict_get body ''sn'' = Some n"
  shows "QueryCollectionEnd_on_post env show_other req rep s =
    bindA (dext (Monitor_submit (ae_mon env) (pre @ ''.'' @ show_value show_other n) ''query''
                   (JObj [(''pre'', JStr pre), (''sn'', n)]))) (accepted rep)
      (s\<lparr>dk_queries := dk_queries s @ [JObj [(''pre'', JStr pre), (''sn'', n)]]\<rparr>)"
  using assms by (simp add: QueryCollectionEnd_on_post_def show_value_def)

lemma keeps_accepted [wp]: "keeps P (accepted rep o')"
  by (cases o') (simp_all add: accepted_def keeps_retA keeps_raiseA)

lemma keeps_dext: "(\<And>s w. P s \<Longrightarrow> P (s\<lparr>dk_world := w\<rparr>)) \<Longrightarrow> keeps P (dext m)"
  by (simp add: keeps_def dext_run)

text \<open>
  A query for a sequence number goes from the endpoint to the querying task without being looked
  at. Whatever the endpoint answers, the query is on the queue; and at its turn the task starts a
  query for the number if the text is one, but raises \<open>ValueError\<close> if it is not, an exception that
  nothing in the agent catches. So one request with a malformed number ends the agent's tasks.
\<close>

theorem query_reaches_task:
  assumes "rq_media req = Inr (JObj body)" and "dict_get body ''pre'' = Some (JStr pre)"
    and "dict_get body ''anchor'' = None" and "dict_get body ''sn'' = Some (JStr n)"
    and "dk_queries s = []" and "QueryCollectionEnd_on_post env show_other req rep s = (r, s1)"
  shows "dk_queries s1 = [JObj [(''pre'', JStr pre), (''sn'', JStr n)]] \<and>
    Querier_recur tasks deliveries s1 =
      (case py_hex n of
         None \<Rightarrow> (Inl (ValueError ''invalid literal for int() with base 16''), s1\<lparr>dk_queries := []\<rparr>)
       | Some k \<Rightarrow> seqA (dext (de_seqNoQuerier tasks (JStr pre) k)) deliveries (s1\<lparr>dk_queries := []\<rparr>))"
proof -
  let ?q = "JObj [(''pre'', JStr pre), (''sn'', JStr n)]"
  let ?m = "bindA (dext (Monitor_submit (ae_mon env) (pre @ ''.'' @ n) ''query'' ?q)) (accepted rep)"
  have run: "?m (s\<lparr>dk_queries := [?q]\<rparr>) = (r, s1)"
    using query_enqueued [OF assms(1-4), of env show_other rep s] assms(5,6) by (simp add: show_value_def)
  have "keeps (\<lambda>s. dk_queries s = [?q]) ?m"
    by (intro wp keeps_dext) simp
  from keepsD [OF this _ run] have q: "dk_queries s1 = [?q]" by simp
  then show ?thesis
    by (simp add: Querier_recur_def split: option.splits)
qed

definition demo_agent :: "mem_ops agent_env" where
  "demo_agent =
     \<lparr>ae_mon = mem_mon, ae_nowIso = (\<lambda>_. ''now''), ae_salt = retA ''0A'', ae_state = (\<lambda>_ _. None),
      ae_fel = (\<lambda>_ _. []), ae_evt = (\<lambda>_ _ _. None), ae_pinOobi = (\<lambda>_ _. retA ()),
      ae_habByName = (\<lambda>_ _. None), ae_fetchUrls = (\<lambda>_ _ _ _. []), ae_fetchRoleUrls = (\<lambda>_ _ _. []),
      ae_resetKeyState = (\<lambda>_. retA ()), ae_config = (\<lambda>_. JNull)\<rparr>"

definition demo_query :: request where
  "demo_query =
     \<lparr>rq_method = ''POST'', rq_path = ''/queries'', rq_headers = [], rq_params = [],
      rq_media = Inr (JObj [(''pre'', JStr ''E5''), (''sn'', JStr ''zz'')]), rq_auth = None,
      rq_content_length = Some 0, rq_content_type = Some ''application/json'', rq_body = []\<rparr>"

theorem query_reaches_task_witness:
  "fst (Querier_recur idle_tasks (retA False)
     (snd (QueryCollectionEnd_on_post demo_agent (\<lambda>_. []) demo_query fresh_response (no_decks mem_store)))) =
     Inl (ValueError ''invalid literal for int() with base 16'')"
proof -
  obtain r s1 where run: "QueryCollectionEnd_on_post demo_agent (\<lambda>_. []) demo_query fresh_response (no_decks mem_store) = (r, s1)"
    by fastforce
  have "py_hex ''zz'' = None" by code_simp
  then show ?thesis
    using query_reaches_task [OF _ _ _ _ _ run, of "[(''pre'', JStr ''E5''), (''sn'', JStr ''zz'')]" "''E5''" "''zz''"
        idle_tasks "retA False"] run
    by (simp add: demo_query_def no_decks_def)
qed

end
