(* ===== verification/Identifiers.thy ===== *)
theory Identifiers
  imports Booting AgentEnds
begin

text \<open>
  The identifiers of an agent (\<open>app/aiding.py\<close>): creation with the parameters of their keys, events,
  renaming, the list and the record of one (\<open>info\<close>), and the methods of \<open>Agent\<close> that register the
  keys. They run on the queues of the agent: every accepted event goes on the queue of the task that
  completes it. The Habery, its \<open>Hab\<close> objects and the parsers of events, signatures and keys are
  arguments (\<open>aid_env\<close>).
\<close>

subsection \<open>Data\<close>

text \<open>A \<open>Hab\<close> object; \<open>OtherHab\<close> is one of another class, with the text of its type.\<close>

datatype hab =
    SignifyHab (hb_pre: string)
  | SignifyGroupHab (hb_pre: string) (hb_mhab: hab)
  | OtherHab (hb_pre: string) (hb_type: string)

text \<open>The key state \<open>hab.kever\<close>, with the indexes of the witness receipts of its last event.\<close>

record idkever =
  ik_pre :: string
  ik_sn :: int
  ik_delpre :: "string option"
  ik_wits :: "string list"
  ik_transferable :: bool
  ik_state :: json
  ik_windexes :: "int list"

record habord =
  ho_name :: string
  ho_data :: json

record 'w aid_env =
  ai_mon :: "'w mon_env"
  ai_rb :: "'w remote_keeper"
  ai_depth :: nat
  ai_aids :: "('w, string, string) suber"
  ai_caid :: string
  ai_names :: "('w, string \<times> string, string) suber"
  ai_habords :: "('w, string, habord) suber"
  ai_cntHabs :: "'w \<Rightarrow> int"
  ai_habs :: "'w \<Rightarrow> string \<Rightarrow> hab option"
  ai_habByName :: "'w \<Rightarrow> string \<Rightarrow> hab option"
  ai_name :: "'w \<Rightarrow> hab \<Rightarrow> string"
  ai_setName :: "hab \<Rightarrow> string \<Rightarrow> ('w, unit) act"
  ai_hkever :: "'w \<Rightarrow> hab \<Rightarrow> idkever option"
  ai_dts :: "'w \<Rightarrow> string \<Rightarrow> string option"
  ai_known :: "'w \<Rightarrow> json \<Rightarrow> exn + bool"
  ai_urls :: "'w \<Rightarrow> json \<Rightarrow> exn + bool"
  ai_serder :: "json \<Rightarrow> exn + serder"
  ai_verfers :: "serder \<Rightarrow> string list"
  ai_ndigers :: "serder \<Rightarrow> string list"
  ai_siger :: "json \<Rightarrow> exn + string"
  ai_verfer :: "json \<Rightarrow> exn + string"
  ai_diger :: "json \<Rightarrow> exn + string"
  ai_latest :: "'w \<Rightarrow> hab \<Rightarrow> string list \<Rightarrow> bool"
  ai_makeSignify :: "string \<Rightarrow> serder \<Rightarrow> string list \<Rightarrow> ('w, hab) act"
  ai_makeGroup :: "string \<Rightarrow> hab \<Rightarrow> json \<Rightarrow> json \<Rightarrow> serder \<Rightarrow> string list \<Rightarrow> ('w, hab) act"
  ai_deleteHab :: "string \<Rightarrow> ('w, bool) act"
  ai_rotate :: "hab \<Rightarrow> serder \<Rightarrow> string list \<Rightarrow> (json \<times> json) option \<Rightarrow> ('w, unit) act"
  ai_interact :: "hab \<Rightarrow> serder \<Rightarrow> string list \<Rightarrow> ('w, unit) act"
  ai_show :: "json \<Rightarrow> string"

definition readA :: "('w \<Rightarrow> exn + 'a) \<Rightarrow> ('w, 'a) act" where
  "readA f = bindA (getA f) liftA"

lemma readA_run [simp]: "readA f w = (f w, w)"
  by (simp add: readA_def)

lemma keeps_readA [wp]: "keeps P (readA f)"
  unfolding readA_def by (intro wp)

text \<open>A dictionary with text keys, asked for a value of the request: a list or an object is not hashable.\<close>

fun at_key :: "(string \<Rightarrow> 'a option) \<Rightarrow> json \<Rightarrow> exn + 'a option" where
  "at_key f (JStr s) = Inr (f s)"
| "at_key f (JArr _) = Inl TypeError"
| "at_key f (JObj _) = Inl TypeError"
| "at_key f _ = Inr None"

text \<open>
  \<open>f(name=.., **d)\<close>: the arguments given by name (\<open>taken\<close>), the required and the optional parameters,
  \<open>None\<close> for the latter when the function takes any. Every mismatch is a \<open>TypeError\<close>.
\<close>

fun kwargs :: "string list \<Rightarrow> string list \<Rightarrow> string list option \<Rightarrow> json \<Rightarrow> exn + (string \<times> json) list" where
  "kwargs taken req opt (JObj d) =
     (if list_all (\<lambda>(k, _). k \<notin> set taken) d \<and> list_all (\<lambda>k. dict_get d k \<noteq> None) req \<and>
         (case opt of None \<Rightarrow> True | Some opt \<Rightarrow> list_all (\<lambda>(k, _). k \<in> set req \<union> set opt) d)
      then Inr d else Inl TypeError)"
| "kwargs taken req opt _ = Inl TypeError"

subsection \<open>Registering keys (\<open>Agent\<close>)\<close>

definition salty_prm_of :: "(string \<times> json) list \<Rightarrow> salty_prm" where
  "salty_prm_of d =
     \<lparr>sp_sxlt = get_default d ''sxlt'' JNull, sp_pidx = get_default d ''pidx'' (JInt 0),
      sp_kidx = get_default d ''kidx'' (JInt 0), sp_stem = get_default d ''stem'' (JStr []),
      sp_tier = get_default d ''tier'' (JStr ''low''), sp_dcode = get_default d ''dcode'' (JStr ''E''),
      sp_icodes = get_default d ''icodes'' JNull, sp_ncodes = get_default d ''ncodes'' JNull,
      sp_transferable = get_default d ''transferable'' (JBool False)\<rparr>"

definition Agent_inceptSalty :: "'w aid_env \<Rightarrow> string \<Rightarrow> json \<Rightarrow> ('w, unit) act" where
  "Agent_inceptSalty env pre salt =
     bindA (liftA (kwargs [''self'', ''pre''] [''icodes'', ''ncodes'', ''sxlt'']
       (Some [''dcode'', ''pidx'', ''kidx'', ''stem'', ''tier'', ''transferable'']) salt)) (\<lambda>d.
     seqA (SaltyManager_incept (ai_rb env) pre (salty_prm_of d))
       (incept_aid (ai_aids env) (ai_caid env) pre))"

definition Agent_inceptRandy ::
  "'w aid_env \<Rightarrow> string \<Rightarrow> string list \<Rightarrow> string list \<Rightarrow> json \<Rightarrow> ('w, unit) act" where
  "Agent_inceptRandy env pre verfers digers rand =
     bindA (liftA (kwargs [''self'', ''pre'', ''verfers'', ''digers''] [''prxs'', ''nxts'', ''transferable''] (Some []) rand)) (\<lambda>d.
     seqA (RandyManager_incept (ai_rb env) pre verfers digers (get_default d ''prxs'' JNull) (get_default d ''nxts'' JNull))
       (incept_aid (ai_aids env) (ai_caid env) pre))"

definition Agent_inceptGroup ::
  "'w aid_env \<Rightarrow> string \<Rightarrow> string \<Rightarrow> string list \<Rightarrow> string list \<Rightarrow> ('w, unit) act" where
  "Agent_inceptGroup env pre mpre verfers digers =
     seqA (GroupManager_incept (ai_rb env) pre mpre verfers digers)
       (incept_aid (ai_aids env) (ai_caid env) pre)"

definition Agent_inceptExtern :: "'w aid_env \<Rightarrow> string \<Rightarrow> json \<Rightarrow> ('w, unit) act" where
  "Agent_inceptExtern env pre extern =
     bindA (liftA (kwargs [''self'', ''pre'', ''verfers'', ''digers''] [] None extern)) (\<lambda>_.
     seqA ExternKeeper_incept (incept_aid (ai_aids env) (ai_caid env) pre))"

subsection \<open>The record of an identifier\<close>

definition dict_update :: "(string \<times> json) list \<Rightarrow> (string \<times> json) list \<Rightarrow> (string \<times> json) list" where
  "dict_update d d' = foldl (\<lambda>d (k, v). dict_set d k v) d d'"

text \<open>\<open>rm.get(pre=hab.pre).params(pre=hab.pre)\<close>, added to the name and the prefix.\<close>

definition info_params :: "'w aid_env \<Rightarrow> hab \<Rightarrow> ('w, (string \<times> json) list) act" where
  "info_params env hab =
     bindA (getA (\<lambda>w. ai_name env w hab)) (\<lambda>name.
     bindA (RemoteManager_params (ai_depth env) (ai_rb env) (hb_pre hab)) (\<lambda>prms.
     retA (dict_update [(''name'', JStr name), (''prefix'', JStr (hb_pre hab))]
             (case prms of JObj d \<Rightarrow> d | _ \<Rightarrow> []))))"

definition info_state :: "'w aid_env \<Rightarrow> bool \<Rightarrow> hab \<Rightarrow> (string \<times> json) list \<Rightarrow> ('w, json) act" where
  "info_state env full hab data =
     bindA (getA (\<lambda>w. ai_dts env w (hb_pre hab))) (\<lambda>dts.
     case dts of
       None \<Rightarrow> raiseA TypeError
     | Some dts \<Rightarrow>
         bindA (getA (\<lambda>w. ai_hkever env w hab)) (\<lambda>kever.
         retA (JObj (dict_set data ''icp_dt'' (JStr dts) @
           (case kever of
              Some kv \<Rightarrow>
                if full then [(''transferable'', JBool (ik_transferable kv)), (''state'', ik_state kv),
                              (''windexes'', JArr (map JInt (ik_windexes kv)))]
                else []
            | None \<Rightarrow> [])))))"

definition set_mhab :: "(string \<times> json) list \<Rightarrow> json \<Rightarrow> exn + (string \<times> json) list" where
  "set_mhab data m =
     (case dict_get data ''group'' of
        None \<Rightarrow> Inl (KeyError ''group'')
      | Some (JObj g) \<Rightarrow> Inr (dict_set data ''group'' (JObj (dict_set g ''mhab'' m)))
      | Some _ \<Rightarrow> Inl TypeError)"

fun info :: "'w aid_env \<Rightarrow> bool \<Rightarrow> hab \<Rightarrow> ('w, json) act" where
  "info env full (OtherHab pre ty) =
     raiseA (ConfigurationError (''agent only allows SignifyHab instances, '' @ ty))"
| "info env full (SignifyHab pre) =
     bindA (info_params env (SignifyHab pre)) (info_state env full (SignifyHab pre))"
| "info env full (SignifyGroupHab pre mhab) =
     bindA (info_params env (SignifyGroupHab pre mhab)) (\<lambda>data.
     bindA (info env full mhab) (\<lambda>m.
     bindA (liftA (set_mhab data m)) (info_state env full (SignifyGroupHab pre mhab))))"

subsection \<open>The list of identifiers\<close>

text \<open>
  \<open>page_loop\<close> is the loop over what is left of \<open>db.names\<close> after the first \<open>start\<close> entries: the agent's
  own entries are passed over, and the list ends when it holds as many records as the range asks for.
\<close>

definition entry_info :: "'w aid_env \<Rightarrow> string \<Rightarrow> ('w, json) act" where
  "entry_info env pre =
     bindA (getA (\<lambda>w. ai_habs env w pre)) (\<lambda>hab.
     case hab of None \<Rightarrow> raiseA (KeyError pre) | Some hab \<Rightarrow> info env False hab)"

fun page_loop ::
  "'w aid_env \<Rightarrow> int \<Rightarrow> int \<Rightarrow> ((string \<times> string) \<times> string) list \<Rightarrow> json list \<Rightarrow> ('w, json list) act" where
  "page_loop env start stop [] res = retA res"
| "page_loop env start stop (((ns, name), pre) # it) res =
     (if ns = ''agent'' then page_loop env start stop it res
      else
        bindA (entry_info env pre) (\<lambda>data.
        if stop \<noteq> -1 \<and> int (length (res @ [data])) = (stop - start) + 1 then retA (res @ [data])
        else page_loop env start stop it (res @ [data])))"

definition page_range :: "request \<Rightarrow> int \<times> int" where
  "page_range req =
     (case dict_get (rq_headers req) ''RANGE'' of
        None \<Rightarrow> (0, 9)
      | Some rng \<Rightarrow> parseRangeHeader rng ''aids'' 0 9)"

definition content_range :: "int \<Rightarrow> nat \<Rightarrow> int \<Rightarrow> string" where
  "content_range start n count =
     ''aids '' @ show_int start @ ''-'' @ show_int (if 0 < n then start + (int n - 1) else 0) @ ''/'' @ show_int (count - 1)"

definition IdentifierCollectionEnd_on_get :: "'w aid_env \<Rightarrow> request \<Rightarrow> response \<Rightarrow> ('w, response) act" where
  "IdentifierCollectionEnd_on_get env req rep =
     (case page_range req of
        (start, stop) \<Rightarrow>
          bindA (getA (ai_cntHabs env)) (\<lambda>count.
          bindA (itemsS (ai_names env)) (\<lambda>it.
          bindA (page_loop env start stop (drop (nat start) it) []) (\<lambda>res.
          retA (set_header ''Content-Range'' (content_range start (length res) count)
                 (set_header ''Accept-Ranges'' ''aids''
                   (rep\<lparr>rs_status := (if dict_get (rq_headers req) ''RANGE'' = None then 200 else 206),
                        rs_data := Some (JArr res)\<rparr>)))))))"

subsection \<open>Creation\<close>

definition check_witness :: "'w aid_env \<Rightarrow> json \<Rightarrow> ('w, unit) act" where
  "check_witness env wit =
     bindA (readA (\<lambda>w. ai_urls env w wit)) (\<lambda>urls.
     bindA (if urls then retA True else readA (\<lambda>w. ai_known env w wit)) (\<lambda>ok.
     guardA ok (HTTPError 400 (''unknown witness '' @ show_value (ai_show env) wit))))"

definition check_witnesses :: "'w aid_env \<Rightarrow> json \<Rightarrow> ('w, unit) act" where
  "check_witnesses env wits = bindA (liftA (jiter wits)) (\<lambda>wits. forA wits (check_witness env))"

definition check_delegator :: "'w aid_env \<Rightarrow> json \<Rightarrow> ('w, unit) act" where
  "check_delegator env icp =
     bindA (liftA (jin ''di'' icp)) (\<lambda>di.
     whenA di
       (bindA (liftA (jitem icp ''di'')) (\<lambda>di.
        bindA (readA (\<lambda>w. ai_known env w di)) (\<lambda>ok.
        guardA ok (HTTPError 400 (''unknown delegator '' @ show_value (ai_show env) di))))))"

text \<open>\<open>except ValueError\<close> around the registration of the keys: the new identifier is deleted again.\<close>

definition or_delete :: "'w aid_env \<Rightarrow> string \<Rightarrow> ('w, unit) act \<Rightarrow> ('w, unit) act" where
  "or_delete env name m =
     catchA m (\<lambda>e.
       if isValueError e
       then Some (bindA (ai_deleteHab env name) (\<lambda>_. raiseA (HTTPError 500 (exn_msg e))))
       else None)"

definition hkever :: "'w aid_env \<Rightarrow> hab \<Rightarrow> ('w, idkever) act" where
  "hkever env hab =
     bindA (getA (\<lambda>w. ai_hkever env w hab)) (\<lambda>kv.
     case kv of None \<Rightarrow> raiseA AttributeError | Some kv \<Rightarrow> retA kv)"

definition list_of :: "(json \<Rightarrow> exn + 'a) \<Rightarrow> json \<Rightarrow> ('w, 'a list) act" where
  "list_of f v = bindA (liftA (jiter v)) (mapA (\<lambda>x. liftA (f x)))"

definition make_group ::
  "'w aid_env \<Rightarrow> json \<Rightarrow> json \<Rightarrow> string \<Rightarrow> serder \<Rightarrow> string list \<Rightarrow> ('w, hab) act" where
  "make_group env body grp name serder sigers =
     bindA (require_in grp ''mhab'' ''body.group'') (\<lambda>m.
     bindA (liftA (jitem m ''prefix'')) (\<lambda>mpre.
     bindA (readA (\<lambda>w. at_key (ai_habs env w) mpre)) (\<lambda>mhab.
     case mhab of
       None \<Rightarrow> raiseA (HTTPError 400 (''signing member '' @ show_value (ai_show env) mpre @ '' not a local AID''))
     | Some mhab \<Rightarrow>
         bindA (require_in grp ''keys'' ''body.group'') (\<lambda>keys.
         bindA (list_of (ai_verfer env) keys) (\<lambda>verfers.
         bindA (hkever env mhab) (\<lambda>_.
         bindA (getA (\<lambda>w. ai_latest env w mhab verfers)) (\<lambda>ok.
         seqA (guardA ok (HTTPError 400 (''Member hab='' @ hb_pre mhab @ '' not a participant in event for this group hab.'')))
         (bindA (require_in grp ''ndigs'' ''body.group'') (\<lambda>ndigs.
          bindA (list_of (ai_diger env) ndigs) (\<lambda>digers.
          bindA (liftA (getRequiredParam body ''smids'')) (\<lambda>smids.
          bindA (liftA (getRequiredParam body ''rmids'')) (\<lambda>rmids.
          bindA (ai_makeGroup env name mhab smids rmids serder sigers) (\<lambda>hab.
          seqA (or_delete env name (Agent_inceptGroup env (se_pre serder) (hb_pre mhab) verfers digers))
            (retA hab))))))))))))))"

definition create_group ::
  "'w aid_env \<Rightarrow> json \<Rightarrow> json \<Rightarrow> string \<Rightarrow> serder \<Rightarrow> string list \<Rightarrow> response \<Rightarrow> ('w decks, response) act" where
  "create_group env body grp name serder sigers rep =
     bindA (dext (make_group env body grp name serder sigers)) (\<lambda>hab.
     seqA (modA (\<lambda>s. s\<lparr>dk_groups := dk_groups s @ [serder]\<rparr>))
     (bindA (dext (Monitor_submit (ai_mon env) (se_pre serder) ''group''
        (JObj [(''pre'', JStr (hb_pre hab)), (''sn'', JInt 0)]))) (accepted rep)))"

text \<open>
  The identifier for the three kinds of keys, and the queue and operation the event gets: delegated
  identifiers wait for the anchor of the delegator, witnessed ones for receipts.
\<close>

definition create_keys ::
  "'w aid_env \<Rightarrow> json \<Rightarrow> string \<Rightarrow> serder \<Rightarrow> string list \<Rightarrow> ('w, hab) act" where
  "create_keys env body name serder sigers =
     bindA (liftA (jin ''salty'' body)) (\<lambda>salty.
     bindA (liftA (jin ''randy'' body)) (\<lambda>randy.
     bindA (liftA (jin ''extern'' body)) (\<lambda>extern.
     if salty then
       bindA (liftA (jitem body ''salty'')) (\<lambda>salt.
       bindA (ai_makeSignify env name serder sigers) (\<lambda>hab.
       seqA (or_delete env name (Agent_inceptSalty env (se_pre serder) salt)) (retA hab)))
     else if randy then
       bindA (liftA (jitem body ''randy'')) (\<lambda>rand.
       bindA (ai_makeSignify env name serder sigers) (\<lambda>hab.
       seqA (or_delete env name
               (Agent_inceptRandy env (se_pre serder) (ai_verfers env serder) (ai_ndigers env serder) rand)) (retA hab)))
     else if extern then
       bindA (liftA (jitem body ''extern'')) (\<lambda>extern.
       bindA (ai_makeSignify env name serder sigers) (\<lambda>hab.
       seqA (or_delete env name (Agent_inceptExtern env (se_pre serder) extern)) (retA hab)))
     else raiseA (HTTPError 400 ''invalid request: one of group, rand or salt field required''))))"

definition sn_metadata :: "hab \<Rightarrow> int \<Rightarrow> json" where
  "sn_metadata hab sn = JObj [(''pre'', JStr (hb_pre hab)), (''sn'', JInt sn)]"

definition created :: "'w aid_env \<Rightarrow> hab \<Rightarrow> serder \<Rightarrow> response \<Rightarrow> ('w decks, response) act" where
  "created env hab serder rep =
     bindA (dext (hkever env hab)) (\<lambda>kv.
     if ik_delpre kv \<noteq> None then
       seqA (modA (\<lambda>s. s\<lparr>dk_anchors := dk_anchors s @ [sn_metadata hab 0]\<rparr>))
       (bindA (dext (Monitor_submit (ai_mon env) (ik_pre kv) ''delegation'' (sn_metadata hab 0))) (accepted rep))
     else if ik_wits kv \<noteq> [] then
       seqA (modA (\<lambda>s. s\<lparr>dk_witners := dk_witners s @ [serder]\<rparr>))
       (bindA (dext (Monitor_submit (ai_mon env) (ik_pre kv) ''witness'' (sn_metadata hab 0))) (accepted rep))
     else
       bindA (dext (Monitor_submit (ai_mon env) (ik_pre kv) ''done''
                      (JObj [(''pre'', JStr (hb_pre hab)), (''response'', se_ked serder)]))) (accepted rep))"

text \<open>What is checked before anything is made.\<close>

definition create_checks :: "'w aid_env \<Rightarrow> request \<Rightarrow> ('w, json \<times> string \<times> serder \<times> string list) act" where
  "create_checks env req =
     bindA (liftA (rq_media req)) (\<lambda>body.
     bindA (liftA (getRequiredParam body ''icp'')) (\<lambda>icp.
     bindA (liftA (getRequiredParam body ''name'')) (\<lambda>name.
     bindA (liftA (getRequiredParam body ''sigs'')) (\<lambda>sigs.
     bindA (liftA (ai_serder env icp)) (\<lambda>serder.
     bindA (list_of (ai_siger env) sigs) (\<lambda>sigers.
     bindA (liftA (jstr name)) (\<lambda>name.
     bindA (getA (\<lambda>w. ai_habByName env w name)) (\<lambda>old.
     seqA (guardA (old = None) (HTTPError 400 (''AID with name '' @ name @ '' already incepted'')))
     (bindA (liftA (jin ''b'' icp)) (\<lambda>b.
      seqA (whenA b (bindA (liftA (jitem icp ''b'')) (check_witnesses env)))
      (seqA (check_delegator env icp) (retA (body, name, serder, sigers)))))))))))))"

definition create_identifier :: "'w aid_env \<Rightarrow> request \<Rightarrow> response \<Rightarrow> ('w decks, response) act" where
  "create_identifier env req rep =
     bindA (dext (create_checks env req)) (\<lambda>(body, name, serder, sigers).
     bindA (liftA (jin ''group'' body)) (\<lambda>grp.
     if grp then
       bindA (liftA (jitem body ''group'')) (\<lambda>grp. create_group env body grp name serder sigers rep)
     else
       bindA (dext (create_keys env body name serder sigers)) (\<lambda>hab.
       created env hab serder rep)))"

text \<open>\<open>except (kering.AuthError, ValueError) as e: raise falcon.HTTPBadRequest(description=e.args[0])\<close>.\<close>

definition bad_request :: "('s, 'a) act \<Rightarrow> ('s, 'a) act" where
  "bad_request m =
     catchA m (\<lambda>e. if isAuthError e \<or> isValueError e then Some (raiseA (HTTPError 400 (exn_msg e))) else None)"

definition IdentifierCollectionEnd_on_post :: "'w aid_env \<Rightarrow> request \<Rightarrow> response \<Rightarrow> ('w decks, response) act" where
  "IdentifierCollectionEnd_on_post env req rep = bad_request (create_identifier env req rep)"

subsection \<open>One identifier: reading and renaming\<close>

definition find_hab :: "'w aid_env \<Rightarrow> string \<Rightarrow> 'w \<Rightarrow> hab option" where
  "find_hab env name w =
     (case ai_habs env w name of Some hab \<Rightarrow> Some hab | None \<Rightarrow> ai_habByName env w name)"

definition name_required :: "string \<Rightarrow> ('s, unit) act" where
  "name_required name = guardA (name \<noteq> []) (HTTPError 400 ''name is required'')"

definition IdentifierResourceEnd_on_get :: "'w aid_env \<Rightarrow> response \<Rightarrow> string \<Rightarrow> ('w, response) act" where
  "IdentifierResourceEnd_on_get env rep name =
     seqA (name_required name)
     (bindA (getA (find_hab env name)) (\<lambda>hab.
      case hab of
        None \<Rightarrow> raiseA (HTTPError 404 (name @ '' is not a valid identifier name or prefix''))
      | Some hab \<Rightarrow>
          bindA (info env True hab) (\<lambda>data.
          retA (rep\<lparr>rs_status := 200, rs_data := Some data\<rparr>))))"

definition rename_hab :: "'w aid_env \<Rightarrow> hab \<Rightarrow> string \<Rightarrow> ('w, unit) act" where
  "rename_hab env hab newName =
     bindA (getS (ai_habords env) (hb_pre hab)) (\<lambda>habord.
     case habord of
       None \<Rightarrow> raiseA AttributeError
     | Some habord \<Rightarrow>
         bindA (pinS (ai_habords env) (hb_pre hab) (habord\<lparr>ho_name := newName\<rparr>)) (\<lambda>_.
         bindA (pinS (ai_names env) ([], newName) (hb_pre hab)) (\<lambda>_.
         bindA (remS (ai_names env) ([], ho_name habord)) (\<lambda>_.
         ai_setName env hab newName))))"

definition IdentifierResourceEnd_on_put :: "'w aid_env \<Rightarrow> request \<Rightarrow> response \<Rightarrow> string \<Rightarrow> ('w, response) act" where
  "IdentifierResourceEnd_on_put env req rep name =
     seqA (name_required name)
     (bindA (liftA (rq_media req)) (\<lambda>body.
      bindA (liftA (jget body ''name'')) (\<lambda>newName.
      seqA (guardA (jtrue newName) (HTTPError 400 ''new name is required''))
      (bindA (liftA (jstr newName)) (\<lambda>newName.
       bindA (getA (\<lambda>w. ai_habByName env w newName)) (\<lambda>old.
       seqA (guardA (old = None) (HTTPError 400 (''AID with name '' @ newName @ '' already incepted'')))
       (bindA (getA (find_hab env name)) (\<lambda>hab.
        case hab of
          None \<Rightarrow> raiseA (HTTPError 404 (''No AID with name or prefix '' @ name @ '' found''))
        | Some hab \<Rightarrow>
            seqA (rename_hab env hab newName)
            (bindA (getA (\<lambda>w. ai_habByName env w newName)) (\<lambda>hab.
             case hab of
               None \<Rightarrow> raiseA AttributeError
             | Some hab \<Rightarrow>
                 bindA (info env True hab) (\<lambda>data.
                 retA (rep\<lparr>rs_status := 200, rs_data := Some data\<rparr>))))))))))))"

subsection \<open>Events of an identifier\<close>

definition no_hab :: "string \<Rightarrow> exn" where
  "no_hab name = HTTPError 404 (''No AID with name or prefix '' @ name @ '' found'')"

definition some_hab :: "(string \<Rightarrow> 'w \<Rightarrow> hab option) \<Rightarrow> string \<Rightarrow> exn \<Rightarrow> ('w, hab) act" where
  "some_hab f name e =
     bindA (getA (f name)) (\<lambda>hab. case hab of None \<Rightarrow> raiseA e | Some hab \<Rightarrow> retA hab)"

text \<open>The signatures: an absent or empty field is refused with the title \<open>invalid rotation\<close> or \<open>invalid interaction\<close>.\<close>

definition event_sigers :: "'w aid_env \<Rightarrow> json \<Rightarrow> string \<Rightarrow> ('w, string list) act" where
  "event_sigers env body title =
     bindA (liftA (jget body ''sigs'')) (\<lambda>sigs.
     seqA (guardA (sigs \<noteq> JNull) (HTTPError 400 title))
     (bindA (liftA (jiter sigs)) (\<lambda>xs.
      seqA (guardA (xs \<noteq> []) (HTTPError 400 title)) (list_of (ai_siger env) sigs))))"

definition Salty_rotate_kwargs :: "json \<Rightarrow> exn + (string \<times> json) list" where
  "Salty_rotate_kwargs = kwargs [''self'', ''pre'']
     [''ncodes'', ''pidx'', ''kidx'', ''stem'', ''sxlt'', ''icodes'', ''tier'', ''transferable''] (Some [''dcode''])"

definition Randy_rotate_kwargs :: "json \<Rightarrow> exn + (string \<times> json) list" where
  "Randy_rotate_kwargs = kwargs [''self'', ''pre'', ''verfers'', ''digers'']
     [''prxs'', ''nxts'', ''transferable''] (Some [])"

text \<open>
  The rotation with the new parameters of the keys. Only the salty branch catches a \<open>ValueError\<close>, and
  it deletes the identifier by the name in the path.
\<close>

definition rotate_salty ::
  "'w aid_env \<Rightarrow> string \<Rightarrow> hab \<Rightarrow> serder \<Rightarrow> string list \<Rightarrow> json \<Rightarrow> ('w, unit) act" where
  "rotate_salty env name hab serder sigers body =
     seqA (ai_rotate env hab serder sigers None)
     (bindA (liftA (jitem body ''salty'')) (\<lambda>salt.
      or_delete env name
        (bindA (liftA (Salty_rotate_kwargs salt)) (\<lambda>d.
         SaltyManager_rotate (ai_rb env) (se_pre serder) (salty_prm_of d)))))"

definition rotate_randy ::
  "'w aid_env \<Rightarrow> hab \<Rightarrow> serder \<Rightarrow> string list \<Rightarrow> json \<Rightarrow> ('w, unit) act" where
  "rotate_randy env hab serder sigers body =
     seqA (ai_rotate env hab serder sigers None)
     (bindA (liftA (jitem body ''randy'')) (\<lambda>rand.
      bindA (liftA (Randy_rotate_kwargs rand)) (\<lambda>d.
      RandyManager_rotate (ai_rb env) (se_pre serder) (ai_verfers env serder) (ai_ndigers env serder)
        (get_default d ''prxs'' JNull) (get_default d ''nxts'' JNull))))"

definition rotate_group ::
  "'w aid_env \<Rightarrow> hab \<Rightarrow> serder \<Rightarrow> string list \<Rightarrow> json \<Rightarrow> ('w, unit) act" where
  "rotate_group env hab serder sigers body =
     bindA (liftA (getRequiredParam body ''smids'')) (\<lambda>smids.
     bindA (liftA (getRequiredParam body ''rmids'')) (\<lambda>rmids.
     seqA (ai_rotate env hab serder sigers (Some (smids, rmids)))
       (GroupManager_rotate (ai_rb env) (se_pre serder) (ai_verfers env serder) (ai_ndigers env serder))))"

text \<open>The queue and the operation an event gets, by the kind of the identifier.\<close>

definition submit_group :: "'w aid_env \<Rightarrow> hab \<Rightarrow> serder \<Rightarrow> ('w decks, operation option) act" where
  "submit_group env hab serder =
     seqA (modA (\<lambda>s. s\<lparr>dk_groups := dk_groups s @ [serder]\<rparr>))
       (dext (Monitor_submit (ai_mon env) (se_said serder) ''group'' (sn_metadata hab (se_sn serder))))"

definition submit_witness :: "'w aid_env \<Rightarrow> hab \<Rightarrow> idkever \<Rightarrow> serder \<Rightarrow> ('w decks, operation option) act" where
  "submit_witness env hab kv serder =
     (if ik_wits kv \<noteq> [] then
        seqA (modA (\<lambda>s. s\<lparr>dk_witners := dk_witners s @ [serder]\<rparr>))
          (dext (Monitor_submit (ai_mon env) (se_said serder) ''witness'' (sn_metadata hab (se_sn serder))))
      else
        dext (Monitor_submit (ai_mon env) (se_said serder) ''done'' (JObj [(''response'', se_ked serder)])))"

definition rotate_identifier :: "'w aid_env \<Rightarrow> string \<Rightarrow> json \<Rightarrow> ('w decks, operation option) act" where
  "rotate_identifier env name body =
     bindA (dext (some_hab (find_hab env) name (no_hab name))) (\<lambda>hab.
     bindA (liftA (jget body ''rot'')) (\<lambda>rot.
     seqA (guardA (rot \<noteq> JNull) (HTTPError 400 ''invalid rotation''))
     (bindA (liftA (ai_serder env rot)) (\<lambda>serder.
      bindA (liftA (jin ''ba'' rot)) (\<lambda>ba.
      seqA (whenA ba (bindA (liftA (jitem rot ''ba'')) (\<lambda>wits. dext (check_witnesses env wits))))
      (bindA (dext (event_sigers env body ''invalid rotation'')) (\<lambda>sigers.
       bindA (liftA (jin ''salty'' body)) (\<lambda>salty.
       bindA (liftA (jin ''randy'' body)) (\<lambda>randy.
       bindA (liftA (jin ''group'' body)) (\<lambda>grp.
       if \<not> salty \<and> \<not> randy \<and> grp then
         seqA (dext (rotate_group env hab serder sigers body)) (submit_group env hab serder)
       else
         seqA (dext (if salty then rotate_salty env name hab serder sigers body
                     else if randy then rotate_randy env hab serder sigers body
                     else retA ()))
         (bindA (dext (hkever env hab)) (\<lambda>kv.
          if ik_delpre kv \<noteq> None then
            seqA (modA (\<lambda>s. s\<lparr>dk_anchors := dk_anchors s @
                    [JObj [(''alias'', JStr name), (''pre'', JStr (hb_pre hab)), (''sn'', JInt (se_sn serder))]]\<rparr>))
              (dext (Monitor_submit (ai_mon env) (se_said serder) ''delegation'' (sn_metadata hab (se_sn serder))))
          else submit_witness env hab kv serder))))))))))))"

definition interact_identifier :: "'w aid_env \<Rightarrow> string \<Rightarrow> json \<Rightarrow> ('w decks, operation option) act" where
  "interact_identifier env name body =
     bindA (dext (some_hab (find_hab env) name (HTTPError 404 (''No AID '' @ name @ '' found'')))) (\<lambda>hab.
     bindA (liftA (jget body ''ixn'')) (\<lambda>ixn.
     seqA (guardA (ixn \<noteq> JNull) (HTTPError 400 ''invalid interaction''))
     (bindA (liftA (ai_serder env ixn)) (\<lambda>serder.
      bindA (dext (event_sigers env body ''invalid interaction'')) (\<lambda>sigers.
      seqA (dext (ai_interact env hab serder sigers))
      (bindA (liftA (jin ''group'' body)) (\<lambda>grp.
       if grp then submit_group env hab serder
       else bindA (dext (hkever env hab)) (\<lambda>kv. submit_witness env hab kv serder))))))))"

definition submit_id :: "'w aid_env \<Rightarrow> string \<Rightarrow> json \<Rightarrow> ('w decks, operation option) act" where
  "submit_id env name body =
     bindA (dext (some_hab (\<lambda>n w. ai_habByName env w n) name (HTTPError 404 (''No AID '' @ name @ '' found'')))) (\<lambda>hab.
     bindA (liftA (jget body ''code'')) (\<lambda>code.
     bindA (dext (hkever env hab)) (\<lambda>kv.
     if ik_wits kv \<noteq> [] then
       seqA (modA (\<lambda>s. s\<lparr>dk_submits := dk_submits s @ [JObj [(''alias'', JStr name), (''code'', code)]]\<rparr>))
         (dext (Monitor_submit (ai_mon env) (ik_pre kv) ''submit''
            (JObj [(''alias'', JStr name), (''sn'', JInt (ik_sn kv))])))
     else raiseA (HTTPError 400 (''invalid identifier submitted, '' @ name @ '' has no witnesses'')))))"

definition identifier_event :: "'w aid_env \<Rightarrow> string \<Rightarrow> json \<Rightarrow> ('w decks, operation option) act" where
  "identifier_event env name body =
     bindA (liftA (jget body ''rot'')) (\<lambda>rot.
     if rot \<noteq> JNull then rotate_identifier env name body
     else
       bindA (liftA (jget body ''ixn'')) (\<lambda>ixn.
       if ixn \<noteq> JNull then interact_identifier env name body
       else
         bindA (liftA (jget body ''submit'')) (\<lambda>sub.
         if sub \<noteq> JNull then submit_id env name body
         else raiseA (HTTPError 400 ''invalid request''))))"

definition IdentifierResourceEnd_on_post ::
  "'w aid_env \<Rightarrow> request \<Rightarrow> response \<Rightarrow> string \<Rightarrow> ('w decks, response) act" where
  "IdentifierResourceEnd_on_post env req rep name =
     seqA (name_required name)
     (bad_request
        (bindA (liftA (rq_media req)) (\<lambda>body.
         bindA (identifier_event env name body) (\<lambda>op.
         case op of
           None \<Rightarrow> raiseA AttributeError
         | Some op \<Rightarrow> retA (rep\<lparr>rs_status := 200, rs_data := Some (to_json op)\<rparr>)))))"

subsection \<open>Reading writes nothing\<close>

lemma keeps_params [wp]: "keeps P (RemoteManager_params n rb pre)"
  unfolding RemoteManager_params_def by (intro wp keeper_params_keeps)

lemma keeps_info_parts [wp]: "keeps P (info_params env hab)" "keeps P (info_state env full hab data)"
  unfolding info_params_def info_state_def by (intro wp)+

lemma keeps_info [wp]: "keeps P (info env full hab)"
proof (induction hab)
  case (SignifyHab pre)
  show ?case unfolding info.simps by (intro wp)
next
  case (SignifyGroupHab pre mhab)
  show ?case unfolding info.simps by (intro wp SignifyGroupHab)
next
  case (OtherHab pre ty)
  show ?case unfolding info.simps by (intro wp)
qed

lemma entry_info_reads: "entry_info env pre w = (fst (entry_info env pre w), w)"
proof -
  have "keeps ((=) w) (entry_info env pre)"
    unfolding entry_info_def by (intro wp)
  then show ?thesis by (simp add: keeps_def prod_eq_iff)
qed

subsection \<open>The page of a list\<close>

definition own :: "(string \<times> string) \<times> string \<Rightarrow> bool" where
  "own e \<longleftrightarrow> fst (fst e) \<noteq> ''agent''"

definition on_page :: "int \<Rightarrow> int \<Rightarrow> nat \<Rightarrow> bool" where
  "on_page start stop n \<longleftrightarrow> stop = -1 \<or> stop < start \<or> int n \<le> stop - start"

lemma page_loop_own:
  "page_loop env start stop it res = page_loop env start stop (filter own it) res"
proof (induction env start stop it res rule: page_loop.induct)
  case (2 env start stop ns name pre it res)
  show ?case
  proof (cases "ns = ''agent''")
    case False
    let ?f = "\<lambda>it data. if stop \<noteq> -1 \<and> int (length (res @ [data])) = (stop - start) + 1
                then retA (res @ [data]) else page_loop env start stop it (res @ [data])"
    have "?f it data = ?f (filter own it) data" for data
      using 2(2) [OF False, of data] by (cases "stop \<noteq> -1 \<and> int (length (res @ [data])) = (stop - start) + 1") auto
    then have "?f it = ?f (filter own it)" by (rule ext)
    moreover have "own ((ns, name), pre)" using False by (simp add: own_def)
    ultimately show ?thesis using False by simp
  next
    case True
    then have "\<not> own ((ns, name), pre)" by (simp add: own_def)
    with 2(1) [OF True] True show ?thesis by simp
  qed
qed simp

text \<open>The loop stops at the record that fills the page, or fails at the first entry whose record fails.\<close>

lemma page_loop_fills:
  assumes "\<And>e. e \<in> set it \<Longrightarrow> own e \<and> fst (entry_info env (snd e) w) = Inr (r (snd e))"
    and "int (length res) \<le> stop - start" and "stop \<noteq> -1"
  shows "page_loop env start stop it res w =
    (Inr (res @ map (r \<circ> snd) (take (Suc (nat (stop - start)) - length res) it)), w)"
  using assms
proof (induction it arbitrary: res)
  case (Cons e it)
  obtain ns name pre where e: "e = ((ns, name), pre)" by (metis prod.exhaust)
  have info: "entry_info env pre w = (Inr (r pre), w)" and ns: "ns \<noteq> ''agent''"
    using Cons.prems(1) [of e] entry_info_reads [of env pre w] by (simp_all add: e own_def)
  show ?case
  proof (cases "int (length res) = stop - start")
    case True
    then have "Suc (nat (stop - start)) - length res = 1" by linarith
    with True Cons.prems(3) ns show ?thesis by (simp add: e bindA_Inr info)
  next
    case False
    with Cons.prems(2) have le: "int (length (res @ [r pre])) \<le> stop - start"
      and n: "Suc (nat (stop - start)) - length res = Suc (Suc (nat (stop - start)) - length (res @ [r pre]))"
      by auto
    have "page_loop env start stop (e # it) res w = page_loop env start stop it (res @ [r pre]) w"
      using False ns by (simp add: e bindA_Inr info)
    also have "\<dots> = (Inr ((res @ [r pre]) @ map (r \<circ> snd) (take (Suc (nat (stop - start)) - length (res @ [r pre])) it)), w)"
      using Cons.prems by (intro Cons.IH le) auto
    finally show ?thesis by (simp only: n take_Suc_Cons) (simp add: e)
  qed
qed simp

lemma page_loop_fails:
  assumes "\<And>e. e \<in> set it \<Longrightarrow> own e \<and> fst (entry_info env (snd e) w) = Inr (r (snd e))"
    and "own e" and "entry_info env (snd e) w = (Inl x, w)" and "on_page start stop (length res + length it)"
  shows "page_loop env start stop (it @ e # rest) res w = (Inl x, w)"
  using assms(1,4)
proof (induction it arbitrary: res)
  case Nil
  obtain ns name pre where e: "e = ((ns, name), pre)" by (metis prod.exhaust)
  with assms(2,3) show ?case by (simp add: bindA_Inl own_def)
next
  case (Cons d it)
  obtain ns name pre where d: "d = ((ns, name), pre)" by (metis prod.exhaust)
  have info: "entry_info env pre w = (Inr (r pre), w)" and ns: "ns \<noteq> ''agent''"
    using Cons.prems(1) [of d] entry_info_reads [of env pre w] by (simp_all add: d own_def)
  have more: "\<not> (stop \<noteq> -1 \<and> int (length (res @ [r pre])) = stop - start + 1)"
    using Cons.prems(2) by (auto simp: on_page_def)
  have "page_loop env start stop ((d # it) @ e # rest) res w = page_loop env start stop (it @ e # rest) (res @ [r pre]) w"
    using more ns by (auto simp: d bindA_Inr info)
  also have "\<dots> = (Inl x, w)"
    using Cons.prems by (intro Cons.IH) auto
  finally show ?case .
qed

lemma on_get_run:
  "IdentifierCollectionEnd_on_get env req rep w =
     bindA (page_loop env (fst (page_range req)) (snd (page_range req))
              (filter own (drop (nat (fst (page_range req))) (sitems (ai_names env) w))) [])
       (\<lambda>res. retA (set_header ''Content-Range'' (content_range (fst (page_range req)) (length res) (ai_cntHabs env w))
                 (set_header ''Accept-Ranges'' ''aids''
                   (rep\<lparr>rs_status := (if dict_get (rq_headers req) ''RANGE'' = None then 200 else 206),
                        rs_data := Some (JArr res)\<rparr>)))) w"
  by (simp add: IdentifierCollectionEnd_on_get_def split_beta itemsS_def page_loop_own [of env _ _ "drop n it" for n it])

lemma page_headers [simp]: "lower ''Content-Range'' = ''content-range''" "lower ''Accept-Ranges'' = ''accept-ranges''"
  by (simp_all add: lower_def lower_char_def char_of_eq_iff)

lemma list_of_texts:
  assumes "\<And>x. x \<in> set xs \<Longrightarrow> f (JStr x) = Inr x"
  shows "list_of f (jstrs xs) v = (Inr xs, v)"
proof -
  have "mapA (\<lambda>x. liftA (f x)) (map JStr xs) v = (Inr xs, v)"
    using assms by (induction xs) (simp_all add: bindA_def)
  then show ?thesis by (simp add: list_of_def)
qed

text \<open>
  A range \<open>aids=i-j\<close> of the list gives the records of the entries from \<open>i\<close> on, the agent's own
  entries left out, in order and at most \<open>j - i + 1\<close> of them, when all of these can be read; the
  header tells the range that was served, and nothing is written.
\<close>

theorem identifier_page:
  assumes "dict_get (rq_headers req) ''RANGE'' = Some (range_header ''aids'' i j)" and "i \<le> j"
    and "\<And>e. e \<in> set (sitems (ai_names env) w) \<Longrightarrow> own e \<Longrightarrow> fst (entry_info env (snd e) w) = Inr (r (snd e))"
  defines "page \<equiv> take (Suc (j - i)) (filter own (drop i (sitems (ai_names env) w)))"
  shows "\<exists>rep'. IdentifierCollectionEnd_on_get env req rep w = (Inr rep', w) \<and>
    rs_status rep' = 206 \<and> rs_data rep' = Some (JArr (map (r \<circ> snd) page)) \<and>
    dict_get (rs_headers rep') ''content-range'' = Some (content_range (int i) (length page) (ai_cntHabs env w))"
proof -
  have "range_name ''aids''" by (simp add: range_name_def is_digit_def)
  then have range: "page_range req = (int i, int j)"
    using assms(1) by (simp add: page_range_def parseRangeHeader_sent)
  have j: "nat (int j - int i) = j - i" by linarith
  have "page_loop env (int i) (int j) (filter own (drop i (sitems (ai_names env) w))) [] w =
      (Inr (map (r \<circ> snd) page), w)"
    using page_loop_fills [of "filter own (drop i (sitems (ai_names env) w))" env w r "[]" "int j" "int i"]
      assms(2,3) by (auto simp: page_def j dest: in_set_dropD)
  then show ?thesis
    using assms(1) by (simp add: on_get_run range bindA_Inr page_headers)
qed

subsection \<open>An identifier without parameters\<close>

lemma info_unregistered:
  assumes "\<not> registered (ai_rb env) pre w"
  shows "info env full (SignifyHab pre) w = (Inl (nonexistent pre), w)"
    and "info env full (SignifyGroupHab pre m) w = (Inl (nonexistent pre), w)"
  using assms by (simp_all add: info_params_def RemoteManager_params_def RemoteManager_get_def registered_def bindA_def)

text \<open>
  A request to create an identifier whose key parameters have a wrong name (or lack one) fails
  with \<open>TypeError\<close>, which no handler catches: the identifier is there, without parameters. From then
  on its name is taken, so that the request can not be made good, and every list of identifiers that
  comes to it fails, as does its own record.
\<close>

theorem misnamed_parameter_poisons:
  fixes env :: "'w aid_env"
  assumes body: "rq_media req = Inr (JObj body)" "dict_get body ''icp'' = Some (JObj icp)"
      "dict_get body ''name'' = Some (JStr name)" "dict_get body ''sigs'' = Some (jstrs sigs)"
      "dict_get body ''group'' = None" "dict_get body ''salty'' = Some salt"
    and salt: "kwargs [''self'', ''pre''] [''icodes'', ''ncodes'', ''sxlt'']
       (Some [''dcode'', ''pidx'', ''kidx'', ''stem'', ''tier'', ''transferable'']) salt = Inl TypeError"
    and event: "ai_serder env (JObj icp) = Inr serder" "\<And>x. ai_siger env (JStr x) = Inr x"
      "dict_get icp ''b'' = None" "dict_get icp ''di'' = None"
    and free: "ai_habByName env (dk_world s) name = None"
    and made: "ai_makeSignify env name serder sigs (dk_world s) = (Inr (SignifyHab pre), w)"
      "ai_habs env w pre = Some (SignifyHab pre)" "ai_habByName env w name = Some (SignifyHab pre)"
      "sitems (ai_names env) w = before @ (([], name), pre) # behind"
      "\<not> registered (ai_rb env) pre w" "pre \<noteq> []"
    and before: "\<And>e. e \<in> set before \<Longrightarrow> own e \<Longrightarrow> fst (entry_info env (snd e) w) = Inr (r (snd e))"
      "length (filter own before) \<le> 9"
    and plain: "dict_get (rq_headers req') ''RANGE'' = None"
  shows "IdentifierCollectionEnd_on_post env req rep s = (Inl TypeError, s\<lparr>dk_world := w\<rparr>) \<and>
    IdentifierCollectionEnd_on_post env req rep (s\<lparr>dk_world := w\<rparr>) =
      (Inl (HTTPError 400 (''AID with name '' @ name @ '' already incepted'')), s\<lparr>dk_world := w\<rparr>) \<and>
    IdentifierCollectionEnd_on_get env req' rep w = (Inl (nonexistent pre), w) \<and>
    IdentifierResourceEnd_on_get env rep pre w = (Inl (nonexistent pre), w)"
proof -
  have sigers: "list_of (ai_siger env) (jstrs sigs) v = (Inr sigs, v)" for v
    by (rule list_of_texts) (rule event(2))
  have bad: "Agent_inceptSalty env (se_pre serder) salt w = (Inl TypeError, w)"
    by (simp add: Agent_inceptSalty_def salt)
  then have kept: "or_delete env name (Agent_inceptSalty env (se_pre serder) salt) w = (Inl TypeError, w)"
    by (simp add: or_delete_def catchA_def)
  have entry: "entry_info env pre w = (Inl (nonexistent pre), w)"
    by (simp only: entry_info_def bindA_getA made(2) option.case info_unregistered [OF made(5)])
  have "page_loop env 0 9 (filter own before @ (([], name), pre) # filter own behind) [] w = (Inl (nonexistent pre), w)"
    using before entry by (intro page_loop_fails [where r = r]) (auto simp: own_def on_page_def)
  then have list: "IdentifierCollectionEnd_on_get env req' rep w = (Inl (nonexistent pre), w)"
    using plain by (simp add: on_get_run page_range_def made(4) own_def bindA_Inl)
  have deleg: "check_delegator env (JObj icp) v = (Inr (), v)" for v
    using event(4) by (simp add: check_delegator_def)
  have checks: "create_checks env req v =
      (if ai_habByName env v name = None then (Inr (JObj body, name, serder, sigs), v)
       else (Inl (HTTPError 400 (''AID with name '' @ name @ '' already incepted'')), v))" for v
    using body event by (simp add: create_checks_def bindA_def [of "list_of f v" for f v] sigers
        bindA_def [of "check_delegator e i" for e i] deleg bindA_guardA)
  have prefix: "create_identifier env req rep v =
      (if ai_habByName env (dk_world v) name = None
       then bindA (dext (create_keys env (JObj body) name serder sigs)) (\<lambda>hab. created env hab serder rep) v
       else (Inl (HTTPError 400 (''AID with name '' @ name @ '' already incepted'')), v))" for v
    using body by (simp add: create_identifier_def bindA_def [of "dext (create_checks e q)" for e q] dext_run checks)
  have keys: "create_keys env (JObj body) name serder sigs (dk_world s) = (Inl TypeError, w)"
    using body(6) by (simp add: create_keys_def bindA_def [of "ai_makeSignify e n d g" for e n d g] made(1)
        bindA_def [of "or_delete e n m" for e n m] kept)
  have first: "create_identifier env req rep s = (Inl TypeError, s\<lparr>dk_world := w\<rparr>)"
    by (simp add: prefix free bindA_def [of "dext m" for m] dext_run keys)
  have again: "create_identifier env req rep (s\<lparr>dk_world := w\<rparr>) =
      (Inl (HTTPError 400 (''AID with name '' @ name @ '' already incepted'')), s\<lparr>dk_world := w\<rparr>)"
    by (simp add: prefix made(3))
  have one: "IdentifierResourceEnd_on_get env rep pre w = (Inl (nonexistent pre), w)"
    using made(6) by (simp add: IdentifierResourceEnd_on_get_def name_required_def find_hab_def made(2)
        bindA_def [of "info e f h" for e f h] info_unregistered [OF made(5)] del: info.simps)
  show ?thesis
    using first again list one by (simp add: IdentifierCollectionEnd_on_post_def bad_request_def catchA_def)
qed

subsection \<open>An agent in memory\<close>

record mem_aid =
  ma_names :: "(string \<times> string, string) alist"
  ma_ords :: "(string, habord) alist"
  ma_habs :: "(string, hab) alist"
  ma_labels :: "(string \<times> string) list"
  ma_pres :: "(string, prefix_rec) alist"
  ma_salty :: "(string, salty_prm) alist"
  ma_ops :: "(string, op) alist"

text \<open>A monitor that knows no key states.\<close>

definition plain_mon :: "('w, string, op) suber \<Rightarrow> 'w mon_env" where
  "plain_mon ops =
     \<lparr>me_ops = ops, me_now = (\<lambda>_. 0), me_nowIso = (\<lambda>_. ''t0''), me_fromIso = (\<lambda>_. Inr 0), me_timeout = 3600,
      me_kever = (\<lambda>_ _. None), me_keLast = (\<lambda>_ _ _. None), me_wigs = (\<lambda>_ _ _. 0), me_evt = (\<lambda>_ _ _. None),
      me_roobi = (\<lambda>_ _. None), me_swain = (\<lambda>_ _. retA False), me_approve = (\<lambda>_ _. retA ()),
      me_counselor = (\<lambda>_ _. retA False), me_anchored = (\<lambda>_ _ _. False), me_knas = (\<lambda>_ _. []),
      me_ksns = (\<lambda>_ _. None), me_credential = (\<lambda>_. retA False), me_exchange = (\<lambda>_. retA False),
      me_ends = (\<lambda>_ _ _ _. None), me_eans = (\<lambda>_ _ _ _. None), me_rpys = (\<lambda>_ _. None),
      me_locs = (\<lambda>_ _ _. False), me_reps = (\<lambda>_ _. []), me_exns = (\<lambda>_ _. None), me_submits = (\<lambda>_. (0, 0))\<rparr>"

definition mem_aid_keeper :: "mem_aid remote_keeper" where
  "mem_aid_keeper = null_keeper\<lparr>rb_pres := mem_suber ma_pres (\<lambda>a w. w\<lparr>ma_pres := a\<rparr>),
     rb_sprms := mem_suber ma_salty (\<lambda>a w. w\<lparr>ma_salty := a\<rparr>)\<rparr>"

definition mem_make :: "string \<Rightarrow> serder \<Rightarrow> string list \<Rightarrow> (mem_aid, hab) act" where
  "mem_make name serder sigers w =
     (Inr (SignifyHab (se_pre serder)),
      w\<lparr>ma_names := DAList.update ([], name) (se_pre serder) (ma_names w),
        ma_ords := DAList.update (se_pre serder) \<lparr>ho_name = name, ho_data = JNull\<rparr> (ma_ords w),
        ma_habs := DAList.update (se_pre serder) (SignifyHab (se_pre serder)) (ma_habs w),
        ma_labels := (se_pre serder, name) # ma_labels w\<rparr>)"

text \<open>The names of the database; an identifier is found by name if it is among the loaded ones.\<close>

definition mem_byName :: "mem_aid \<Rightarrow> string \<Rightarrow> hab option" where
  "mem_byName w n = Option.bind (DAList.lookup (ma_names w) ([], n)) (DAList.lookup (ma_habs w))"

fun mem_serder :: "json \<Rightarrow> exn + serder" where
  "mem_serder (JObj d) =
     (case dict_get d ''i'' of
        Some (JStr p) \<Rightarrow> Inr \<lparr>se_pre = p, se_sn = 1, se_said = p, se_ked = JObj d\<rparr>
      | _ \<Rightarrow> Inl (ValueError ''invalid event''))"
| "mem_serder _ = Inl TypeError"

definition mem_kever :: "mem_aid \<Rightarrow> hab \<Rightarrow> idkever option" where
  "mem_kever w h = map_option (\<lambda>h. \<lparr>ik_pre = hb_pre h, ik_sn = 0, ik_delpre = None, ik_wits = [],
     ik_transferable = True, ik_state = JNull, ik_windexes = []\<rparr>) (DAList.lookup (ma_habs w) (hb_pre h))"

definition mem_delete :: "string \<Rightarrow> (mem_aid, bool) act" where
  "mem_delete name w =
     (case DAList.lookup (ma_names w) ([], name) of
        None \<Rightarrow> (Inr False, w)
      | Some p \<Rightarrow> (Inr True, w\<lparr>ma_names := DAList.delete ([], name) (ma_names w),
                               ma_ords := DAList.delete p (ma_ords w), ma_habs := DAList.delete p (ma_habs w)\<rparr>))"

definition mem_aid_env :: "mem_aid aid_env" where
  "mem_aid_env =
     \<lparr>ai_mon = plain_mon (mem_suber ma_ops (\<lambda>a w. w\<lparr>ma_ops := a\<rparr>)), ai_rb = mem_aid_keeper, ai_depth = 9,
      ai_aids = null_suber, ai_caid = ''EC'', ai_names = mem_suber ma_names (\<lambda>a w. w\<lparr>ma_names := a\<rparr>),
      ai_habords = mem_suber ma_ords (\<lambda>a w. w\<lparr>ma_ords := a\<rparr>), ai_cntHabs = (\<lambda>w. int (length (DAList.impl_of (ma_ords w)))),
      ai_habs = (\<lambda>w. DAList.lookup (ma_habs w)), ai_habByName = mem_byName,
      ai_name = (\<lambda>w h. case dict_get (ma_labels w) (hb_pre h) of None \<Rightarrow> [] | Some n \<Rightarrow> n),
      ai_setName = (\<lambda>h n. modA (\<lambda>w. w\<lparr>ma_labels := dict_set (ma_labels w) (hb_pre h) n\<rparr>)),
      ai_hkever = mem_kever, ai_dts = (\<lambda>_ _. Some ''2024''), ai_known = (\<lambda>_ _. Inr False), ai_urls = (\<lambda>_ _. Inr False),
      ai_serder = mem_serder, ai_verfers = (\<lambda>_. []), ai_ndigers = (\<lambda>_. []), ai_siger = jstr, ai_verfer = jstr,
      ai_diger = jstr, ai_latest = (\<lambda>_ _ _. True), ai_makeSignify = mem_make,
      ai_makeGroup = (\<lambda>name mhab smids rmids. mem_make name), ai_deleteHab = mem_delete,
      ai_rotate = (\<lambda>_ _ _ _. retA ()), ai_interact = (\<lambda>_ _ _. retA ()), ai_show = (\<lambda>_. [])\<rparr>"

definition mem_aid_start :: mem_aid where
  "mem_aid_start = \<lparr>ma_names = DAList.empty, ma_ords = DAList.empty, ma_habs = DAList.empty, ma_labels = [],
     ma_pres = DAList.empty, ma_salty = DAList.empty, ma_ops = DAList.empty\<rparr>"

definition json_request :: "json \<Rightarrow> request" where
  "json_request body = \<lparr>rq_method = ''POST'', rq_path = ''/identifiers'', rq_headers = [], rq_params = [],
     rq_media = Inr body, rq_auth = None, rq_content_length = Some 0, rq_content_type = Some ''application/json'', rq_body = []\<rparr>"

definition demo_icp :: "(string \<times> json) list" where
  "demo_icp = [(''i'', JStr ''E1'')]"

definition misnamed_body :: "(string \<times> json) list" where
  "misnamed_body = [(''icp'', JObj demo_icp), (''name'', JStr ''aid1''), (''sigs'', jstrs [''AA'']),
     (''salty'', JObj [(''sxlt'', JStr ''x''), (''icodes'', jstrs [''A'']), (''ncode'', jstrs [''A''])])]"

theorem misnamed_parameter_poisons_witness:
  "\<exists>w. IdentifierCollectionEnd_on_post mem_aid_env (json_request (JObj misnamed_body)) fresh_response (no_decks mem_aid_start) =
      (Inl TypeError, (no_decks mem_aid_start)\<lparr>dk_world := w\<rparr>) \<and>
    IdentifierCollectionEnd_on_get mem_aid_env (json_request JNull) fresh_response w = (Inl (nonexistent ''E1''), w)"
proof -
  let ?serder = "\<lparr>se_pre = ''E1'', se_sn = 1, se_said = ''E1'', se_ked = JObj demo_icp\<rparr>"
  let ?w = "snd (mem_make ''aid1'' ?serder [''AA''] mem_aid_start)"
  have made: "mem_make ''aid1'' ?serder [''AA''] mem_aid_start = (Inr (SignifyHab ''E1''), ?w)"
    by (simp add: mem_make_def)
  have items: "sitems (ai_names mem_aid_env) ?w = [] @ (([], ''aid1''), ''E1'') # []"
    by (simp add: mem_aid_env_def mem_suber_def mem_make_def mem_aid_start_def DAList.update.rep_eq DAList.empty.rep_eq)
  have free: "\<not> registered (ai_rb mem_aid_env) ''E1'' ?w"
    by (simp add: registered_def mem_aid_env_def mem_aid_keeper_def mem_make_def mem_aid_start_def)
  from misnamed_parameter_poisons [where env = mem_aid_env and req = "json_request (JObj misnamed_body)"
      and body = misnamed_body and icp = demo_icp and name = "''aid1''" and sigs = "[''AA'']" and serder = ?serder
      and s = "no_decks mem_aid_start" and pre = "''E1''" and w = ?w and before = "[]" and behind = "[]"
      and req' = "json_request JNull" and rep = fresh_response, OF _ _ _ _ _ _ _ _ _ _ _ _ _ _ _ items free]
  show ?thesis
    by (intro exI [of _ ?w])
      (simp add: mem_aid_env_def json_request_def misnamed_body_def demo_icp_def no_decks_def mem_byName_def mem_make_def
        mem_aid_start_def)
qed

definition page_start :: mem_aid where
  "page_start = mem_aid_start
     \<lparr>ma_names := DAList.update ([], ''a'') ''E1'' (DAList.update ([], ''b'') ''E2'' (DAList.update (''agent'', ''c'') ''EA'' DAList.empty)),
      ma_habs := DAList.update ''E1'' (SignifyHab ''E1'') (DAList.update ''E2'' (SignifyHab ''E2'') DAList.empty),
      ma_labels := [(''E1'', ''a''), (''E2'', ''b'')],
      ma_pres := DAList.update ''E1'' \<lparr>pp_pidx = JInt 0, pp_algo = ''salty''\<rparr>
        (DAList.update ''E2'' \<lparr>pp_pidx = JInt 1, pp_algo = ''salty''\<rparr> DAList.empty),
      ma_salty := DAList.update ''E1'' demo_salty (DAList.update ''E2'' demo_salty DAList.empty)\<rparr>"

definition demo_record :: "string \<Rightarrow> json" where
  "demo_record p = JObj [(''name'', JStr (if p = ''E1'' then ''a'' else ''b'')), (''prefix'', JStr p),
     (''salty'', asdict demo_salty), (''icp_dt'', JStr ''2024'')]"

lemma page_items: "sitems (ai_names mem_aid_env) page_start =
   [((''agent'', ''c''), ''EA''), (([], ''b''), ''E2''), (([], ''a''), ''E1'')]"
  by (simp add: mem_aid_env_def mem_suber_def page_start_def DAList.update.rep_eq DAList.empty.rep_eq)

lemma page_entries: "p \<in> {''E1'', ''E2''} \<Longrightarrow> fst (entry_info mem_aid_env p page_start) = Inr (demo_record p)"
  by (auto simp: entry_info_def info_params_def info_state_def RemoteManager_params_def RemoteManager_get_def
      SaltyManager_params_def check_algo_def has_algo_def keeper_of_algo_def mem_aid_env_def mem_aid_keeper_def
      mem_kever_def page_start_def dict_update_def demo_record_def)

theorem identifier_page_witness:
  "\<exists>rep'. IdentifierCollectionEnd_on_get mem_aid_env ((json_request JNull)\<lparr>rq_headers := [(''RANGE'', range_header ''aids'' 1 1)]\<rparr>)
       fresh_response page_start = (Inr rep', page_start) \<and>
     rs_data rep' = Some (JArr [demo_record ''E2''])"
proof -
  let ?req = "(json_request JNull)\<lparr>rq_headers := [(''RANGE'', range_header ''aids'' 1 1)]\<rparr>"
  have r: "dict_get (rq_headers ?req) ''RANGE'' = Some (range_header ''aids'' 1 1)" by simp
  have ok: "fst (entry_info mem_aid_env (snd e) page_start) = Inr (demo_record (snd e))"
    if "e \<in> set (sitems (ai_names mem_aid_env) page_start)" "own e" for e
    using that by (auto simp: page_items own_def intro!: page_entries)
  from identifier_page [OF r le_refl ok, of fresh_response] show ?thesis
    by (auto simp: page_items own_def)
qed

subsection \<open>Renaming\<close>

text \<open>
  What renaming relies on: the names and records of the Habery are databases of their own, an
  identifier is found by its name in them, and under its prefix among the loaded ones.
\<close>

definition hby_ok :: "'w aid_env \<Rightarrow> bool" where
  "hby_ok env \<longleftrightarrow>
     suber_ok (ai_names env) \<and> suber_ok (ai_habords env) \<and>
     frames (ai_habords env) (\<lambda>w. (sget (ai_names env) w, ai_habs env w)) \<and>
     frames (ai_names env) (\<lambda>w. (sget (ai_habords env) w, ai_habs env w)) \<and>
     (\<forall>hab n w. sget (ai_names env) (snd (ai_setName env hab n w)) = sget (ai_names env) w \<and>
                ai_habs env (snd (ai_setName env hab n w)) = ai_habs env w) \<and>
     (\<forall>w n. ai_habByName env w n = Option.bind (sget (ai_names env) w ([], n)) (ai_habs env w))"

lemma rename_hab_run:
  assumes "hby_ok env" and "rename_hab env hab new w = (Inr u, w')"
  obtains ho where "sget (ai_habords env) w (hb_pre hab) = Some ho" and "ai_habs env w' = ai_habs env w"
    and "sget (ai_names env) w' = ((sget (ai_names env) w)(([], new) \<mapsto> hb_pre hab))(([], ho_name ho) := None)"
proof -
  from assms(2) obtain ho where ho: "sget (ai_habords env) w (hb_pre hab) = Some ho"
    by (auto simp: rename_hab_def split: option.splits)
  let ?w1 = "snd (spin (ai_habords env) w (hb_pre hab) (ho\<lparr>ho_name := new\<rparr>))"
  let ?w2 = "snd (spin (ai_names env) ?w1 ([], new) (hb_pre hab))"
  let ?w3 = "snd (srem (ai_names env) ?w2 ([], ho_name ho))"
  have "ai_setName env hab new ?w3 = (Inr u, w')"
    using assms(2) ho by (simp add: rename_hab_def)
  then have w': "w' = snd (ai_setName env hab new ?w3)" by simp
  have ok: "suber_ok (ai_names env)" and named: "\<And>hab n w. sget (ai_names env) (snd (ai_setName env hab n w)) = sget (ai_names env) w"
      "\<And>hab n w. ai_habs env (snd (ai_setName env hab n w)) = ai_habs env w"
    and ords: "\<And>w k v. sget (ai_names env) (snd (spin (ai_habords env) w k v)) = sget (ai_names env) w"
      "\<And>w k v. ai_habs env (snd (spin (ai_habords env) w k v)) = ai_habs env w"
    and names: "\<And>w a b v. ai_habs env (snd (spin (ai_names env) w (a, b) v)) = ai_habs env w"
      "\<And>w a b. ai_habs env (snd (srem (ai_names env) w (a, b))) = ai_habs env w"
    using assms(1) by (simp_all add: hby_ok_def frames_def)
  have "sget (ai_names env) w' = sget (ai_names env) ?w3" and "ai_habs env w' = ai_habs env w"
    by (simp_all add: w' named ords names)
  moreover have "sget (ai_names env) ?w3 = ((sget (ai_names env) w)(([], new) \<mapsto> hb_pre hab))(([], ho_name ho) := None)"
    by (simp add: spin_ok [OF ok] srem_ok [OF ok] ords)
  ultimately show thesis using that ho by simp
qed

text \<open>
  C9. A rename that is answered moves the name: the identifier that was meant, by name or prefix, is
  found by the new name, which was free; its old name finds nothing any more; and every other name
  finds what it found before.
\<close>

theorem rename_moves_name:
  assumes "hby_ok env" and "rq_media req = Inr (JObj body)" and "dict_get body ''name'' = Some (JStr new)"
    and "IdentifierResourceEnd_on_put env req rep name w = (Inr rep', w')"
  shows "\<exists>hab old. find_hab env name w = Some hab \<and> ai_habByName env w new = None \<and> old \<noteq> new \<and>
    map_option ho_name (sget (ai_habords env) w (hb_pre hab)) = Some old \<and>
    ai_habByName env w' new = ai_habs env w (hb_pre hab) \<and> ai_habByName env w' new \<noteq> None \<and>
    ai_habByName env w' old = None \<and>
    (\<forall>n. n \<noteq> new \<longrightarrow> n \<noteq> old \<longrightarrow> ai_habByName env w' n = ai_habByName env w n)"
proof -
  from assms(4) have ne: "name \<noteq> []" and new: "new \<noteq> []" and free: "ai_habByName env w new = None"
    using assms(2,3) by (auto simp: IdentifierResourceEnd_on_put_def name_required_def bindA_guardA split: if_splits)
  with assms(2-4) obtain hab where hab: "find_hab env name w = Some hab"
    by (cases "find_hab env name w") (simp_all add: IdentifierResourceEnd_on_put_def name_required_def bindA_guardA)
  let ?reply = "\<lambda>data. retA (rep\<lparr>rs_status := 200, rs_data := Some data\<rparr>)"
  have "bindA (rename_hab env hab new) (\<lambda>_. bindA (getA (\<lambda>w. ai_habByName env w new)) (\<lambda>h.
      case h of None \<Rightarrow> raiseA AttributeError | Some h \<Rightarrow> bindA (info env True h) ?reply)) w = (Inr rep', w')"
    using assms(2-4) ne new free hab
    by (simp add: IdentifierResourceEnd_on_put_def name_required_def)
  then obtain u w1 where ren: "rename_hab env hab new w = (Inr u, w1)"
    and "(case ai_habByName env w1 new of None \<Rightarrow> raiseA AttributeError | Some h \<Rightarrow> bindA (info env True h) ?reply) w1 = (Inr rep', w')"
    by (elim bindA_eq_InrD) simp
  then obtain h' where h': "ai_habByName env w1 new = Some h'" and rest: "bindA (info env True h') ?reply w1 = (Inr rep', w')"
    by (cases "ai_habByName env w1 new") simp_all
  have "keeps ((=) w1) (bindA (info env True h') (\<lambda>data. retA (rep\<lparr>rs_status := 200, rs_data := Some data\<rparr>)))"
    by (intro wp)
  from keepsD [OF this refl rest] have w': "w' = w1" by simp
  from rename_hab_run [OF assms(1) ren] obtain ho where ho: "sget (ai_habords env) w (hb_pre hab) = Some ho"
    and habs: "ai_habs env w1 = ai_habs env w"
    and names: "sget (ai_names env) w1 = ((sget (ai_names env) w)(([], new) \<mapsto> hb_pre hab))(([], ho_name ho) := None)" .
  have by_name: "ai_habByName env v n = Option.bind (sget (ai_names env) v ([], n)) (ai_habs env v)" for v n
    using assms(1) by (simp add: hby_ok_def)
  have "ho_name ho \<noteq> new" using h' by (auto simp: by_name names)
  then show ?thesis
    using hab free ho h' by (intro exI [of _ hab] exI [of _ "ho_name ho"]) (simp add: w' by_name names habs)
qed

lemma mem_aid_ok: "hby_ok mem_aid_env"
  unfolding hby_ok_def
proof (intro conjI allI)
  show "suber_ok (ai_names mem_aid_env)" "suber_ok (ai_habords mem_aid_env)"
    by (simp_all add: mem_aid_env_def mem_suber_ok)
  show "frames (ai_habords mem_aid_env) (\<lambda>w. (sget (ai_names mem_aid_env) w, ai_habs mem_aid_env w))"
    "frames (ai_names mem_aid_env) (\<lambda>w. (sget (ai_habords mem_aid_env) w, ai_habs mem_aid_env w))"
    by (simp_all add: mem_aid_env_def) (rule mem_suber_frames, simp add: fun_eq_iff)+
qed (simp_all add: mem_aid_env_def mem_byName_def fun_eq_iff)

definition rename_start :: mem_aid where
  "rename_start = page_start\<lparr>ma_ords := DAList.update ''E1'' \<lparr>ho_name = ''a'', ho_data = JNull\<rparr> DAList.empty\<rparr>"

lemma rename_runs:
  "\<exists>rep' w'. IdentifierResourceEnd_on_put mem_aid_env (json_request (JObj [(''name'', JStr ''z'')])) fresh_response ''E1'' rename_start = (Inr rep', w')"
proof -
  obtain w1 where ren: "rename_hab mem_aid_env (SignifyHab ''E1'') ''z'' rename_start = (Inr (), w1)"
    and w1: "ma_pres w1 = ma_pres page_start" "ma_salty w1 = ma_salty page_start" "ma_habs w1 = ma_habs page_start"
      "ma_names w1 = DAList.delete ([], ''a'') (DAList.update ([], ''z'') ''E1'' (ma_names page_start))"
    by (simp add: rename_hab_def mem_aid_env_def rename_start_def mem_suber_def)
  have found: "ai_habByName mem_aid_env w1 ''z'' = Some (SignifyHab ''E1'')"
    by (simp add: mem_aid_env_def mem_byName_def w1 lookup_update page_start_def)
  have info: "\<exists>j. info mem_aid_env True (SignifyHab ''E1'') w1 = (Inr j, w1)"
    by (simp add: info_params_def info_state_def RemoteManager_params_def RemoteManager_get_def
      SaltyManager_params_def check_algo_def has_algo_def keeper_of_algo_def mem_aid_env_def mem_aid_keeper_def
      mem_kever_def w1 page_start_def)
  then obtain j where j: "info mem_aid_env True (SignifyHab ''E1'') w1 = (Inr j, w1)" by blast
  have "find_hab mem_aid_env ''E1'' rename_start = Some (SignifyHab ''E1'')" "ai_habByName mem_aid_env rename_start ''z'' = None"
    by (simp_all add: find_hab_def mem_aid_env_def mem_byName_def rename_start_def page_start_def)
  then show ?thesis
    using found by (simp add: IdentifierResourceEnd_on_put_def name_required_def json_request_def
        bindA_def [of "rename_hab e h n" for e h n] ren bindA_def [of "info e f h" for e f h] j del: info.simps)
qed

theorem rename_moves_name_witness:
  "\<exists>rep' w'. IdentifierResourceEnd_on_put mem_aid_env (json_request (JObj [(''name'', JStr ''z'')])) fresh_response ''E1'' rename_start = (Inr rep', w') \<and>
     ai_habByName mem_aid_env w' ''z'' = Some (SignifyHab ''E1'') \<and> ai_habByName mem_aid_env w' ''a'' = None \<and>
     ai_habByName mem_aid_env w' ''b'' = Some (SignifyHab ''E2'')"
proof -
  from rename_runs obtain rep' w' where run:
    "IdentifierResourceEnd_on_put mem_aid_env (json_request (JObj [(''name'', JStr ''z'')])) fresh_response ''E1'' rename_start = (Inr rep', w')"
    by blast
  have "find_hab mem_aid_env ''E1'' rename_start = Some (SignifyHab ''E1'')"
    "map_option ho_name (sget (ai_habords mem_aid_env) rename_start ''E1'') = Some ''a''"
    "ai_habs mem_aid_env rename_start ''E1'' = Some (SignifyHab ''E1'')"
    "ai_habByName mem_aid_env rename_start ''b'' = Some (SignifyHab ''E2'')"
    by (simp_all add: find_hab_def mem_aid_env_def mem_byName_def rename_start_def page_start_def)
  with rename_moves_name [OF mem_aid_ok _ _ run] run show ?thesis
    by (auto simp: json_request_def)
qed

subsection \<open>An accepted creation\<close>

lemma reads_only: "(\<And>P. keeps P m) \<Longrightarrow> m w = (r, w') \<Longrightarrow> w' = w"
  using keepsD [of "(=) w" m w r w'] by blast

lemma keeps_list_of [wp]: "keeps P (list_of f v)"
  unfolding list_of_def by (intro wp)

lemma keeps_checks [wp]: "keeps P (check_witnesses env wits)" "keeps P (check_delegator env icp)"
  unfolding check_witnesses_def check_witness_def check_delegator_def by (intro wp)+

lemma bad_request_Inr: "bad_request m s = (Inr x, s') \<longleftrightarrow> m s = (Inr x, s')"
  by (auto simp: bad_request_def catchA_def split: prod.splits sum.splits option.splits if_splits)

lemma dext_InrD: "dext m s = (r, s') \<Longrightarrow> \<exists>w. m (dk_world s) = (r, w) \<and> s' = s\<lparr>dk_world := w\<rparr>"
  by (auto simp: dext_run prod_eq_iff)

lemma dext_reads: "(\<And>P. keeps P m) \<Longrightarrow> dext m s = (r, s') \<Longrightarrow> m (dk_world s) = (r, dk_world s) \<and> s' = s"
  by (drule dext_InrD) (auto dest: reads_only [rotated])

definition witness_known :: "'w aid_env \<Rightarrow> 'w \<Rightarrow> json \<Rightarrow> bool" where
  "witness_known env w wit \<longleftrightarrow> ai_urls env w wit = Inr True \<or> ai_known env w wit = Inr True"

lemma forA_all:
  assumes "\<And>x w u w'. f x w = (Inr u, w') \<Longrightarrow> w' = w \<and> P x w"
  shows "forA xs f w = (Inr u, w') \<Longrightarrow> \<forall>x \<in> set xs. P x w"
  by (induction xs) (auto elim!: bindA_eq_InrD dest!: assms)

lemma check_witness_ok:
  assumes "check_witness env wit w = (Inr u, w')" shows "w' = w \<and> witness_known env w wit"
proof -
  have "keeps P (check_witness env wit)" for P unfolding check_witness_def by (intro wp)
  then have "w' = w" using assms by (rule reads_only)
  moreover have "witness_known env w wit"
    using assms unfolding check_witness_def witness_known_def
    by (auto simp: bindA_guardA elim!: bindA_eq_InrD split: if_splits)
  ultimately show ?thesis ..
qed

lemma check_witnesses_ok:
  assumes "check_witnesses env wits w = (Inr u, w')"
  shows "\<exists>ws. jiter wits = Inr ws \<and> (\<forall>x \<in> set ws. witness_known env w x)"
proof -
  from assms obtain ws where ws: "jiter wits = Inr ws" "forA ws (check_witness env) w = (Inr u, w')"
    unfolding check_witnesses_def by (auto elim!: bindA_eq_InrD)
  have "\<forall>x \<in> set ws. witness_known env w x"
    by (rule forA_all [where P = "\<lambda>x w. witness_known env w x", OF _ ws(2)]) (rule check_witness_ok)
  with ws(1) show ?thesis by blast
qed

lemma accepted_Inr: "accepted rep o' s = (Inr rep', s') \<Longrightarrow> rs_status rep' = 202 \<and> s' = s"
  by (cases o') (auto simp: accepted_def)

text \<open>
  The queue the event of a new identifier is put on, by its key state, and the operation it gets, as target, type and
  metadata.
\<close>

definition queued :: "hab \<Rightarrow> idkever \<Rightarrow> serder \<Rightarrow> 'w decks \<Rightarrow> 'w decks" where
  "queued hab kv serder s =
     (if ik_delpre kv \<noteq> None then s\<lparr>dk_anchors := dk_anchors s @ [sn_metadata hab 0]\<rparr>
      else if ik_wits kv \<noteq> [] then s\<lparr>dk_witners := dk_witners s @ [serder]\<rparr>
      else s)"

definition queued_op :: "hab \<Rightarrow> idkever \<Rightarrow> serder \<Rightarrow> string \<times> string \<times> json" where
  "queued_op hab kv serder =
     (ik_pre kv,
      if ik_delpre kv \<noteq> None then (''delegation'', sn_metadata hab 0)
      else if ik_wits kv \<noteq> [] then (''witness'', sn_metadata hab 0)
      else (''done'', JObj [(''pre'', JStr (hb_pre hab)), (''response'', se_ked serder)]))"

definition submitted_op :: "'w aid_env \<Rightarrow> string \<times> string \<times> json \<Rightarrow> 'w \<Rightarrow> 'w \<Rightarrow> bool" where
  "submitted_op env x w w' \<longleftrightarrow>
     (case x of (oid, typ, metadata) \<Rightarrow> \<exists>op. Monitor_submit (ai_mon env) oid typ metadata w = (Inr (Some op), w'))"

lemma accepted_op: "accepted rep o' s = (Inr rep', s') \<Longrightarrow> \<exists>op. o' = Some op"
  by (cases o') (simp_all add: accepted_def)

lemma submitted_Inr:
  assumes "bindA (dext (Monitor_submit (ai_mon env) oid typ metadata)) (accepted rep) s = (Inr rep', s')"
  shows "rs_status rep' = 202 \<and> submitted_op env (oid, typ, metadata) (dk_world s) (dk_world s') \<and>
    s' = s\<lparr>dk_world := dk_world s'\<rparr>"
proof -
  from assms obtain o' w where run: "Monitor_submit (ai_mon env) oid typ metadata (dk_world s) = (Inr o', w)"
    and acc: "accepted rep o' (s\<lparr>dk_world := w\<rparr>) = (Inr rep', s')"
    by (auto elim!: bindA_eq_InrD dest!: dext_InrD)
  from accepted_op [OF acc] run accepted_Inr [OF acc] show ?thesis by (auto simp: submitted_op_def)
qed

lemma created_Inr:
  assumes "created env hab serder rep s = (Inr rep', s')"
  shows "rs_status rep' = 202 \<and> (\<exists>kv. ai_hkever env (dk_world s) hab = Some kv \<and>
    submitted_op env (queued_op hab kv serder) (dk_world s) (dk_world s') \<and>
    s' = (queued hab kv serder s)\<lparr>dk_world := dk_world s'\<rparr>)"
proof -
  from assms obtain kv where kv: "ai_hkever env (dk_world s) hab = Some kv"
    by (auto simp: created_def hkever_def dext_run elim!: bindA_eq_InrD split: option.splits)
  then have "dext (hkever env hab) s = (Inr kv, s)" by (simp add: hkever_def dext_run)
  with assms have run: "(if ik_delpre kv \<noteq> None then
       seqA (modA (\<lambda>s. s\<lparr>dk_anchors := dk_anchors s @ [sn_metadata hab 0]\<rparr>))
       (bindA (dext (Monitor_submit (ai_mon env) (ik_pre kv) ''delegation'' (sn_metadata hab 0))) (accepted rep))
     else if ik_wits kv \<noteq> [] then
       seqA (modA (\<lambda>s. s\<lparr>dk_witners := dk_witners s @ [serder]\<rparr>))
       (bindA (dext (Monitor_submit (ai_mon env) (ik_pre kv) ''witness'' (sn_metadata hab 0))) (accepted rep))
     else
       bindA (dext (Monitor_submit (ai_mon env) (ik_pre kv) ''done''
                      (JObj [(''pre'', JStr (hb_pre hab)), (''response'', se_ked serder)]))) (accepted rep)) s = (Inr rep', s')"
    by (simp add: created_def bindA_Inr)
  from run kv show ?thesis
    by (auto simp: queued_def queued_op_def split: if_splits dest!: submitted_Inr)
qed

text \<open>The new identifier is the one the \<open>Habery\<close> makes, in the world as the request finds it.\<close>

lemma create_keys_makes:
  assumes "create_keys env body name serder sigers w = (Inr hab, w2)"
  shows "\<exists>w1. ai_makeSignify env name serder sigers w = (Inr hab, w1)"
  using assms unfolding create_keys_def by (auto elim!: bindA_eq_InrD split: if_splits)

lemma make_group_makes:
  assumes "make_group env body grp name serder sigers w = (Inr hab, w2)"
  shows "\<exists>mhab smids rmids w1. ai_makeGroup env name mhab smids rmids serder sigers w = (Inr hab, w1)"
proof -
  have same: "v' = v" if "list_of f x v = (Inr ys, v')" for f :: "json \<Rightarrow> exn + string" and x ys and v v' :: 'a
    by (rule reads_only [OF keeps_list_of that])
  have kv: "v' = v" if "hkever env h v = (Inr k, v')" for h k v v'
    using that by (auto simp: hkever_def elim!: bindA_eq_InrD split: option.splits)
  from assms obtain mhab smids rmids w1 where "ai_makeGroup env name mhab smids rmids serder sigers w = (Inr hab, w1)"
    unfolding make_group_def require_in_def
    by (auto simp: bindA_guardA elim!: bindA_eq_InrD split: option.splits if_splits dest!: same kv)
  then show ?thesis by blast
qed

lemma create_group_Inr:
  assumes "create_group env body grp name serder sigers rep s = (Inr rep', s')"
  shows "\<exists>hab w2. make_group env body grp name serder sigers (dk_world s) = (Inr hab, w2) \<and> rs_status rep' = 202 \<and>
    submitted_op env (se_pre serder, ''group'', sn_metadata hab 0) w2 (dk_world s') \<and>
    s' = s\<lparr>dk_groups := dk_groups s @ [serder], dk_world := dk_world s'\<rparr>"
proof -
  from assms obtain hab w2 where "make_group env body grp name serder sigers (dk_world s) = (Inr hab, w2)"
    and "bindA (dext (Monitor_submit (ai_mon env) (se_pre serder) ''group'' (sn_metadata hab 0))) (accepted rep)
      (s\<lparr>dk_world := w2, dk_groups := dk_groups s @ [serder]\<rparr>) = (Inr rep', s')"
    unfolding create_group_def sn_metadata_def
    by (auto elim!: bindA_eq_InrD [of "dext (make_group e b g n d i)" for e b g n d i] dest!: dext_InrD)
  with submitted_Inr [OF this(2)] show ?thesis by (intro exI [of _ hab] exI [of _ w2]) simp
qed

lemma keeps_create_parts:
  "keeps P (whenA b (bindA (liftA x) (check_witnesses env)))" "keeps P (create_checks env req)"
  unfolding create_checks_def by (intro wp)+

lemmas reading = reads_only [OF keeps_list_of] reads_only [OF keeps_create_parts(1)] reads_only [OF keeps_checks(2)]

lemma create_checks_ok:
  assumes "rq_media req = Inr (JObj body)" and "dict_get body ''icp'' = Some (JObj icp)"
    and "create_checks env req w = (Inr c, w)"
  shows "\<exists>name serder sigers. c = (JObj body, name, serder, sigers) \<and> dict_get body ''name'' = Some (JStr name) \<and>
    ai_serder env (JObj icp) = Inr serder \<and> ai_habByName env w name = None \<and>
    (\<forall>ws. dict_get icp ''b'' = Some (JArr ws) \<longrightarrow> (\<forall>x \<in> set ws. witness_known env w x)) \<and>
    (\<forall>di. dict_get icp ''di'' = Some di \<longrightarrow> ai_known env w di = Inr True) \<and>
    (\<exists>sigs. dict_get body ''sigs'' = Some sigs \<and> list_of (ai_siger env) sigs w = (Inr sigers, w))"
proof -
  from assms obtain jname sigs serder sigers name u w1 w2 where
    name: "getRequiredParam (JObj body) ''name'' = Inr jname" "jstr jname = Inr name" "ai_habByName env w1 name = None"
    and serder: "ai_serder env (JObj icp) = Inr serder" and sigs: "getRequiredParam (JObj body) ''sigs'' = Inr sigs"
    and sigers: "list_of (ai_siger env) sigs w = (Inr sigers, w1)"
    and wits: "whenA (dict_get icp ''b'' \<noteq> None) (bindA (liftA (jitem (JObj icp) ''b'')) (check_witnesses env)) w1 = (Inr u, w2)"
    and deleg: "check_delegator env (JObj icp) w2 = (Inr u, w)"
    and c: "c = (JObj body, name, serder, sigers)"
    unfolding create_checks_def
    by (auto simp: bindA_guardA elim!: bindA_eq_InrD split: if_splits)
  have "w1 = w" by (rule reading(1) [OF sigers])
  moreover from this have "w2 = w" using reading(2) [OF wits] by simp
  ultimately have wits: "whenA (dict_get icp ''b'' \<noteq> None) (bindA (liftA (jitem (JObj icp) ''b'')) (check_witnesses env)) w = (Inr u, w)"
    and deleg: "check_delegator env (JObj icp) w = (Inr u, w)" and name: "getRequiredParam (JObj body) ''name'' = Inr jname" "jstr jname = Inr name" "ai_habByName env w name = None"
    using wits deleg name by simp_all
  have "dict_get body ''name'' = Some (JStr name)"
    using name(1,2) by (cases jname) (auto simp: getRequiredParam_Inr)
  moreover have "\<forall>x \<in> set ws. witness_known env w x" if "dict_get icp ''b'' = Some (JArr ws)" for ws
    using wits check_witnesses_ok [of env "JArr ws" w u w] that by simp
  moreover have "ai_known env w di = Inr True" if "dict_get icp ''di'' = Some di" for di
    using deleg that by (auto simp: check_delegator_def guardA_def elim!: bindA_eq_InrD split: if_splits)
  moreover have "dict_get body ''sigs'' = Some sigs" "list_of (ai_siger env) sigs w = (Inr sigers, w)"
    using sigs sigers \<open>w1 = w\<close> by (auto simp: getRequiredParam_Inr)
  ultimately show ?thesis using c serder name(3) by blast
qed

text \<open>
  C8. A creation answered with 202 had a name that was free, and witnesses and a delegator the agent knows. The
  identifier was made under that name from the event and the signatures of the request, and its event went on at most
  one queue, once: that of the groups for a multisig identifier; else, by the key state of the new identifier once its
  keys were registered, that of the delegation anchors if it is delegated, that of the witnesses if it has some, and
  none if it is neither. No other queue is touched, and the operation submitted last is of the type that goes with
  the queue.
\<close>

theorem create_queues_once:
  assumes "rq_media req = Inr (JObj body)" and "dict_get body ''icp'' = Some (JObj icp)"
    and "IdentifierCollectionEnd_on_post env req rep s = (Inr rep', s')"
  shows "rs_status rep' = 202 \<and>
    (\<exists>name serder sigs sigers hab w2. dict_get body ''name'' = Some (JStr name) \<and> ai_serder env (JObj icp) = Inr serder \<and>
       dict_get body ''sigs'' = Some sigs \<and> list_of (ai_siger env) sigs (dk_world s) = (Inr sigers, dk_world s) \<and>
       ai_habByName env (dk_world s) name = None \<and>
       (\<forall>ws. dict_get icp ''b'' = Some (JArr ws) \<longrightarrow> (\<forall>x \<in> set ws. witness_known env (dk_world s) x)) \<and>
       (\<forall>di. dict_get icp ''di'' = Some di \<longrightarrow> ai_known env (dk_world s) di = Inr True) \<and>
       (case dict_get body ''group'' of
          Some grp \<Rightarrow>
            make_group env (JObj body) grp name serder sigers (dk_world s) = (Inr hab, w2) \<and>
            (\<exists>mhab smids rmids w1. ai_makeGroup env name mhab smids rmids serder sigers (dk_world s) = (Inr hab, w1)) \<and>
            submitted_op env (se_pre serder, ''group'', sn_metadata hab 0) w2 (dk_world s') \<and>
            s' = s\<lparr>dk_groups := dk_groups s @ [serder], dk_world := dk_world s'\<rparr>
        | None \<Rightarrow>
            create_keys env (JObj body) name serder sigers (dk_world s) = (Inr hab, w2) \<and>
            (\<exists>w1. ai_makeSignify env name serder sigers (dk_world s) = (Inr hab, w1)) \<and>
            (\<exists>kv. ai_hkever env w2 hab = Some kv \<and>
               submitted_op env (queued_op hab kv serder) w2 (dk_world s') \<and>
               s' = (queued hab kv serder s)\<lparr>dk_world := dk_world s'\<rparr>)))"
proof -
  have run: "create_identifier env req rep s = (Inr rep', s')"
    using assms(3) by (simp add: IdentifierCollectionEnd_on_post_def bad_request_Inr)
  then obtain c s1 where checks: "dext (create_checks env req) s = (Inr c, s1)"
    and rest: "(\<lambda>(body, name, serder, sigers). bindA (liftA (jin ''group'' body)) (\<lambda>grp.
       if grp then bindA (liftA (jitem body ''group'')) (\<lambda>grp. create_group env body grp name serder sigers rep)
       else bindA (dext (create_keys env body name serder sigers)) (\<lambda>hab. created env hab serder rep))) c s1 = (Inr rep', s')"
    unfolding create_identifier_def by (elim bindA_eq_InrD)
  from dext_reads [OF keeps_create_parts(2) checks] have "create_checks env req (dk_world s) = (Inr c, dk_world s)" "s1 = s"
    by simp_all
  from create_checks_ok [OF assms(1,2) this(1)] obtain name serder sigers sigs where
    c: "c = (JObj body, name, serder, sigers)" and facts: "dict_get body ''name'' = Some (JStr name)"
      "ai_serder env (JObj icp) = Inr serder" "ai_habByName env (dk_world s) name = None"
      "\<forall>ws. dict_get icp ''b'' = Some (JArr ws) \<longrightarrow> (\<forall>x \<in> set ws. witness_known env (dk_world s) x)"
      "\<forall>di. dict_get icp ''di'' = Some di \<longrightarrow> ai_known env (dk_world s) di = Inr True"
      "dict_get body ''sigs'' = Some sigs" "list_of (ai_siger env) sigs (dk_world s) = (Inr sigers, dk_world s)" by blast
  show ?thesis
  proof (cases "dict_get body ''group''")
    case None
    with rest c \<open>s1 = s\<close> obtain hab w2 where keys: "create_keys env (JObj body) name serder sigers (dk_world s) = (Inr hab, w2)"
      and made: "created env hab serder rep (s\<lparr>dk_world := w2\<rparr>) = (Inr rep', s')"
      by (auto elim!: bindA_eq_InrD dest!: dext_InrD)
    from created_Inr [OF made] obtain kv where kv: "rs_status rep' = 202" "ai_hkever env w2 hab = Some kv"
      "submitted_op env (queued_op hab kv serder) w2 (dk_world s')" "s' = (queued hab kv serder s)\<lparr>dk_world := dk_world s'\<rparr>"
      by (auto simp: queued_def split: if_splits)
    with facts None keys create_keys_makes [OF keys] show ?thesis
      by (intro conjI exI [of _ name] exI [of _ serder] exI [of _ sigs] exI [of _ sigers] exI [of _ hab] exI [of _ w2]) auto
  next
    case (Some grp)
    with rest c \<open>s1 = s\<close> have "create_group env (JObj body) grp name serder sigers rep s = (Inr rep', s')" by simp
    from create_group_Inr [OF this] obtain hab w2 where
      made: "make_group env (JObj body) grp name serder sigers (dk_world s) = (Inr hab, w2)" and g: "rs_status rep' = 202"
        "submitted_op env (se_pre serder, ''group'', sn_metadata hab 0) w2 (dk_world s')"
        "s' = s\<lparr>dk_groups := dk_groups s @ [serder], dk_world := dk_world s'\<rparr>" by blast
    with facts Some make_group_makes [OF made] show ?thesis
      by (intro conjI exI [of _ name] exI [of _ serder] exI [of _ sigs] exI [of _ sigers] exI [of _ hab] exI [of _ w2]) auto
  qed
qed

definition witnessed_env :: "mem_aid aid_env" where
  "witnessed_env = mem_aid_env\<lparr>
     ai_mon := (ai_mon mem_aid_env)\<lparr>me_keLast := \<lambda>_ pre _. Some pre,
       me_kever := \<lambda>_ pre. Some \<lparr>kv_pre = pre, kv_sn = 0, kv_toad = 1, kv_said = pre, kv_state = JNull\<rparr>\<rparr>,
     ai_urls := \<lambda>_ wit. Inr (wit = JStr ''W1''),
     ai_hkever := \<lambda>w h. map_option (\<lambda>k. k\<lparr>ik_wits := [''W1'']\<rparr>) (mem_kever w h)\<rparr>"

definition witnessed_icp :: "(string \<times> json) list" where
  "witnessed_icp = [(''i'', JStr ''E1''), (''b'', jstrs [''W1''])]"

definition witnessed_body :: "(string \<times> json) list" where
  "witnessed_body = [(''icp'', JObj witnessed_icp), (''name'', JStr ''aid1''), (''sigs'', jstrs [''AA'']),
     (''salty'', JObj [(''sxlt'', JStr ''x''), (''icodes'', jstrs [''A'']), (''ncodes'', jstrs [''A''])])]"

lemma witnessed_runs:
  "case IdentifierCollectionEnd_on_post witnessed_env (json_request (JObj witnessed_body)) fresh_response (no_decks mem_aid_start) of
     (Inr _, s') \<Rightarrow> length (dk_witners s') = 1 | _ \<Rightarrow> False"
  by code_simp

theorem create_queues_once_witness:
  "\<exists>rep' s' serder. IdentifierCollectionEnd_on_post witnessed_env (json_request (JObj witnessed_body)) fresh_response (no_decks mem_aid_start) = (Inr rep', s') \<and>
     rs_status rep' = 202 \<and> mem_serder (JObj witnessed_icp) = Inr serder \<and> dk_witners s' = [serder] \<and>
     dk_anchors s' = [] \<and> dk_groups s' = []"
proof -
  from witnessed_runs obtain rep' s' where
    run: "IdentifierCollectionEnd_on_post witnessed_env (json_request (JObj witnessed_body)) fresh_response (no_decks mem_aid_start) = (Inr rep', s')"
    by (auto split: prod.splits sum.splits)
  have media: "rq_media (json_request (JObj witnessed_body)) = Inr (JObj witnessed_body)"
    and icp: "dict_get witnessed_body ''icp'' = Some (JObj witnessed_icp)" and grp: "dict_get witnessed_body ''group'' = None"
    by (simp_all add: json_request_def witnessed_body_def)
  from create_queues_once [OF media icp run] grp obtain serder hab kv w where q: "rs_status rep' = 202"
    "ai_serder witnessed_env (JObj witnessed_icp) = Inr serder" "ai_hkever witnessed_env w hab = Some kv"
    "s' = (queued hab kv serder (no_decks mem_aid_start))\<lparr>dk_world := dk_world s'\<rparr>" by auto
  from q(3) have kv: "ik_delpre kv = None" "ik_wits kv = [''W1'']"
    by (auto simp: witnessed_env_def mem_kever_def)
  obtain v where "s' = ((no_decks mem_aid_start)\<lparr>dk_witners := [serder]\<rparr>)\<lparr>dk_world := v\<rparr>"
    using q(4) kv by (simp add: queued_def no_decks_def)
  with q(1,2) run show ?thesis
    by (intro exI [of _ rep'] exI [of _ s'] exI [of _ serder]) (simp add: witnessed_env_def mem_aid_env_def no_decks_def)
qed

subsection \<open>A rotation with refused parameters\<close>

text \<open>
  When the event of a rotation is accepted but the parameters of its salty keys are refused, the
  request fails with status 500 and the identifier is deleted, by the name in the path: the
  accepted rotation stays in the key event log of an identifier the agent no longer has. That is
  so for every identifier without salty parameters, and nothing is queued for the event.
\<close>

theorem salty_rotation_deletes:
  assumes request: "rq_media req = Inr (JObj d)" "dict_get d ''rot'' = Some (JObj r)" "dict_get d ''sigs'' = Some (jstrs sigs)"
      "dict_get d ''salty'' = Some salt" "dict_get r ''ba'' = None" "sigs \<noteq> []" "Salty_rotate_kwargs salt = Inr prms"
    and event: "ai_serder env (JObj r) = Inr serder" "\<And>x. ai_siger env (JStr x) = Inr x"
    and found: "name \<noteq> []" "find_hab env name (dk_world s) = Some hab"
    and rotated: "ai_rotate env hab serder sigs None (dk_world s) = (Inr u, w1)"
    and refused: "\<not> has_algo (ai_rb env) (se_pre serder) ''salty'' w1"
    and deleted: "ai_deleteHab env name w1 = (Inr b, w2)"
  shows "IdentifierResourceEnd_on_post env req rep name s =
    (Inl (HTTPError 500 (exn_msg (rotate_invalid (se_pre serder)))), s\<lparr>dk_world := w2\<rparr>)"
proof -
  have is_value: "isValueError (rotate_invalid p)" for p by (simp add: rotate_invalid_def)
  have sigers: "event_sigers env (JObj d) ''invalid rotation'' w = (Inr sigs, w)" for w
    using request event by (simp add: event_sigers_def list_of_texts)
  have "SaltyManager_rotate (ai_rb env) (se_pre serder) p w1 = (Inl (rotate_invalid (se_pre serder)), w1)" for p
    using refused by (simp add: SaltyManager_rotate_def check_algo_def)
  then have gone: "rotate_salty env name hab serder sigs (JObj d) (dk_world s) =
      (Inl (HTTPError 500 (exn_msg (rotate_invalid (se_pre serder)))), w2)"
    using request(4,7) by (simp add: rotate_salty_def bindA_def [of "ai_rotate e h d g x" for e h d g x] rotated
        or_delete_def catchA_def is_value bindA_def [of "ai_deleteHab e n" for e n] deleted)
  have "rotate_identifier env name (JObj d) s =
      (Inl (HTTPError 500 (exn_msg (rotate_invalid (se_pre serder)))), s\<lparr>dk_world := w2\<rparr>)"
    using request event found
    by (simp add: rotate_identifier_def some_hab_def bindA_def [of "dext m" for m] dext_run sigers gone)
  then show ?thesis
    using request found by (simp add: IdentifierResourceEnd_on_post_def name_required_def bad_request_def catchA_def
        identifier_event_def bindA_def [of "rotate_identifier e n b" for e n b])
qed

definition rotate_body :: "(string \<times> json) list" where
  "rotate_body = [(''rot'', JObj demo_icp), (''sigs'', jstrs [''AA'']),
     (''salty'', JObj [(''ncodes'', JNull), (''pidx'', JInt 0), (''kidx'', JInt 1), (''stem'', JNull), (''sxlt'', JNull),
        (''icodes'', JNull), (''tier'', JNull), (''transferable'', JBool True)])]"

definition randy_start :: mem_aid where
  "randy_start = page_start\<lparr>ma_pres := DAList.update ''E1'' \<lparr>pp_pidx = JInt 0, pp_algo = ''randy''\<rparr> DAList.empty\<rparr>"

theorem salty_rotation_deletes_witness:
  "\<exists>w2. IdentifierResourceEnd_on_post mem_aid_env (json_request (JObj rotate_body)) fresh_response ''a'' (no_decks randy_start) =
     (Inl (HTTPError 500 (exn_msg (rotate_invalid ''E1''))), (no_decks randy_start)\<lparr>dk_world := w2\<rparr>) \<and>
     DAList.lookup (ma_habs w2) ''E1'' = None"
proof -
  let ?serder = "\<lparr>se_pre = ''E1'', se_sn = 1, se_said = ''E1'', se_ked = JObj demo_icp\<rparr>"
  let ?prms = "[(''ncodes'', JNull), (''pidx'', JInt 0), (''kidx'', JInt 1), (''stem'', JNull), (''sxlt'', JNull),
        (''icodes'', JNull), (''tier'', JNull), (''transferable'', JBool True)]"
  let ?w2 = "snd (mem_delete ''a'' randy_start)"
  have deleted: "ai_deleteHab mem_aid_env ''a'' randy_start = (Inr True, ?w2)" and gone: "DAList.lookup (ma_habs ?w2) ''E1'' = None"
    by (simp_all add: mem_aid_env_def mem_delete_def randy_start_def page_start_def)
  have rotated: "ai_rotate mem_aid_env (SignifyHab ''E1'') ?serder [''AA''] None randy_start = (Inr (), randy_start)"
    and refused: "\<not> has_algo (ai_rb mem_aid_env) (se_pre ?serder) ''salty'' randy_start"
    and found: "find_hab mem_aid_env ''a'' (dk_world (no_decks randy_start)) = Some (SignifyHab ''E1'')"
    and event: "ai_serder mem_aid_env (JObj demo_icp) = Inr ?serder" "\<And>x. ai_siger mem_aid_env (JStr x) = Inr x"
    by (simp_all add: mem_aid_env_def has_algo_def mem_aid_keeper_def randy_start_def page_start_def find_hab_def
        mem_byName_def no_decks_def demo_icp_def)
  have salt: "Salty_rotate_kwargs (JObj ?prms) = Inr ?prms" by (simp add: Salty_rotate_kwargs_def)
  from salty_rotation_deletes [where req = "json_request (JObj rotate_body)" and d = rotate_body and r = demo_icp and sigs = "[''AA'']"
      and env = mem_aid_env and rep = fresh_response and s = "no_decks randy_start", OF _ _ _ _ _ _ salt event _ found _ refused deleted]
  show ?thesis using rotated gone
    by (intro exI [of _ ?w2]) (simp add: json_request_def rotate_body_def demo_icp_def no_decks_def)
qed

end
