(* ===== verification/Passcode.thy ===== *)
theory Passcode
  imports Identifiers
begin

text \<open>
  The endpoint \<open>/agent/{caid}\<close> (\<open>AgentResourceEnd\<close> in \<open>app/aiding.py\<close>): the record of an agent and its
  controller, the rotation of the controller's key when the passcode changes, with the salts and
  secrets encrypted anew, and the anchoring interaction. It is exempt from the middleware's signature
  check and checks the signature itself, so it runs on the agency.
\<close>

record ('h, 'w, 's) passcode_env =
  pa_agency :: "('h, 'w) agency_env"
  pa_auth :: "(('h, 'w) agency, 'h agent, 's) authenv"
  pa_rb :: "'h \<Rightarrow> 'w remote_keeper"
  pa_known :: "'w \<Rightarrow> 'h \<Rightarrow> string \<Rightarrow> bool"
  pa_names :: "'w \<Rightarrow> 'h \<Rightarrow> ((string \<times> string) \<times> string) list"
  pa_state :: "'w \<Rightarrow> 'h \<Rightarrow> string \<Rightarrow> json"
  pa_evt :: "'w \<Rightarrow> 'h \<Rightarrow> json \<Rightarrow> json \<Rightarrow> json option"
  pa_ctrlHab :: "'w \<Rightarrow> 'h \<Rightarrow> string \<Rightarrow> bool"
  pa_serder :: "json \<Rightarrow> exn + serder"
  pa_siger :: "json \<Rightarrow> exn + string"
  pa_saider :: "json \<Rightarrow> exn + string"
  pa_seqner :: "json \<Rightarrow> exn + string"
  pa_prefixer :: "json \<Rightarrow> exn + string"
  pa_rotate :: "'h \<Rightarrow> string \<Rightarrow> serder \<Rightarrow> string list \<Rightarrow> ('w, unit) act"
  pa_interact :: "'h \<Rightarrow> string \<Rightarrow> serder \<Rightarrow> string list \<Rightarrow> ('w, unit) act"
  pa_process :: "'h \<Rightarrow> serder \<Rightarrow> string list \<Rightarrow> ('w, unit) act"
  pa_setAes :: "'h \<Rightarrow> string \<Rightarrow> string \<Rightarrow> string \<Rightarrow> ('w, unit) act"
  pa_habKeys :: "'w \<Rightarrow> 'h \<Rightarrow> string \<Rightarrow> exn + (string list \<times> string list)"

text \<open>\<open>agency.get(caid)\<close>, with a 404 for a controller without agent.\<close>

definition agent_of :: "('h, 'w, 's) passcode_env \<Rightarrow> string \<Rightarrow> string \<Rightarrow> (('h, 'w) agency, 'h agent) act" where
  "agent_of env caid msg =
     bindA (Agency_get (pa_agency env) caid) (\<lambda>agent.
     case agent of None \<Rightarrow> raiseA (HTTPError 404 (msg @ caid)) | Some agent \<Rightarrow> retA agent)"

definition not_known :: "string \<Rightarrow> string \<Rightarrow> exn" where
  "not_known what pre = HTTPError 400 (''invalid '' @ what @ '' configuration, '' @ pre @ '' not found'')"

definition AgentResourceEnd_on_get ::
  "('h, 'w, 's) passcode_env \<Rightarrow> response \<Rightarrow> string \<Rightarrow> (('h, 'w) agency, response) act" where
  "AgentResourceEnd_on_get env rep caid =
     bindA (agent_of env caid ''not agent found for controller '') (\<lambda>agent.
     bindA (getA (\<lambda>s. pa_known env (ay_world s) (ag_hby agent))) (\<lambda>known.
     seqA (guardA (known (ag_pre agent)) (not_known ''agent'' (ag_pre agent)))
     (seqA (guardA (known (ag_caid agent)) (not_known ''controller'' (ag_caid agent)))
     (bindA (getA (\<lambda>s. length (filter own (pa_names env (ay_world s) (ag_hby agent))))) (\<lambda>pidx.
      bindA (getA (\<lambda>s. pa_state env (ay_world s) (ag_hby agent) (ag_caid agent))) (\<lambda>state.
      bindA (liftA (jitem state ''i'')) (\<lambda>i.
      bindA (liftA (jitem state ''ee'')) (\<lambda>ee.
      bindA (liftA (jitem ee ''d'')) (\<lambda>d.
      bindA (getA (\<lambda>s. pa_evt env (ay_world s) (ag_hby agent) i d)) (\<lambda>msg.
      case msg of
        None \<Rightarrow> raiseA TypeError
      | Some ked \<Rightarrow>
          bindA (getA (\<lambda>s. pa_state env (ay_world s) (ag_hby agent) (ag_pre agent))) (\<lambda>astate.
          bindA (ext (RemoteManager_sxlt (pa_rb env (ag_hby agent)))) (\<lambda>sxlt.
          retA (rep\<lparr>rs_status := 200, rs_data := Some (JObj
            ([(''agent'', astate), (''controller'', JObj [(''state'', state), (''ee'', ked)]), (''pidx'', JInt (int pidx))] @
             (case sxlt of None \<Rightarrow> [] | Some x \<Rightarrow> [(''sxlt'', JStr x)])))\<rparr>)))))))))))))"

subsection \<open>Changing the passcode\<close>

definition no_sxlt_pre :: "string \<Rightarrow> exn" where
  "no_sxlt_pre pre = ValueError (''Attempt to update sxlt for nonexistent or invalid pre='' @ pre @ ''.'')"

definition update_sxlt :: "'w remote_keeper \<Rightarrow> string \<Rightarrow> json \<Rightarrow> ('w, unit) act" where
  "update_sxlt rb pre val =
     bindA (getS (rb_sprms rb) pre) (\<lambda>sp.
     case sp of
       None \<Rightarrow> raiseA (no_sxlt_pre pre)
     | Some sp \<Rightarrow>
         bindA (liftA (jitem val ''sxlt'')) (\<lambda>sxlt.
         bindA (pinS (rb_sprms rb) pre (sp\<lparr>sp_sxlt := sxlt\<rparr>)) (\<lambda>ok.
         guardA ok (ValueError (''Unable to update sxlt prms for pre='' @ pre @ ''.'')))))"

text \<open>
  The secrets of a randy identifier, stored under its public keys with \<open>put\<close>. There is no check of
  the number of current secrets: with more of them than keys the index runs out.
\<close>

fun put_secrets ::
  "'w remote_keeper \<Rightarrow> ('w, string, string) suber \<Rightarrow> string list \<Rightarrow> json list \<Rightarrow> ('w, unit) act" where
  "put_secrets rb db ks [] = retA ()"
| "put_secrets rb db ks (prx # prxs) =
     bindA (liftA (rb_cipher rb prx)) (\<lambda>cipher.
     case ks of
       [] \<Rightarrow> raiseA IndexError
     | k # ks \<Rightarrow> bindA (putS db k cipher) (\<lambda>_. put_secrets rb db ks prxs))"

definition update_secrets ::
  "'w remote_keeper \<Rightarrow> string list \<Rightarrow> string list \<Rightarrow> json \<Rightarrow> ('w, unit) act" where
  "update_secrets rb verfers digers val =
     bindA (liftA (jitem val ''prxs'')) (\<lambda>prxs.
     bindA (liftA (jiter prxs)) (\<lambda>prxs.
     seqA (put_secrets rb (rb_prxs rb) verfers prxs)
     (bindA (liftA (jin ''nxts'' val)) (\<lambda>has_nxts.
      whenA has_nxts
        (bindA (liftA (jitem val ''nxts'')) (\<lambda>nxts.
         bindA (liftA (jiter nxts)) (\<lambda>nxts.
         seqA (guardA (length nxts = length digers)
                 (ValueError ''If encrypted private next keys are provided, must match digers''))
           (put_secrets rb (rb_nxts rb) digers nxts))))))))"

definition update_key ::
  "('h, 'w, 's) passcode_env \<Rightarrow> 'h \<Rightarrow> string \<times> json \<Rightarrow> ('w, unit) act" where
  "update_key env hby kv =
     (case kv of (pre, val) \<Rightarrow>
        bindA (liftA (jin ''sxlt'' val)) (\<lambda>sxlt.
        if sxlt then update_sxlt (pa_rb env hby) pre val
        else
          bindA (liftA (jin ''prxs'' val)) (\<lambda>prxs.
          whenA prxs
            (bindA (readA (\<lambda>w. pa_habKeys env w hby pre)) (\<lambda>(verfers, digers).
             update_secrets (pa_rb env hby) verfers digers val)))))"

definition update_keys ::
  "('h, 'w, 's) passcode_env \<Rightarrow> 'h \<Rightarrow> json \<Rightarrow> json \<Rightarrow> ('w, unit) act" where
  "update_keys env hby sxlt keys =
     bindA (liftA (jstr sxlt)) (\<lambda>sxlt.
     seqA (RemoteManager_set_sxlt (pa_rb env hby) sxlt)
     (bindA (liftA (case keys of JObj d \<Rightarrow> Inr d | _ \<Rightarrow> Inl AttributeError)) (\<lambda>d.
      seqA (forA d (update_key env hby))
        (bindA (RemoteManager_delete_sxlt (pa_rb env hby)) (\<lambda>_. retA ())))))"

definition rotate_controller ::
  "('h, 'w, 's) passcode_env \<Rightarrow> 'h \<Rightarrow> string \<Rightarrow> json \<Rightarrow> json \<Rightarrow> ('w, unit) act" where
  "rotate_controller env hby caid rot sigs =
     bindA (liftA (pa_serder env rot)) (\<lambda>serder.
     bindA (getA (\<lambda>w. pa_ctrlHab env w hby caid)) (\<lambda>there.
     seqA (guardA there AttributeError)
     (bindA (list_of (pa_siger env) sigs) (\<lambda>sigers. pa_rotate env hby caid serder sigers))))"

definition require_key :: "json \<Rightarrow> string \<Rightarrow> ('s, unit) act" where
  "require_key body f =
     bindA (liftA (jin f body)) (\<lambda>there.
     guardA there (HTTPError 400 (''required field '' @ quoted f @ '' missing from body'')))"

text \<open>
  The interaction: \<open>ctrlHab.interact\<close>, then the agent's own \<open>Kevery\<close>; then the first seal of the event,
  when it has one, becomes the authorization of the event it names.
\<close>

definition AgentResourceEnd_interact ::
  "('h, 'w, 's) passcode_env \<Rightarrow> json \<Rightarrow> 'h \<Rightarrow> string \<Rightarrow> ('w, serder) act" where
  "AgentResourceEnd_interact env body hby caid =
     seqA (require_key body ''ixn'')
     (seqA (require_key body ''sigs'')
     (bindA (liftA (jitem body ''ixn'')) (\<lambda>ked.
      bindA (liftA (jitem body ''sigs'')) (\<lambda>sigs.
      bindA (liftA (pa_serder env ked)) (\<lambda>ixn.
      bindA (list_of (pa_siger env) sigs) (\<lambda>sigers.
      bindA (getA (\<lambda>w. pa_ctrlHab env w hby caid)) (\<lambda>there.
      seqA (guardA there AttributeError)
      (seqA (pa_interact env hby caid ixn sigers)
      (seqA (pa_process env hby ixn sigers) (retA ixn))))))))))"

definition anchorSeals :: "('h, 'w, 's) passcode_env \<Rightarrow> 'h \<Rightarrow> serder \<Rightarrow> ('w, unit) act" where
  "anchorSeals env hby ixn =
     bindA (liftA (jitem (se_ked ixn) ''a'')) (\<lambda>a.
     bindA (liftA (jiter a)) (\<lambda>seals.
     whenA (seals \<noteq> [])
       (bindA (liftA (jitem (se_ked ixn) ''d'')) (\<lambda>d.
        bindA (liftA (pa_saider env d)) (\<lambda>delegator.
        bindA (liftA (jitem (se_ked ixn) ''s'')) (\<lambda>sn.
        bindA (liftA (pa_seqner env sn)) (\<lambda>delegatorsn.
        bindA (liftA (jindex a 0)) (\<lambda>seal.
        bindA (liftA (jitem seal ''i'')) (\<lambda>i.
        bindA (liftA (pa_prefixer env i)) (\<lambda>prefixer.
        bindA (liftA (jitem seal ''d'')) (\<lambda>sd.
        bindA (liftA (pa_saider env sd)) (\<lambda>saider.
        pa_setAes env hby prefixer saider (delegatorsn @ delegator)))))))))))))"

definition AgentResourceEnd_on_put ::
  "('h, 'w, 's) passcode_env \<Rightarrow> request \<Rightarrow> response \<Rightarrow> string \<Rightarrow> (('h, 'w) agency, response) act" where
  "AgentResourceEnd_on_put env req rep caid =
     bindA (agent_of env caid ''no agent for '') (\<lambda>agent.
     if dict_get (rq_params req) ''type'' = Some (JStr ''ixn'') then
       bindA (liftA (rq_media req)) (\<lambda>body.
       bindA (ext (AgentResourceEnd_interact env body (ag_hby agent) caid)) (\<lambda>ixn.
       seqA (ext (anchorSeals env (ag_hby agent) ixn)) (retA (rep\<lparr>rs_status := 204\<rparr>))))
     else
       bindA (liftA (rq_media req)) (\<lambda>body.
       seqA (forA [''rot'', ''sigs'', ''sxlt'', ''keys''] (require_key body))
       (bindA (liftA (jitem body ''rot'')) (\<lambda>rot.
        bindA (liftA (jitem body ''sigs'')) (\<lambda>sigs.
        seqA (ext (rotate_controller env (ag_hby agent) caid rot sigs))
        (bindA (verify (pa_auth env) req) (\<lambda>ok.
         seqA (guardA ok (HTTPError 403 ''invalid signature on request''))
         (bindA (liftA (jitem body ''sxlt'')) (\<lambda>sxlt.
          bindA (liftA (jitem body ''keys'')) (\<lambda>keys.
          seqA (ext (update_keys env (ag_hby agent) sxlt keys)) (retA (rep\<lparr>rs_status := 204\<rparr>))))))))))))"

subsection \<open>What a change of the passcode does to the keys\<close>

text \<open>The global salt is a database of its own too.\<close>

definition gbls_ok :: "'w remote_keeper \<Rightarrow> bool" where
  "gbls_ok rb \<longleftrightarrow> suber_ok (rb_gbls rb) \<and>
     frames (rb_gbls rb) (\<lambda>w. (sget (rb_sprms rb) w, sget (rb_prxs rb) w, sget (rb_nxts rb) w)) \<and>
     frames (rb_sprms rb) (sget (rb_gbls rb)) \<and> frames (rb_prxs rb) (sget (rb_gbls rb)) \<and>
     frames (rb_nxts rb) (sget (rb_gbls rb))"

text \<open>What of the keeper survives: the salt, and every secret that was stored.\<close>

definition holds_secrets :: "'w remote_keeper \<Rightarrow> (string \<rightharpoonup> string) \<Rightarrow> (string \<rightharpoonup> string) \<Rightarrow> (string \<rightharpoonup> string) \<Rightarrow> 'w \<Rightarrow> bool" where
  "holds_secrets rb g p n w \<longleftrightarrow> sget (rb_gbls rb) w = g \<and> p \<subseteq>\<^sub>m sget (rb_prxs rb) w \<and> n \<subseteq>\<^sub>m sget (rb_nxts rb) w"

lemma put_extends: "suber_ok s \<Longrightarrow> p \<subseteq>\<^sub>m sget s w \<Longrightarrow> p \<subseteq>\<^sub>m sget s (snd (sput s w k v))"
  by (auto simp: map_le_def sput_get) (metis domI option.distinct(1))

lemma keeps_sum [wp]: "(\<And>x. r = Inr x \<Longrightarrow> keeps P (f x)) \<Longrightarrow> keeps P (bindA (liftA r) f)"
  by (cases r) (auto simp: keeps_def)

lemma keeps_stores:
  assumes "rb_ok rb" and "gbls_ok rb"
  shows "keeps (holds_secrets rb g p n) (putS (rb_prxs rb) k v)" "keeps (holds_secrets rb g p n) (putS (rb_nxts rb) k v)"
    "keeps (holds_secrets rb g p n) (pinS (rb_sprms rb) k sp)"
  using assms by (simp_all add: keeps_def holds_secrets_def rb_ok_def gbls_ok_def frames_def put_extends)

lemma keeps_put_secrets:
  assumes "rb_ok rb" and "gbls_ok rb"
  shows "keeps (holds_secrets rb g p n) (put_secrets rb (rb_prxs rb) ks xs)"
    "keeps (holds_secrets rb g p n) (put_secrets rb (rb_nxts rb) ks xs)"
  by (induction xs arbitrary: ks) (auto intro!: wp keeps_stores [OF assms] split: list.split)

lemma keeps_update_key:
  assumes "rb_ok (pa_rb env hby)" and "gbls_ok (pa_rb env hby)"
  shows "keeps (holds_secrets (pa_rb env hby) g p n) (update_key env hby kv)"
  unfolding update_key_def update_sxlt_def update_secrets_def getS_def
  by (intro wp keeps_stores [OF assms] keeps_put_secrets [OF assms])

text \<open>The salty parameters: the salt is replaced where the request brings one.\<close>

definition with_sxlt :: "json \<Rightarrow> salty_prm option \<Rightarrow> salty_prm option" where
  "with_sxlt val old =
     (if jin ''sxlt'' val = Inr True
      then (case jitem val ''sxlt'' of Inr x \<Rightarrow> map_option (\<lambda>sp. sp\<lparr>sp_sxlt := x\<rparr>) old | Inl _ \<Rightarrow> old)
      else old)"

lemma keeps_prms:
  assumes "rb_ok rb"
  shows "keeps (\<lambda>w. sget (rb_sprms rb) w = m) (update_secrets rb verfers digers val)"
proof -
  have put: "keeps (\<lambda>w. sget (rb_sprms rb) w = m) (putS (rb_prxs rb) k v)"
    "keeps (\<lambda>w. sget (rb_sprms rb) w = m) (putS (rb_nxts rb) k v)" for k v
    using assms by (simp_all add: keeps_def rb_ok_def frames_def)
  have "keeps (\<lambda>w. sget (rb_sprms rb) w = m) (put_secrets rb (rb_prxs rb) ks xs)"
    "keeps (\<lambda>w. sget (rb_sprms rb) w = m) (put_secrets rb (rb_nxts rb) ks xs)" for ks xs
    by (induction xs arbitrary: ks) (auto intro!: wp put split: list.split)
  then show ?thesis unfolding update_secrets_def by (intro wp)
qed

lemma update_key_prms:
  assumes "rb_ok (pa_rb env hby)" and "update_key env hby (pre, val) w = (Inr u, w')"
  shows "sget (rb_sprms (pa_rb env hby)) w' = (sget (rb_sprms (pa_rb env hby)) w)
           (pre := with_sxlt val (sget (rb_sprms (pa_rb env hby)) w pre))"
proof -
  let ?rb = "pa_rb env hby"
  from assms(2) obtain has_sxlt where has: "jin ''sxlt'' val = Inr has_sxlt"
    by (auto simp: update_key_def elim!: bindA_eq_InrD)
  show ?thesis
  proof (cases has_sxlt)
    case True
    with assms(2) has have up: "update_sxlt ?rb pre val w = (Inr u, w')"
      by (simp add: update_key_def)
    then obtain sp where sp: "sget (rb_sprms ?rb) w pre = Some sp"
      by (cases "sget (rb_sprms ?rb) w pre") (simp_all add: update_sxlt_def)
    with up obtain x where x: "jitem val ''sxlt'' = Inr x"
      by (cases "jitem val ''sxlt''") (simp_all add: update_sxlt_def)
    have "w' = snd (spin (rb_sprms ?rb) w pre (sp\<lparr>sp_sxlt := x\<rparr>))"
      using up sp x by (auto simp: update_sxlt_def guardA_def split: if_splits)
    with x sp has(1) True show ?thesis using assms(1) by (simp add: with_sxlt_def rb)
  next
    case False
    have "keeps (\<lambda>v. sget (rb_sprms ?rb) v = sget (rb_sprms ?rb) w) (update_key env hby (pre, val))"
      using False has unfolding update_key_def by (auto intro!: wp keeps_prms [OF assms(1)] simp: prod.case)
    from keepsD [OF this refl assms(2)] False has(1) show ?thesis by (simp add: with_sxlt_def)
  qed
qed

lemma update_all_prms:
  assumes "rb_ok (pa_rb env hby)" and "distinct (map fst d)" and "forA d (update_key env hby) w = (Inr u, w')"
  shows "sget (rb_sprms (pa_rb env hby)) w' = (\<lambda>pre. case dict_get d pre of
           None \<Rightarrow> sget (rb_sprms (pa_rb env hby)) w pre
         | Some val \<Rightarrow> with_sxlt val (sget (rb_sprms (pa_rb env hby)) w pre))"
  using assms(2,3)
proof (induction d arbitrary: w)
  case (Cons kv d)
  obtain pre val where kv: "kv = (pre, val)" by fastforce
  from Cons.prems(2) obtain v w1 where w1: "update_key env hby (pre, val) w = (Inr v, w1)" "forA d (update_key env hby) w1 = (Inr u, w')"
    by (auto simp: kv elim!: bindA_eq_InrD)
  have "dict_get d pre = None" using Cons.prems(1) by (induction d) (auto simp: kv)
  with update_key_prms [OF assms(1) w1(1)] Cons.IH [OF _ w1(2)] Cons.prems(1) show ?case
    by (auto simp: kv fun_eq_iff split: option.splits)
qed simp

text \<open>The request that changes the passcode, up to the update of the keys.\<close>

definition passcode_request ::
  "('h, 'w, 's) passcode_env \<Rightarrow> request \<Rightarrow> string \<Rightarrow> ('h, 'w) agency \<Rightarrow> 'h agent \<Rightarrow> string \<Rightarrow> (string \<times> json) list \<Rightarrow>
   ('h, 'w) agency \<Rightarrow> bool" where
  "passcode_request env req caid s agent sxlt keys s' \<longleftrightarrow>
     dict_get (rq_params req) ''type'' \<noteq> Some (JStr ''ixn'') \<and>
     (\<exists>body rot sigs s1 w2. rq_media req = Inr (JObj body) \<and> dict_get body ''rot'' = Some rot \<and>
        dict_get body ''sigs'' = Some sigs \<and> dict_get body ''sxlt'' = Some (JStr sxlt) \<and>
        dict_get body ''keys'' = Some (JObj keys) \<and> agent_of env caid ''no agent for '' s = (Inr agent, s1) \<and>
        rotate_controller env (ag_hby agent) caid rot sigs (ay_world s1) = (Inr (), w2) \<and>
        verify (pa_auth env) req (s1\<lparr>ay_world := w2\<rparr>) = (Inr True, s'))"

lemma on_put_run:
  assumes "passcode_request env req caid s agent sxlt keys s'"
  shows "AgentResourceEnd_on_put env req rep caid s =
    bindA (ext (update_keys env (ag_hby agent) (JStr sxlt) (JObj keys))) (\<lambda>_. retA (rep\<lparr>rs_status := 204\<rparr>)) s'"
proof -
  from assms obtain body rot sigs s1 w2 where
    body: "rq_media req = Inr (JObj body)" "dict_get body ''rot'' = Some rot" "dict_get body ''sigs'' = Some sigs"
      "dict_get body ''sxlt'' = Some (JStr sxlt)" "dict_get body ''keys'' = Some (JObj keys)"
      "dict_get (rq_params req) ''type'' \<noteq> Some (JStr ''ixn'')"
    and run: "agent_of env caid ''no agent for '' s = (Inr agent, s1)"
      "rotate_controller env (ag_hby agent) caid rot sigs (ay_world s1) = (Inr (), w2)"
      "verify (pa_auth env) req (s1\<lparr>ay_world := w2\<rparr>) = (Inr True, s')"
    by (auto simp: passcode_request_def)
  have rotated: "ext (rotate_controller env (ag_hby agent) caid rot sigs) s1 = (Inr (), s1\<lparr>ay_world := w2\<rparr>)"
    by (simp add: ext_run run(2))
  show ?thesis
    using body by (simp add: AgentResourceEnd_on_put_def require_key_def bindA_def [of "agent_of e c m" for e c m] run(1)
        bindA_def [of "ext (rotate_controller e h c r d)" for e h c r d] rotated
        bindA_def [of "verify e q" for e q] run(3))
qed

text \<open>
  C7. What a change of the passcode does, once the controller's rotation is accepted and the request
  verified. When it succeeds, the salts of the identifiers it names are the new ones and no other
  parameter changes, and the global salt is gone; when it fails, the global salt is the new one, so
  that the client can fetch it and go on. But in either case every secret of a randy key that was
  stored is still the old one, encrypted for the passcode that was given up.
\<close>

theorem passcode_change:
  assumes "passcode_request env req caid s agent sxlt keys s1" and "distinct (map fst keys)"
    and "rb_ok (pa_rb env (ag_hby agent))" and "gbls_ok (pa_rb env (ag_hby agent))"
    and "AgentResourceEnd_on_put env req rep caid s = (r, s')"
  defines "rb \<equiv> pa_rb env (ag_hby agent)" and "old \<equiv> ay_world s1" and "new \<equiv> ay_world s'"
  shows "(case r of
      Inl _ \<Rightarrow> sget (rb_gbls rb) new ''sxlt'' = Some sxlt
    | Inr rep' \<Rightarrow> rs_status rep' = 204 \<and> sget (rb_gbls rb) new ''sxlt'' = None \<and>
        sget (rb_sprms rb) new = (\<lambda>pre. case dict_get keys pre of
            None \<Rightarrow> sget (rb_sprms rb) old pre | Some val \<Rightarrow> with_sxlt val (sget (rb_sprms rb) old pre))) \<and>
    sget (rb_prxs rb) old \<subseteq>\<^sub>m sget (rb_prxs rb) new \<and> sget (rb_nxts rb) old \<subseteq>\<^sub>m sget (rb_nxts rb) new"
proof -
  let ?w1 = "snd (spin (rb_gbls rb) old ''sxlt'' sxlt)"
  have gbls: "sget (rb_gbls rb) (snd (spin (rb_gbls rb) w k v)) = (sget (rb_gbls rb) w)(k \<mapsto> v)"
      "sget (rb_gbls rb) (snd (srem (rb_gbls rb) w k)) = (sget (rb_gbls rb) w)(k := None)"
      "sget (rb_sprms rb) (snd (spin (rb_gbls rb) w k v)) = sget (rb_sprms rb) w"
      "sget (rb_sprms rb) (snd (srem (rb_gbls rb) w k)) = sget (rb_sprms rb) w"
      "sget (rb_prxs rb) (snd (spin (rb_gbls rb) w k v)) = sget (rb_prxs rb) w"
      "sget (rb_prxs rb) (snd (srem (rb_gbls rb) w k)) = sget (rb_prxs rb) w"
      "sget (rb_nxts rb) (snd (spin (rb_gbls rb) w k v)) = sget (rb_nxts rb) w"
      "sget (rb_nxts rb) (snd (srem (rb_gbls rb) w k)) = sget (rb_nxts rb) w" for w k v
    using assms(4) by (simp_all add: rb_def gbls_ok_def spin_ok srem_ok frames_def)
  obtain q w2 where loop: "forA keys (update_key env (ag_hby agent)) ?w1 = (q, w2)" by fastforce
  have held: "holds_secrets rb (sget (rb_gbls rb) ?w1) (sget (rb_prxs rb) old) (sget (rb_nxts rb) old) ?w1"
    by (simp add: holds_secrets_def gbls)
  have "keeps (holds_secrets rb g p n) (forA keys (update_key env (ag_hby agent)))" for g p n
    unfolding rb_def by (intro wp keeps_update_key assms(3,4))
  from keepsD [OF this held loop] have kept: "sget (rb_gbls rb) w2 ''sxlt'' = Some sxlt"
    "sget (rb_prxs rb) old \<subseteq>\<^sub>m sget (rb_prxs rb) w2" "sget (rb_nxts rb) old \<subseteq>\<^sub>m sget (rb_nxts rb) w2"
    by (simp_all add: holds_secrets_def gbls)
  have run: "(r, s') = (case q of Inl e \<Rightarrow> (Inl e, s1\<lparr>ay_world := w2\<rparr>)
      | Inr _ \<Rightarrow> (Inr (rep\<lparr>rs_status := 204\<rparr>), s1\<lparr>ay_world := snd (srem (rb_gbls rb) w2 ''sxlt'')\<rparr>))"
    using assms(5) loop
    by (simp add: on_put_run [OF assms(1)] update_keys_def RemoteManager_set_sxlt_def RemoteManager_delete_sxlt_def
        bindA_def [of "ext m" for m] ext_run bindA_def [of "forA x f" for x f] remS_run rb_def old_def split: sum.splits)
  show ?thesis
  proof (cases q)
    case (Inl e)
    with run kept show ?thesis by (simp add: new_def)
  next
    case (Inr u)
    with loop have loop: "forA keys (update_key env (ag_hby agent)) ?w1 = (Inr u, w2)" by simp
    have "sget (rb_sprms rb) w2 = (\<lambda>pre. case dict_get keys pre of
        None \<Rightarrow> sget (rb_sprms rb) old pre | Some val \<Rightarrow> with_sxlt val (sget (rb_sprms rb) old pre))"
      using update_all_prms [OF assms(3,2) loop, folded rb_def] by (simp only: gbls)
    with run kept Inr show ?thesis by (simp add: new_def gbls)
  qed
qed

text \<open>
  C6. The signature that is checked is that of the controller the header \<open>Signify-Resource\<close> names, which
  nothing compares with the controller in the path: another controller's request that carries an
  event the Habery of this one accepts replaces the salts of this one's identifiers.
\<close>

theorem passcode_foreign_signer:
  assumes "passcode_request env req caid s agent sxlt [(pre, JObj [(''sxlt'', v)])] s1"
    and "dict_get (rq_headers req) ''SIGNIFY-RESOURCE'' = Some signer" and "signer \<noteq> caid"
    and "rb_ok (pa_rb env (ag_hby agent))" and "gbls_ok (pa_rb env (ag_hby agent))"
    and "sget (rb_sprms (pa_rb env (ag_hby agent))) (ay_world s1) pre = Some sp"
  shows "(\<forall>i \<in> set (signify_inputs (pa_auth env) req). \<exists>g w. input_verified (pa_auth env) req i signer g w) \<and>
    (\<exists>rep' s'. AgentResourceEnd_on_put env req rep caid s = (Inr rep', s') \<and> rs_status rep' = 204 \<and>
    sget (rb_sprms (pa_rb env (ag_hby agent))) (ay_world s') pre = Some (sp\<lparr>sp_sxlt := v\<rparr>))"
proof -
  let ?rb = "pa_rb env (ag_hby agent)"
  have gbls: "sget (rb_sprms ?rb) (snd (spin (rb_gbls ?rb) w k x)) = sget (rb_sprms ?rb) w"
      "sget (rb_sprms ?rb) (snd (srem (rb_gbls ?rb) w k)) = sget (rb_sprms ?rb) w" for w k x
    using assms(5) by (simp_all add: gbls_ok_def frames_def)
  from assms(1) obtain v where "verify (pa_auth env) req v = (Inr True, s1)" by (auto simp: passcode_request_def)
  from verify_verified [OF this] assms(2)
  have "\<forall>i \<in> set (signify_inputs (pa_auth env) req). \<exists>g w1 w. au_get (pa_auth env) signer w1 = (Inr (Some g), w) \<and>
      input_verified (pa_auth env) req i signer g w" by auto
  then have "\<forall>i \<in> set (signify_inputs (pa_auth env) req). \<exists>g w. input_verified (pa_auth env) req i signer g w"
    by meson
  then show ?thesis
    by (simp add: on_put_run [OF assms(1)] bindA_def [of "ext m" for m] ext_run update_keys_def update_key_def
        update_sxlt_def RemoteManager_set_sxlt_def RemoteManager_delete_sxlt_def gbls assms(4,6) rb)
qed

subsection \<open>Two controllers in memory\<close>

definition null_agency :: "('h, 'w) agency_env" where
  "null_agency =
     \<lparr>op_habery = (\<lambda>_ _ _. raiseA TypeError), op_makeHab = (\<lambda>_ _ _. raiseA TypeError), op_habByName = (\<lambda>_ _ _. None),
      op_deleteHab = (\<lambda>_ _. retA ()), op_close = (\<lambda>_ _. retA ()), op_extend = (\<lambda>_. retA ()),
      op_remove_doers = (\<lambda>_. retA ()), op_remove = (\<lambda>_. retA ()), op_run = (\<lambda>_. retA ()), op_done = (\<lambda>_ _. False),
      op_agnt_rem = (\<lambda>_. retA ()), op_agnt = null_suber, op_ctrl = null_suber, op_aids = null_suber,
      op_now = (\<lambda>_. 7), op_nowIso = (\<lambda>_. []), op_config = None, op_name = [], op_curls = None, op_iurls = None,
      op_durls = None, op_timeout = 0\<rparr>"

definition signed_input :: inputage where
  "signed_input = \<lparr>in_name = ''signify'', in_fields = [''@method''], in_created = 0, in_expires = None, in_nonce = None,
     in_keyid = None, in_context = None, in_alg = None\<rparr>"

text \<open>Keys that accept every signature of their own controller.\<close>

definition duo_auth :: "((string, mem_rks) agency, string agent, string) authenv" where
  "duo_auth =
     \<lparr>au_desiginput = (\<lambda>_. Inr [signed_input]), au_normalize = id, au_designature = (\<lambda>s. Inr [[(''signify'', s)]]),
      au_get = Agency_get null_agency, au_verfers = (\<lambda>_ _ c. Some [\<lambda>cig _. cig = c]), au_pre = ag_pre, au_now = (\<lambda>_. []),
      au_siginput = (\<lambda>_ _ _ _ _ _ _ _. Inl TypeError), au_signature = (\<lambda>_. [])\<rparr>"

definition duo_env :: "(string, mem_rks, string) passcode_env" where
  "duo_env =
     \<lparr>pa_agency = null_agency, pa_auth = duo_auth, pa_rb = (\<lambda>_. mem_keeper), pa_known = (\<lambda>_ _ _. True), pa_names = (\<lambda>_ _. []),
      pa_state = (\<lambda>_ _ _. JNull), pa_evt = (\<lambda>_ _ _ _. None), pa_ctrlHab = (\<lambda>_ _ _. True), pa_serder = mem_serder,
      pa_siger = jstr, pa_saider = jstr, pa_seqner = jstr, pa_prefixer = jstr, pa_rotate = (\<lambda>_ _ _ _. retA ()),
      pa_interact = (\<lambda>_ _ _ _. retA ()), pa_process = (\<lambda>_ _ _. retA ()), pa_setAes = (\<lambda>_ _ _ _. retA ()),
      pa_habKeys = (\<lambda>_ _ _. Inr ([''D2''], []))\<rparr>"

definition duo_entry :: "string \<Rightarrow> string entry" where
  "duo_entry c = \<lparr>en_agent = \<lparr>ag_caid = c, ag_pre = ''E'' @ c, ag_hby = c\<rparr>, en_last = 0, en_shut = False\<rparr>"

definition duo_world :: mem_rks where
  "duo_world = mem_empty\<lparr>m_sprms := DAList.update ''E1'' demo_salty DAList.empty,
     m_prxs := DAList.update ''D2'' ''P1'' DAList.empty\<rparr>"

definition duo_start :: "(string, mem_rks) agency" where
  "duo_start = \<lparr>ay_agents = [(''A'', duo_entry ''A''), (''B'', duo_entry ''B'')], ay_shut = False, ay_world = duo_world\<rparr>"

definition passcode_put :: "string \<Rightarrow> (string \<times> json) list \<Rightarrow> request" where
  "passcode_put signer keys = (json_request (JObj [(''rot'', JObj demo_icp), (''sigs'', jstrs [''AA'']),
      (''sxlt'', JStr ''new''), (''keys'', JObj keys)]))\<lparr>rq_method := ''PUT'',
      rq_headers := [(''SIGNATURE-INPUT'', ''i''), (''SIGNATURE'', signer), (''SIGNIFY-RESOURCE'', signer)]\<rparr>"

lemma mem_gbls_ok: "gbls_ok mem_keeper"
  unfolding gbls_ok_def by (intro conjI; simp add: mem_keeper_def mem_suber_ok; intro mem_suber_frames; simp add: fun_eq_iff)

lemma duo_rb: "pa_rb duo_env h = mem_keeper"
  by (simp add: duo_env_def)

lemma duo_request:
  assumes "signer \<in> {''A'', ''B''}"
  shows "\<exists>s1. passcode_request duo_env (passcode_put signer keys) ''B'' duo_start \<lparr>ag_caid = ''B'', ag_pre = ''EB'', ag_hby = ''B''\<rparr>
    ''new'' keys s1 \<and> ay_world s1 = duo_world"
proof -
  let ?agent = "\<lparr>ag_caid = ''B'', ag_pre = ''EB'', ag_hby = ''B''\<rparr>"
  let ?s1 = "set_entry ''B'' ((duo_entry ''B'')\<lparr>en_last := 7\<rparr>) duo_start"
  have found: "agent_of duo_env ''B'' ''no agent for '' duo_start = (Inr ?agent, ?s1)"
    by (simp add: agent_of_def duo_env_def Agency_get_def duo_start_def null_agency_def ext_run duo_entry_def bindA_def)
  have rotated: "rotate_controller duo_env (ag_hby ?agent) ''B'' (JObj demo_icp) (jstrs [''AA'']) (ay_world ?s1) = (Inr (), ay_world ?s1)"
    by (simp add: rotate_controller_def duo_env_def demo_icp_def list_of_def bindA_def)
  obtain r s2 where run: "verify (pa_auth duo_env) (passcode_put signer keys) ?s1 = (r, s2)" by fastforce
  have ok: "r = Inr True" "ay_world s2 = duo_world"
    using run assms by (auto simp: verify_def duo_env_def duo_auth_def passcode_put_def signed_input_def verify_input_def
        Authenticater_resource_def Agency_get_def null_agency_def ext_run bindA_def set_entry_def duo_start_def duo_entry_def)
  have same: "?s1\<lparr>ay_world := ay_world ?s1\<rparr> = ?s1" by (simp add: set_entry_def)
  have "verify (pa_auth duo_env) (passcode_put signer keys) (?s1\<lparr>ay_world := ay_world ?s1\<rparr>) = (Inr True, s2)"
    by (simp only: same run ok(1))
  with found rotated ok(2) show ?thesis
    by (intro exI [of _ s2] conjI) (simp_all only: passcode_request_def,
      intro conjI exI, auto simp: passcode_put_def json_request_def)
qed

definition duo_keys :: "(string \<times> json) list" where
  "duo_keys = [(''E1'', JObj [(''sxlt'', JStr ''s2'')]), (''E2'', JObj [(''prxs'', jstrs [''P9''])])]"

lemma duo_update: "fst (update_keys duo_env h (JStr ''new'') (JObj duo_keys) duo_world) = Inr ()"
  by code_simp

lemma duo_salty: "sget (rb_sprms mem_keeper) duo_world ''E1'' = Some demo_salty"
  by (simp add: mem_keeper_def duo_world_def)

lemma map_leD: "m \<subseteq>\<^sub>m m' \<Longrightarrow> m k = Some v \<Longrightarrow> m' k = Some v"
  by (auto simp: map_le_def dom_def)

theorem passcode_change_witness:
  "\<exists>rep' s'. AgentResourceEnd_on_put duo_env (passcode_put ''B'' duo_keys) fresh_response ''B'' duo_start = (Inr rep', s') \<and>
     rs_status rep' = 204 \<and> sget (rb_prxs mem_keeper) (ay_world s') ''D2'' = Some ''P1'' \<and>
     sget (rb_sprms mem_keeper) (ay_world s') ''E1'' = Some (demo_salty\<lparr>sp_sxlt := JStr ''s2''\<rparr>)"
proof -
  let ?agent = "\<lparr>ag_caid = ''B'', ag_pre = ''EB'', ag_hby = ''B''\<rparr>"
  from duo_request [of "''B''" duo_keys] obtain s1 where
    req: "passcode_request duo_env (passcode_put ''B'' duo_keys) ''B'' duo_start ?agent ''new'' duo_keys s1"
    and w: "ay_world s1 = duo_world" by auto
  obtain r s' where run: "AgentResourceEnd_on_put duo_env (passcode_put ''B'' duo_keys) fresh_response ''B'' duo_start = (r, s')"
    by fastforce
  have ok: "rb_ok (pa_rb duo_env (ag_hby ?agent))" "gbls_ok (pa_rb duo_env (ag_hby ?agent))"
    by (simp_all add: duo_rb mem_keeper_ok mem_gbls_ok)
  have "distinct (map fst duo_keys)" by (simp add: duo_keys_def)
  note change = passcode_change [OF req this ok run]
  have prx: "sget (rb_prxs mem_keeper) duo_world ''D2'' = Some ''P1''"
    by (simp add: mem_keeper_def duo_world_def)
  have "r = Inr (fresh_response\<lparr>rs_status := 204\<rparr>)"
    using run duo_update by (simp add: on_put_run [OF req] bindA_def [of "ext m" for m] ext_run w split: sum.splits)
  with change run prx w show ?thesis
    by (auto simp: duo_rb duo_keys_def with_sxlt_def duo_salty intro: map_leD)
qed

theorem passcode_foreign_signer_witness:
  "\<exists>rep' s'. AgentResourceEnd_on_put duo_env (passcode_put ''A'' [(''E1'', JObj [(''sxlt'', JStr ''bad'')])]) fresh_response ''B'' duo_start = (Inr rep', s') \<and>
     sget (rb_sprms mem_keeper) (ay_world s') ''E1'' = Some (demo_salty\<lparr>sp_sxlt := JStr ''bad''\<rparr>)"
proof -
  let ?keys = "[(''E1'', JObj [(''sxlt'', JStr ''bad'')])]"
  from duo_request [of "''A''" ?keys] obtain s1 where
    req: "passcode_request duo_env (passcode_put ''A'' ?keys) ''B'' duo_start \<lparr>ag_caid = ''B'', ag_pre = ''EB'', ag_hby = ''B''\<rparr> ''new'' ?keys s1"
    and w: "ay_world s1 = duo_world" by auto
  have sp: "sget (rb_sprms mem_keeper) duo_world ''E1'' = Some demo_salty"
    by (simp add: mem_keeper_def duo_world_def)
  have signer: "dict_get (rq_headers (passcode_put ''A'' ?keys)) ''SIGNIFY-RESOURCE'' = Some ''A''"
    by (simp add: passcode_put_def)
  from passcode_foreign_signer [OF req signer, of demo_salty fresh_response] sp w
  show ?thesis by (auto simp: duo_rb mem_keeper_ok mem_gbls_ok)
qed

end
