(* ===== verification/Escrows.thy ===== *)
theory Escrows
  imports Identifiers
begin

text \<open>
  The escrows an event of the agent waits in, \<open>Registrar\<close> and \<open>Credentialer\<close> of
  \<open>app/credentialing.py\<close>: registries and credentials go from \<open>tpwe\<close> or \<open>tmse\<close> to \<open>tede\<close> to \<open>ctel\<close>, and from \<open>cmse\<close> to
  \<open>ccrd\<close>. The delegated events (\<open>Delegating\<close>) share the locale. A pass goes
  once over the entries of a stage, as they were when it began (an iteration reads a snapshot of the
  database), and moves those that are ready. A sequence number stands for its \<open>Seqner\<close>, whose text of
  fixed width is part of the keys.
\<close>

subsection \<open>A pass over a stage\<close>

datatype verdict = Stays | Moves | Drops

text \<open>
  \<open>held\<close> are the entries of the stage, \<open>arrived\<close> what the next one has got. A key may have several
  entries; one that moves or is dropped takes the others of its key out with it.
\<close>

locale escrow =
  fixes step :: "'k \<times> 'v \<Rightarrow> ('s, unit) act" and fine :: "'s \<Rightarrow> 'k \<times> 'v \<Rightarrow> bool"
    and verdict :: "'s \<Rightarrow> 'k \<times> 'v \<Rightarrow> verdict" and out :: "'k \<times> 'v \<Rightarrow> 't"
    and held :: "'s \<Rightarrow> ('k \<times> 'v) set" and arrived :: "'s \<Rightarrow> 't set"
    and sent :: "'s \<Rightarrow> 'm list" and message :: "'s \<Rightarrow> 'k \<times> 'v \<Rightarrow> 'm list" and rest :: "'s \<Rightarrow> 'o"
  assumes returns: "fine s e \<Longrightarrow> fst (step e s) = Inr ()"
    and held_step: "fine s e \<Longrightarrow> held (snd (step e s)) =
      (if verdict s e = Stays then held s else {p \<in> held s. fst p \<noteq> fst e})"
    and arrived_step: "fine s e \<Longrightarrow> arrived (snd (step e s)) =
      (if verdict s e = Moves then insert (out e) (arrived s) else arrived s)"
    and sent_step: "fine s e \<Longrightarrow> sent (snd (step e s)) =
      sent s @ (if verdict s e = Moves then message s e else [])"
    and rest_step: "fine s e \<Longrightarrow> rest (snd (step e s)) = rest s"
    and fine_step: "fine s e \<Longrightarrow> fine (snd (step e s)) = fine s"
    and rest_cong: "rest s = rest t \<Longrightarrow> verdict s = verdict t \<and> message s = message t"
begin

lemma pass:
  assumes "\<forall>e \<in> set es. fine s e"
  shows "\<exists>s'. forA es step s = (Inr (), s') \<and> rest s' = rest s \<and>
    held s' = {p \<in> held s. \<forall>e \<in> set es. fst e = fst p \<longrightarrow> verdict s e = Stays} \<and>
    arrived s' = arrived s \<union> out ` {e \<in> set es. verdict s e = Moves} \<and>
    sent s' = sent s @ concat (map (message s) (filter (\<lambda>e. verdict s e = Moves) es)) \<and>
    fine s' = fine s"
  using assms
proof (induction es arbitrary: s)
  case (Cons e es)
  obtain s1 where s1: "step e s = (Inr (), s1)" using returns [of s e] Cons.prems by (cases "step e s") auto
  have fine: "fine s e" using Cons.prems by simp
  note one = held_step [OF fine] arrived_step [OF fine] sent_step [OF fine] rest_step [OF fine]
  have cong: "fine s1 = fine s" "verdict s1 = verdict s" "message s1 = message s"
    using rest_cong [of s1 s] fine_step [OF fine] one(4) s1 by simp_all
  from Cons.IH [of s1] Cons.prems cong one(4) s1 obtain s' where
    s': "forA es step s1 = (Inr (), s')" "rest s' = rest s"
      "held s' = {p \<in> held s1. \<forall>e \<in> set es. fst e = fst p \<longrightarrow> verdict s e = Stays}"
      "arrived s' = arrived s1 \<union> out ` {e \<in> set es. verdict s e = Moves}"
      "sent s' = sent s1 @ concat (map (message s) (filter (\<lambda>e. verdict s e = Moves) es))" "fine s' = fine s"
    by auto
  have "forA (e # es) step s = (Inr (), s')" using s1 s'(1) by (simp add: bindA_Inr)
  moreover have "held s' = {p \<in> held s. \<forall>x \<in> set (e # es). fst x = fst p \<longrightarrow> verdict s x = Stays}"
    using s'(3) one(1) s1 by auto
  moreover have "arrived s' = arrived s \<union> out ` {x \<in> set (e # es). verdict s x = Moves}"
    using s'(4) one(2) s1 by auto
  moreover have "sent s' = sent s @ concat (map (message s) (filter (\<lambda>x. verdict s x = Moves) (e # es)))"
    using s'(5) one(3) s1 by simp
  ultimately show ?case using s'(2,6) by blast
qed simp

text \<open>A pass over all the entries of the stage.\<close>

lemma whole_pass:
  assumes "\<forall>e \<in> held s. fine s e" and "set es = held s"
  obtains s' where "forA es step s = (Inr (), s')" and "rest s' = rest s"
    and "held s' = {p \<in> held s. \<forall>e \<in> held s. fst e = fst p \<longrightarrow> verdict s e = Stays}"
    and "arrived s' = arrived s \<union> out ` {e \<in> held s. verdict s e = Moves}"
    and "sent s' = sent s @ concat (map (message s) (filter (\<lambda>e. verdict s e = Moves) es))"
    and "fine s' = fine s"
  using pass [of es s] assms by auto

end

subsection \<open>The registrar\<close>

text \<open>The seal of the key event that anchors an event: its prefix, sequence number and digest.\<close>

type_synonym seal = "string \<times> int \<times> string"

record registry =
  ry_hab :: hab
  ry_regk :: string
  ry_regd :: string

record creder =
  cr_said :: string
  cr_schema :: json
  cr_raw :: string

text \<open>
  The databases of the registries and what the registrar asks of the key events: \<open>te_hkever\<close> is prefix,
  sequence number and digest of the last event of a Hab, \<open>te_wits\<close> the witnesses of a key state,
  \<open>te_wigs\<close> the number of witness receipts of an event.
\<close>

record 'w tel_env =
  te_tpwe :: "('w, string \<times> int, seal) dupsuber"
  te_tmse :: "('w, string \<times> int \<times> string, seal) dupsuber"
  te_tede :: "('w, string \<times> int, seal) dupsuber"
  te_ctel :: "('w, string \<times> int, string) suber"
  te_cmse :: "('w, string \<times> int, creder) suber"
  te_ccrd :: "('w, string, creder) suber"
  te_hkever :: "'w \<Rightarrow> hab \<Rightarrow> exn + seal"
  te_wits :: "'w \<Rightarrow> string \<Rightarrow> string list option"
  te_wigs :: "'w \<Rightarrow> string \<Rightarrow> string \<Rightarrow> nat"
  te_habs :: "'w \<Rightarrow> string \<Rightarrow> hab option"
  te_complete :: "'w \<Rightarrow> seal \<Rightarrow> exn + bool"
  te_start :: "seal \<Rightarrow> hab \<Rightarrow> ('w, unit) act"
  te_regs :: "'w \<Rightarrow> json \<Rightarrow> exn + registry"
  te_seqner :: "json \<Rightarrow> exn + int"
  te_serder :: "json \<Rightarrow> exn + serder"
  te_processEvent :: "registry \<Rightarrow> serder \<Rightarrow> ('w, unit) act"
  te_anchorMsg :: "string \<Rightarrow> string \<Rightarrow> int \<Rightarrow> string \<Rightarrow> ('w, unit) act"
  te_putAnc :: "string \<Rightarrow> string \<Rightarrow> int \<Rightarrow> string \<Rightarrow> ('w, unit) act"
  te_hasTel :: "'w \<Rightarrow> string \<Rightarrow> int \<Rightarrow> bool"
  te_cloneTel :: "'w \<Rightarrow> string \<Rightarrow> int \<Rightarrow> string list"
  te_resolve :: "'w \<Rightarrow> json \<Rightarrow> string"
  te_schemer :: "string \<Rightarrow> exn + json"
  te_verify :: "json \<Rightarrow> string \<Rightarrow> exn + unit"
  te_show :: "json \<Rightarrow> string"
  te_processCredential :: "creder \<Rightarrow> seal \<Rightarrow> ('w, unit) act"
  te_saved :: "'w \<Rightarrow> string \<Rightarrow> string option"

text \<open>
  The registrar with the agent's \<open>witDoer\<close> and \<open>witPub\<close>: \<open>rg_receipts\<close> are the events to get receipts
  for (\<open>witDoer.msgs\<close>), \<open>rg_cues\<close> those whose receipts \<open>witDoer\<close> has collected, \<open>rg_publish\<close> what is to be
  published (\<open>witPub.msgs\<close>). These queues live in memory.
\<close>

record 'w registrar =
  rg_receipts :: "(string \<times> int) list"
  rg_cues :: "(string \<times> int) list"
  rg_publish :: "(string \<times> string) list"
  rg_world :: 'w

definition rext :: "('w, 'a) act \<Rightarrow> ('w registrar, 'a) act" where
  "rext m = zoomA rg_world (\<lambda>w s. s\<lparr>rg_world := w\<rparr>) m"

lemma rext_run: "rext m s = (fst (m (rg_world s)), s\<lparr>rg_world := snd (m (rg_world s))\<rparr>)"
  by (simp add: rext_def zoomA_def split_beta)

fun is_group :: "hab \<Rightarrow> bool" where
  "is_group (SignifyGroupHab _ _) = True"
| "is_group _ = False"

text \<open>What \<open>incept\<close>, \<open>issue\<close> and \<open>revoke\<close> do for an identifier that is not a group.\<close>

definition anchor_single ::
  "'w tel_env \<Rightarrow> hab \<Rightarrow> string \<Rightarrow> string \<Rightarrow> int \<Rightarrow> ('w registrar, unit) act" where
  "anchor_single env hab vcid regd rseq =
     bindA (rext (readA (\<lambda>w. te_hkever env w hab))) (\<lambda>(prefixer, seqner, saider).
     seqA (rext (te_anchorMsg env vcid regd seqner saider))
     (seqA (modA (\<lambda>s. s\<lparr>rg_receipts := rg_receipts s @ [(hb_pre hab, seqner)]\<rparr>))
     (bindA (rext (addD (te_tpwe env) (vcid, rseq) (prefixer, seqner, saider))) (\<lambda>_. retA ()))))"

definition anchor_group ::
  "'w tel_env \<Rightarrow> string \<Rightarrow> string \<Rightarrow> int \<Rightarrow> seal \<Rightarrow> ('w registrar, unit) act" where
  "anchor_group env vcid regd rseq seal =
     bindA (rext (addD (te_tmse env) (vcid, rseq, regd) seal)) (\<lambda>_. retA ())"

definition ked_text :: "serder \<Rightarrow> string \<Rightarrow> ('w, string) act" where
  "ked_text serder f = bindA (liftA (jitem (se_ked serder) f)) (\<lambda>v. liftA (jstr v))"

definition ked_number :: "'w tel_env \<Rightarrow> serder \<Rightarrow> string \<Rightarrow> ('s, int) act" where
  "ked_number env serder f = bindA (liftA (jitem (se_ked serder) f)) (\<lambda>v. liftA (te_seqner env v))"

definition Registrar_incept :: "'w tel_env \<Rightarrow> hab \<Rightarrow> registry \<Rightarrow> seal \<Rightarrow> ('w registrar, unit) act" where
  "Registrar_incept env hab registry seal =
     (if \<not> is_group hab then anchor_single env hab (ry_regk registry) (ry_regd registry) 0
      else anchor_group env (ry_regk registry) (ry_regd registry) 0 seal)"

definition Registrar_issue :: "'w tel_env \<Rightarrow> json \<Rightarrow> serder \<Rightarrow> serder \<Rightarrow> ('w registrar, string \<times> int) act" where
  "Registrar_issue env regk iserder anc =
     bindA (rext (readA (\<lambda>w. te_regs env w regk))) (\<lambda>registry.
     seqA (rext (te_processEvent env registry iserder))
     (bindA (ked_text iserder ''i'') (\<lambda>vcid.
      bindA (ked_number env iserder ''s'') (\<lambda>rseq.
      seqA (if \<not> is_group (ry_hab registry) then anchor_single env (ry_hab registry) vcid (se_said iserder) rseq
            else anchor_group env vcid (se_said iserder) rseq (hb_pre (ry_hab registry), se_sn anc, se_said anc))
        (retA (vcid, rseq))))))"

definition Registrar_revoke :: "'w tel_env \<Rightarrow> json \<Rightarrow> serder \<Rightarrow> json \<Rightarrow> ('w registrar, string \<times> int) act" where
  "Registrar_revoke env regk rserder anc =
     bindA (rext (readA (\<lambda>w. te_regs env w regk))) (\<lambda>registry.
     seqA (rext (te_processEvent env registry rserder))
     (bindA (ked_text rserder ''i'') (\<lambda>vcid.
      bindA (ked_number env rserder ''s'') (\<lambda>rseq.
      seqA (if \<not> is_group (ry_hab registry) then anchor_single env (ry_hab registry) vcid (se_said rserder) rseq
            else
              bindA (liftA (te_serder env anc)) (\<lambda>serder.
              let seal = (hb_pre (ry_hab registry), se_sn serder, se_said serder) in
              seqA (rext (te_start env seal (ry_hab registry)))
                (anchor_group env vcid (se_said rserder) rseq seal)))
        (retA (vcid, rseq))))))"

definition Registrar_complete :: "'w tel_env \<Rightarrow> string \<Rightarrow> int \<Rightarrow> ('w, bool) act" where
  "Registrar_complete env pre sn = bindA (getS (te_ctel env) (pre, sn)) (\<lambda>said. retA (said \<noteq> None))"

definition witness_step :: "'w tel_env \<Rightarrow> (string \<times> int) \<times> seal \<Rightarrow> ('w registrar, unit) act" where
  "witness_step env = (\<lambda>((regk, sn), (prefixer, seqner, saider)).
     bindA (getA (\<lambda>s. te_wits env (rg_world s) prefixer)) (\<lambda>kever.
     case kever of
       None \<Rightarrow> raiseA (KeyError prefixer)
     | Some wits \<Rightarrow>
         bindA (getA (\<lambda>s. te_wigs env (rg_world s) prefixer saider)) (\<lambda>wigs.
         bindA (if wits = [] then retA True
                else if wigs = length wits then
                  bindA (getA (\<lambda>s. te_habs env (rg_world s) prefixer)) (\<lambda>hab.
                  case hab of
                    None \<Rightarrow> raiseA (KeyError prefixer)
                  | Some hab \<Rightarrow> getA (\<lambda>s. (hb_pre hab, seqner) \<in> set (rg_cues s)))
                else retA False) (\<lambda>ready.
         whenA ready
           (bindA (rext (remD (te_tpwe env) (regk, sn) None)) (\<lambda>_.
            bindA (rext (addD (te_tede env) (regk, sn) (prefixer, seqner, saider))) (\<lambda>_. retA ())))))))"

definition processWitnessEscrow :: "'w tel_env \<Rightarrow> ('w registrar, unit) act" where
  "processWitnessEscrow env =
     bindA (getA (\<lambda>s. ditems (te_tpwe env) (rg_world s))) (\<lambda>items. forA items (witness_step env))"

definition multisig_step :: "'w tel_env \<Rightarrow> (string \<times> int \<times> string) \<times> seal \<Rightarrow> ('w registrar, unit) act" where
  "multisig_step env = (\<lambda>((regk, sn, regd), (prefixer, seqner, saider)).
     bindA (getA (\<lambda>s. te_complete env (rg_world s) (prefixer, seqner, saider))) (\<lambda>r.
     case r of
       Inl e \<Rightarrow>
         (case e of
            ValidationError _ \<Rightarrow> bindA (rext (remD (te_tmse env) (regk, sn, regd) None)) (\<lambda>_. retA ())
          | _ \<Rightarrow> raiseA e)
     | Inr complete \<Rightarrow>
         whenA complete
           (seqA (rext (te_putAnc env regk regd seqner saider))
           (bindA (rext (remD (te_tmse env) (regk, sn, regd) None)) (\<lambda>_.
            bindA (rext (addD (te_tede env) (regk, sn) (prefixer, seqner, saider))) (\<lambda>_. retA ()))))))"

definition processMultisigEscrow :: "'w tel_env \<Rightarrow> ('w registrar, unit) act" where
  "processMultisigEscrow env =
     bindA (getA (\<lambda>s. ditems (te_tmse env) (rg_world s))) (\<lambda>items. forA items (multisig_step env))"

definition dissemination_step :: "'w tel_env \<Rightarrow> (string \<times> int) \<times> seal \<Rightarrow> ('w registrar, unit) act" where
  "dissemination_step env = (\<lambda>((regk, sn), (prefixer, seqner, saider)).
     bindA (getA (\<lambda>s. te_hasTel env (rg_world s) regk sn)) (\<lambda>dig.
     whenA dig
       (bindA (rext (remD (te_tede env) (regk, sn) None)) (\<lambda>_.
        bindA (getA (\<lambda>s. concat (te_cloneTel env (rg_world s) regk sn))) (\<lambda>tevt.
        seqA (modA (\<lambda>s. s\<lparr>rg_publish := rg_publish s @ [(prefixer, tevt)]\<rparr>))
        (bindA (rext (putS (te_ctel env) (regk, sn) saider)) (\<lambda>_. retA ())))))))"

definition processDiseminationEscrow :: "'w tel_env \<Rightarrow> ('w registrar, unit) act" where
  "processDiseminationEscrow env =
     bindA (getA (\<lambda>s. ditems (te_tede env) (rg_world s))) (\<lambda>items. forA items (dissemination_step env))"

definition Registrar_processEscrows :: "'w tel_env \<Rightarrow> ('w registrar, unit) act" where
  "Registrar_processEscrows env =
     seqA (processWitnessEscrow env) (seqA (processMultisigEscrow env) (processDiseminationEscrow env))"

subsection \<open>The credentialer\<close>

definition schema_missing :: "string \<Rightarrow> exn" where
  "schema_missing schema = ConfigurationError (''Credential schema '' @ schema @
     '' not found.  It must be loaded with data oobi before issuing credentials'')"

definition schema_failed :: "string \<Rightarrow> string \<Rightarrow> exn" where
  "schema_failed schema ex = ConfigurationError (''Credential schema validation failed for '' @ schema @ '': '' @ ex)"

definition Credentialer_validate :: "'w tel_env \<Rightarrow> creder \<Rightarrow> ('w, bool) act" where
  "Credentialer_validate env creder =
     bindA (getA (\<lambda>w. te_resolve env w (cr_schema creder))) (\<lambda>scraw.
     seqA (guardA (scraw \<noteq> []) (schema_missing (te_show env (cr_schema creder))))
     (bindA (liftA (te_schemer env scraw)) (\<lambda>schemer.
      case te_verify env schemer (cr_raw creder) of
        Inl e \<Rightarrow> (case e of ValidationError ex \<Rightarrow> raiseA (schema_failed (te_show env (cr_schema creder)) ex) | _ \<Rightarrow> raiseA e)
      | Inr _ \<Rightarrow> retA True)))"

definition Credentialer_issue :: "'w tel_env \<Rightarrow> creder \<Rightarrow> serder \<Rightarrow> ('w, unit) act" where
  "Credentialer_issue env creder serder =
     bindA (putS (te_cmse env) (cr_said creder, se_sn serder) creder) (\<lambda>_.
     catchA (te_processCredential env creder (se_pre serder, se_sn serder, se_said serder))
       (\<lambda>e. if e = MissingRegistryError then Some (retA ()) else None))"

definition missing_sig_step :: "'w tel_env \<Rightarrow> (string \<times> int) \<times> creder \<Rightarrow> ('w, unit) act" where
  "missing_sig_step env = (\<lambda>((said, sn), creder).
     bindA (Registrar_complete env said sn) (\<lambda>complete.
     if \<not> complete then retA ()
     else
       bindA (getA (\<lambda>w. te_saved env w said)) (\<lambda>saider.
       if saider = None then retA ()
       else
         bindA (remS (te_cmse env) (said, sn)) (\<lambda>_.
         bindA (putS (te_ccrd env) (cr_said creder) creder) (\<lambda>_. retA ())))))"

definition processCredentialMissingSigEscrow :: "'w tel_env \<Rightarrow> ('w, unit) act" where
  "processCredentialMissingSigEscrow env =
     bindA (itemsS (te_cmse env)) (\<lambda>items. forA items (missing_sig_step env))"

definition Credentialer_complete :: "'w tel_env \<Rightarrow> string \<Rightarrow> ('w, bool) act" where
  "Credentialer_complete env said = bindA (getS (te_ccrd env) said) (\<lambda>c. retA (c \<noteq> None))"

text \<open>
  The calls of \<open>Escrower.recur\<close> (modelled in \<open>Doers\<close>) for the agent: those of \<open>keri\<close>'s own escrows are an argument.
\<close>

definition agent_escrows :: "'w tel_env \<Rightarrow> (string \<Rightarrow> ('w, unit) act) \<Rightarrow> string \<Rightarrow> ('w registrar, unit) act" where
  "agent_escrows env keri name =
     (if name = ''registrar'' then Registrar_processEscrows env
      else if name = ''credentialer'' then rext (processCredentialMissingSigEscrow env)
      else rext (keri name))"

definition keri_escrows :: "(string \<Rightarrow> ('w, unit) act) \<Rightarrow> ('w, unit) act" where
  "keri_escrows keri = forA [''kvy'', ''kvyDelegables'', ''rgy'', ''rvyReply'', ''tvy'', ''exc'', ''vry''] keri"

lemma bindA_ret: "bindA (retA x) f = f x"
  by (rule ext) simp

lemma Escrower_keri:
  assumes "keri_escrows keri (rg_world s) = (Inr (), w)"
  shows "Escrower_recur (agent_escrows env keri) True s =
    seqA (Registrar_processEscrows env) (seqA (rext (processCredentialMissingSigEscrow env)) (retA False)) (s\<lparr>rg_world := w\<rparr>)"
proof -
  have lift: "forA ns (\<lambda>n. rext (keri n)) s = (fst (forA ns keri (rg_world s)), s\<lparr>rg_world := snd (forA ns keri (rg_world s))\<rparr>)" for ns s
    by (induction ns arbitrary: s) (auto simp: bindA_def rext_run split: prod.splits sum.splits)
  let ?keri = "[''kvy'', ''kvyDelegables'', ''rgy'', ''rvyReply'', ''tvy'', ''exc'', ''vry'']"
  have "Escrower_recur (agent_escrows env keri) True s =
      bindA (forA ?keri (\<lambda>n. rext (keri n)))
        (\<lambda>_. seqA (Registrar_processEscrows env) (seqA (rext (processCredentialMissingSigEscrow env)) (retA False))) s"
    by (simp add: Escrower_recur_def agent_escrows_def bindA_assoc seqA_def bindA_ret)
  also have "\<dots> = seqA (Registrar_processEscrows env) (seqA (rext (processCredentialMissingSigEscrow env)) (retA False)) (s\<lparr>rg_world := w\<rparr>)"
    by (rule bindA_Inr) (use lift [of ?keri s] assms in \<open>simp only: keri_escrows_def fst_conv snd_conv\<close>)
  finally show ?thesis .
qed

subsection \<open>The stages of the registrar\<close>

text \<open>
  The databases behave as documented, and neither a change of one of them nor an anchor of a group
  event touches another one or what is read of the key events.
\<close>

definition tel_reads where
  "tel_reads env w = (te_wits env w, te_wigs env w, te_habs env w, te_complete env w, te_hasTel env w, te_cloneTel env w, te_saved env w)"

definition single_stores where
  "single_stores env w = (sget (te_ctel env) w, sget (te_cmse env) w, sget (te_ccrd env) w, tel_reads env w)"

definition tel_ok :: "'w tel_env \<Rightarrow> bool" where
  "tel_ok env \<longleftrightarrow>
     dup_ok (te_tpwe env) \<and> dup_ok (te_tmse env) \<and> dup_ok (te_tede env) \<and>
     suber_ok (te_ctel env) \<and> suber_ok (te_cmse env) \<and> suber_ok (te_ccrd env) \<and>
     dframes (te_tpwe env) (\<lambda>w. (dget (te_tmse env) w, dget (te_tede env) w, single_stores env w)) \<and>
     dframes (te_tmse env) (\<lambda>w. (dget (te_tpwe env) w, dget (te_tede env) w, single_stores env w)) \<and>
     dframes (te_tede env) (\<lambda>w. (dget (te_tpwe env) w, dget (te_tmse env) w, single_stores env w)) \<and>
     frames (te_ctel env) (\<lambda>w. (dget (te_tpwe env) w, dget (te_tmse env) w, dget (te_tede env) w,
       sget (te_cmse env) w, sget (te_ccrd env) w, tel_reads env w)) \<and>
     frames (te_cmse env) (\<lambda>w. (sget (te_ctel env) w, sget (te_ccrd env) w, tel_reads env w)) \<and>
     frames (te_ccrd env) (\<lambda>w. (sget (te_ctel env) w, sget (te_cmse env) w, tel_reads env w)) \<and>
     (\<forall>k d n t w. fst (te_putAnc env k d n t w) = Inr () \<and>
        (let w' = snd (te_putAnc env k d n t w) in
         dget (te_tpwe env) w' = dget (te_tpwe env) w \<and> dget (te_tmse env) w' = dget (te_tmse env) w \<and>
         dget (te_tede env) w' = dget (te_tede env) w \<and> single_stores env w' = single_stores env w))"

named_theorems tel \<open>what the databases of the registrar leave alone\<close>

lemma tel_laws [tel]:
  assumes "tel_ok env"
  shows "dup_ok (te_tpwe env)" "dup_ok (te_tmse env)" "dup_ok (te_tede env)"
    "suber_ok (te_ctel env)" "suber_ok (te_cmse env)" "suber_ok (te_ccrd env)"
  using assms by (simp_all add: tel_ok_def)

lemma tpwe_frame [tel]:
  assumes "tel_ok env"
  shows "dget (te_tmse env) (snd (drem (te_tpwe env) w k x)) = dget (te_tmse env) w"
    "dget (te_tede env) (snd (drem (te_tpwe env) w k x)) = dget (te_tede env) w"
    "single_stores env (snd (drem (te_tpwe env) w k x)) = single_stores env w"
  using assms by (simp_all add: tel_ok_def frames_Pair dframes_store)

lemma tmse_frame [tel]:
  assumes "tel_ok env"
  shows "dget (te_tpwe env) (snd (drem (te_tmse env) w m x)) = dget (te_tpwe env) w"
    "dget (te_tede env) (snd (drem (te_tmse env) w m x)) = dget (te_tede env) w"
    "single_stores env (snd (drem (te_tmse env) w m x)) = single_stores env w"
  using assms by (simp_all add: tel_ok_def frames_Pair dframes_store)

lemma tede_frame [tel]:
  assumes "tel_ok env"
  shows "dget (te_tpwe env) (snd (dadd (te_tede env) w k v)) = dget (te_tpwe env) w"
    "dget (te_tmse env) (snd (dadd (te_tede env) w k v)) = dget (te_tmse env) w"
    "single_stores env (snd (dadd (te_tede env) w k v)) = single_stores env w"
    "dget (te_tpwe env) (snd (drem (te_tede env) w k x)) = dget (te_tpwe env) w"
    "dget (te_tmse env) (snd (drem (te_tede env) w k x)) = dget (te_tmse env) w"
    "single_stores env (snd (drem (te_tede env) w k x)) = single_stores env w"
  using assms by (simp_all add: tel_ok_def frames_Pair dframes_store)

lemma ctel_frame [tel]:
  assumes "tel_ok env"
  shows "dget (te_tpwe env) (snd (sput (te_ctel env) w k d)) = dget (te_tpwe env) w"
    "dget (te_tmse env) (snd (sput (te_ctel env) w k d)) = dget (te_tmse env) w"
    "dget (te_tede env) (snd (sput (te_ctel env) w k d)) = dget (te_tede env) w"
    "sget (te_cmse env) (snd (sput (te_ctel env) w k d)) = sget (te_cmse env) w"
    "sget (te_ccrd env) (snd (sput (te_ctel env) w k d)) = sget (te_ccrd env) w"
    "tel_reads env (snd (sput (te_ctel env) w k d)) = tel_reads env w"
  using assms by (simp_all add: tel_ok_def frames_Pair frames_store)

lemma putAnc_frame [tel]:
  assumes "tel_ok env"
  shows "fst (te_putAnc env k d n t w) = Inr ()"
    "dget (te_tpwe env) (snd (te_putAnc env k d n t w)) = dget (te_tpwe env) w"
    "dget (te_tmse env) (snd (te_putAnc env k d n t w)) = dget (te_tmse env) w"
    "dget (te_tede env) (snd (te_putAnc env k d n t w)) = dget (te_tede env) w"
    "single_stores env (snd (te_putAnc env k d n t w)) = single_stores env w"
  using assms by (simp_all add: tel_ok_def Let_def)

definition waiting :: "('w, 'k, 'v) dupsuber \<Rightarrow> 'w \<Rightarrow> ('k \<times> 'v) set" where
  "waiting db w = {(k, v). v \<in> set (dget db w k)}"

lemma waiting_items: "dup_ok db \<Longrightarrow> set (ditems db w) = waiting db w"
  by (auto simp: waiting_def ditems_iff)

lemma waiting_add: "dup_ok db \<Longrightarrow> waiting db (snd (dadd db w k v)) = insert (k, v) (waiting db w)"
  by (auto simp: waiting_def dadd_ok split: if_splits)

lemma waiting_rem: "dup_ok db \<Longrightarrow> waiting db (snd (drem db w k None)) = {p \<in> waiting db w. fst p \<noteq> k}"
  by (auto simp: waiting_def drem_ok split: if_splits)

lemma waiting_same: "dget db w = dget db w' \<Longrightarrow> waiting db w = waiting db w'"
  by (simp add: waiting_def)

text \<open>
  An event is witnessed when all the witnesses of the current key state have given a receipt of its
  anchor and the cue of the receiptor for it is in memory.
\<close>

definition tpwe_known :: "'w tel_env \<Rightarrow> 'w registrar \<Rightarrow> (string \<times> int) \<times> seal \<Rightarrow> bool" where
  "tpwe_known env s = (\<lambda>(k, (pre, n, said)).
     tel_ok env \<and> te_wits env (rg_world s) pre \<noteq> None \<and> te_habs env (rg_world s) pre \<noteq> None)"

definition receipted :: "'w tel_env \<Rightarrow> 'w \<Rightarrow> seal \<Rightarrow> bool" where
  "receipted env w = (\<lambda>(pre, n, said). te_wigs env w pre said = length (the (te_wits env w pre)))"

definition cued :: "'w tel_env \<Rightarrow> 'w registrar \<Rightarrow> seal \<Rightarrow> bool" where
  "cued env s = (\<lambda>(pre, n, said). (hb_pre (the (te_habs env (rg_world s) pre)), n) \<in> set (rg_cues s))"

definition tpwe_verdict :: "'w tel_env \<Rightarrow> 'w registrar \<Rightarrow> (string \<times> int) \<times> seal \<Rightarrow> verdict" where
  "tpwe_verdict env s = (\<lambda>(k, v).
     if the (te_wits env (rg_world s) (fst v)) = [] \<or> receipted env (rg_world s) v \<and> cued env s v then Moves else Stays)"

definition tmse_known :: "'w tel_env \<Rightarrow> 'w registrar \<Rightarrow> (string \<times> int \<times> string) \<times> seal \<Rightarrow> bool" where
  "tmse_known env s = (\<lambda>(k, v).
     tel_ok env \<and> (case te_complete env (rg_world s) v of Inl e \<Rightarrow> \<exists>m. e = ValidationError m | Inr _ \<Rightarrow> True))"

definition tmse_verdict :: "'w tel_env \<Rightarrow> 'w registrar \<Rightarrow> (string \<times> int \<times> string) \<times> seal \<Rightarrow> verdict" where
  "tmse_verdict env s = (\<lambda>(k, v).
     case te_complete env (rg_world s) v of Inl e \<Rightarrow> Drops | Inr b \<Rightarrow> if b then Moves else Stays)"

fun tmse_out :: "(string \<times> int \<times> string) \<times> seal \<Rightarrow> (string \<times> int) \<times> seal" where
  "tmse_out ((regk, sn, regd), v) = ((regk, sn), v)"

definition tede_verdict :: "'w tel_env \<Rightarrow> 'w registrar \<Rightarrow> (string \<times> int) \<times> seal \<Rightarrow> verdict" where
  "tede_verdict env s = (\<lambda>((pre, n), v). if te_hasTel env (rg_world s) pre n then Moves else Stays)"

definition tede_message :: "'w tel_env \<Rightarrow> 'w registrar \<Rightarrow> (string \<times> int) \<times> seal \<Rightarrow> (string \<times> string) list" where
  "tede_message env s = (\<lambda>((pre, n), v). [(fst v, concat (te_cloneTel env (rg_world s) pre n))])"

definition finished_tels :: "'w tel_env \<Rightarrow> 'w registrar \<Rightarrow> (string \<times> int) set" where
  "finished_tels env s = {k. sget (te_ctel env) (rg_world s) k \<noteq> None}"

definition memory :: "'w registrar \<Rightarrow> (string \<times> int) list \<times> (string \<times> int) list" where
  "memory s = (rg_receipts s, rg_cues s)"

definition later where
  "later env w = (sget (te_cmse env) w, sget (te_ccrd env) w, tel_reads env w)"

lemma later_single: "later env w = snd (single_stores env w)"
  by (simp add: later_def single_stores_def)

interpretation tpwe: escrow "witness_step env" "tpwe_known env" "tpwe_verdict env" "\<lambda>e. e"
  "\<lambda>s. waiting (te_tpwe env) (rg_world s)" "\<lambda>s. waiting (te_tede env) (rg_world s)" rg_publish "\<lambda>_ _. []"
  "\<lambda>s. (memory s, dget (te_tmse env) (rg_world s), single_stores env (rg_world s))"
proof
  fix s e
  assume known: "tpwe_known env s e"
  obtain r m p n d where e: "e = ((r, m), (p, n, d))" by (metis prod.exhaust)
  from known have ok: "tel_ok env" by (auto simp: tpwe_known_def e)
  from known obtain wits hab where kw: "te_wits env (rg_world s) p = Some wits"
    and kh: "te_habs env (rg_world s) p = Some hab" by (auto simp: tpwe_known_def e)
  let ?w = "snd (dadd (te_tede env) (snd (drem (te_tpwe env) (rg_world s) (r, m) None)) (r, m) (p, n, d))"
  have run: "witness_step env e s =
      (Inr (), if tpwe_verdict env s e = Moves then s\<lparr>rg_world := ?w\<rparr> else s)"
    using kw kh
    by (simp add: e witness_step_def tpwe_verdict_def receipted_def cued_def bindA_def rext_run)
  note run = run [unfolded e]
  have verdict: "tpwe_verdict env s e = Moves \<or> tpwe_verdict env s e = Stays"
    by (simp add: tpwe_verdict_def split_beta)
  have single: "single_stores env ?w = single_stores env (rg_world s)" by (simp add: tel [OF ok])
  show "fst (witness_step env e s) = Inr ()" by (simp add: run e)
  show "waiting (te_tpwe env) (rg_world (snd (witness_step env e s))) =
      (if tpwe_verdict env s e = Stays then waiting (te_tpwe env) (rg_world s)
       else {q \<in> waiting (te_tpwe env) (rg_world s). fst q \<noteq> fst e})"
    using verdict by (auto simp: run e waiting_rem tel [OF ok] waiting_def drem_ok split: if_splits)
  show "waiting (te_tede env) (rg_world (snd (witness_step env e s))) =
      (if tpwe_verdict env s e = Moves then insert e (waiting (te_tede env) (rg_world s))
       else waiting (te_tede env) (rg_world s))"
    by (simp add: run e waiting_add tel [OF ok] waiting_same [OF tpwe_frame(2) [OF ok]])
  show "rg_publish (snd (witness_step env e s)) = rg_publish s @ (if tpwe_verdict env s e = Moves then [] else [])"
    by (simp add: run e)
  show "(memory (snd (witness_step env e s)), dget (te_tmse env) (rg_world (snd (witness_step env e s))),
      single_stores env (rg_world (snd (witness_step env e s)))) =
     (memory s, dget (te_tmse env) (rg_world s), single_stores env (rg_world s))"
    by (simp add: run e memory_def tel [OF ok])
  show "tpwe_known env (snd (witness_step env e s)) = tpwe_known env s"
    using single by (simp add: run e single_stores_def tel_reads_def tpwe_known_def)
next
  fix s t
  assume "(memory s, dget (te_tmse env) (rg_world s), single_stores env (rg_world s)) =
     (memory t, dget (te_tmse env) (rg_world t), single_stores env (rg_world t))"
  then show "tpwe_verdict env s = tpwe_verdict env t \<and> (\<lambda>_. []) = (\<lambda>_. [])"
    by (simp add: memory_def single_stores_def tel_reads_def tpwe_verdict_def receipted_def cued_def fun_eq_iff)
qed

interpretation tmse: escrow "multisig_step env" "tmse_known env" "tmse_verdict env" tmse_out
  "\<lambda>s. waiting (te_tmse env) (rg_world s)" "\<lambda>s. waiting (te_tede env) (rg_world s)" rg_publish "\<lambda>_ _. []"
  "\<lambda>s. (memory s, dget (te_tpwe env) (rg_world s), single_stores env (rg_world s))"
proof
  fix s :: "'a registrar" and e :: "(string \<times> int \<times> string) \<times> seal"
  assume known: "tmse_known env s e"
  obtain r m g p n d where e: "e = ((r, m, g), (p, n, d))" by (metis prod.exhaust)
  from known have ok: "tel_ok env" by (auto simp: tmse_known_def e)
  let ?out = "\<lambda>w. snd (drem (te_tmse env) w (r, m, g) None)"
  let ?w = "snd (dadd (te_tede env) (?out (snd (te_putAnc env r g n d (rg_world s)))) (r, m) (p, n, d))"
  have run: "multisig_step env e s =
      (Inr (), case tmse_verdict env s e of Moves \<Rightarrow> s\<lparr>rg_world := ?w\<rparr> | Drops \<Rightarrow> s\<lparr>rg_world := ?out (rg_world s)\<rparr> | Stays \<Rightarrow> s)"
    using known putAnc_frame(1) [OF ok]
    by (auto simp: e multisig_step_def tmse_known_def tmse_verdict_def bindA_def rext_run split: sum.splits)
  note run = run [unfolded e]
  have single: "single_stores env ?w = single_stores env (rg_world s)"
    "single_stores env (?out (rg_world s)) = single_stores env (rg_world s)" by (simp_all add: tel [OF ok])
  show "fst (multisig_step env e s) = Inr ()" by (simp add: run e)
  show "waiting (te_tmse env) (rg_world (snd (multisig_step env e s))) =
      (if tmse_verdict env s e = Stays then waiting (te_tmse env) (rg_world s)
       else {q \<in> waiting (te_tmse env) (rg_world s). fst q \<noteq> fst e})"
    by (cases "tmse_verdict env s e")
      (auto simp: run e waiting_rem tel [OF ok] waiting_def drem_ok split: if_splits)
  show "waiting (te_tede env) (rg_world (snd (multisig_step env e s))) =
      (if tmse_verdict env s e = Moves then insert (tmse_out e) (waiting (te_tede env) (rg_world s))
       else waiting (te_tede env) (rg_world s))"
    by (cases "tmse_verdict env s e")
      (simp_all add: run e waiting_add tel [OF ok] waiting_same [OF tmse_frame(2) [OF ok]] waiting_same [OF putAnc_frame(4) [OF ok]])
  show "rg_publish (snd (multisig_step env e s)) = rg_publish s @ (if tmse_verdict env s e = Moves then [] else [])"
    by (simp add: run e split: verdict.split)
  show "(memory (snd (multisig_step env e s)), dget (te_tpwe env) (rg_world (snd (multisig_step env e s))),
      single_stores env (rg_world (snd (multisig_step env e s)))) =
     (memory s, dget (te_tpwe env) (rg_world s), single_stores env (rg_world s))"
    by (simp add: run e memory_def tel [OF ok] split: verdict.split)
  show "tmse_known env (snd (multisig_step env e s)) = tmse_known env s"
    using single by (simp add: run e single_stores_def tel_reads_def tmse_known_def split: verdict.split)
next
  fix s t
  assume "(memory s, dget (te_tpwe env) (rg_world s), single_stores env (rg_world s)) =
     (memory t, dget (te_tpwe env) (rg_world t), single_stores env (rg_world t))"
  then show "tmse_verdict env s = tmse_verdict env t \<and> (\<lambda>_. []) = (\<lambda>_. [])"
    by (simp add: single_stores_def tel_reads_def tmse_verdict_def fun_eq_iff)
qed

interpretation tede: escrow "dissemination_step env" "\<lambda>_ _. tel_ok env" "tede_verdict env" fst
  "\<lambda>s. waiting (te_tede env) (rg_world s)" "finished_tels env" rg_publish "tede_message env"
  "\<lambda>s. (memory s, dget (te_tpwe env) (rg_world s), dget (te_tmse env) (rg_world s), later env (rg_world s))"
proof
  fix s :: "'a registrar" and e :: "(string \<times> int) \<times> seal"
  assume ok: "tel_ok env"
  obtain r m p n d where e: "e = ((r, m), (p, n, d))" by (metis prod.exhaust)
  let ?rem = "snd (drem (te_tede env) (rg_world s) (r, m) None)"
  let ?w = "snd (sput (te_ctel env) ?rem (r, m) d)"
  have reads: "tel_reads env ?rem = tel_reads env (rg_world s)"
    using tede_frame(6) [OF ok, of "rg_world s" "(r, m)" None] by (simp add: single_stores_def)
  then have clone: "te_cloneTel env ?rem = te_cloneTel env (rg_world s)" by (simp add: tel_reads_def)
  have run: "dissemination_step env e s =
      (Inr (), if tede_verdict env s e = Moves
               then s\<lparr>rg_world := ?w, rg_publish := rg_publish s @ tede_message env s e\<rparr> else s)"
    using clone
    by (simp add: e dissemination_step_def tede_verdict_def tede_message_def bindA_def rext_run)
  note run = run [unfolded e]
  have single: "single_stores env ?rem = single_stores env (rg_world s)" by (rule tede_frame(6) [OF ok])
  then have ctel: "sget (te_ctel env) ?rem = sget (te_ctel env) (rg_world s)" by (simp add: single_stores_def)
  have verdict: "tede_verdict env s e = Moves \<or> tede_verdict env s e = Stays"
    by (simp add: tede_verdict_def split_beta)
  show "fst (dissemination_step env e s) = Inr ()" by (simp add: run e)
  show "waiting (te_tede env) (rg_world (snd (dissemination_step env e s))) =
      (if tede_verdict env s e = Stays then waiting (te_tede env) (rg_world s)
       else {q \<in> waiting (te_tede env) (rg_world s). fst q \<noteq> fst e})"
    using verdict by (auto simp: run e tel [OF ok] waiting_def drem_ok split: if_splits)
  show "finished_tels env (snd (dissemination_step env e s)) =
      (if tede_verdict env s e = Moves then insert (fst e) (finished_tels env s) else finished_tels env s)"
    by (auto simp: run e finished_tels_def sput_get [OF tel_laws(4) [OF ok]] ctel split: if_splits)
  show "rg_publish (snd (dissemination_step env e s)) =
      rg_publish s @ (if tede_verdict env s e = Moves then tede_message env s e else [])"
    by (simp add: run e)
  show "(memory (snd (dissemination_step env e s)), dget (te_tpwe env) (rg_world (snd (dissemination_step env e s))),
      dget (te_tmse env) (rg_world (snd (dissemination_step env e s))), later env (rg_world (snd (dissemination_step env e s)))) =
     (memory s, dget (te_tpwe env) (rg_world s), dget (te_tmse env) (rg_world s), later env (rg_world s))"
    using single by (simp add: run e memory_def later_def ctel_frame [OF ok] tede_frame [OF ok] single_stores_def)
  show "(\<lambda>_. tel_ok env) = (\<lambda>_. tel_ok env)" ..
next
  fix s t
  assume "(memory s, dget (te_tpwe env) (rg_world s), dget (te_tmse env) (rg_world s), later env (rg_world s)) =
     (memory t, dget (te_tpwe env) (rg_world t), dget (te_tmse env) (rg_world t), later env (rg_world t))"
  then show "tede_verdict env s = tede_verdict env t \<and> tede_message env s = tede_message env t"
    by (simp add: later_def tel_reads_def tede_verdict_def tede_message_def fun_eq_iff)
qed

text \<open>The entries due to be published in this turn: those of \<open>tede\<close> and those that arrive there.\<close>

definition due :: "'w tel_env \<Rightarrow> 'w registrar \<Rightarrow> ((string \<times> int) \<times> seal) set" where
  "due env s = waiting (te_tede env) (rg_world s) \<union>
     {e \<in> waiting (te_tpwe env) (rg_world s). tpwe_verdict env s e = Moves} \<union>
     tmse_out ` {e \<in> waiting (te_tmse env) (rg_world s). tmse_verdict env s e = Moves}"

definition registrar_known :: "'w tel_env \<Rightarrow> 'w registrar \<Rightarrow> bool" where
  "registrar_known env s \<longleftrightarrow> tel_ok env \<and>
     (\<forall>e \<in> waiting (te_tpwe env) (rg_world s). tpwe_known env s e) \<and>
     (\<forall>e \<in> waiting (te_tmse env) (rg_world s). tmse_known env s e)"

lemma witness_pass:
  assumes known: "registrar_known env s"
  obtains s' where "processWitnessEscrow env s = (Inr (), s')" and "rg_publish s' = rg_publish s"
    and "(memory s', dget (te_tmse env) (rg_world s'), single_stores env (rg_world s')) =
      (memory s, dget (te_tmse env) (rg_world s), single_stores env (rg_world s))"
    and "waiting (te_tpwe env) (rg_world s') = {p \<in> waiting (te_tpwe env) (rg_world s).
      \<forall>e \<in> waiting (te_tpwe env) (rg_world s). fst e = fst p \<longrightarrow> tpwe_verdict env s e = Stays}"
    and "waiting (te_tede env) (rg_world s') = waiting (te_tede env) (rg_world s) \<union>
      {e \<in> waiting (te_tpwe env) (rg_world s). tpwe_verdict env s e = Moves}"
proof -
  from known have ok: "tel_ok env" and f: "\<forall>e \<in> waiting (te_tpwe env) (rg_world s). tpwe_known env s e"
    by (simp_all add: registrar_known_def)
  show thesis
    by (rule tpwe.whole_pass [OF f waiting_items [OF tel_laws(1) [OF ok]]], rule that)
      (simp add: processWitnessEscrow_def, simp_all)
qed

lemma multisig_pass:
  assumes "tel_ok env" and "\<forall>e \<in> waiting (te_tmse env) (rg_world s). tmse_known env s e"
  obtains s' where "processMultisigEscrow env s = (Inr (), s')" and "rg_publish s' = rg_publish s"
    and "(memory s', dget (te_tpwe env) (rg_world s'), single_stores env (rg_world s')) =
      (memory s, dget (te_tpwe env) (rg_world s), single_stores env (rg_world s))"
    and "waiting (te_tmse env) (rg_world s') = {p \<in> waiting (te_tmse env) (rg_world s).
      \<forall>e \<in> waiting (te_tmse env) (rg_world s). fst e = fst p \<longrightarrow> tmse_verdict env s e = Stays}"
    and "waiting (te_tede env) (rg_world s') = waiting (te_tede env) (rg_world s) \<union>
      tmse_out ` {e \<in> waiting (te_tmse env) (rg_world s). tmse_verdict env s e = Moves}"
  by (rule tmse.whole_pass [OF assms(2) waiting_items [OF tel_laws(2) [OF assms(1)]]], rule that)
    (simp add: processMultisigEscrow_def, simp_all)

lemma dissemination_pass:
  assumes "tel_ok env"
  obtains s' ts where "processDiseminationEscrow env s = (Inr (), s')"
    and "(memory s', dget (te_tpwe env) (rg_world s'), dget (te_tmse env) (rg_world s'), later env (rg_world s')) =
      (memory s, dget (te_tpwe env) (rg_world s), dget (te_tmse env) (rg_world s), later env (rg_world s))"
    and "waiting (te_tede env) (rg_world s') = {p \<in> waiting (te_tede env) (rg_world s). tede_verdict env s p = Stays}"
    and "finished_tels env s' = finished_tels env s \<union>
      fst ` {e \<in> waiting (te_tede env) (rg_world s). tede_verdict env s e = Moves}"
    and "rg_publish s' = rg_publish s @ ts"
    and "set ts = (\<Union>p \<in> {p \<in> waiting (te_tede env) (rg_world s). tede_verdict env s p = Moves}. set (tede_message env s p))"
proof -
  note items = waiting_items [OF tel_laws(3) [OF assms]]
  have keys: "{p \<in> waiting (te_tede env) (rg_world s). \<forall>e \<in> waiting (te_tede env) (rg_world s).
      fst e = fst p \<longrightarrow> tede_verdict env s e = Stays} =
    {p \<in> waiting (te_tede env) (rg_world s). tede_verdict env s p = Stays}"
    by (auto simp: tede_verdict_def split: if_splits)
  have f: "\<forall>e \<in> waiting (te_tede env) (rg_world s). tel_ok env" using assms by simp
  show thesis
    by (rule tede.whole_pass [OF f items], rule that)
      (simp add: processDiseminationEscrow_def, simp, simp add: keys, simp, assumption, auto simp flip: items)
qed

lemma registrar_turn_run:
  assumes known: "registrar_known env s"
  obtains s' ts where "Registrar_processEscrows env s = (Inr (), s')"
    and "memory s' = memory s" and "later env (rg_world s') = later env (rg_world s)"
    and "waiting (te_tpwe env) (rg_world s') = {p \<in> waiting (te_tpwe env) (rg_world s).
           \<forall>e \<in> waiting (te_tpwe env) (rg_world s). fst e = fst p \<longrightarrow> tpwe_verdict env s e = Stays}"
    and "waiting (te_tmse env) (rg_world s') = {p \<in> waiting (te_tmse env) (rg_world s).
           \<forall>e \<in> waiting (te_tmse env) (rg_world s). fst e = fst p \<longrightarrow> tmse_verdict env s e = Stays}"
    and "waiting (te_tede env) (rg_world s') = {p \<in> due env s. tede_verdict env s p = Stays}"
    and "finished_tels env s' = finished_tels env s \<union> fst ` {p \<in> due env s. tede_verdict env s p = Moves}"
    and "rg_publish s' = rg_publish s @ ts"
    and "set ts = (\<Union>p \<in> {p \<in> due env s. tede_verdict env s p = Moves}. set (tede_message env s p))"
proof -
  from known have ok: "tel_ok env" by (simp add: registrar_known_def)
  obtain s1 where p1: "processWitnessEscrow env s = (Inr (), s1)" "rg_publish s1 = rg_publish s"
    and r1: "(memory s1, dget (te_tmse env) (rg_world s1), single_stores env (rg_world s1)) =
      (memory s, dget (te_tmse env) (rg_world s), single_stores env (rg_world s))"
    and h1: "waiting (te_tpwe env) (rg_world s1) = {p \<in> waiting (te_tpwe env) (rg_world s).
      \<forall>e \<in> waiting (te_tpwe env) (rg_world s). fst e = fst p \<longrightarrow> tpwe_verdict env s e = Stays}"
    and a1: "waiting (te_tede env) (rg_world s1) = waiting (te_tede env) (rg_world s) \<union>
      {e \<in> waiting (te_tpwe env) (rg_world s). tpwe_verdict env s e = Moves}"
    by (rule witness_pass [OF known])
  have same1: "waiting (te_tmse env) (rg_world s1) = waiting (te_tmse env) (rg_world s)"
    "tmse_known env s1 = tmse_known env s" "tmse_verdict env s1 = tmse_verdict env s"
    using r1 by (simp_all add: waiting_def single_stores_def tel_reads_def tmse_known_def tmse_verdict_def)
  have "\<forall>e \<in> waiting (te_tmse env) (rg_world s1). tmse_known env s1 e"
    using known same1 by (simp add: registrar_known_def)
  then obtain s2 where p2: "processMultisigEscrow env s1 = (Inr (), s2)" "rg_publish s2 = rg_publish s1"
    and r2: "(memory s2, dget (te_tpwe env) (rg_world s2), single_stores env (rg_world s2)) =
      (memory s1, dget (te_tpwe env) (rg_world s1), single_stores env (rg_world s1))"
    and h2: "waiting (te_tmse env) (rg_world s2) = {p \<in> waiting (te_tmse env) (rg_world s1).
      \<forall>e \<in> waiting (te_tmse env) (rg_world s1). fst e = fst p \<longrightarrow> tmse_verdict env s1 e = Stays}"
    and a2: "waiting (te_tede env) (rg_world s2) = waiting (te_tede env) (rg_world s1) \<union>
      tmse_out ` {e \<in> waiting (te_tmse env) (rg_world s1). tmse_verdict env s1 e = Moves}"
    by (rule multisig_pass [OF ok])
  have same2: "waiting (te_tede env) (rg_world s2) = due env s"
    "tede_verdict env s2 = tede_verdict env s" "tede_message env s2 = tede_message env s"
    "finished_tels env s2 = finished_tels env s" "later env (rg_world s2) = later env (rg_world s)"
    using a1 a2 same1 r1 r2
    by (simp_all add: due_def single_stores_def tel_reads_def tede_verdict_def tede_message_def finished_tels_def later_def)
  obtain s3 ts where p3: "processDiseminationEscrow env s2 = (Inr (), s3)"
    and r3: "(memory s3, dget (te_tpwe env) (rg_world s3), dget (te_tmse env) (rg_world s3), later env (rg_world s3)) =
      (memory s2, dget (te_tpwe env) (rg_world s2), dget (te_tmse env) (rg_world s2), later env (rg_world s2))"
    and s3: "waiting (te_tede env) (rg_world s3) = {p \<in> waiting (te_tede env) (rg_world s2). tede_verdict env s2 p = Stays}"
      "finished_tels env s3 = finished_tels env s2 \<union>
        fst ` {e \<in> waiting (te_tede env) (rg_world s2). tede_verdict env s2 e = Moves}"
      "rg_publish s3 = rg_publish s2 @ ts"
      "set ts = (\<Union>p \<in> {p \<in> waiting (te_tede env) (rg_world s2). tede_verdict env s2 p = Moves}. set (tede_message env s2 p))"
    by (rule dissemination_pass [OF ok])
  have keep: "waiting (te_tpwe env) (rg_world s3) = waiting (te_tpwe env) (rg_world s1)"
    "waiting (te_tmse env) (rg_world s3) = waiting (te_tmse env) (rg_world s2)"
    using r2 r3 by (simp_all add: waiting_def)
  have "Registrar_processEscrows env s = (Inr (), s3)"
    using p1 p2 p3 by (simp add: Registrar_processEscrows_def bindA_Inr)
  then show thesis
    by (rule that) (use r1 r2 r3 h1 h2 s3 same1 same2 keep p1(2) p2(2) in simp_all)
qed

lemma complete_run [simp]:
  "Registrar_complete env pre sn w = (Inr (sget (te_ctel env) w (pre, sn) \<noteq> None), w)"
  by (simp add: Registrar_complete_def)

text \<open>
  C17. One turn of the registrar moves every event as far as it can get. An event is finished after it
  exactly if it was before, or is known to its log and waits in \<open>tede\<close>, has a witnessed anchor in \<open>tpwe\<close>, or
  a complete group anchor in \<open>tmse\<close>: it goes through two stages in the one turn. For every event
  finished now the events of its log are published to the witnesses of the anchoring identifier,
  and nothing else is. What is left are the anchors of \<open>tpwe\<close> without a witnessed one at their key, the undecided ones
  of \<open>tmse\<close> and the events not in the log yet, and nobody is asked for receipts.
\<close>

theorem registrar_turn:
  assumes "registrar_known env s"
  shows "\<exists>s' ts. Registrar_processEscrows env s = (Inr (), s') \<and>
    finished_tels env s' = finished_tels env s \<union> {(pre, sn). te_hasTel env (rg_world s) pre sn \<and> (\<exists>v. ((pre, sn), v) \<in> due env s)} \<and>
    rg_publish s' = rg_publish s @ ts \<and>
    set ts = {(fst v, concat (te_cloneTel env (rg_world s) pre sn)) | pre sn v.
      te_hasTel env (rg_world s) pre sn \<and> ((pre, sn), v) \<in> due env s} \<and>
    waiting (te_tpwe env) (rg_world s') = {(k, v) \<in> waiting (te_tpwe env) (rg_world s).
      \<forall>u. (k, u) \<in> waiting (te_tpwe env) (rg_world s) \<longrightarrow> tpwe_verdict env s (k, u) = Stays} \<and>
    waiting (te_tmse env) (rg_world s') = {(k, v) \<in> waiting (te_tmse env) (rg_world s).
      \<forall>u. (k, u) \<in> waiting (te_tmse env) (rg_world s) \<longrightarrow> tmse_verdict env s (k, u) = Stays} \<and>
    waiting (te_tede env) (rg_world s') = {((pre, sn), v) \<in> due env s. \<not> te_hasTel env (rg_world s) pre sn} \<and>
    rg_receipts s' = rg_receipts s \<and> rg_cues s' = rg_cues s"
proof -
  obtain s' ts where
    run: "Registrar_processEscrows env s = (Inr (), s')"
    and mem: "memory s' = memory s"
    and rest: "waiting (te_tpwe env) (rg_world s') = {p \<in> waiting (te_tpwe env) (rg_world s).
           \<forall>e \<in> waiting (te_tpwe env) (rg_world s). fst e = fst p \<longrightarrow> tpwe_verdict env s e = Stays}"
      "waiting (te_tmse env) (rg_world s') = {p \<in> waiting (te_tmse env) (rg_world s).
           \<forall>e \<in> waiting (te_tmse env) (rg_world s). fst e = fst p \<longrightarrow> tmse_verdict env s e = Stays}"
      "waiting (te_tede env) (rg_world s') = {p \<in> due env s. tede_verdict env s p = Stays}"
    and fin: "finished_tels env s' = finished_tels env s \<union> fst ` {p \<in> due env s. tede_verdict env s p = Moves}"
    and ts: "rg_publish s' = rg_publish s @ ts"
      "set ts = (\<Union>p \<in> {p \<in> due env s. tede_verdict env s p = Moves}. set (tede_message env s p))"
    by (rule registrar_turn_run [OF assms])
  have "fst ` {p \<in> due env s. tede_verdict env s p = Moves} =
      {(pre, sn). te_hasTel env (rg_world s) pre sn \<and> (\<exists>v. ((pre, sn), v) \<in> due env s)}"
    by (force simp: tede_verdict_def split: if_splits)
  moreover have "set ts = {(fst v, concat (te_cloneTel env (rg_world s) pre sn)) | pre sn v.
      te_hasTel env (rg_world s) pre sn \<and> ((pre, sn), v) \<in> due env s}"
    by (force simp: ts(2) tede_verdict_def tede_message_def split: if_splits)
  moreover have "waiting (te_tede env) (rg_world s') = {((pre, sn), v) \<in> due env s. \<not> te_hasTel env (rg_world s) pre sn}"
    by (auto simp: rest(3) tede_verdict_def split: if_splits)
  moreover have "waiting (te_tpwe env) (rg_world s') = {(k, v) \<in> waiting (te_tpwe env) (rg_world s).
      \<forall>u. (k, u) \<in> waiting (te_tpwe env) (rg_world s) \<longrightarrow> tpwe_verdict env s (k, u) = Stays}"
    by (auto simp: rest(1))
  moreover have "waiting (te_tmse env) (rg_world s') = {(k, v) \<in> waiting (te_tmse env) (rg_world s).
      \<forall>u. (k, u) \<in> waiting (te_tmse env) (rg_world s) \<longrightarrow> tmse_verdict env s (k, u) = Stays}"
    by (auto simp: rest(2))
  ultimately show ?thesis using run fin ts(1) mem by (auto simp: memory_def)
qed

text \<open>The databases in memory: an issuer with one witness, whose receipt is there, and a group event approved.\<close>

record mem_tel =
  mt_tpwe :: "(string \<times> int, seal list) alist"
  mt_tmse :: "(string \<times> int \<times> string, seal list) alist"
  mt_tede :: "(string \<times> int, seal list) alist"
  mt_ctel :: "(string \<times> int, string) alist"
  mt_cmse :: "(string \<times> int, creder) alist"
  mt_ccrd :: "(string, creder) alist"

definition mem_tel_env :: "mem_tel tel_env" where
  "mem_tel_env =
     \<lparr>te_tpwe = mem_dup mt_tpwe (\<lambda>a w. w\<lparr>mt_tpwe := a\<rparr>) fst,
      te_tmse = mem_dup mt_tmse (\<lambda>a w. w\<lparr>mt_tmse := a\<rparr>) fst,
      te_tede = mem_dup mt_tede (\<lambda>a w. w\<lparr>mt_tede := a\<rparr>) fst,
      te_ctel = mem_suber mt_ctel (\<lambda>a w. w\<lparr>mt_ctel := a\<rparr>),
      te_cmse = mem_suber mt_cmse (\<lambda>a w. w\<lparr>mt_cmse := a\<rparr>),
      te_ccrd = mem_suber mt_ccrd (\<lambda>a w. w\<lparr>mt_ccrd := a\<rparr>),
      te_hkever = (\<lambda>_ h. Inr (hb_pre h, 3, ''EA'')),
      te_wits = (\<lambda>_ _. Some [''BW'']),
      te_wigs = (\<lambda>_ _ _. 1),
      te_habs = (\<lambda>_ p. Some (SignifyHab p)),
      te_complete = (\<lambda>_ _. Inr True),
      te_start = (\<lambda>_ _. retA ()),
      te_regs = (\<lambda>_ _. Inr \<lparr>ry_hab = SignifyHab ''EI'', ry_regk = ''ER'', ry_regd = ''ER''\<rparr>),
      te_seqner = jhex,
      te_serder = (\<lambda>_. Inl (ValidationError ''no event'')),
      te_processEvent = (\<lambda>_ _. retA ()),
      te_anchorMsg = (\<lambda>_ _ _ _. retA ()),
      te_putAnc = (\<lambda>_ _ _ _. retA ()),
      te_hasTel = (\<lambda>_ _ _. True),
      te_cloneTel = (\<lambda>_ _ _. [''iss'', ''sig'']),
      te_resolve = (\<lambda>_ _. ''{}''),
      te_schemer = (\<lambda>_. Inr JNull),
      te_verify = (\<lambda>_ _. Inr ()),
      te_show = (\<lambda>_. ''''),
      te_processCredential = (\<lambda>_ _. retA ()),
      te_saved = (\<lambda>_ said. Some said)\<rparr>"

lemma mem_tel_ok: "tel_ok mem_tel_env"
  by (simp add: tel_ok_def mem_tel_env_def mem_dup_ok mem_suber_ok frames_Pair mem_dup_frames mem_suber_frames
      single_stores_def tel_reads_def; intro conjI mem_dup_frames mem_suber_frames; simp add: mem_dup_def mem_suber_def)

text \<open>A credential \<open>EC\<close> whose issuance \<open>EI\<close> anchored in its event 3.\<close>

definition mem_tel :: mem_tel where
  "mem_tel = \<lparr>mt_tpwe = DAList.update (''EC'', 0) [(''EI'', 3, ''EA'')] DAList.empty, mt_tmse = DAList.empty,
     mt_tede = DAList.empty, mt_ctel = DAList.empty,
     mt_cmse = DAList.update (''EC'', 0) \<lparr>cr_said = ''EC'', cr_schema = JNull, cr_raw = ''''\<rparr> DAList.empty,
     mt_ccrd = DAList.empty\<rparr>"

definition mem_registrar :: "(string \<times> int) list \<Rightarrow> mem_tel registrar" where
  "mem_registrar cues = \<lparr>rg_receipts = [], rg_cues = cues, rg_publish = [], rg_world = mem_tel\<rparr>"

lemma alist_get_empty [simp]: "alist_get DAList.empty k = []"
  by (simp add: alist_get_def)

lemma mem_waiting:
  "waiting (te_tpwe mem_tel_env) mem_tel = {((''EC'', 0), (''EI'', 3, ''EA''))}"
  "waiting (te_tmse mem_tel_env) mem_tel = {}" "waiting (te_tede mem_tel_env) mem_tel = {}"
  by (auto simp: waiting_def mem_tel_env_def mem_tel_def mem_dup_def split: if_splits)

lemma mem_registrar_known: "registrar_known mem_tel_env (mem_registrar cues)"
  by (simp add: registrar_known_def mem_tel_ok mem_registrar_def mem_waiting tpwe_known_def)
    (simp add: mem_tel_env_def)

lemma mem_due: "due mem_tel_env (mem_registrar [(''EI'', 3)]) = {((''EC'', 0), (''EI'', 3, ''EA''))}"
  by (auto simp: due_def mem_registrar_def mem_waiting tpwe_verdict_def receipted_def cued_def)
    (simp_all add: mem_tel_env_def)

theorem registrar_turn_witness:
  "\<exists>s'. Registrar_processEscrows mem_tel_env (mem_registrar [(''EI'', 3)]) = (Inr (), s') \<and>
     (''EC'', 0) \<in> finished_tels mem_tel_env s' \<and> set (rg_publish s') = {(''EI'', ''isssig'')}"
proof -
  let ?s = "mem_registrar [(''EI'', 3)]"
  have reads: "te_hasTel mem_tel_env w p n" "te_cloneTel mem_tel_env w p n = [''iss'', ''sig'']" for w p n
    by (simp_all add: mem_tel_env_def)
  obtain s' ts where run: "Registrar_processEscrows mem_tel_env ?s = (Inr (), s')"
    and fin: "finished_tels mem_tel_env s' = finished_tels mem_tel_env ?s \<union> {(''EC'', 0)}"
    and ts: "rg_publish s' = rg_publish ?s @ ts" "set ts = {(''EI'', ''isssig'')}"
    using registrar_turn [OF mem_registrar_known [of "[(''EI'', 3)]"]] by (auto simp: mem_due reads)
  then show ?thesis by (auto simp: mem_registrar_def)
qed

subsection \<open>An agent that is started again\<close>

text \<open>
  \<open>Agent.__init__\<close> runs whenever an agent is loaded, after a restart of the server or after \<open>Releaser\<close> has shut it for
  being idle. It makes its \<open>WitnessReceiptor\<close> and its \<open>WitnessPublisher\<close> without messages and hands them to a new \<open>Registrar\<close>;
  nothing in it, or in the constructor of \<open>Registrar\<close>, looks at the escrows of the databases it is given (\<open>env\<close>).
\<close>

definition new_registrar :: "'w tel_env \<Rightarrow> 'w \<Rightarrow> 'w registrar" where
  "new_registrar env w = \<lparr>rg_receipts = [], rg_cues = [], rg_publish = [], rg_world = w\<rparr>"

text \<open>
  What can happen to the registrar of a running agent: a turn of its escrows, one of its operations, whatever it returns or
  raises, the \<open>WitnessReceiptor\<close> that has got the receipts of an event of its queue and puts that entry on its cues, and
  anything else that leaves the registrar's databases alone, such as receipts and key events that arrive.
\<close>

definition tel_stores where
  "tel_stores env w = (dget (te_tpwe env) w, dget (te_tmse env) w, dget (te_tede env) w, sget (te_ctel env) w)"

inductive registrar_step :: "'w tel_env \<Rightarrow> 'w registrar \<Rightarrow> 'w registrar \<Rightarrow> bool" for env where
  escrows: "Registrar_processEscrows env s = (r, t) \<Longrightarrow> registrar_step env s t"
| incept: "Registrar_incept env hab registry seal s = (r, t) \<Longrightarrow> registrar_step env s t"
| issue: "Registrar_issue env regk iserder anc s = (r, t) \<Longrightarrow> registrar_step env s t"
| revoke: "Registrar_revoke env regk rserder ranc s = (r, t) \<Longrightarrow> registrar_step env s t"
| receipted: "e \<in> set (rg_receipts s) \<Longrightarrow> tel_stores env w = tel_stores env (rg_world s) \<Longrightarrow>
    registrar_step env s (s\<lparr>rg_receipts := remove1 e (rg_receipts s), rg_cues := rg_cues s @ [e], rg_world := w\<rparr>)"
| other: "tel_stores env w = tel_stores env (rg_world s) \<Longrightarrow> registrar_step env s (s\<lparr>rg_world := w\<rparr>)"

text \<open>
  What is asked of the code around it: \<open>hby.habs\<close> is keyed by the prefix, and processing an event of a registry, anchoring it
  and starting the counselor do not write the registrar's databases.
\<close>

definition acts_ok :: "'w tel_env \<Rightarrow> bool" where
  "acts_ok env \<longleftrightarrow>
     (\<forall>w p hab. te_habs env w p = Some hab \<longrightarrow> hb_pre hab = p) \<and>
     (\<forall>c registry serder. keeps (\<lambda>w. tel_stores env w = c) (te_processEvent env registry serder)) \<and>
     (\<forall>c p d n t. keeps (\<lambda>w. tel_stores env w = c) (te_anchorMsg env p d n t)) \<and>
     (\<forall>c seal hab. keeps (\<lambda>w. tel_stores env w = c) (te_start env seal hab))"

definition anchor_of :: "seal \<Rightarrow> string \<times> int" where
  "anchor_of = (\<lambda>(pre, n, said). (pre, n))"

text \<open>
  A step that asks again for an event with the key \<open>k\<close>: an operation for that very event of the registry, or one that is
  anchored in the same key event, whose receipts are then asked for again.
\<close>

definition asks_again :: "'w tel_env \<Rightarrow> string \<times> int \<Rightarrow> 'w registrar \<Rightarrow> 'w registrar \<Rightarrow> bool" where
  "asks_again env k s t \<longleftrightarrow>
     (\<exists>u. (k, u) \<in> waiting (te_tpwe env) (rg_world t) \<and> (k, u) \<notin> waiting (te_tpwe env) (rg_world s)) \<or>
     (\<exists>e. e \<in> waiting (te_tmse env) (rg_world t) \<and> e \<notin> waiting (te_tmse env) (rg_world s) \<and> fst (tmse_out e) = k) \<or>
     (\<exists>u. (k, u) \<in> waiting (te_tpwe env) (rg_world s) \<and>
        anchor_of u \<in> set (rg_receipts t) \<and> anchor_of u \<notin> set (rg_receipts s))"

text \<open>An event that waits in \<open>tpwe\<close> and nowhere else; its issuer has witnesses.\<close>

definition waits_only :: "'w tel_env \<Rightarrow> string \<times> int \<Rightarrow> 'w registrar \<Rightarrow> bool" where
  "waits_only env k s \<longleftrightarrow>
     (\<forall>u. (k, u) \<notin> waiting (te_tede env) (rg_world s)) \<and>
     (\<forall>e \<in> waiting (te_tmse env) (rg_world s). fst (tmse_out e) \<noteq> k) \<and>
     k \<notin> finished_tels env s"

definition issuer_witnessed :: "'w tel_env \<Rightarrow> string \<times> int \<Rightarrow> 'w registrar \<Rightarrow> bool" where
  "issuer_witnessed env k s \<longleftrightarrow>
     (\<forall>u. (k, u) \<in> waiting (te_tpwe env) (rg_world s) \<longrightarrow> te_wits env (rg_world s) (fst u) \<noteq> Some [])"

definition stranded :: "'w tel_env \<Rightarrow> string \<times> int \<Rightarrow> seal \<Rightarrow> 'w registrar \<Rightarrow> bool" where
  "stranded env k v s \<longleftrightarrow> (k, v) \<in> waiting (te_tpwe env) (rg_world s) \<and> waits_only env k s \<and>
     (\<forall>u. (k, u) \<in> waiting (te_tpwe env) (rg_world s) \<longrightarrow>
        anchor_of u \<notin> set (rg_receipts s) \<and> anchor_of u \<notin> set (rg_cues s))"

lemma cued_anchor:
  assumes "acts_ok env" and "tpwe_known env s (k, u)"
  shows "cued env s u \<longleftrightarrow> anchor_of u \<in> set (rg_cues s)"
proof -
  obtain p n d where u: "u = (p, n, d)" by (metis prod.exhaust)
  from assms(2) obtain hab where "te_habs env (rg_world s) p = Some hab" by (auto simp: tpwe_known_def u)
  moreover from this assms(1) have "hb_pre hab = p" unfolding acts_ok_def by blast
  ultimately show ?thesis by (simp add: cued_def anchor_of_def u)
qed

lemma stranded_turn:
  assumes ok: "acts_ok env" and known: "registrar_known env s" and wits: "issuer_witnessed env k s"
    and stranded: "stranded env k v s"
  shows "stranded env k v (snd (Registrar_processEscrows env s))"
proof -
  obtain s' ts where run: "Registrar_processEscrows env s = (Inr (), s')"
    and mem: "memory s' = memory s"
    and tpwe: "waiting (te_tpwe env) (rg_world s') = {p \<in> waiting (te_tpwe env) (rg_world s).
           \<forall>e \<in> waiting (te_tpwe env) (rg_world s). fst e = fst p \<longrightarrow> tpwe_verdict env s e = Stays}"
    and tmse: "waiting (te_tmse env) (rg_world s') = {p \<in> waiting (te_tmse env) (rg_world s).
           \<forall>e \<in> waiting (te_tmse env) (rg_world s). fst e = fst p \<longrightarrow> tmse_verdict env s e = Stays}"
    and tede: "waiting (te_tede env) (rg_world s') = {p \<in> due env s. tede_verdict env s p = Stays}"
    and fin: "finished_tels env s' = finished_tels env s \<union> fst ` {p \<in> due env s. tede_verdict env s p = Moves}"
    by (rule registrar_turn_run [OF known])
  have same: "rg_receipts s' = rg_receipts s" "rg_cues s' = rg_cues s"
    using mem by (simp_all add: memory_def)
  have stays: "tpwe_verdict env s (k, u) = Stays" if u: "(k, u) \<in> waiting (te_tpwe env) (rg_world s)" for u
  proof -
    from known u have tk: "tpwe_known env s (k, u)" unfolding registrar_known_def by blast
    from stranded u have "\<not> cued env s u" unfolding stranded_def cued_anchor [OF ok tk] by blast
    moreover from wits u have "te_wits env (rg_world s) (fst u) \<noteq> Some []" unfolding issuer_witnessed_def by blast
    ultimately show ?thesis using tk by (auto simp: tpwe_verdict_def tpwe_known_def split_beta)
  qed
  have not_due: "(k, u) \<notin> due env s" for u
    using stranded stays [of u] by (force simp: due_def stranded_def waits_only_def simp del: split_paired_All)
  have "stranded env k v s'"
    using stranded stays not_due
    by (force simp: stranded_def waits_only_def same tpwe tmse tede fin simp del: split_paired_All)
  then show ?thesis by (simp add: run)
qed

text \<open>An operation only adds to \<open>tpwe\<close>, \<open>tmse\<close> and the queue of receipts.\<close>

definition only_added :: "'w tel_env \<Rightarrow> 'w registrar \<Rightarrow> 'w registrar \<Rightarrow> bool" where
  "only_added env s t \<longleftrightarrow> waiting (te_tpwe env) (rg_world s) \<subseteq> waiting (te_tpwe env) (rg_world t) \<and>
     waiting (te_tede env) (rg_world t) = waiting (te_tede env) (rg_world s) \<and>
     finished_tels env t = finished_tels env s \<and> rg_cues t = rg_cues s"

lemma keeps_added_rext:
  assumes "\<And>c. keeps (\<lambda>w. tel_stores env w = c) m"
  shows "keeps (only_added env s) (rext m)"
proof -
  have "tel_stores env (snd (m w)) = tel_stores env w" for w
    using assms [of "tel_stores env w"] by (simp add: keeps_def)
  then show ?thesis
    by (simp add: keeps_def rext_run only_added_def tel_stores_def waiting_def finished_tels_def)
qed

lemma add_frames:
  assumes "tel_ok env"
  shows "dget (te_tmse env) (snd (dadd (te_tpwe env) w k u)) = dget (te_tmse env) w"
    "dget (te_tede env) (snd (dadd (te_tpwe env) w k u)) = dget (te_tede env) w"
    "sget (te_ctel env) (snd (dadd (te_tpwe env) w k u)) = sget (te_ctel env) w"
    "dget (te_tpwe env) (snd (dadd (te_tmse env) w m u)) = dget (te_tpwe env) w"
    "dget (te_tede env) (snd (dadd (te_tmse env) w m u)) = dget (te_tede env) w"
    "sget (te_ctel env) (snd (dadd (te_tmse env) w m u)) = sget (te_ctel env) w"
  using assms by (simp_all add: tel_ok_def frames_Pair dframes_store single_stores_def)

lemma keeps_added_add:
  assumes "tel_ok env"
  shows "keeps (only_added env s) (rext (addD (te_tpwe env) k u))" "keeps (only_added env s) (rext (addD (te_tmse env) m u))"
proof -
  have "only_added env s (t\<lparr>rg_world := snd (dadd (te_tpwe env) (rg_world t) k u)\<rparr>)"
    "only_added env s (t\<lparr>rg_world := snd (dadd (te_tmse env) (rg_world t) m u)\<rparr>)" if "only_added env s t" for t
    using that
    by (auto simp: only_added_def waiting_add [OF tel_laws(1) [OF assms]] finished_tels_def add_frames [OF assms]
      waiting_same [OF add_frames(2) [OF assms]] waiting_same [OF add_frames(4) [OF assms]]
      waiting_same [OF add_frames(5) [OF assms]])
  then show "keeps (only_added env s) (rext (addD (te_tpwe env) k u))" "keeps (only_added env s) (rext (addD (te_tmse env) m u))"
    by (simp_all add: keeps_def rext_run)
qed

lemma keeps_added_reads:
  "keeps (only_added env s) (rext (readA f))" "keeps (only_added env s) (ked_text serder f')"
  "keeps (only_added env s) (ked_number env' serder f')"
  "keeps (only_added env s) (modA (\<lambda>s. s\<lparr>rg_receipts := rg_receipts s @ [a]\<rparr>))"
  by (simp add: keeps_def rext_run)
    (unfold ked_text_def ked_number_def, (intro wp)+, simp add: keeps_def only_added_def finished_tels_def)

lemma keeps_added:
  assumes "tel_ok env" and "acts_ok env"
  shows "keeps (only_added env s) (Registrar_incept env hab registry seal)"
    "keeps (only_added env s) (Registrar_issue env regk iserder anc)"
    "keeps (only_added env s) (Registrar_revoke env regk rserder ranc)"
proof -
  have acts: "keeps (only_added env s) (rext (te_processEvent env r e))" "keeps (only_added env s) (rext (te_anchorMsg env p d n t))"
    "keeps (only_added env s) (rext (te_start env u h))" for r e p d n t u h
    using assms(2) unfolding acts_ok_def by (intro keeps_added_rext; blast)+
  have anchors: "keeps (only_added env s) (anchor_single env h p d n)" "keeps (only_added env s) (anchor_group env p d n u)" for h p d n u
    unfolding anchor_single_def anchor_group_def
    by (intro wp keeps_added_reads keeps_added_add [OF assms(1)] acts)+
  show "keeps (only_added env s) (Registrar_incept env hab registry seal)"
    "keeps (only_added env s) (Registrar_issue env regk iserder anc)"
    "keeps (only_added env s) (Registrar_revoke env regk rserder ranc)"
    unfolding Registrar_incept_def Registrar_issue_def Registrar_revoke_def Let_def
    by (auto intro!: wp keeps_added_reads acts anchors)
qed

lemma stranded_added:
  assumes "only_added env s t" and "\<not> asks_again env k s t" and "stranded env k v s"
  shows "stranded env k v t"
proof -
  have same: "(k, u) \<in> waiting (te_tpwe env) (rg_world t) \<longleftrightarrow> (k, u) \<in> waiting (te_tpwe env) (rg_world s)" for u
    using assms(1,2) unfolding only_added_def asks_again_def by blast
  have "waits_only env k t"
    using assms unfolding stranded_def waits_only_def only_added_def asks_again_def by blast
  with assms same show ?thesis unfolding stranded_def only_added_def asks_again_def by metis
qed

lemma stranded_step:
  assumes "registrar_step env s t" and "\<not> asks_again env k s t" and "acts_ok env" and "registrar_known env s"
    and "issuer_witnessed env k s" and "stranded env k v s"
  shows "stranded env k v t"
proof -
  from assms(4) have ok: "tel_ok env" by (simp add: registrar_known_def)
  have added: "only_added env s s" by (simp add: only_added_def)
  from assms(1) show ?thesis
  proof cases
    case (escrows r)
    with stranded_turn [OF assms(3-6)] show ?thesis by simp
  next
    case (incept hab registry seal r)
    from keepsD [OF keeps_added(1) [OF ok assms(3)] added this] show ?thesis by (rule stranded_added) (fact assms)+
  next
    case (issue regk iserder anc r)
    from keepsD [OF keeps_added(2) [OF ok assms(3)] added this] show ?thesis by (rule stranded_added) (fact assms)+
  next
    case (revoke regk rserder ranc r)
    from keepsD [OF keeps_added(3) [OF ok assms(3)] added this] show ?thesis by (rule stranded_added) (fact assms)+
  next
    case (receipted e w)
    have "set (remove1 e (rg_receipts s)) \<subseteq> set (rg_receipts s)" by (rule set_remove1_subset)
    with receipted assms(6) show ?thesis
      by (auto simp: stranded_def waits_only_def tel_stores_def waiting_def finished_tels_def)
  next
    case (other w)
    with assms(6) show ?thesis
      by (simp add: stranded_def waits_only_def tel_stores_def waiting_def finished_tels_def)
  qed
qed

lemma stranded_run:
  assumes "successively (\<lambda>s t. registrar_step env s t \<and> \<not> asks_again env k s t) (s # ss)" and "acts_ok env"
    and "\<forall>t \<in> set (s # ss). registrar_known env t \<and> issuer_witnessed env k t" and "stranded env k v s"
  shows "stranded env k v (last (s # ss))"
  using assms
proof (induction ss arbitrary: s)
  case (Cons t ss)
  then have "stranded env k v t" using stranded_step [of env s t k v] by simp
  with Cons show ?case by simp
qed simp

text \<open>
  C18. The cues of receipts live in memory, the escrow does not. An event of a registry whose anchor waits for witnesses in \<open>tpwe\<close>
  (and is in no other escrow) when the agent is loaded again is never finished: after any run of turns of the escrows,
  further operations, receipts that come in and cues of the receiptor it still waits there, even when the receipts of all
  witnesses are in the database. The receiptor cues what it was given, the loaded agent's was given nothing, and only
  operations give it anchors. Conditions: no later operation is for the same event of the registry or anchored in the same
  key event (\<open>asks_again\<close>), the issuer keeps having witnesses, and the agent has the identifiers and key states of what it
  escrows and gets an answer for its group events (\<open>registrar_known\<close>).
\<close>

theorem restart_strands:
  assumes "acts_ok env" and "(k, v) \<in> waiting (te_tpwe env) w" and "waits_only env k (new_registrar env w)"
    and "successively (\<lambda>s t. registrar_step env s t \<and> \<not> asks_again env k s t) (new_registrar env w # ss)"
    and "\<forall>t \<in> set (new_registrar env w # ss). registrar_known env t \<and> issuer_witnessed env k t"
  shows "(k, v) \<in> waiting (te_tpwe env) (rg_world (last (new_registrar env w # ss))) \<and>
    fst (Registrar_complete env (fst k) (snd k) (rg_world (last (new_registrar env w # ss)))) = Inr False"
proof -
  have "stranded env k v (new_registrar env w)"
    using assms(2,3) by (simp add: stranded_def new_registrar_def)
  then have "stranded env k v (last (new_registrar env w # ss))"
    by (rule stranded_run [OF assms(4,1,5)])
  then show ?thesis by (simp add: stranded_def waits_only_def finished_tels_def)
qed

text \<open>
  An issuance whose anchor has its receipt, the agent loaded again, a turn, another registry with its receipt and a turn: that
  one is finished, the issuance is not. The agent that was not loaded again finishes the issuance.
\<close>

definition mem_issued :: "mem_tel registrar" where
  "mem_issued = snd (Registrar_issue mem_tel_env (JStr ''ER'')
     \<lparr>se_pre = ''EC'', se_sn = 0, se_said = ''EV'', se_ked = JObj [(''i'', JStr ''EC''), (''s'', JStr ''0'')]\<rparr>
     \<lparr>se_pre = ''EI'', se_sn = 3, se_said = ''EA'', se_ked = JNull\<rparr>
     \<lparr>rg_receipts = [], rg_cues = [], rg_publish = [], rg_world = mem_tel\<lparr>mt_tpwe := DAList.empty\<rparr>\<rparr>)"

lemma mem_issued_run:
  "mem_issued = \<lparr>rg_receipts = [(''EI'', 3)], rg_cues = [], rg_publish = [], rg_world = mem_tel\<rparr>"
proof -
  have "jhex (JStr ''0'') = Inr 0" by code_simp
  then show ?thesis
    by (simp add: mem_issued_def Registrar_issue_def anchor_single_def bindA_def rext_run mem_tel_env_def ked_text_def
      ked_number_def mem_dup_def mem_tel_def)
qed

definition mem_turn :: "mem_tel registrar \<Rightarrow> mem_tel registrar" where
  "mem_turn s = snd (Registrar_processEscrows mem_tel_env s)"

definition mem_second :: "mem_tel registrar \<Rightarrow> mem_tel registrar" where
  "mem_second s = snd (Registrar_incept mem_tel_env (SignifyHab ''EJ'')
     \<lparr>ry_hab = SignifyHab ''EJ'', ry_regk = ''ER2'', ry_regd = ''ER2''\<rparr> (''EJ'', 3, ''EA'') s)"

definition mem_receipt :: "mem_tel registrar \<Rightarrow> mem_tel registrar" where
  "mem_receipt s = s\<lparr>rg_receipts := remove1 (''EJ'', 3) (rg_receipts s), rg_cues := rg_cues s @ [(''EJ'', 3)]\<rparr>"

lemma mem_facts: "registrar_known mem_tel_env s" "issuer_witnessed mem_tel_env k s" "acts_ok mem_tel_env"
  by (simp add: registrar_known_def mem_tel_ok tpwe_known_def tmse_known_def split_beta, simp add: mem_tel_env_def)
    (simp_all add: issuer_witnessed_def acts_ok_def mem_tel_env_def keeps_def)

lemma turn_only_less:
  assumes "registrar_known env s"
  shows "waiting (te_tpwe env) (rg_world (snd (Registrar_processEscrows env s))) \<subseteq> waiting (te_tpwe env) (rg_world s)"
    "waiting (te_tmse env) (rg_world (snd (Registrar_processEscrows env s))) \<subseteq> waiting (te_tmse env) (rg_world s)"
    "rg_receipts (snd (Registrar_processEscrows env s)) = rg_receipts s"
proof -
  obtain s' where "Registrar_processEscrows env s = (Inr (), s')" "memory s' = memory s"
    "waiting (te_tpwe env) (rg_world s') \<subseteq> waiting (te_tpwe env) (rg_world s)"
    "waiting (te_tmse env) (rg_world s') \<subseteq> waiting (te_tmse env) (rg_world s)"
    by (rule registrar_turn_run [OF assms]) blast
  then show "waiting (te_tpwe env) (rg_world (snd (Registrar_processEscrows env s))) \<subseteq> waiting (te_tpwe env) (rg_world s)"
    "waiting (te_tmse env) (rg_world (snd (Registrar_processEscrows env s))) \<subseteq> waiting (te_tmse env) (rg_world s)"
    "rg_receipts (snd (Registrar_processEscrows env s)) = rg_receipts s"
    by (simp_all add: memory_def)
qed

lemma turn_never_asks:
  assumes "registrar_known env s"
  shows "\<not> asks_again env k s (snd (Registrar_processEscrows env s))"
  using turn_only_less(1,2) [OF assms] by (simp add: asks_again_def turn_only_less(3) [OF assms]) blast

lemma mem_tel_acts:
  "te_hkever mem_tel_env w h = Inr (hb_pre h, 3, ''EA'')" "te_anchorMsg mem_tel_env p d n t = retA ()"
  by (simp_all add: mem_tel_env_def)

lemma mem_second_effect:
  "rg_receipts (mem_second s) = rg_receipts s @ [(''EJ'', 3)]"
  "waiting (te_tpwe mem_tel_env) (rg_world (mem_second s)) =
     insert ((''ER2'', 0), (''EJ'', 3, ''EA'')) (waiting (te_tpwe mem_tel_env) (rg_world s))"
  "waiting (te_tmse mem_tel_env) (rg_world (mem_second s)) = waiting (te_tmse mem_tel_env) (rg_world s)"
proof -
  have "mem_second s = s\<lparr>rg_receipts := rg_receipts s @ [(''EJ'', 3)],
      rg_world := snd (dadd (te_tpwe mem_tel_env) (rg_world s) (''ER2'', 0) (''EJ'', 3, ''EA''))\<rparr>"
    by (simp add: mem_second_def Registrar_incept_def anchor_single_def bindA_def rext_run mem_tel_acts)
  then show "rg_receipts (mem_second s) = rg_receipts s @ [(''EJ'', 3)]"
    "waiting (te_tpwe mem_tel_env) (rg_world (mem_second s)) =
       insert ((''ER2'', 0), (''EJ'', 3, ''EA'')) (waiting (te_tpwe mem_tel_env) (rg_world s))"
    "waiting (te_tmse mem_tel_env) (rg_world (mem_second s)) = waiting (te_tmse mem_tel_env) (rg_world s)"
    by (simp_all add: waiting_add [OF tel_laws(1) [OF mem_tel_ok]] waiting_same [OF add_frames(1) [OF mem_tel_ok]])
qed

lemma mem_run:
  defines "s1 \<equiv> mem_turn (new_registrar mem_tel_env mem_tel)"
  defines "s2 \<equiv> mem_second s1"
  defines "s3 \<equiv> mem_receipt s2"
  shows "successively (\<lambda>s t. registrar_step mem_tel_env s t \<and> \<not> asks_again mem_tel_env (''EC'', 0) s t)
    [new_registrar mem_tel_env mem_tel, s1, s2, s3, mem_turn s3]"
proof -
  have turn: "registrar_step mem_tel_env s (mem_turn s) \<and> \<not> asks_again mem_tel_env k s (mem_turn s)" for s k
    unfolding mem_turn_def
    by (intro conjI registrar_step.escrows [where r = "fst (Registrar_processEscrows mem_tel_env s)"] turn_never_asks mem_facts) simp
  have w1: "waiting (te_tpwe mem_tel_env) (rg_world s1) \<subseteq> {((''EC'', 0), (''EI'', 3, ''EA''))}" and r1: "rg_receipts s1 = []"
    using turn_only_less [OF mem_facts(1), of "new_registrar mem_tel_env mem_tel"]
    by (simp_all add: s1_def mem_turn_def new_registrar_def mem_waiting)
  have second: "registrar_step mem_tel_env s1 s2" unfolding s2_def mem_second_def
    by (rule registrar_step.incept, rule prod.collapse [symmetric])
  have "\<not> asks_again mem_tel_env (''EC'', 0) s1 s2"
    using w1 r1 by (auto simp: asks_again_def s2_def mem_second_effect anchor_of_def)
  moreover have "rg_receipts s2 = [(''EJ'', 3)]" by (simp add: s2_def mem_second_effect r1)
  then have "registrar_step mem_tel_env s2 s3"
    using registrar_step.receipted [of "(''EJ'', 3)" s2 mem_tel_env "rg_world s2"] by (simp add: s3_def mem_receipt_def)
  moreover have "\<not> asks_again mem_tel_env (''EC'', 0) s2 s3"
    using \<open>rg_receipts s2 = _\<close> by (auto simp: asks_again_def s3_def mem_receipt_def)
  ultimately show ?thesis using turn second by (simp add: s1_def)
qed

lemma mem_compare:
  "fst (Registrar_complete mem_tel_env ''ER2'' 0
     (rg_world (mem_turn (mem_receipt (mem_second (mem_turn (new_registrar mem_tel_env mem_tel))))))) = Inr True"
  "fst (Registrar_complete mem_tel_env ''EC'' 0
     (rg_world (mem_turn (mem_issued\<lparr>rg_receipts := [], rg_cues := [(''EI'', 3)]\<rparr>)))) = Inr True"
  unfolding mem_issued_run by code_simp+

theorem restart_strands_witness:
  "fst (Registrar_complete mem_tel_env ''EC'' 0
     (rg_world (mem_turn (mem_receipt (mem_second (mem_turn (new_registrar mem_tel_env (rg_world mem_issued)))))))) = Inr False \<and>
   fst (Registrar_complete mem_tel_env ''ER2'' 0
     (rg_world (mem_turn (mem_receipt (mem_second (mem_turn (new_registrar mem_tel_env (rg_world mem_issued)))))))) = Inr True \<and>
   fst (Registrar_complete mem_tel_env ''EC'' 0
     (rg_world (mem_turn (mem_issued\<lparr>rg_receipts := [], rg_cues := [(''EI'', 3)]\<rparr>)))) = Inr True \<and>
   receipted mem_tel_env (rg_world mem_issued) (''EI'', 3, ''EA'')"
proof -
  have world: "rg_world mem_issued = mem_tel" by (simp add: mem_issued_run)
  have w: "((''EC'', 0), (''EI'', 3, ''EA'')) \<in> waiting (te_tpwe mem_tel_env) mem_tel" by (simp add: mem_waiting)
  have "waits_only mem_tel_env (''EC'', 0) (new_registrar mem_tel_env mem_tel)"
    by (simp add: waits_only_def new_registrar_def mem_waiting finished_tels_def) (simp add: mem_tel_env_def mem_tel_def)
  from restart_strands [OF mem_facts(3) w this mem_run] have "fst (Registrar_complete mem_tel_env ''EC'' 0
     (rg_world (mem_turn (mem_receipt (mem_second (mem_turn (new_registrar mem_tel_env mem_tel))))))) = Inr False"
    by (simp add: mem_facts del: complete_run)
  with mem_compare show ?thesis by (simp only: world) (simp add: receipted_def mem_tel_env_def del: complete_run)
qed

subsection \<open>The stage of the credentialer\<close>

definition stored :: "('w, 'k, 'v) suber \<Rightarrow> 'w \<Rightarrow> ('k \<times> 'v) set" where
  "stored db w = {(k, v). sget db w k = Some v}"

lemma stored_items: "suber_ok db \<Longrightarrow> set (sitems db w) = stored db w"
  by (auto simp: stored_def sitems_iff)

lemma stored_rem: "suber_ok db \<Longrightarrow> stored db (snd (srem db w k)) = {p \<in> stored db w. fst p \<noteq> k}"
  by (auto simp: stored_def srem_ok split: if_splits)

lemma stored_same: "sget db w = sget db w' \<Longrightarrow> stored db w = stored db w'"
  by (simp add: stored_def)

lemma credential_frame [tel]:
  assumes "tel_ok env"
  shows "sget (te_ctel env) (snd (srem (te_cmse env) w k)) = sget (te_ctel env) w"
    "sget (te_ccrd env) (snd (srem (te_cmse env) w k)) = sget (te_ccrd env) w"
    "tel_reads env (snd (srem (te_cmse env) w k)) = tel_reads env w"
    "sget (te_ctel env) (snd (sput (te_ccrd env) w d c)) = sget (te_ctel env) w"
    "sget (te_cmse env) (snd (sput (te_ccrd env) w d c)) = sget (te_cmse env) w"
    "tel_reads env (snd (sput (te_ccrd env) w d c)) = tel_reads env w"
  using assms by (simp_all add: tel_ok_def frames_Pair frames_store)

definition cmse_verdict :: "'w tel_env \<Rightarrow> 'w \<Rightarrow> (string \<times> int) \<times> creder \<Rightarrow> verdict" where
  "cmse_verdict env w = (\<lambda>((said, sn), c).
     if sget (te_ctel env) w (said, sn) \<noteq> None \<and> te_saved env w said \<noteq> None then Moves else Stays)"

definition credentials :: "'w tel_env \<Rightarrow> 'w \<Rightarrow> string set" where
  "credentials env w = {said. sget (te_ccrd env) w said \<noteq> None}"

interpretation cmse: escrow "missing_sig_step env" "\<lambda>_ _. tel_ok env" "cmse_verdict env" "\<lambda>e. cr_said (snd e)"
  "stored (te_cmse env)" "credentials env" "\<lambda>_. [] :: unit list" "\<lambda>_ _. []"
  "\<lambda>w. (sget (te_ctel env) w, tel_reads env w)"
proof
  fix w :: 'a and e :: "(string \<times> int) \<times> creder"
  assume ok: "tel_ok env"
  obtain d m c where e: "e = ((d, m), c)" by (metis prod.exhaust)
  let ?rem = "snd (srem (te_cmse env) w (d, m))"
  let ?w = "snd (sput (te_ccrd env) ?rem (cr_said c) c)"
  have run: "missing_sig_step env e w = (Inr (), if cmse_verdict env w e = Moves then ?w else w)"
    by (auto simp: e missing_sig_step_def cmse_verdict_def bindA_def)
  note run = run [unfolded e]
  have verdict: "cmse_verdict env w e = Moves \<or> cmse_verdict env w e = Stays"
    by (simp add: cmse_verdict_def split_beta)
  show "fst (missing_sig_step env e w) = Inr ()" by (simp add: run e)
  show "stored (te_cmse env) (snd (missing_sig_step env e w)) =
      (if cmse_verdict env w e = Stays then stored (te_cmse env) w else {p \<in> stored (te_cmse env) w. fst p \<noteq> fst e})"
    using verdict
    by (auto simp: run e stored_rem [OF tel_laws(5) [OF ok]] stored_same [OF credential_frame(5) [OF ok]])
  show "credentials env (snd (missing_sig_step env e w)) =
      (if cmse_verdict env w e = Moves then insert (cr_said (snd e)) (credentials env w) else credentials env w)"
    by (auto simp: run e credentials_def sput_get [OF tel_laws(6) [OF ok]] credential_frame(2) [OF ok])
  show "[] = [] @ (if cmse_verdict env w e = Moves then [] else ([] :: unit list))" by simp
  show "(sget (te_ctel env) (snd (missing_sig_step env e w)), tel_reads env (snd (missing_sig_step env e w))) =
      (sget (te_ctel env) w, tel_reads env w)"
    by (simp add: run e credential_frame [OF ok])
  show "(\<lambda>_. tel_ok env) = (\<lambda>_. tel_ok env)" ..
next
  fix w w'
  assume "(sget (te_ctel env) w, tel_reads env w) = (sget (te_ctel env) w', tel_reads env w')"
  then show "cmse_verdict env w = cmse_verdict env w' \<and>
      (\<lambda>_. []) = ((\<lambda>_. []) :: _ \<Rightarrow> unit list)"
    by (simp add: tel_reads_def cmse_verdict_def)
qed

lemma missing_sig_pass:
  assumes "tel_ok env"
  obtains w' where "processCredentialMissingSigEscrow env w = (Inr (), w')"
    and "credentials env w' = credentials env w \<union>
      {cr_said c | said sn c. ((said, sn), c) \<in> stored (te_cmse env) w \<and>
         sget (te_ctel env) w (said, sn) \<noteq> None \<and> te_saved env w said \<noteq> None}"
proof -
  have "\<forall>e \<in> stored (te_cmse env) w. tel_ok env" using assms by simp
  then obtain w' where run: "forA (sitems (te_cmse env) w) (missing_sig_step env) w = (Inr (), w')"
    and got: "credentials env w' = credentials env w \<union> (\<lambda>e. cr_said (snd e)) ` {e \<in> stored (te_cmse env) w. cmse_verdict env w e = Moves}"
    by (rule cmse.whole_pass [OF _ stored_items [OF tel_laws(5) [OF assms]]])
  have "(\<lambda>e. cr_said (snd e)) ` {e \<in> stored (te_cmse env) w. cmse_verdict env w e = Moves} =
      {cr_said c | said sn c. ((said, sn), c) \<in> stored (te_cmse env) w \<and>
         sget (te_ctel env) w (said, sn) \<noteq> None \<and> te_saved env w said \<noteq> None}"
    by (force simp: cmse_verdict_def split: if_splits)
  with run got show thesis by (intro that) (simp_all add: processCredentialMissingSigEscrow_def)
qed

lemma credential_complete_run [simp]:
  "Credentialer_complete env said w = (Inr (said \<in> credentials env w), w)"
  by (simp add: Credentialer_complete_def credentials_def)

lemma status_credential_run:
  assumes "op_type o' = ''credential''" and "op_metadata o' = JObj ms" and "dict_get ms ''ced'' = Some (JObj cs)"
    and "dict_get cs ''d'' = Some (JStr said)"
    and "me_credential menv = (\<lambda>j. bindA (liftA (jstr j)) (Credentialer_complete env))"
  shows "status menv o' w =
    (Inr (if said \<in> credentials env w then finished o' (JObj [(''ced'', JObj cs)]) else pending o'), w)"
  using assms by (simp add: status_def status_credential_def required_def has_def field_def bindA_Inr)

lemma credential_turn:
  assumes keri: "keri_escrows keri (rg_world s) = (Inr (), w1)"
    and known: "registrar_known env (s\<lparr>rg_world := w1\<rparr>)"
  shows "\<exists>s'. Escrower_recur (agent_escrows env keri) True s = (Inr False, s') \<and>
    (said \<in> credentials env (rg_world s') \<longleftrightarrow> said \<in> credentials env w1 \<or>
       (\<exists>d n c. sget (te_cmse env) w1 (d, n) = Some c \<and> cr_said c = said \<and> te_saved env w1 d \<noteq> None \<and>
          ((d, n) \<in> finished_tels env (s\<lparr>rg_world := w1\<rparr>) \<or>
           te_hasTel env w1 d n \<and> (\<exists>v. ((d, n), v) \<in> due env (s\<lparr>rg_world := w1\<rparr>)))))"
proof -
  let ?s = "s\<lparr>rg_world := w1\<rparr>"
  from known have ok: "tel_ok env" by (simp add: registrar_known_def)
  obtain s2 where run: "Registrar_processEscrows env ?s = (Inr (), s2)" and later: "later env (rg_world s2) = later env w1"
    and fin: "finished_tels env s2 = finished_tels env ?s \<union> fst ` {p \<in> due env ?s. tede_verdict env ?s p = Moves}"
    by (rule registrar_turn_run [OF known]) simp
  obtain w3 where pass: "processCredentialMissingSigEscrow env (rg_world s2) = (Inr (), w3)"
    and got: "credentials env w3 = credentials env (rg_world s2) \<union>
      {cr_said c | said sn c. ((said, sn), c) \<in> stored (te_cmse env) (rg_world s2) \<and>
         sget (te_ctel env) (rg_world s2) (said, sn) \<noteq> None \<and> te_saved env (rg_world s2) said \<noteq> None}"
    by (rule missing_sig_pass [OF ok])
  have recur: "Escrower_recur (agent_escrows env keri) True s = (Inr False, s2\<lparr>rg_world := w3\<rparr>)"
    using run pass by (simp add: Escrower_keri [OF keri] bindA_def rext_run)
  have same: "credentials env (rg_world s2) = credentials env w1" "te_saved env (rg_world s2) = te_saved env w1"
    "sget (te_cmse env) (rg_world s2) = sget (te_cmse env) w1"
    using later by (simp_all add: later_def tel_reads_def credentials_def)
  have ctel: "sget (te_ctel env) (rg_world s2) (d, n) \<noteq> None \<longleftrightarrow>
      (d, n) \<in> finished_tels env ?s \<or> te_hasTel env w1 d n \<and> (\<exists>v. ((d, n), v) \<in> due env ?s)" for d n
  proof -
    have "sget (te_ctel env) (rg_world s2) (d, n) \<noteq> None \<longleftrightarrow> (d, n) \<in> finished_tels env s2"
      by (simp add: finished_tels_def)
    then show ?thesis by (force simp: fin tede_verdict_def split: if_splits)
  qed
  have "said \<in> credentials env w3 \<longleftrightarrow> said \<in> credentials env w1 \<or>
      (\<exists>d n c. sget (te_cmse env) w1 (d, n) = Some c \<and> cr_said c = said \<and> te_saved env w1 d \<noteq> None \<and>
         ((d, n) \<in> finished_tels env ?s \<or> te_hasTel env w1 d n \<and> (\<exists>v. ((d, n), v) \<in> due env ?s)))"
    unfolding got same stored_def using ctel by blast
  then show ?thesis using recur by simp
qed

text \<open>
  C19. The operation of an issued credential ends as soon as both its event and the credential are
  accepted: after a turn of the escrows it is done exactly if the credential had been, or if the
  credential waits in \<open>cmse\<close>, is saved by the verifier, and its event is finished or gets finished in
  this very turn of the registrar. A credential whose event is stranded never ends its operation.
\<close>

theorem credential_ends:
  assumes keri: "keri_escrows keri (rg_world s) = (Inr (), w1)"
    and known: "registrar_known env (s\<lparr>rg_world := w1\<rparr>)"
    and op: "op_type o' = ''credential''" "op_metadata o' = JObj ms" "dict_get ms ''ced'' = Some (JObj cs)"
      "dict_get cs ''d'' = Some (JStr said)"
    and mon: "me_credential menv = (\<lambda>j. bindA (liftA (jstr j)) (Credentialer_complete env))"
  shows "\<exists>s'. Escrower_recur (agent_escrows env keri) True s = (Inr False, s') \<and>
    status menv o' (rg_world s') = (Inr (
      if said \<in> credentials env w1 \<or>
         (\<exists>d n c. sget (te_cmse env) w1 (d, n) = Some c \<and> cr_said c = said \<and> te_saved env w1 d \<noteq> None \<and>
            ((d, n) \<in> finished_tels env (s\<lparr>rg_world := w1\<rparr>) \<or>
             te_hasTel env w1 d n \<and> (\<exists>v. ((d, n), v) \<in> due env (s\<lparr>rg_world := w1\<rparr>))))
      then finished o' (JObj [(''ced'', JObj cs)]) else pending o'), rg_world s')"
  using credential_turn [OF keri known, of said] status_credential_run [OF op mon] by fastforce

text \<open>An agent that is not started again: the cue is there, and one turn ends the operation.\<close>

definition mem_cred_mon :: "mem_tel mon_env" where
  "mem_cred_mon = (plain_mon (mem_suber (\<lambda>_. DAList.empty) (\<lambda>_ w. w)))
     \<lparr>me_credential := (\<lambda>j. bindA (liftA (jstr j)) (Credentialer_complete mem_tel_env))\<rparr>"

definition mem_cred_op :: op where
  "mem_cred_op = \<lparr>op_oid = ''EC'', op_type = ''credential'', op_start = '''',
     op_metadata = JObj [(''ced'', JObj [(''d'', JStr ''EC'')]), (''depends'', JNull)]\<rparr>"

theorem credential_ends_witness:
  "\<exists>s'. Escrower_recur (agent_escrows mem_tel_env (\<lambda>_. retA ())) True (mem_registrar [(''EI'', 3)]) = (Inr False, s') \<and>
    status mem_cred_mon mem_cred_op (rg_world s') =
      (Inr (finished mem_cred_op (JObj [(''ced'', JObj [(''d'', JStr ''EC'')])])), rg_world s')"
proof -
  let ?s = "mem_registrar [(''EI'', 3)]"
  have s: "?s\<lparr>rg_world := mem_tel\<rparr> = ?s" by (simp add: mem_registrar_def)
  have keri: "keri_escrows (\<lambda>_. retA ()) (rg_world ?s) = (Inr (), mem_tel)" by (simp add: mem_registrar_def keri_escrows_def)
  have known: "registrar_known mem_tel_env (?s\<lparr>rg_world := mem_tel\<rparr>)" unfolding s by (rule mem_registrar_known)
  have op: "op_type mem_cred_op = ''credential''"
    "op_metadata mem_cred_op = JObj [(''ced'', JObj [(''d'', JStr ''EC'')]), (''depends'', JNull)]"
    "dict_get [(''ced'', JObj [(''d'', JStr ''EC'')]), (''depends'', JNull)] ''ced'' = Some (JObj [(''d'', JStr ''EC'')])"
    "dict_get [(''d'', JStr ''EC'')] ''d'' = Some (JStr ''EC'')"
    by (simp_all add: mem_cred_op_def)
  have mon: "me_credential mem_cred_mon = (\<lambda>j. bindA (liftA (jstr j)) (Credentialer_complete mem_tel_env))"
    by (simp add: mem_cred_mon_def)
  have "((''EC'', 0), (''EI'', 3, ''EA'')) \<in> due mem_tel_env (?s\<lparr>rg_world := mem_tel\<rparr>)"
    unfolding s by (simp add: mem_due)
  then have "\<exists>v. ((''EC'', 0), v) \<in> due mem_tel_env (?s\<lparr>rg_world := mem_tel\<rparr>)" by blast
  then have "\<exists>d n c. sget (te_cmse mem_tel_env) mem_tel (d, n) = Some c \<and> cr_said c = ''EC'' \<and>
      te_saved mem_tel_env mem_tel d \<noteq> None \<and> ((d, n) \<in> finished_tels mem_tel_env (?s\<lparr>rg_world := mem_tel\<rparr>) \<or>
        te_hasTel mem_tel_env mem_tel d n \<and> (\<exists>v. ((d, n), v) \<in> due mem_tel_env (?s\<lparr>rg_world := mem_tel\<rparr>)))"
    by (intro exI [of _ "''EC''"] exI [of _ 0] exI [of _ "\<lparr>cr_said = ''EC'', cr_schema = JNull, cr_raw = ''''\<rparr>"])
      (simp add: mem_tel_env_def mem_tel_def)
  then show ?thesis
    using credential_ends [where s = ?s, OF keri known op mon] by (simp only: simp_thms if_True)
qed

end
