(* ===== verification/Delegating.thy ===== *)
theory Delegating
  imports Escrows
begin

text \<open>
  Delegation (\<open>app/delegating.py\<close>): the task \<open>Anchorer\<close> with the stages \<open>dpwe\<close>, \<open>dune\<close> and \<open>cdel\<close> of a delegated
  event, interpretations of the locale of \<open>Escrows\<close>, and the approval by the delegator.
\<close>

subsection \<open>Delegated events\<close>

text \<open>
  \<open>Anchorer\<close>: a delegated event waits in \<open>dpwe\<close> for its witness receipts, is then sent to the delegator,
  and waits in \<open>dune\<close> for the event of the delegator that anchors it. \<open>an_receipts\<close> and \<open>an_cues\<close> are the
  queues of its own receiptor, \<open>an_proxy\<close> the identifier that sends for those that can not sign. \<open>an_groupHab\<close> is the
  member (\<open>mhab\<close>) of an instance of the class \<open>habbing.GroupHab\<close>, and \<open>None\<close> for a \<open>Hab\<close> of another class; the classes
  of Signify identifiers, \<open>SignifyGroupHab\<close> too, are others.
\<close>

record 'w anchor_env =
  an_dpwe :: "('w, string \<times> string, serder) suber"
  an_dune :: "('w, string \<times> string, serder) suber"
  an_cdel :: "('w, string \<times> int, string) suber"
  an_habs :: "'w \<Rightarrow> string \<Rightarrow> hab option"
  an_groupHab :: "hab \<Rightarrow> hab option"
  an_hkever :: "'w \<Rightarrow> hab \<Rightarrow> idkever option"
  an_kever :: "'w \<Rightarrow> string \<Rightarrow> idkever option"
  an_ksaid :: "'w \<Rightarrow> string \<Rightarrow> string"
  an_wigs :: "'w \<Rightarrow> string \<Rightarrow> string \<Rightarrow> nat"
  an_ownEvent :: "'w \<Rightarrow> hab \<Rightarrow> int \<Rightarrow> exn + serder"
  an_clone :: "'w \<Rightarrow> serder \<Rightarrow> exn + serder \<times> string"
  an_seal :: "'w \<Rightarrow> string \<Rightarrow> string \<times> int \<times> string \<Rightarrow> serder option"
  an_setAes :: "string \<Rightarrow> string \<Rightarrow> int \<Rightarrow> string \<Rightarrow> ('w, unit) act"
  an_send :: "hab \<Rightarrow> string option \<Rightarrow> serder \<Rightarrow> string \<Rightarrow> ('w, unit) act"

record 'w anchorer =
  an_receipts :: "(string \<times> int) list"
  an_cues :: "(string \<times> int) list"
  an_proxy :: "hab option"
  an_world :: 'w

definition aext :: "('w, 'a) act \<Rightarrow> ('w anchorer, 'a) act" where
  "aext m = zoomA an_world (\<lambda>w s. s\<lparr>an_world := w\<rparr>) m"

lemma aext_run: "aext m s = (fst (m (an_world s)), s\<lparr>an_world := snd (m (an_world s))\<rparr>)"
  by (simp add: aext_def zoomA_def split_beta)

lemma bindA_aext:
  "m (an_world s) = (r, w) \<Longrightarrow> bindA (aext m) f s =
     (case r of Inl e \<Rightarrow> (Inl e, s\<lparr>an_world := w\<rparr>) | Inr x \<Rightarrow> f x (s\<lparr>an_world := w\<rparr>))"
  by (simp add: bindA_def aext_run split: sum.split)

lemma bindA_aext_ops:
  "bindA (aext (remS d k)) f s = f (fst (srem d (an_world s) k)) (s\<lparr>an_world := snd (srem d (an_world s) k)\<rparr>)"
  "bindA (aext (pinS d k v)) f s = f (fst (spin d (an_world s) k v)) (s\<lparr>an_world := snd (spin d (an_world s) k v)\<rparr>)"
  "bindA (aext (putS d k v)) f s = f (fst (sput d (an_world s) k v)) (s\<lparr>an_world := snd (sput d (an_world s) k v)\<rparr>)"
  by (simp_all add: bindA_def aext_run)

lemma bindA_aext_readA:
  "bindA (aext (readA g)) f s = (case g (an_world s) of Inl e \<Rightarrow> (Inl e, s) | Inr x \<Rightarrow> f x s)"
  by (simp add: bindA_def aext_run split: sum.split)

text \<open>\<open>d[k]\<close>.\<close>

definition at :: "('w \<Rightarrow> 'a option) \<Rightarrow> string \<Rightarrow> ('w anchorer, 'a) act" where
  "at f k = bindA (getA (\<lambda>s. f (an_world s))) (\<lambda>r. case r of None \<Rightarrow> raiseA (KeyError k) | Some x \<Rightarrow> retA x)"

lemma bindA_at: "f (an_world s) = Some x \<Longrightarrow> bindA (at f k) g s = g x s"
  by (simp add: at_def)

definition Anchorer_delegation ::
  "'w anchor_env \<Rightarrow> string \<Rightarrow> int option \<Rightarrow> hab option \<Rightarrow> ('w anchorer, unit) act" where
  "Anchorer_delegation env pre sn proxy =
     bindA (getA (\<lambda>s. an_habs env (an_world s) pre)) (\<lambda>hab.
     case hab of
       None \<Rightarrow> raiseA (ValidationError (pre @ '' is not a valid local AID for delegation''))
     | Some hab \<Rightarrow>
         seqA (modA (\<lambda>s. if proxy \<noteq> None then s\<lparr>an_proxy := proxy\<rparr> else s))
         (bindA (at (\<lambda>w. an_hkever env w hab) (hb_pre hab)) (\<lambda>kever.
          bindA (getA (\<lambda>s. case ik_delpre kever of None \<Rightarrow> False | Some d \<Rightarrow> an_kever env (an_world s) d \<noteq> None)) (\<lambda>known.
          seqA (guardA known (ValidationError (''delegator '' @ (case ik_delpre kever of None \<Rightarrow> ''None'' | Some d \<Rightarrow> d) @
                  '' not found, unable to process delegation'')))
          (bindA (aext (readA (\<lambda>w. an_ownEvent env w hab (case sn of Some n \<Rightarrow> n | None \<Rightarrow> ik_sn kever)))) (\<lambda>srdr.
           seqA (modA (\<lambda>s. s\<lparr>an_receipts := an_receipts s @ [(pre, se_sn srdr)]\<rparr>))
           (bindA (aext (pinS (an_dpwe env) (se_pre srdr, se_said srdr) srdr)) (\<lambda>_. retA ()))))))))"

definition Anchorer_complete :: "'w anchor_env \<Rightarrow> string \<Rightarrow> int \<Rightarrow> string option \<Rightarrow> ('w, bool) act" where
  "Anchorer_complete env pre sn saider =
     bindA (getS (an_cdel env) (pre, sn)) (\<lambda>csaider.
     case csaider of
       None \<Rightarrow> retA False
     | Some c \<Rightarrow>
         seqA (guardA (case saider of None \<Rightarrow> True | Some d \<Rightarrow> c = d)
                 (ValidationError (''invalid delegation protocol escrowed event '' @ c @ ''-'' @ the saider)))
           (retA True))"

text \<open>
  Who sends the event to the delegator: the member of a \<open>GroupHab\<close> (the first argument), else the proxy, else the
  identifier itself after its inception.
\<close>

fun sender_of :: "hab option \<Rightarrow> hab option \<Rightarrow> idkever \<Rightarrow> hab \<Rightarrow> hab option" where
  "sender_of (Some mhab) proxy kever hab = Some mhab"
| "sender_of None (Some p) kever hab = Some p"
| "sender_of None None kever hab = (if ik_sn kever > 0 then Some hab else None)"

definition partial_step :: "'w anchor_env \<Rightarrow> (string \<times> string) \<times> serder \<Rightarrow> ('w anchorer, unit) act" where
  "partial_step env = (\<lambda>((pre, said), serder).
     bindA (at (\<lambda>w. an_habs env w pre) pre) (\<lambda>hab.
     bindA (at (\<lambda>w. an_kever env w pre) pre) (\<lambda>kever.
     bindA (at (\<lambda>w. an_hkever env w hab) (hb_pre hab)) (\<lambda>hkever.
     bindA (getA (\<lambda>s. an_wigs env (an_world s) pre (se_said serder))) (\<lambda>wigs.
     bindA (getA (\<lambda>s. (se_pre serder, se_sn serder) \<in> set (an_cues s))) (\<lambda>witnessed.
     whenA (wigs = length (ik_wits kever) \<and> (ik_wits kever \<noteq> [] \<longrightarrow> witnessed))
       (bindA (getA an_proxy) (\<lambda>proxy.
        case sender_of (an_groupHab env hab) proxy hkever hab of
          None \<Rightarrow> raiseA (ValidationError ''No proxy to send messages for delegation for AID %s]'')
        | Some phab \<Rightarrow>
            bindA (aext (readA (\<lambda>w. an_clone env w serder))) (\<lambda>(srdr, evt).
            seqA (aext (an_send env phab (ik_delpre hkever) srdr evt))
            (bindA (aext (remS (an_dpwe env) (pre, said))) (\<lambda>_.
             bindA (aext (pinS (an_dune env) (se_pre srdr, se_said srdr) srdr)) (\<lambda>_. retA ()))))))))))))"

definition processPartialWitnessEscrow :: "'w anchor_env \<Rightarrow> ('w anchorer, unit) act" where
  "processPartialWitnessEscrow env =
     bindA (getA (\<lambda>s. sitems (an_dpwe env) (an_world s))) (\<lambda>items. forA items (partial_step env))"

definition unanchored_step :: "'w anchor_env \<Rightarrow> (string \<times> string) \<times> serder \<Rightarrow> ('w anchorer, unit) act" where
  "unanchored_step env = (\<lambda>((pre, said), serder).
     bindA (at (\<lambda>w. an_kever env w pre) pre) (\<lambda>kever.
     bindA (at (\<lambda>w. case ik_delpre kever of None \<Rightarrow> None | Some d \<Rightarrow> an_kever env w d)
              (case ik_delpre kever of None \<Rightarrow> ''None'' | Some d \<Rightarrow> d)) (\<lambda>dkever.
     bindA (getA (\<lambda>s. an_seal env (an_world s) (ik_pre dkever) (se_pre serder, se_sn serder, se_said serder))) (\<lambda>dserder.
     case dserder of
       None \<Rightarrow> retA ()
     | Some dserder \<Rightarrow>
         bindA (getA (\<lambda>s. an_ksaid env (an_world s) pre)) (\<lambda>ksaid.
         seqA (aext (an_setAes env (ik_pre kever) ksaid (se_sn dserder) (se_said dserder)))
         (bindA (aext (putS (an_cdel env) (pre, se_sn serder) (se_said serder))) (\<lambda>_.
          bindA (aext (remS (an_dune env) (pre, said))) (\<lambda>_. retA ()))))))))"

definition processUnanchoredEscrow :: "'w anchor_env \<Rightarrow> ('w anchorer, unit) act" where
  "processUnanchoredEscrow env =
     bindA (getA (\<lambda>s. sitems (an_dune env) (an_world s))) (\<lambda>items. forA items (unanchored_step env))"

definition Anchorer_processEscrows :: "'w anchor_env \<Rightarrow> ('w anchorer, unit) act" where
  "Anchorer_processEscrows env = seqA (processPartialWitnessEscrow env) (processUnanchoredEscrow env)"

subsection \<open>The stages of a delegated event\<close>

definition anchor_reads where
  "anchor_reads env w = (an_habs env w, an_hkever env w, an_kever env w, an_wigs env w, an_clone env w, an_seal env w)"

definition anchor_ok :: "'w anchor_env \<Rightarrow> bool" where
  "anchor_ok env \<longleftrightarrow>
     suber_ok (an_dpwe env) \<and> suber_ok (an_dune env) \<and> suber_ok (an_cdel env) \<and>
     frames (an_dpwe env) (\<lambda>w. (sget (an_dune env) w, sget (an_cdel env) w, anchor_reads env w)) \<and>
     frames (an_dune env) (\<lambda>w. (sget (an_dpwe env) w, sget (an_cdel env) w, anchor_reads env w)) \<and>
     frames (an_cdel env) (\<lambda>w. (sget (an_dpwe env) w, sget (an_dune env) w, anchor_reads env w)) \<and>
     (\<forall>h d e m w. fst (an_send env h d e m w) = Inr () \<and>
        (let w' = snd (an_send env h d e m w) in sget (an_dpwe env) w' = sget (an_dpwe env) w \<and>
         sget (an_dune env) w' = sget (an_dune env) w \<and> sget (an_cdel env) w' = sget (an_cdel env) w \<and>
         anchor_reads env w' = anchor_reads env w)) \<and>
     (\<forall>p k n d w. fst (an_setAes env p k n d w) = Inr () \<and>
        (let w' = snd (an_setAes env p k n d w) in sget (an_dpwe env) w' = sget (an_dpwe env) w \<and>
         sget (an_dune env) w' = sget (an_dune env) w \<and> sget (an_cdel env) w' = sget (an_cdel env) w \<and>
         anchor_reads env w' = anchor_reads env w))"

named_theorems anc \<open>what the databases of delegated events leave alone\<close>

lemma anchor_laws [anc]:
  assumes "anchor_ok env"
  shows "suber_ok (an_dpwe env)" "suber_ok (an_dune env)" "suber_ok (an_cdel env)"
  using assms by (simp_all add: anchor_ok_def)

lemma anchor_frames [anc]:
  assumes "anchor_ok env"
  shows "sget (an_dune env) (snd (srem (an_dpwe env) w k)) = sget (an_dune env) w"
    "sget (an_cdel env) (snd (srem (an_dpwe env) w k)) = sget (an_cdel env) w"
    "anchor_reads env (snd (srem (an_dpwe env) w k)) = anchor_reads env w"
    "sget (an_dpwe env) (snd (spin (an_dune env) w k v)) = sget (an_dpwe env) w"
    "sget (an_cdel env) (snd (spin (an_dune env) w k v)) = sget (an_cdel env) w"
    "anchor_reads env (snd (spin (an_dune env) w k v)) = anchor_reads env w"
    "sget (an_dpwe env) (snd (srem (an_dune env) w k)) = sget (an_dpwe env) w"
    "sget (an_cdel env) (snd (srem (an_dune env) w k)) = sget (an_cdel env) w"
    "anchor_reads env (snd (srem (an_dune env) w k)) = anchor_reads env w"
    "sget (an_dpwe env) (snd (sput (an_cdel env) w c d)) = sget (an_dpwe env) w"
    "sget (an_dune env) (snd (sput (an_cdel env) w c d)) = sget (an_dune env) w"
    "anchor_reads env (snd (sput (an_cdel env) w c d)) = anchor_reads env w"
  using assms by (simp_all add: anchor_ok_def frames_Pair frames_store)

lemma anchor_acts [anc]:
  assumes "anchor_ok env"
  shows "fst (an_send env h t e m w) = Inr ()"
    "sget (an_dpwe env) (snd (an_send env h t e m w)) = sget (an_dpwe env) w"
    "sget (an_dune env) (snd (an_send env h t e m w)) = sget (an_dune env) w"
    "sget (an_cdel env) (snd (an_send env h t e m w)) = sget (an_cdel env) w"
    "anchor_reads env (snd (an_send env h t e m w)) = anchor_reads env w"
    "fst (an_setAes env p k n d w) = Inr ()"
    "sget (an_dpwe env) (snd (an_setAes env p k n d w)) = sget (an_dpwe env) w"
    "sget (an_dune env) (snd (an_setAes env p k n d w)) = sget (an_dune env) w"
    "sget (an_cdel env) (snd (an_setAes env p k n d w)) = sget (an_cdel env) w"
    "anchor_reads env (snd (an_setAes env p k n d w)) = anchor_reads env w"
  using assms by (simp_all add: anchor_ok_def Let_def)

text \<open>\<open>ev\<close> is the event a prefix and a digest stand for: both databases hold it under them.\<close>

definition partial_known ::
  "'w anchor_env \<Rightarrow> (string \<times> string \<Rightarrow> serder) \<Rightarrow> 'w anchorer \<Rightarrow> (string \<times> string) \<times> serder \<Rightarrow> bool" where
  "partial_known env ev s = (\<lambda>(k, e). anchor_ok env \<and> k = (se_pre e, se_said e) \<and> e = ev k \<and>
     (\<exists>hab kever hkever att. an_habs env (an_world s) (fst k) = Some hab \<and> an_kever env (an_world s) (fst k) = Some kever \<and>
        an_hkever env (an_world s) hab = Some hkever \<and> sender_of (an_groupHab env hab) (an_proxy s) hkever hab \<noteq> None \<and>
        an_clone env (an_world s) e = Inr (e, att)) \<and>
     (\<forall>(k, e) \<in> stored (an_dune env) (an_world s). e = ev k))"

definition partial_verdict :: "'w anchor_env \<Rightarrow> 'w anchorer \<Rightarrow> (string \<times> string) \<times> serder \<Rightarrow> verdict" where
  "partial_verdict env s = (\<lambda>(k, e).
     let wits = ik_wits (the (an_kever env (an_world s) (fst k))) in
     if an_wigs env (an_world s) (fst k) (se_said e) = length wits \<and>
        (wits \<noteq> [] \<longrightarrow> (se_pre e, se_sn e) \<in> set (an_cues s)) then Moves else Stays)"

definition delegator_of :: "'w anchor_env \<Rightarrow> 'w \<Rightarrow> string \<Rightarrow> idkever option" where
  "delegator_of env w pre =
     (case an_kever env w pre of None \<Rightarrow> None
      | Some kever \<Rightarrow> (case ik_delpre kever of None \<Rightarrow> None | Some d \<Rightarrow> an_kever env w d))"

lemma delegator_same: "anchor_reads env w = anchor_reads env w' \<Longrightarrow> delegator_of env w = delegator_of env w'"
  by (rule ext) (simp add: delegator_of_def anchor_reads_def split: option.split)

definition unanchored_known :: "'w anchor_env \<Rightarrow> 'w anchorer \<Rightarrow> (string \<times> string) \<times> serder \<Rightarrow> bool" where
  "unanchored_known env s = (\<lambda>(k, e). anchor_ok env \<and> delegator_of env (an_world s) (fst k) \<noteq> None)"

definition unanchored_verdict :: "'w anchor_env \<Rightarrow> 'w anchorer \<Rightarrow> (string \<times> string) \<times> serder \<Rightarrow> verdict" where
  "unanchored_verdict env s = (\<lambda>(k, e).
     if an_seal env (an_world s) (ik_pre (the (delegator_of env (an_world s) (fst k)))) (se_pre e, se_sn e, se_said e) = None
     then Stays else Moves)"

definition held_keys :: "('w, 'k, 'v) suber \<Rightarrow> 'w \<Rightarrow> 'k set" where
  "held_keys db w = {k. sget db w k \<noteq> None}"

definition anchor_memory :: "'w anchorer \<Rightarrow> (string \<times> int) list \<times> (string \<times> int) list \<times> hab option" where
  "anchor_memory s = (an_receipts s, an_cues s, an_proxy s)"

lemma partial_step_run:
  assumes "partial_known env ev s (k, e)"
  obtains hab hkever phab att where
    "an_habs env (an_world s) (fst k) = Some hab" and "an_hkever env (an_world s) hab = Some hkever"
    and "sender_of (an_groupHab env hab) (an_proxy s) hkever hab = Some phab" and "an_clone env (an_world s) e = Inr (e, att)"
    and "partial_step env (k, e) s = (Inr (), if partial_verdict env s (k, e) = Moves
       then s\<lparr>an_world := snd (spin (an_dune env) (snd (srem (an_dpwe env) (snd (an_send env phab (ik_delpre hkever) e att (an_world s))) k)) k e)\<rparr> else s)"
proof -
  note known = assms [unfolded partial_known_def prod.case]
  from known have ok: "anchor_ok env" and k: "k = (se_pre e, se_said e)" by blast+
  from known obtain hab kever hkever att phab where
    facts: "an_habs env (an_world s) (se_pre e) = Some hab"
      "an_kever env (an_world s) (se_pre e) = Some kever" "an_hkever env (an_world s) hab = Some hkever"
      "sender_of (an_groupHab env hab) (an_proxy s) hkever hab = Some phab" "an_clone env (an_world s) e = Inr (e, att)"
    unfolding k fst_conv by blast
  have send: "an_send env phab (ik_delpre hkever) e att (an_world s) =
      (Inr (), snd (an_send env phab (ik_delpre hkever) e att (an_world s)))"
    using anchor_acts(1) [OF ok] by (simp add: prod_eq_iff)
  have "partial_step env (k, e) s = (Inr (), if partial_verdict env s (k, e) = Moves
       then s\<lparr>an_world := snd (spin (an_dune env) (snd (srem (an_dpwe env) (snd (an_send env phab (ik_delpre hkever) e att (an_world s))) k)) k e)\<rparr> else s)"
    using facts
    by (auto simp: partial_step_def partial_verdict_def k Let_def bindA_at bindA_aext_ops bindA_aext_readA
      bindA_aext [of "an_send env phab (ik_delpre hkever) e att", OF send])
  with facts show thesis by (intro that) (simp_all add: k)
qed

text \<open>The step of an event that has its receipts: it is sent, by whom it is to be, and moves on.\<close>

definition handed_over :: "'w anchor_env \<Rightarrow> 'w anchorer \<Rightarrow> string \<times> string \<Rightarrow> serder \<Rightarrow> bool" where
  "handed_over env s k e \<longleftrightarrow> (\<exists>hab hkever phab att. an_habs env (an_world s) (fst k) = Some hab \<and> an_hkever env (an_world s) hab = Some hkever \<and>
    an_clone env (an_world s) e = Inr (e, att) \<and>
    (an_groupHab env hab = None \<longrightarrow> an_proxy s \<noteq> None \<longrightarrow> an_proxy s = Some phab) \<and>
    (an_groupHab env hab = None \<longrightarrow> an_proxy s = None \<longrightarrow> phab = hab \<and> ik_sn hkever > 0) \<and>
    (an_groupHab env hab \<noteq> None \<longrightarrow> an_groupHab env hab = Some phab) \<and>
    partial_step env (k, e) s = (Inr (), s\<lparr>an_world := snd (spin (an_dune env) (snd (srem (an_dpwe env)
      (snd (an_send env phab (ik_delpre hkever) e att (an_world s))) k)) k e)\<rparr>))"

lemma sent_by:
  assumes "partial_known env ev s (k, e)" and "partial_verdict env s (k, e) = Moves"
  shows "handed_over env s k e"
proof -
  obtain hab hkever phab att where facts: "an_habs env (an_world s) (fst k) = Some hab" "an_hkever env (an_world s) hab = Some hkever"
      "sender_of (an_groupHab env hab) (an_proxy s) hkever hab = Some phab" "an_clone env (an_world s) e = Inr (e, att)"
    and step: "partial_step env (k, e) s = (Inr (), if partial_verdict env s (k, e) = Moves
       then s\<lparr>an_world := snd (spin (an_dune env) (snd (srem (an_dpwe env) (snd (an_send env phab (ik_delpre hkever) e att (an_world s))) k)) k e)\<rparr> else s)"
    by (rule partial_step_run [OF assms(1)])
  from facts(3) have "(an_groupHab env hab = None \<longrightarrow> an_proxy s \<noteq> None \<longrightarrow> an_proxy s = Some phab) \<and>
    (an_groupHab env hab = None \<longrightarrow> an_proxy s = None \<longrightarrow> phab = hab \<and> ik_sn hkever > 0) \<and>
    (an_groupHab env hab \<noteq> None \<longrightarrow> an_groupHab env hab = Some phab)"
    by (cases "an_groupHab env hab"; cases "an_proxy s") (auto split: if_splits)
  with facts step assms(2) show ?thesis
    unfolding handed_over_def by (intro exI [of _ hab] exI [of _ hkever] exI [of _ phab] exI [of _ att]) simp
qed

lemma unanchored_step_run:
  assumes "unanchored_known env s (k, e)"
  obtains p d n a where
    "unanchored_step env (k, e) s = (Inr (), if unanchored_verdict env s (k, e) = Moves
       then s\<lparr>an_world := snd (srem (an_dune env) (snd (sput (an_cdel env) (snd (an_setAes env p d n a (an_world s)))
         (fst k, se_sn e) (se_said e))) k)\<rparr> else s)"
proof -
  obtain pre said where k: "k = (pre, said)" by fastforce
  from assms obtain kever del dkever where ok: "anchor_ok env" and facts: "an_kever env (an_world s) pre = Some kever"
      "ik_delpre kever = Some del" "an_kever env (an_world s) del = Some dkever"
    by (auto simp: unanchored_known_def delegator_of_def k split: option.splits)
  have dk: "bindA (at (\<lambda>w. case ik_delpre kever of None \<Rightarrow> None | Some d \<Rightarrow> an_kever env w d) m) g s = g dkever s" for g m
    by (rule bindA_at) (simp add: facts)
  show thesis
  proof (cases "an_seal env (an_world s) (ik_pre dkever) (se_pre e, se_sn e, se_said e)")
    case None
    then have "unanchored_step env (k, e) s = (Inr (), s)" "unanchored_verdict env s (k, e) \<noteq> Moves"
      by (simp_all add: unanchored_step_def unanchored_verdict_def delegator_of_def k bindA_at facts(1) dk facts)
    then show thesis using that by simp
  next
    case (Some d)
    let ?aes = "an_setAes env (ik_pre kever) (an_ksaid env (an_world s) pre) (se_sn d) (se_said d)"
    have aes: "?aes (an_world s) = (Inr (), snd (?aes (an_world s)))"
      using anchor_acts(6) [OF ok] by (simp add: prod_eq_iff)
    from Some have "unanchored_step env (k, e) s = (Inr (), if unanchored_verdict env s (k, e) = Moves
       then s\<lparr>an_world := snd (srem (an_dune env) (snd (sput (an_cdel env) (snd (?aes (an_world s)))
         (fst k, se_sn e) (se_said e))) k)\<rparr> else s)"
      by (simp add: unanchored_step_def unanchored_verdict_def delegator_of_def k bindA_at facts(1) dk facts
        bindA_aext_ops bindA_aext [of ?aes, OF aes])
    then show thesis by (rule that)
  qed
qed

interpretation dpwe: escrow "partial_step env" "partial_known env ev" "partial_verdict env" fst
  "\<lambda>s. stored (an_dpwe env) (an_world s)" "\<lambda>s. held_keys (an_dune env) (an_world s)" "\<lambda>_. [] :: unit list" "\<lambda>_ _. []"
  "\<lambda>s. (anchor_memory s, sget (an_cdel env) (an_world s), anchor_reads env (an_world s))"
proof
  fix s :: "'a anchorer" and x :: "(string \<times> string) \<times> serder"
  assume known: "partial_known env ev s x"
  obtain k e where x: "x = (k, e)" by fastforce
  note facts = known [unfolded x partial_known_def prod.case]
  then have ok: "anchor_ok env" by blast
  obtain phab and hkever :: idkever and att where step: "partial_step env (k, e) s = (Inr (), if partial_verdict env s (k, e) = Moves
      then s\<lparr>an_world := snd (spin (an_dune env) (snd (srem (an_dpwe env) (snd (an_send env phab (ik_delpre hkever) e att (an_world s))) k)) k e)\<rparr> else s)"
    by (rule partial_step_run [OF known [unfolded x]]) (rule that)
  note run = step [folded x]
  let ?w = "snd (spin (an_dune env) (snd (srem (an_dpwe env) (snd (an_send env phab (ik_delpre hkever) e att (an_world s))) k)) k e)"
  have verdict: "partial_verdict env s x = Moves \<or> partial_verdict env s x = Stays"
    by (simp add: partial_verdict_def split_beta Let_def)
  have dune: "sget (an_dune env) ?w = (sget (an_dune env) (an_world s))(k \<mapsto> e)"
    by (simp add: spin_ok [OF anchor_laws(2) [OF ok]] anchor_frames [OF ok] anchor_acts [OF ok])
  have same: "anchor_reads env ?w = anchor_reads env (an_world s)" "sget (an_cdel env) ?w = sget (an_cdel env) (an_world s)"
    by (simp_all add: anchor_frames [OF ok] anchor_acts [OF ok])
  show "fst (partial_step env x s) = Inr ()" by (simp add: run)
  show "stored (an_dpwe env) (an_world (snd (partial_step env x s))) =
      (if partial_verdict env s x = Stays then stored (an_dpwe env) (an_world s)
       else {p \<in> stored (an_dpwe env) (an_world s). fst p \<noteq> fst x})"
    using verdict by (auto simp: run [unfolded x] x stored_rem [OF anchor_laws(1) [OF ok]] stored_same [OF anchor_frames(4) [OF ok]]
      stored_same [OF anchor_acts(2) [OF ok]])
  show "held_keys (an_dune env) (an_world (snd (partial_step env x s))) =
      (if partial_verdict env s x = Moves then insert (fst x) (held_keys (an_dune env) (an_world s))
       else held_keys (an_dune env) (an_world s))"
    by (auto simp: run [unfolded x] x held_keys_def dune)
  show "[] = [] @ (if partial_verdict env s x = Moves then [] else ([] :: unit list))" by simp
  show "(anchor_memory (snd (partial_step env x s)), sget (an_cdel env) (an_world (snd (partial_step env x s))),
      anchor_reads env (an_world (snd (partial_step env x s)))) =
     (anchor_memory s, sget (an_cdel env) (an_world s), anchor_reads env (an_world s))"
    by (simp add: run same anchor_memory_def)
  have stored_pin: "stored (an_dune env) ?w = insert (k, e) {p \<in> stored (an_dune env) (an_world s). fst p \<noteq> k}"
    by (auto simp: stored_def dune split: if_splits)
  have "\<forall>(k, e) \<in> stored (an_dune env) (an_world s). e = ev k" and "e = ev k" using facts by blast+
  then have "(\<forall>(k, e) \<in> stored (an_dune env) ?w. e = ev k) = (\<forall>(k, e) \<in> stored (an_dune env) (an_world s). e = ev k)"
    unfolding stored_pin by fastforce
  then show "partial_known env ev (snd (partial_step env x s)) = partial_known env ev s"
    using same(1) by (simp add: run partial_known_def anchor_reads_def)
next
  fix s t
  assume "(anchor_memory s, sget (an_cdel env) (an_world s), anchor_reads env (an_world s)) =
     (anchor_memory t, sget (an_cdel env) (an_world t), anchor_reads env (an_world t))"
  then show "partial_verdict env s = partial_verdict env t \<and> (\<lambda>_. []) = ((\<lambda>_. []) :: _ \<Rightarrow> unit list)"
    by (simp add: anchor_memory_def anchor_reads_def partial_verdict_def)
qed

fun tel_of :: "(string \<times> string) \<times> serder \<Rightarrow> string \<times> int" where
  "tel_of (k, e) = (fst k, se_sn e)"

interpretation dune: escrow "unanchored_step env" "unanchored_known env" "unanchored_verdict env" tel_of
  "\<lambda>s. stored (an_dune env) (an_world s)" "\<lambda>s. held_keys (an_cdel env) (an_world s)" "\<lambda>_. [] :: unit list" "\<lambda>_ _. []"
  "\<lambda>s. (anchor_memory s, sget (an_dpwe env) (an_world s), anchor_reads env (an_world s))"
proof
  fix s :: "'a anchorer" and x :: "(string \<times> string) \<times> serder"
  assume known: "unanchored_known env s x"
  obtain k e where x: "x = (k, e)" by fastforce
  from known have ok: "anchor_ok env" by (simp add: unanchored_known_def x)
  obtain p d n a where run: "unanchored_step env x s = (Inr (), if unanchored_verdict env s x = Moves
       then s\<lparr>an_world := snd (srem (an_dune env) (snd (sput (an_cdel env) (snd (an_setAes env p d n a (an_world s)))
         (fst k, se_sn e) (se_said e))) k)\<rparr> else s)"
    using unanchored_step_run [OF known [unfolded x]] unfolding x by metis
  let ?w = "snd (srem (an_dune env) (snd (sput (an_cdel env) (snd (an_setAes env p d n a (an_world s)))
         (fst k, se_sn e) (se_said e))) k)"
  have verdict: "unanchored_verdict env s x = Moves \<or> unanchored_verdict env s x = Stays"
    by (simp add: unanchored_verdict_def split_beta)
  have same: "anchor_reads env ?w = anchor_reads env (an_world s)" "sget (an_dpwe env) ?w = sget (an_dpwe env) (an_world s)"
    by (simp_all add: anchor_frames [OF ok] anchor_acts [OF ok])
  show "fst (unanchored_step env x s) = Inr ()" by (simp add: run)
  show "stored (an_dune env) (an_world (snd (unanchored_step env x s))) =
      (if unanchored_verdict env s x = Stays then stored (an_dune env) (an_world s)
       else {q \<in> stored (an_dune env) (an_world s). fst q \<noteq> fst x})"
    using verdict by (auto simp: run [unfolded x] x stored_rem [OF anchor_laws(2) [OF ok]]
      stored_same [OF anchor_frames(11) [OF ok]] stored_same [OF anchor_acts(8) [OF ok]])
  show "held_keys (an_cdel env) (an_world (snd (unanchored_step env x s))) =
      (if unanchored_verdict env s x = Moves then insert (tel_of x) (held_keys (an_cdel env) (an_world s))
       else held_keys (an_cdel env) (an_world s))"
    by (auto simp: run [unfolded x] x held_keys_def anchor_frames [OF ok] anchor_acts [OF ok]
      sput_get [OF anchor_laws(3) [OF ok]] split: if_splits)
  show "[] = [] @ (if unanchored_verdict env s x = Moves then [] else ([] :: unit list))" by simp
  show "(anchor_memory (snd (unanchored_step env x s)), sget (an_dpwe env) (an_world (snd (unanchored_step env x s))),
      anchor_reads env (an_world (snd (unanchored_step env x s)))) =
     (anchor_memory s, sget (an_dpwe env) (an_world s), anchor_reads env (an_world s))"
    by (simp add: run same anchor_memory_def)
  show "unanchored_known env (snd (unanchored_step env x s)) = unanchored_known env s"
    using delegator_same [OF same(1)] by (simp add: run unanchored_known_def)
next
  fix s t
  assume "(anchor_memory s, sget (an_dpwe env) (an_world s), anchor_reads env (an_world s)) =
     (anchor_memory t, sget (an_dpwe env) (an_world t), anchor_reads env (an_world t))"
  then show "unanchored_verdict env s = unanchored_verdict env t \<and> (\<lambda>_. []) = ((\<lambda>_. []) :: _ \<Rightarrow> unit list)"
    using delegator_same [of env "an_world s" "an_world t"] by (simp add: anchor_reads_def unanchored_verdict_def)
qed

text \<open>
  Every escrowed event is known: its identifiers and their key states are there, it has a sender, the
  event a digest stands for is always the same, and its delegator is known.
\<close>

definition anchorer_known :: "'w anchor_env \<Rightarrow> (string \<times> string \<Rightarrow> serder) \<Rightarrow> 'w anchorer \<Rightarrow> bool" where
  "anchorer_known env ev s \<longleftrightarrow> anchor_ok env \<and>
     (\<forall>x \<in> stored (an_dpwe env) (an_world s). partial_known env ev s x) \<and>
     (\<forall>x \<in> stored (an_dpwe env) (an_world s) \<union> stored (an_dune env) (an_world s). unanchored_known env s x) \<and>
     (\<forall>(k, e) \<in> stored (an_dune env) (an_world s). e = ev k)"

definition seeking_anchor :: "'w anchor_env \<Rightarrow> 'w anchorer \<Rightarrow> ((string \<times> string) \<times> serder) set" where
  "seeking_anchor env s = stored (an_dune env) (an_world s) \<union>
     {x \<in> stored (an_dpwe env) (an_world s). partial_verdict env s x = Moves}"

lemma known_entries:
  assumes "anchorer_known env ev s"
  shows "stored (an_dune env) (an_world s) = {(k, ev k) | k. k \<in> held_keys (an_dune env) (an_world s)}"
    and "x \<in> stored (an_dpwe env) (an_world s) \<Longrightarrow> snd x = ev (fst x)"
proof -
  have "\<forall>(k, e) \<in> stored (an_dune env) (an_world s). e = ev k" using assms unfolding anchorer_known_def by blast
  then show "stored (an_dune env) (an_world s) = {(k, ev k) | k. k \<in> held_keys (an_dune env) (an_world s)}"
    by (fastforce simp: stored_def held_keys_def)
  show "snd x = ev (fst x)" if "x \<in> stored (an_dpwe env) (an_world s)"
  proof -
    from assms that have "partial_known env ev s x" unfolding anchorer_known_def by blast
    then show ?thesis unfolding partial_known_def split_beta by blast
  qed
qed

lemma partial_pass:
  assumes known: "anchorer_known env ev s"
  obtains s' where "processPartialWitnessEscrow env s = (Inr (), s')"
    and "anchor_memory s' = anchor_memory s" and "sget (an_cdel env) (an_world s') = sget (an_cdel env) (an_world s)"
    and "anchor_reads env (an_world s') = anchor_reads env (an_world s)"
    and "stored (an_dpwe env) (an_world s') = {x \<in> stored (an_dpwe env) (an_world s). partial_verdict env s x = Stays}"
    and "stored (an_dune env) (an_world s') = seeking_anchor env s"
proof -
  let ?dpwe = "stored (an_dpwe env) (an_world s)"
  from known have ok: "anchor_ok env" unfolding anchorer_known_def by blast
  have f: "\<forall>x \<in> ?dpwe. partial_known env ev s x" using known unfolding anchorer_known_def by blast
  obtain s' where run: "forA (sitems (an_dpwe env) (an_world s)) (partial_step env) s = (Inr (), s')"
    and rest: "(anchor_memory s', sget (an_cdel env) (an_world s'), anchor_reads env (an_world s')) =
      (anchor_memory s, sget (an_cdel env) (an_world s), anchor_reads env (an_world s))"
    and held: "stored (an_dpwe env) (an_world s') = {p \<in> ?dpwe. \<forall>e \<in> ?dpwe. fst e = fst p \<longrightarrow> partial_verdict env s e = Stays}"
    and keys: "held_keys (an_dune env) (an_world s') = held_keys (an_dune env) (an_world s) \<union>
      fst ` {e \<in> ?dpwe. partial_verdict env s e = Moves}"
    and fine: "partial_known env ev s' = partial_known env ev s"
    by (rule dpwe.whole_pass [OF f stored_items [OF anchor_laws(1) [OF ok]]])
  have "\<forall>(k, e) \<in> stored (an_dune env) (an_world s'). e = ev k"
  proof (cases "?dpwe = {}")
    case True
    then have "sitems (an_dpwe env) (an_world s) = []" using stored_items [OF anchor_laws(1) [OF ok], of "an_world s"] by simp
    with run have "s' = s" by simp
    with known show ?thesis unfolding anchorer_known_def by blast
  next
    case False
    then obtain x where "partial_known env ev s' x" using f fine by auto
    then show ?thesis unfolding partial_known_def split_beta by blast
  qed
  then have "stored (an_dune env) (an_world s') = {(k, ev k) | k. k \<in> held_keys (an_dune env) (an_world s')}"
    by (fastforce simp: stored_def held_keys_def)
  also have "\<dots> = seeking_anchor env s"
    using known_entries [OF known] by (force simp: keys seeking_anchor_def)
  finally have dune: "stored (an_dune env) (an_world s') = seeking_anchor env s" .
  have "partial_verdict env s e = Stays" if "e \<in> ?dpwe" "fst e = fst p" "p \<in> ?dpwe" "partial_verdict env s p = Stays" for e p
    using that by (auto simp: stored_def)
  with held have "stored (an_dpwe env) (an_world s') = {x \<in> ?dpwe. partial_verdict env s x = Stays}" by blast
  with run rest dune show thesis by (intro that) (simp_all add: processPartialWitnessEscrow_def)
qed

lemma anchor_complete_run:
  "Anchorer_complete env pre sn None w = (Inr ((pre, sn) \<in> held_keys (an_cdel env) w), w)"
  by (simp add: Anchorer_complete_def held_keys_def split: option.split)

text \<open>
  C22. One turn of the anchorer takes a delegated event as far as it gets: with its receipts it goes to
  the delegator and on to \<open>dune\<close>, and if the delegator has anchored it, it is complete in the same turn.
  After the turn the delegation at a sequence number is complete exactly if it was, or if an event
  with that number that sought its anchor, or started to in this turn, has one. An event that goes to the delegator is
  sent by the member of a \<open>GroupHab\<close>, else by the proxy, and without a proxy by the identifier itself; since a Signify group
  is no \<open>GroupHab\<close>, the proxy (the agent's own identifier, for \<open>Delegator\<close> always gives it) sends its events too.
\<close>

theorem anchorer_turn:
  assumes known: "anchorer_known env ev s"
  shows "\<exists>s'. Anchorer_processEscrows env s = (Inr (), s') \<and>
    (\<forall>pre sn. Anchorer_complete env pre sn None (an_world s') =
       (Inr (fst (Anchorer_complete env pre sn None (an_world s)) = Inr True \<or>
          (\<exists>x \<in> seeking_anchor env s. tel_of x = (pre, sn) \<and> unanchored_verdict env s x = Moves)), an_world s')) \<and>
    stored (an_dpwe env) (an_world s') = {x \<in> stored (an_dpwe env) (an_world s). partial_verdict env s x = Stays} \<and>
    stored (an_dune env) (an_world s') = {x \<in> seeking_anchor env s. unanchored_verdict env s x = Stays} \<and>
    an_receipts s' = an_receipts s \<and> an_cues s' = an_cues s \<and> an_proxy s' = an_proxy s \<and>
    (\<forall>k e. (k, e) \<in> stored (an_dpwe env) (an_world s) \<and> partial_verdict env s (k, e) = Moves \<longrightarrow> handed_over env s k e)"
proof -
  from known have ok: "anchor_ok env" unfolding anchorer_known_def by blast
  obtain s1 where run1: "processPartialWitnessEscrow env s = (Inr (), s1)"
    and same1: "anchor_memory s1 = anchor_memory s" "sget (an_cdel env) (an_world s1) = sget (an_cdel env) (an_world s)"
      "anchor_reads env (an_world s1) = anchor_reads env (an_world s)"
    and dpwe: "stored (an_dpwe env) (an_world s1) = {x \<in> stored (an_dpwe env) (an_world s). partial_verdict env s x = Stays}"
    and dune: "stored (an_dune env) (an_world s1) = seeking_anchor env s"
    by (rule partial_pass [OF known])
  have same: "unanchored_verdict env s1 = unanchored_verdict env s" "unanchored_known env s1 = unanchored_known env s"
    using same1(3) delegator_same [OF same1(3)] by (simp_all add: anchor_reads_def unanchored_verdict_def unanchored_known_def)
  have "seeking_anchor env s \<subseteq> stored (an_dpwe env) (an_world s) \<union> stored (an_dune env) (an_world s)"
    by (auto simp: seeking_anchor_def)
  with known have f: "\<forall>x \<in> stored (an_dune env) (an_world s1). unanchored_known env s1 x"
    unfolding anchorer_known_def dune same by blast
  obtain s2 where run2: "forA (sitems (an_dune env) (an_world s1)) (unanchored_step env) s1 = (Inr (), s2)"
    and rest: "(anchor_memory s2, sget (an_dpwe env) (an_world s2), anchor_reads env (an_world s2)) =
      (anchor_memory s1, sget (an_dpwe env) (an_world s1), anchor_reads env (an_world s1))"
    and held: "stored (an_dune env) (an_world s2) = {p \<in> stored (an_dune env) (an_world s1).
      \<forall>e \<in> stored (an_dune env) (an_world s1). fst e = fst p \<longrightarrow> unanchored_verdict env s1 e = Stays}"
    and keys: "held_keys (an_cdel env) (an_world s2) = held_keys (an_cdel env) (an_world s1) \<union>
      tel_of ` {e \<in> stored (an_dune env) (an_world s1). unanchored_verdict env s1 e = Moves}"
    by (rule dune.whole_pass [OF f stored_items [OF anchor_laws(2) [OF ok]]])
  have alone: "unanchored_verdict env s e = Stays"
    if "e \<in> stored (an_dune env) (an_world s1)" "fst e = fst p" "p \<in> stored (an_dune env) (an_world s1)"
      "unanchored_verdict env s p = Stays" for e p
    using that by (auto simp: stored_def)
  have left: "stored (an_dune env) (an_world s2) = {x \<in> seeking_anchor env s. unanchored_verdict env s x = Stays}"
    unfolding held same using alone dune by blast
  have cdel: "held_keys (an_cdel env) (an_world s2) = held_keys (an_cdel env) (an_world s) \<union>
      tel_of ` {e \<in> seeking_anchor env s. unanchored_verdict env s e = Moves}"
    using keys same1(2) by (simp add: held_keys_def dune same)
  have complete: "Anchorer_complete env pre sn None (an_world s2) =
       (Inr (fst (Anchorer_complete env pre sn None (an_world s)) = Inr True \<or>
          (\<exists>x \<in> seeking_anchor env s. tel_of x = (pre, sn) \<and> unanchored_verdict env s x = Moves)), an_world s2)" for pre sn
  proof -
    have "(pre, sn) \<in> held_keys (an_cdel env) (an_world s2) \<longleftrightarrow> (pre, sn) \<in> held_keys (an_cdel env) (an_world s) \<or>
        (\<exists>x \<in> seeking_anchor env s. tel_of x = (pre, sn) \<and> unanchored_verdict env s x = Moves)"
      unfolding cdel Un_iff image_iff mem_Collect_eq by (rule iffI; elim disjE bexE conjE; blast dest: sym)
    then show ?thesis by (simp only: anchor_complete_run fst_conv sum.inject simp_thms)
  qed
  have dpwe2: "stored (an_dpwe env) (an_world s2) = {x \<in> stored (an_dpwe env) (an_world s). partial_verdict env s x = Stays}"
    using rest dpwe by (simp add: stored_def)
  have run: "Anchorer_processEscrows env s = (Inr (), s2)"
    using run1 run2 by (simp add: Anchorer_processEscrows_def processUnanchoredEscrow_def bindA_Inr)
  have mem: "an_receipts s2 = an_receipts s" "an_cues s2 = an_cues s" "an_proxy s2 = an_proxy s"
    using rest same1(1) by (simp_all add: anchor_memory_def)
  have sent: "handed_over env s k e"
    if "(k, e) \<in> stored (an_dpwe env) (an_world s) \<and> partial_verdict env s (k, e) = Moves" for k e
    using known that unfolding anchorer_known_def by (intro sent_by) blast+
  show ?thesis
    by (intro exI [of _ s2] conjI allI impI) (fact run complete dpwe2 left mem | rule sent)+
qed

text \<open>In memory: an inception \<open>ES\<close> of the multisig identifier \<open>ED\<close> with one witness, sent by the agent and anchored by the delegator.\<close>

record mem_anchors =
  ma_dpwe :: "(string \<times> string, serder) alist"
  ma_dune :: "(string \<times> string, serder) alist"
  ma_cdel :: "(string \<times> int, string) alist"

definition dip :: serder where
  "dip = \<lparr>se_pre = ''ED'', se_sn = 0, se_said = ''ES'', se_ked = JNull\<rparr>"

definition dip_kever :: idkever where
  "dip_kever = \<lparr>ik_pre = ''ED'', ik_sn = 0, ik_delpre = Some ''EG'', ik_wits = [''BW''], ik_transferable = True,
     ik_state = JNull, ik_windexes = [0]\<rparr>"

definition mem_anchor_env :: "mem_anchors anchor_env" where
  "mem_anchor_env =
     \<lparr>an_dpwe = mem_suber ma_dpwe (\<lambda>a w. w\<lparr>ma_dpwe := a\<rparr>),
      an_dune = mem_suber ma_dune (\<lambda>a w. w\<lparr>ma_dune := a\<rparr>),
      an_cdel = mem_suber ma_cdel (\<lambda>a w. w\<lparr>ma_cdel := a\<rparr>),
      an_habs = (\<lambda>_ p. Some (SignifyGroupHab p (SignifyHab ''EM''))), an_groupHab = (\<lambda>_. None), an_hkever = (\<lambda>_ _. Some dip_kever),
      an_kever = (\<lambda>_ _. Some dip_kever), an_ksaid = (\<lambda>_ _. ''ES''), an_wigs = (\<lambda>_ _ _. 1),
      an_ownEvent = (\<lambda>_ _ _. Inr dip), an_clone = (\<lambda>_ e. Inr (e, ''-VAS'')), an_seal = (\<lambda>_ _ _. Some dip),
      an_setAes = (\<lambda>_ _ _ _. retA ()), an_send = (\<lambda>_ _ _ _. retA ())\<rparr>"

lemma mem_anchor_ok: "anchor_ok mem_anchor_env"
  by (simp add: anchor_ok_def mem_anchor_env_def mem_suber_ok frames_Pair anchor_reads_def Let_def mem_suber_frames;
      intro conjI mem_suber_frames; simp add: mem_suber_def)

definition mem_anchorer :: "mem_anchors anchorer" where
  "mem_anchorer = \<lparr>an_receipts = [], an_cues = [(''ED'', 0)], an_proxy = Some (SignifyHab ''EAgent''),
     an_world = \<lparr>ma_dpwe = DAList.update (''ED'', ''ES'') dip DAList.empty, ma_dune = DAList.empty, ma_cdel = DAList.empty\<rparr>\<rparr>"

lemma mem_stored:
  "stored (an_dpwe mem_anchor_env) (an_world mem_anchorer) = {((''ED'', ''ES''), dip)}"
  "stored (an_dune mem_anchor_env) (an_world mem_anchorer) = {}"
  by (auto simp: stored_def mem_anchor_env_def mem_anchorer_def lookup_update split: if_splits)

lemma mem_anchorer_known: "anchorer_known mem_anchor_env (\<lambda>_. dip) mem_anchorer"
  unfolding anchorer_known_def mem_stored
  by (simp add: mem_anchor_ok partial_known_def unanchored_known_def delegator_of_def mem_stored)
    (simp add: mem_anchor_env_def mem_anchorer_def dip_def dip_kever_def)

theorem anchorer_turn_witness:
  "\<exists>s'. Anchorer_processEscrows mem_anchor_env mem_anchorer = (Inr (), s') \<and>
    fst (Anchorer_complete mem_anchor_env ''ED'' 0 None (an_world s')) = Inr True \<and>
    stored (an_dpwe mem_anchor_env) (an_world s') = {}"
proof -
  have verdicts: "partial_verdict mem_anchor_env mem_anchorer ((''ED'', ''ES''), dip) = Moves"
    "unanchored_verdict mem_anchor_env mem_anchorer ((''ED'', ''ES''), dip) = Moves"
    by (simp_all add: partial_verdict_def unanchored_verdict_def mem_anchor_env_def mem_anchorer_def dip_def dip_kever_def)
  then have "((''ED'', ''ES''), dip) \<in> seeking_anchor mem_anchor_env mem_anchorer" "tel_of ((''ED'', ''ES''), dip) = (''ED'', 0)"
    by (simp_all add: seeking_anchor_def mem_stored, simp add: dip_def)
  with verdicts have "\<exists>x \<in> seeking_anchor mem_anchor_env mem_anchorer. tel_of x = (''ED'', 0) \<and>
      unanchored_verdict mem_anchor_env mem_anchorer x = Moves" by blast
  with verdicts(1) show ?thesis
    using anchorer_turn [OF mem_anchorer_known] by (fastforce simp: mem_stored)
qed

subsection \<open>Approval by the delegator\<close>

text \<open>
  \<open>DelegatorEnd\<close>: the delegator anchors the event of the delegatee, which waits among the delegables. \<open>ap_anchored\<close>
  tells whether an event of the identifier anchors what the request has as its event, \<open>ap_setAes\<close> stores the
  anchoring event (number and digest) for the delegated one.
\<close>

record 'w approve_env =
  ap_aid :: "'w aid_env"
  ap_anchored :: "'w \<Rightarrow> string \<Rightarrow> json \<Rightarrow> exn + bool"
  ap_delegables :: "'w \<Rightarrow> ((string \<times> int) \<times> string) list"
  ap_saider :: "string \<Rightarrow> exn + string"
  ap_setAes :: "string \<Rightarrow> string \<Rightarrow> int \<Rightarrow> string \<Rightarrow> ('w, unit) act"

text \<open>\<open>anc["a"][0][k]\<close>.\<close>

definition first_seal :: "json \<Rightarrow> string \<Rightarrow> exn + json" where
  "first_seal anc k =
     (case jitem anc ''a'' of Inl e \<Rightarrow> Inl e
      | Inr a \<Rightarrow> (case jindex a 0 of Inl e \<Rightarrow> Inl e | Inr seal \<Rightarrow> jitem seal k))"

definition approve_delegable ::
  "'w approve_env \<Rightarrow> serder \<Rightarrow> json \<Rightarrow> json \<Rightarrow> (string \<times> int) \<times> string \<Rightarrow> ('w, unit) act" where
  "approve_delegable env serder teepre teesaid = (\<lambda>((pre, sn), dig).
     whenA (JStr pre = teepre)
       (bindA (liftA (case jstr teepre of Inl e \<Rightarrow> Inl e | Inr p \<Rightarrow> ap_saider env p)) (\<lambda>p.
        bindA (liftA (case jstr teesaid of Inl e \<Rightarrow> Inl e | Inr d \<Rightarrow> ap_saider env d)) (\<lambda>d.
        ap_setAes env p d (se_sn serder) (se_said serder)))))"

definition approveDelegation :: "'w approve_env \<Rightarrow> json \<Rightarrow> ('w, json) act" where
  "approveDelegation env anc =
     bindA (liftA (ai_serder (ap_aid env) anc)) (\<lambda>serder.
     bindA (liftA (first_seal anc ''i'')) (\<lambda>teepre.
     bindA (liftA (first_seal anc ''d'')) (\<lambda>teesaid.
     bindA (getA (ap_delegables env)) (\<lambda>delegables.
     seqA (forA delegables (approve_delegable env serder teepre teesaid)) (retA teepre)))))"

text \<open>
  When the anchor is found no event is accepted, and the variable \<open>op\<close> of the operation to depend on is
  not bound.
\<close>

definition depends :: "operation option \<Rightarrow> json" where
  "depends o' = (case o' of None \<Rightarrow> JNull | Some o' \<Rightarrow> to_json o')"

definition DelegatorEnd_on_post :: "'w approve_env \<Rightarrow> request \<Rightarrow> response \<Rightarrow> string \<Rightarrow> ('w decks, response) act" where
  "DelegatorEnd_on_post env req rep name =
     seqA (name_required name)
     (bindA (dext (some_hab (find_hab (ap_aid env)) name (no_hab name))) (\<lambda>hab.
      bindA (liftA (rq_media req)) (\<lambda>body.
      bindA (liftA (getRequiredParam body ''ixn'')) (\<lambda>anc.
      bindA (dext (readA (\<lambda>w. ap_anchored env w (hb_pre hab) anc))) (\<lambda>anchored.
      bindA (if anchored then retA None
             else bindA (interact_identifier (ap_aid env) name body) (\<lambda>o'. retA (Some o'))) (\<lambda>o'.
      bindA (dext (approveDelegation env anc)) (\<lambda>teepre.
      bindA (liftA (jitem anc ''d'')) (\<lambda>said.
      bindA (dext (hkever (ap_aid env) hab)) (\<lambda>kever.
      case o' of
        None \<Rightarrow> raiseA UnboundLocalError
      | Some o' \<Rightarrow>
          bindA (liftA (jstr said)) (\<lambda>oid.
          bindA (dext (Monitor_submit (ai_mon (ap_aid env)) oid ''delegation''
            (JObj [(''pre'', JStr (ik_pre kever)), (''teepre'', teepre), (''anchor'', anc), (''depends'', depends o')]))) (\<lambda>adop.
          case adop of
            None \<Rightarrow> raiseA AttributeError
          | Some adop \<Rightarrow> retA (rep\<lparr>rs_status := 200, rs_data := Some (to_json adop)\<rparr>))))))))))))"

lemma forA_filter: "forA xs (\<lambda>x. whenA (p x) (f x)) = forA (filter p xs) f"
  by (induction xs) (auto simp: seqA_def bindA_ret)

text \<open>Every delegable of the delegatee gets the anchor.\<close>

lemma approveDelegation_run:
  assumes "ai_serder (ap_aid env) anc = Inr serder" and "first_seal anc ''i'' = Inr (JStr teepre)"
    and "first_seal anc ''d'' = Inr (JStr teesaid)" and "\<And>p. ap_saider env p = Inr p"
  shows "approveDelegation env anc w =
    seqA (forA (filter (\<lambda>e. fst (fst e) = teepre) (ap_delegables env w))
            (\<lambda>_. ap_setAes env teepre teesaid (se_sn serder) (se_said serder))) (retA (JStr teepre)) w"
proof -
  have "approve_delegable env serder (JStr teepre) (JStr teesaid) =
      (\<lambda>e. whenA (fst (fst e) = teepre) (ap_setAes env teepre teesaid (se_sn serder) (se_said serder)))"
    by (rule ext, rule ext) (auto simp: approve_delegable_def assms(4) whenA_def split: prod.split)
  then show ?thesis using assms(1-3) by (simp add: approveDelegation_def forA_filter)
qed

text \<open>
  What an approval does after the event of the delegator is accepted. With a seal in that event the
  delegables of the delegatee get the anchor, if there are any, and the operation is submitted whether
  or not there were. Without one the request fails, though the event is accepted and queued; and when
  the event has been anchored before, the delegables get the anchor and the request fails all the same.
\<close>

theorem approval_outcome:
  assumes "name \<noteq> []" and hab: "find_hab (ap_aid env) name (dk_world s) = Some hab"
    and "rq_media req = Inr (JObj body)" and "dict_get body ''ixn'' = Some anc" and "anc \<noteq> JNull"
    and "ap_anchored env (dk_world s) (hb_pre hab) anc = Inr anchored"
    and event: "if anchored then s1 = s else interact_identifier (ap_aid env) name (JObj body) s = (Inr o', s1)"
    and "ai_serder (ap_aid env) anc = Inr serder" and saider: "\<And>p. ap_saider env p = Inr p"
    and kever: "\<And>w. ai_hkever (ap_aid env) w hab = Some kever"
  defines "anchor \<equiv> (\<lambda>p d. forA (filter (\<lambda>e. fst (fst e) = p) (ap_delegables env (dk_world s1)))
     (\<lambda>_. ap_setAes env p d (se_sn serder) (se_said serder)))"
  shows "(\<forall>e. first_seal anc ''i'' = Inl e \<longrightarrow> DelegatorEnd_on_post env req rep name s = (Inl e, s1)) \<and>
    (\<forall>p d oid w2. first_seal anc ''i'' = Inr (JStr p) \<and> first_seal anc ''d'' = Inr (JStr d) \<and>
       jitem anc ''d'' = Inr (JStr oid) \<and> anchor p d (dk_world s1) = (Inr (), w2) \<longrightarrow>
       DelegatorEnd_on_post env req rep name s =
         (if anchored then (Inl UnboundLocalError, s1\<lparr>dk_world := w2\<rparr>)
          else bindA (dext (Monitor_submit (ai_mon (ap_aid env)) oid ''delegation''
                 (JObj [(''pre'', JStr (ik_pre kever)), (''teepre'', JStr p), (''anchor'', anc), (''depends'', depends o')])))
                 (\<lambda>adop. case adop of None \<Rightarrow> raiseA AttributeError
                    | Some adop \<Rightarrow> retA (rep\<lparr>rs_status := 200, rs_data := Some (to_json adop)\<rparr>)) (s1\<lparr>dk_world := w2\<rparr>)))"
proof -
  define rest where "rest o' = bindA (dext (approveDelegation env anc)) (\<lambda>teepre.
      bindA (liftA (jitem anc ''d'')) (\<lambda>said.
      bindA (dext (hkever (ap_aid env) hab)) (\<lambda>kever.
      case o' of
        None \<Rightarrow> raiseA UnboundLocalError
      | Some o' \<Rightarrow>
          bindA (liftA (jstr said)) (\<lambda>oid.
          bindA (dext (Monitor_submit (ai_mon (ap_aid env)) oid ''delegation''
            (JObj [(''pre'', JStr (ik_pre kever)), (''teepre'', teepre), (''anchor'', anc), (''depends'', depends o')]))) (\<lambda>adop.
          case adop of
            None \<Rightarrow> raiseA AttributeError
          | Some adop \<Rightarrow> retA (rep\<lparr>rs_status := 200, rs_data := Some (to_json adop)\<rparr>))))))" for o' :: "operation option option"
  have start: "dext (some_hab (find_hab (ap_aid env)) name (no_hab name)) s = (Inr hab, s)"
    "dext (readA (\<lambda>w. ap_anchored env w (hb_pre hab) anc)) s = (Inr anchored, s)"
    using hab assms(6) by (simp_all add: dext_run some_hab_def)
  have run: "DelegatorEnd_on_post env req rep name s = rest (if anchored then None else Some o') s1"
    using assms(1,3-5) start event by (simp add: DelegatorEnd_on_post_def rest_def name_required_def bindA_Inr getRequiredParam_def split: if_splits)
  have kv: "dext (hkever (ap_aid env) hab) t = (Inr kever, t)" for t :: "'a decks"
    by (simp add: dext_run hkever_def kever)
  show ?thesis
  proof (intro conjI allI impI; (elim conjE)?)
    fix e assume "first_seal anc ''i'' = Inl e"
    then have "dext (approveDelegation env anc) s1 = (Inl e, s1)"
      using assms(8) by (simp add: dext_run approveDelegation_def)
    then show "DelegatorEnd_on_post env req rep name s = (Inl e, s1)" by (simp add: run rest_def bindA_Inl)
  next
    fix p d oid w2 assume seal: "first_seal anc ''i'' = Inr (JStr p)" "first_seal anc ''d'' = Inr (JStr d)"
      and oid: "jitem anc ''d'' = Inr (JStr oid)" and done': "anchor p d (dk_world s1) = (Inr (), w2)"
    have "approveDelegation env anc (dk_world s1) = (Inr (JStr p), w2)"
      using done' by (simp add: approveDelegation_run [OF assms(8) seal saider] anchor_def bindA_Inr)
    then have "dext (approveDelegation env anc) s1 = (Inr (JStr p), s1\<lparr>dk_world := w2\<rparr>)" by (simp add: dext_run)
    then show "DelegatorEnd_on_post env req rep name s =
         (if anchored then (Inl UnboundLocalError, s1\<lparr>dk_world := w2\<rparr>)
          else bindA (dext (Monitor_submit (ai_mon (ap_aid env)) oid ''delegation''
                 (JObj [(''pre'', JStr (ik_pre kever)), (''teepre'', JStr p), (''anchor'', anc), (''depends'', depends o')])))
                 (\<lambda>adop. case adop of None \<Rightarrow> raiseA AttributeError
                    | Some adop \<Rightarrow> retA (rep\<lparr>rs_status := 200, rs_data := Some (to_json adop)\<rparr>)) (s1\<lparr>dk_world := w2\<rparr>))"
      using oid kv by (simp add: run rest_def bindA_Inr)
  qed
qed

end
