(* ===== verification/Issuing.thy ===== *)
theory Issuing
  imports Delegating
begin

text \<open>
  The endpoints of \<open>app/credentialing.py\<close> that change registries and credentials: registries, issuing,
  revocation and verification. They put events of the identifier on the queues of the agent (\<open>Identifiers\<close>)
  and those of the registries into the escrows (\<open>Escrows\<close>), so they run on the queues of an agent over
  its registrar. What \<open>keri\<close> keeps of registries and credentials is an argument (\<open>issue_env\<close>). A body set as
  \<open>text\<close> is a \<open>JStr\<close> of \<open>rs_data\<close>.
\<close>

text \<open>
  \<open>is_byName\<close> is \<open>registryByName\<close>, \<open>is_regs\<close> the dictionary of registries by their identifier, \<open>is_regords\<close>
  the records of them by name (\<open>reger.regs\<close>: key and prefix), \<open>is_feed\<close> adds to the stream of the parser.
\<close>

record 'w issue_env =
  is_aid :: "'w registrar aid_env"
  is_tel :: "'w tel_env"
  is_estOnly :: "'w registrar \<Rightarrow> hab \<Rightarrow> exn + bool"
  is_byName :: "'w \<Rightarrow> json \<Rightarrow> exn + registry option"
  is_makeRegistry :: "json \<Rightarrow> string \<Rightarrow> serder \<Rightarrow> ('w, registry) act"
  is_regs :: "'w \<Rightarrow> (string \<times> registry) list"
  is_tevers :: "'w \<Rightarrow> string \<Rightarrow> bool"
  is_regName :: "'w \<Rightarrow> registry \<Rightarrow> json"
  is_setRegName :: "registry \<Rightarrow> json \<Rightarrow> ('w, unit) act"
  is_state :: "'w \<Rightarrow> registry \<Rightarrow> exn + json"
  is_regords :: "('w, string, string \<times> string) suber"
  is_tvt :: "'w \<Rightarrow> string \<Rightarrow> string option"
  is_parse :: "string \<Rightarrow> exn + serder"
  is_acdc :: "json \<Rightarrow> exn + creder"
  is_serialize :: "creder \<Rightarrow> seal \<Rightarrow> string"
  is_feed :: "string \<Rightarrow> ('w, unit) act"
  is_cloneCreds :: "'w \<Rightarrow> string \<Rightarrow> exn + json list"

definition wext :: "('w, 'a) act \<Rightarrow> ('w registrar decks, 'a) act" where
  "wext m = dext (rext m)"

lemma wext_run: "wext m s = (fst (m (rg_world (dk_world s))),
  s\<lparr>dk_world := (dk_world s)\<lparr>rg_world := snd (m (rg_world (dk_world s)))\<rparr>\<rparr>)"
  by (simp add: wext_def dext_run rext_run)

definition seal_of :: "serder \<Rightarrow> seal" where
  "seal_of serder = (se_pre serder, se_sn serder, se_said serder)"

definition shown :: "'w issue_env \<Rightarrow> json \<Rightarrow> string" where
  "shown env v = show_value (ai_show (is_aid env)) v"

subsection \<open>Shared steps\<close>

definition no_reference :: "string \<Rightarrow> exn" where
  "no_reference name = HTTPError 404 (name @ '' is not a valid reference to an identifier'')"

definition the_hab :: "'w issue_env \<Rightarrow> string \<Rightarrow> ('w registrar decks, hab) act" where
  "the_hab env name = dext (some_hab (find_hab (is_aid env)) name (no_reference name))"

text \<open>The event that anchors the change: a rotation for an identifier that has no other events.\<close>

definition anchoring_event ::
  "'w issue_env \<Rightarrow> hab \<Rightarrow> string \<Rightarrow> json \<Rightarrow> ('w registrar decks, operation option) act" where
  "anchoring_event env hab name body =
     bindA (dext (readA (\<lambda>w. is_estOnly env w hab))) (\<lambda>estOnly.
     if estOnly then rotate_identifier (is_aid env) name body else interact_identifier (is_aid env) name body)"

definition registry_record :: "'w issue_env \<Rightarrow> registry \<Rightarrow> ('w, json) act" where
  "registry_record env registry =
     bindA (getA (\<lambda>w. is_regName env w registry)) (\<lambda>name.
     bindA (readA (\<lambda>w. is_state env w registry)) (\<lambda>state.
     retA (JObj [(''name'', name), (''regk'', JStr (ry_regk registry)), (''pre'', JStr (hb_pre (ry_hab registry))),
       (''state'', state)])))"

text \<open>\<open>regk in rgy.tevers\<close>, with a \<open>TypeError\<close> for a value that is not hashable.\<close>

definition in_tevers :: "'w issue_env \<Rightarrow> 'w \<Rightarrow> json \<Rightarrow> exn + bool" where
  "in_tevers env w regk =
     (case at_key (\<lambda>k. if is_tevers env w k then Some () else None) regk of
        Inl e \<Rightarrow> Inl e | Inr r \<Rightarrow> Inr (r \<noteq> None))"

text \<open>
  \<open>except (kering.ValidationError, json.decoder.JSONDecodeError)\<close> around the events of a body: the response
  gets status 400 and the message as its text.
\<close>

definition events_of :: "('s, 'a) act \<Rightarrow> ('s, exn + 'a) act" where
  "events_of m =
     catchA (bindA m (\<lambda>x. retA (Inr x)))
       (\<lambda>e. if isValidationError e \<or> e = JSONDecodeError then Some (retA (Inl e)) else None)"

definition text_400 :: "response \<Rightarrow> exn \<Rightarrow> response" where
  "text_400 rep e = rep\<lparr>rs_status := 400, rs_data := Some (JStr (exn_msg e))\<rparr>"

subsection \<open>Registries\<close>

definition RegistryCollectionEnd_on_get ::
  "'w issue_env \<Rightarrow> response \<Rightarrow> string \<Rightarrow> ('w registrar decks, response) act" where
  "RegistryCollectionEnd_on_get env rep name =
     bindA (the_hab env name) (\<lambda>hab.
     bindA (wext (getA (\<lambda>w. filter (\<lambda>(_, registry). is_tevers env w (ry_regk registry) \<and>
       hb_pre (ry_hab registry) = hb_pre hab) (is_regs env w)))) (\<lambda>regs.
     bindA (wext (mapA (\<lambda>(_, registry). registry_record env registry) regs)) (\<lambda>res.
     retA (rep\<lparr>rs_status := 200, rs_data := Some (JArr res)\<rparr>))))"

definition RegistryCollectionEnd_on_post ::
  "'w issue_env \<Rightarrow> request \<Rightarrow> response \<Rightarrow> string \<Rightarrow> ('w registrar decks, response) act" where
  "RegistryCollectionEnd_on_post env req rep name =
     bindA (liftA (rq_media req)) (\<lambda>body.
     bindA (liftA (getRequiredParam body ''name'')) (\<lambda>rname.
     bindA (liftA (getRequiredParam body ''vcp'')) (\<lambda>ked.
     bindA (liftA (ai_serder (is_aid env) ked)) (\<lambda>vcp.
     bindA (liftA (getRequiredParam body ''ixn'')) (\<lambda>ked.
     bindA (liftA (ai_serder (is_aid env) ked)) (\<lambda>ixn.
     bindA (the_hab env name) (\<lambda>hab.
     bindA (wext (readA (\<lambda>w. is_byName env w rname))) (\<lambda>old.
     seqA (guardA (old = None) (HTTPError 400 (''registry name '' @ shown env rname @ '' already in use'')))
     (bindA (wext (is_makeRegistry env rname (hb_pre hab) vcp)) (\<lambda>registry.
      bindA (anchoring_event env hab name body) (\<lambda>o'.
      seqA (dext (Registrar_incept (is_tel env) hab registry (seal_of ixn)))
      (bindA (dext (hkever (is_aid env) hab)) (\<lambda>kever.
       let anchor = JObj [(''i'', JStr (ry_regk registry)), (''s'', JStr ''0''), (''d'', JStr (ry_regk registry))] in
       bindA (dext (Monitor_submit (ai_mon (is_aid env)) (ry_regk registry) ''registry''
         (JObj [(''pre'', JStr (ik_pre kever)), (''anchor'', anchor), (''depends'', depends o')]))) (accepted rep))))))))))))))"

definition RegistryResourceEnd_on_get ::
  "'w issue_env \<Rightarrow> response \<Rightarrow> string \<Rightarrow> string \<Rightarrow> ('w registrar decks, response) act" where
  "RegistryResourceEnd_on_get env rep name registryName =
     bindA (the_hab env name) (\<lambda>hab.
     bindA (wext (readA (\<lambda>w. is_byName env w (JStr registryName)))) (\<lambda>registry.
     case registry of
       None \<Rightarrow> raiseA (HTTPError 404 (registryName @ '' is not a valid reference to a credential registry''))
     | Some registry \<Rightarrow>
         seqA (guardA (hb_pre (ry_hab registry) = hb_pre hab)
           (HTTPError 404 (registryName @ '' is not a valid registry for AID '' @ name)))
         (bindA (wext (registry_record env registry)) (\<lambda>rd.
          retA (rep\<lparr>rs_status := 200, rs_data := Some rd\<rparr>)))))"

text \<open>
  The registry a path names: by its name, by its identifier, or by that of an inception in the database,
  for which a new registry of the identifier in the path is made.
\<close>

definition named_registry :: "'w issue_env \<Rightarrow> hab \<Rightarrow> json \<Rightarrow> string \<Rightarrow> ('w, registry) act" where
  "named_registry env hab name registryName =
     bindA (readA (\<lambda>w. is_byName env w (JStr registryName))) (\<lambda>registry.
     case registry of
       Some registry \<Rightarrow> retA registry
     | None \<Rightarrow>
         bindA (getA (\<lambda>w. map_of (is_regs env w) registryName)) (\<lambda>registry.
         case registry of
           Some registry \<Rightarrow> retA registry
         | None \<Rightarrow>
             bindA (getA (\<lambda>w. is_tvt env w registryName)) (\<lambda>raw.
             case raw of
               None \<Rightarrow> raiseA (HTTPError 404 (registryName @ '' is not a valid reference to a credential registry''))
             | Some raw \<Rightarrow>
                 bindA (liftA (is_parse env raw)) (\<lambda>regser. is_makeRegistry env name (hb_pre hab) regser))))"

definition RegistryResourceEnd_on_put ::
  "'w issue_env \<Rightarrow> request \<Rightarrow> response \<Rightarrow> string \<Rightarrow> string \<Rightarrow> ('w registrar decks, response) act" where
  "RegistryResourceEnd_on_put env req rep name registryName =
     bindA (the_hab env name) (\<lambda>hab.
     bindA (liftA (rq_media req)) (\<lambda>body.
     bindA (liftA (jin ''name'' body)) (\<lambda>given.
     seqA (guardA given (HTTPError 400 (CHR 0x27 # ''name' is required in body'')))
     (bindA (liftA (jitem body ''name'')) (\<lambda>name.
      bindA (wext (readA (\<lambda>w. is_byName env w name))) (\<lambda>old.
      seqA (guardA (old = None) (HTTPError 400 (shown env name @ '' is already in use for a registry'')))
      (bindA (wext (named_registry env hab name registryName)) (\<lambda>registry.
       bindA (liftA (jstr name)) (\<lambda>key.
       bindA (wext (pinS (is_regords env) key (ry_regk registry, hb_pre hab))) (\<lambda>_.
       bindA (wext (remS (is_regords env) registryName)) (\<lambda>_.
       seqA (wext (is_setRegName env registry name))
       (bindA (wext (registry_record env registry)) (\<lambda>rd.
        retA (rep\<lparr>rs_status := 200, rs_data := Some rd\<rparr>))))))))))))))"

subsection \<open>Credentials\<close>

definition CredentialVerificationCollectionEnd_on_post ::
  "'w issue_env \<Rightarrow> request \<Rightarrow> response \<Rightarrow> ('w registrar decks, response) act" where
  "CredentialVerificationCollectionEnd_on_post env req rep =
     bindA (liftA (rq_media req)) (\<lambda>body.
     bindA (events_of
       (bindA (liftA (getRequiredParam body ''acdc'')) (\<lambda>sad.
        bindA (liftA (is_acdc env sad)) (\<lambda>creder.
        bindA (liftA (getRequiredParam body ''iss'')) (\<lambda>iss.
        bindA (liftA (ai_serder (is_aid env) iss)) (\<lambda>iserder.
        retA (sad, creder, iserder))))))) (\<lambda>events.
     case events of
       Inl e \<Rightarrow> retA (text_400 rep e)
     | Inr (sad, creder, iserder) \<Rightarrow>
         seqA (wext (is_feed env (is_serialize env creder (seal_of iserder))))
         (bindA (dext (Monitor_submit (ai_mon (is_aid env)) (cr_said creder) ''credential'' (JObj [(''ced'', sad)])))
            (accepted rep))))"

text \<open>\<open>iserder.ked["ri"]\<close>, or \<open>["ii"]\<close>, or \<open>None\<close>.\<close>

definition registry_of :: "serder \<Rightarrow> exn + json" where
  "registry_of iserder =
     (case jin ''ri'' (se_ked iserder) of
        Inl e \<Rightarrow> Inl e
      | Inr ri \<Rightarrow>
          if ri then jitem (se_ked iserder) ''ri''
          else (case jin ''ii'' (se_ked iserder) of
                  Inl e \<Rightarrow> Inl e
                | Inr ii \<Rightarrow> if ii then jitem (se_ked iserder) ''ii'' else Inr JNull))"

definition issue_events :: "'w issue_env \<Rightarrow> json \<Rightarrow> ('s, exn + json \<times> creder \<times> serder \<times> serder) act" where
  "issue_events env body =
     events_of
       (bindA (liftA (getRequiredParam body ''acdc'')) (\<lambda>sad.
        bindA (liftA (is_acdc env sad)) (\<lambda>creder.
        bindA (liftA (getRequiredParam body ''iss'')) (\<lambda>iss.
        bindA (liftA (ai_serder (is_aid env) iss)) (\<lambda>iserder.
        bindA (liftA (jin ''ixn'' body)) (\<lambda>ixn.
        bindA (liftA (getRequiredParam body (if ixn then ''ixn'' else ''rot''))) (\<lambda>ked.
        bindA (liftA (ai_serder (is_aid env) ked)) (\<lambda>anc.
        retA (sad, creder, iserder, anc)))))))))"

text \<open>What follows the anchoring event: the check against the schema, the event of the registry, the credential.\<close>

definition issue_credential ::
  "'w issue_env \<Rightarrow> json \<Rightarrow> json \<Rightarrow> creder \<Rightarrow> serder \<Rightarrow> serder \<Rightarrow> operation option \<Rightarrow>
   ('w registrar decks, operation option) act" where
  "issue_credential env regk sad creder iserder anc o' =
     bindA (wext (Credentialer_validate (is_tel env) creder)) (\<lambda>_.
     bindA (dext (Registrar_issue (is_tel env) regk iserder anc)) (\<lambda>_.
     seqA (wext (Credentialer_issue (is_tel env) creder iserder))
     (dext (Monitor_submit (ai_mon (is_aid env)) (cr_said creder) ''credential''
        (JObj [(''ced'', sad), (''depends'', depends o')])))))"

fun isConfigurationError :: "exn \<Rightarrow> bool" where
  "isConfigurationError (ConfigurationError _) = True"
| "isConfigurationError _ = False"

definition CredentialCollectionEnd_on_post ::
  "'w issue_env \<Rightarrow> request \<Rightarrow> response \<Rightarrow> string \<Rightarrow> ('w registrar decks, response) act" where
  "CredentialCollectionEnd_on_post env req rep name =
     bindA (liftA (rq_media req)) (\<lambda>body.
     bindA (the_hab env name) (\<lambda>hab.
     bindA (issue_events env body) (\<lambda>events.
     case events of
       Inl e \<Rightarrow> retA (text_400 rep e)
     | Inr (sad, creder, iserder, anc) \<Rightarrow>
         bindA (liftA (registry_of iserder)) (\<lambda>regk.
         seqA (guardA (regk \<noteq> JNull)
           (HTTPError 400 ''credential issuance request missing registry (ri) or (ii) field''))
         (bindA (wext (readA (\<lambda>w. in_tevers env w regk))) (\<lambda>known.
          seqA (guardA known (HTTPError 404 (''issue against invalid registry SAID '' @ shown env regk)))
          (bindA (anchoring_event env hab name body) (\<lambda>o'.
           bindA (catchA (bindA (issue_credential env regk sad creder iserder anc o') (\<lambda>o'. retA (Inr o')))
                    (\<lambda>e. if isConfigurationError e then Some (retA (Inl e)) else None)) (\<lambda>r.
           case r of Inl e \<Rightarrow> retA (text_400 rep e) | Inr o' \<Rightarrow> sent_200 rep o')))))))))"

definition CredentialResourceDeleteEnd_on_delete ::
  "'w issue_env \<Rightarrow> request \<Rightarrow> response \<Rightarrow> string \<Rightarrow> string \<Rightarrow> ('w registrar decks, response) act" where
  "CredentialResourceDeleteEnd_on_delete env req rep name said =
     bindA (liftA (rq_media req)) (\<lambda>body.
     bindA (the_hab env name) (\<lambda>hab.
     bindA (liftA (getRequiredParam body ''rev'')) (\<lambda>rev.
     bindA (liftA (ai_serder (is_aid env) rev)) (\<lambda>rserder.
     bindA (liftA (jitem (se_ked rserder) ''ri'')) (\<lambda>regk.
     bindA (wext (readA (\<lambda>w. in_tevers env w regk))) (\<lambda>known.
     seqA (guardA known (HTTPError 404 (''revocation against invalid registry SAID '' @ shown env regk)))
     (bindA (catchA (wext (readA (\<lambda>w. is_cloneCreds env w said)))
               (\<lambda>e. if isException e
                    then Some (raiseA (HTTPError 404 (''credential for said '' @ said @ '' not found.''))) else None)) (\<lambda>_.
      bindA (dext (readA (\<lambda>w. is_estOnly env w hab))) (\<lambda>estOnly.
      bindA (if estOnly then rotate_identifier (is_aid env) name body
             else interact_identifier (is_aid env) name body) (\<lambda>o'.
      bindA (liftA (getRequiredParam body (if estOnly then ''rot'' else ''ixn''))) (\<lambda>anc.
      bindA (catchA (dext (Registrar_revoke (is_tel env) regk rserder anc))
               (\<lambda>e. if isException e then Some (raiseA (HTTPError 400 ''invalid revocation event.'')) else None)) (\<lambda>_.
      sent_200 rep o'))))))))))))"

subsection \<open>A verification without an end\<close>

text \<open>What is known of the issuing of a credential: it waits in \<open>cmse\<close> or is done in \<open>ccrd\<close>.\<close>

definition issued :: "'w tel_env \<Rightarrow> string \<Rightarrow> 'w \<Rightarrow> bool" where
  "issued env said w \<longleftrightarrow> said \<in> credentials env w \<or> (\<exists>k c. sget (te_cmse env) w k = Some c \<and> cr_said c = said)"

definition cred_stores :: "'w tel_env \<Rightarrow> 'w \<Rightarrow> (string \<times> int \<Rightarrow> creder option) \<times> (string \<Rightarrow> creder option)" where
  "cred_stores env w = (sget (te_cmse env) w, sget (te_ccrd env) w)"

lemma issued_stores: "cred_stores env w = cred_stores env w' \<Longrightarrow> issued env said w = issued env said w'"
  by (simp add: issued_def cred_stores_def credentials_def)

lemma keeps_rext: "keeps P m \<Longrightarrow> keeps (\<lambda>s. P (rg_world s)) (rext m)"
  by (simp add: keeps_def rext_run)

lemma single_creds: "single_stores env w = single_stores env w' \<Longrightarrow> cred_stores env w = cred_stores env w'"
  by (simp add: single_stores_def cred_stores_def)

lemma keeps_tel_ops:
  assumes "tel_ok env"
  shows "keeps (\<lambda>w. cred_stores env w = c) (remD (te_tpwe env) k x)"
    "keeps (\<lambda>w. cred_stores env w = c) (remD (te_tmse env) m x)"
    "keeps (\<lambda>w. cred_stores env w = c) (remD (te_tede env) k x)"
    "keeps (\<lambda>w. cred_stores env w = c) (addD (te_tede env) k v)"
    "keeps (\<lambda>w. cred_stores env w = c) (putS (te_ctel env) k d)"
    "keeps (\<lambda>w. cred_stores env w = c) (te_putAnc env p d n t)"
proof -
  note single_creds [OF tpwe_frame(3) [OF assms]] single_creds [OF tmse_frame(3) [OF assms]]
    single_creds [OF tede_frame(3) [OF assms]] single_creds [OF tede_frame(6) [OF assms]]
  then show "keeps (\<lambda>w. cred_stores env w = c) (remD (te_tpwe env) k x)"
    "keeps (\<lambda>w. cred_stores env w = c) (remD (te_tmse env) m x)"
    "keeps (\<lambda>w. cred_stores env w = c) (remD (te_tede env) k x)"
    "keeps (\<lambda>w. cred_stores env w = c) (addD (te_tede env) k v)"
    by (simp_all add: keeps_def)
  show "keeps (\<lambda>w. cred_stores env w = c) (putS (te_ctel env) k d)"
    using ctel_frame [OF assms] by (simp add: keeps_def cred_stores_def)
  show "keeps (\<lambda>w. cred_stores env w = c) (te_putAnc env p d n t)"
    unfolding keeps_def using single_creds [OF putAnc_frame(5) [OF assms]] by simp
qed

lemma keeps_exn [wp]:
  "(\<And>m. e = ValidationError m \<Longrightarrow> keeps P (f m)) \<Longrightarrow> keeps P (case e of ValidationError m \<Rightarrow> f m | _ \<Rightarrow> raiseA e)"
  by (cases e) (simp_all add: keeps_raiseA)

lemma keeps_case_sum [wp]:
  "(\<And>e. r = Inl e \<Longrightarrow> keeps P (f e)) \<Longrightarrow> (\<And>x. r = Inr x \<Longrightarrow> keeps P (g x)) \<Longrightarrow>
   keeps P (case r of Inl e \<Rightarrow> f e | Inr x \<Rightarrow> g x)"
  by (cases r) simp_all

lemma keeps_registrar:
  assumes "tel_ok env"
  shows "keeps (\<lambda>s. cred_stores env (rg_world s) = c) (Registrar_processEscrows env)"
proof -
  note ops = keeps_tel_ops [OF assms, where c = c, THEN keeps_rext]
  have pub: "keeps (\<lambda>s. cred_stores env (rg_world s) = c) (modA (\<lambda>s. s\<lparr>rg_publish := f s\<rparr>))" for f
    by (rule keeps_modA) simp
  have "keeps (\<lambda>s. cred_stores env (rg_world s) = c) (witness_step env ((k, n), (p, q, d)))"
    "keeps (\<lambda>s. cred_stores env (rg_world s) = c) (multisig_step env ((k, n, r), (p, q, d)))"
    "keeps (\<lambda>s. cred_stores env (rg_world s) = c) (dissemination_step env ((k, n), (p, q, d)))" for k n r p q d
    unfolding witness_step_def multisig_step_def dissemination_step_def prod.case by (intro wp ops pub)+
  then have "keeps (\<lambda>s. cred_stores env (rg_world s) = c) (witness_step env e)"
    "keeps (\<lambda>s. cred_stores env (rg_world s) = c) (multisig_step env e')"
    "keeps (\<lambda>s. cred_stores env (rg_world s) = c) (dissemination_step env e)" for e e'
    by (metis prod.exhaust)+
  then show ?thesis
    unfolding Registrar_processEscrows_def processWitnessEscrow_def processMultisigEscrow_def processDiseminationEscrow_def
    by (intro wp)
qed

lemma keeps_missing_sig:
  assumes "tel_ok env"
  shows "keeps (\<lambda>w. \<not> issued env said w) (processCredentialMissingSigEscrow env)"
  unfolding keeps_def
proof (intro allI impI)
  fix w assume new: "\<not> issued env said w"
  have step: "keeps (\<lambda>w. \<not> issued env said w) (missing_sig_step env e)" if "e \<in> set (sitems (te_cmse env) w)" for e
  proof -
    obtain d n c where e: "e = ((d, n), c)" by (metis prod.exhaust)
    have c: "cr_said c \<noteq> said"
      using new that stored_items [OF tel_laws(5) [OF assms], of w] by (auto simp: issued_def stored_def e)
    have "keeps (\<lambda>w. \<not> issued env said w) (remS (te_cmse env) (d, n))"
      using assms by (auto simp: keeps_def issued_def credentials_def credential_frame tel_laws srem_ok split: if_splits)
    moreover have "keeps (\<lambda>w. \<not> issued env said w) (putS (te_ccrd env) (cr_said c) c)"
      using assms c by (auto simp: keeps_def issued_def credentials_def credential_frame tel_laws sput_get split: if_splits)
    ultimately show ?thesis
      unfolding missing_sig_step_def e prod.case Registrar_complete_def by (intro wp)
  qed
  have "keeps (\<lambda>w. \<not> issued env said w) (forA (sitems (te_cmse env) w) (missing_sig_step env))"
    by (intro wp step)
  then show "\<not> issued env said (snd (processCredentialMissingSigEscrow env w))"
    using new by (simp add: processCredentialMissingSigEscrow_def keeps_def)
qed

lemma keeps_unissued:
  assumes "\<And>c. keeps (\<lambda>s. cred_stores env (g s) = c) m"
  shows "keeps (\<lambda>s. \<not> issued env said (g s)) m"
  using assms issued_stores unfolding keeps_def by metis

lemma keeps_turn:
  assumes "tel_ok env" and "\<And>n c. keeps (\<lambda>w. cred_stores env w = c) (keri n)"
  shows "keeps (\<lambda>s. \<not> issued env said (rg_world s)) (Escrower_recur (agent_escrows env keri) tvy)"
proof -
  have "keeps (\<lambda>s. \<not> issued env said (rg_world s)) (agent_escrows env keri n)" for n
    unfolding agent_escrows_def
    by (intro wp keeps_unissued [OF keeps_registrar [OF assms(1)]] keeps_rext keeps_missing_sig [OF assms(1)]
        keeps_unissued [where g = "\<lambda>w. w", OF assms(2)])
  then show ?thesis unfolding Escrower_recur_def by (intro wp)
qed

text \<open>
  An agent that verifies, but does not issue: turns of the escrows, and any change that leaves
  \<open>cmse\<close> and \<open>ccrd\<close> alone. Only \<open>Credentialer.issue\<close> puts something into \<open>cmse\<close>.
\<close>

inductive verifier_run ::
  "'w tel_env \<Rightarrow> (string \<Rightarrow> ('w, unit) act) \<Rightarrow> 'w registrar \<Rightarrow> 'w registrar \<Rightarrow> bool" for env keri s where
  start: "verifier_run env keri s s"
| turn: "verifier_run env keri s t \<Longrightarrow> verifier_run env keri s (snd (Escrower_recur (agent_escrows env keri) tvy t))"
| other: "verifier_run env keri s t \<Longrightarrow> cred_stores env (rg_world u) = cred_stores env (rg_world t) \<Longrightarrow>
    verifier_run env keri s u"

lemma verifier_run_unissued:
  assumes "verifier_run env keri s t" and "tel_ok env" and "\<And>n c. keeps (\<lambda>w. cred_stores env w = c) (keri n)"
    and "\<not> issued env said (rg_world s)"
  shows "\<not> issued env said (rg_world t)"
  using assms(1)
proof induction
  case (turn t tvy)
  then show ?case using keeps_turn [OF assms(2,3), where said = said and tvy = tvy] by (simp add: keeps_def)
next
  case (other t u)
  then show ?case using issued_stores by metis
qed (rule assms(4))

text \<open>The monitor asks the credentialer of the agent.\<close>

definition asks_credentialer :: "'w tel_env \<Rightarrow> 'w registrar mon_env \<Rightarrow> bool" where
  "asks_credentialer env mon \<longleftrightarrow>
     me_credential mon = (\<lambda>j. bindA (liftA (jstr j)) (\<lambda>said. rext (Credentialer_complete env said)))"

lemma status_issuing:
  assumes "op_type o' = ''credential''" and "op_metadata o' = JObj ms" and "dict_get ms ''ced'' = Some (JObj cs)"
    and "dict_get cs ''d'' = Some (JStr said)" and "asks_credentialer env mon"
  shows "status mon o' t =
    (Inr (if said \<in> credentials env (rg_world t) then finished o' (JObj [(''ced'', JObj cs)]) else pending o'), t)"
proof -
  have "rext (Credentialer_complete env said) t = (Inr (said \<in> credentials env (rg_world t)), t)"
    by (simp add: rext_run)
  then show ?thesis
    using assms by (simp add: status_def status_credential_def required_def has_def field_def bindA_Inr asks_credentialer_def)
qed

text \<open>
  C21. The operation of a verification never ends. An accepted request to verify a credential that the
  agent does not issue itself puts the credential on the stream of the parser and stores an operation of
  type \<open>credential\<close>; but that type waits for \<open>ccrd\<close>, which only the issuing of a credential leads to. So the
  operation stays pending in every state the agent can get into by verifying, also when the verifier has
  accepted and saved the credential.
\<close>

theorem verification_pending:
  fixes env :: "'w issue_env" and s :: "'w registrar decks"
  assumes ok: "tel_ok (is_tel env)" and keri: "\<And>n c. keeps (\<lambda>w. cred_stores (is_tel env) w = c) (keri n)"
    and mon: "suber_ok (me_ops (ai_mon (is_aid env)))" "asks_credentialer (is_tel env) (ai_mon (is_aid env))"
      "frames (me_ops (ai_mon (is_aid env))) (\<lambda>t. cred_stores (is_tel env) (rg_world t))"
    and feed: "\<And>m c. keeps (\<lambda>w. cred_stores (is_tel env) w = c) (is_feed env m)" "\<And>m w. fst (is_feed env m w) = Inr ()"
    and req: "rq_media req = Inr (JObj body)" "dict_get body ''acdc'' = Some (JObj cs)" "dict_get body ''iss'' = Some (JObj iss)"
      "is_acdc env (JObj cs) = Inr creder" "dict_get cs ''d'' = Some (JStr (cr_said creder))"
      "ai_serder (is_aid env) (JObj iss) = Inr iserder"
    and new: "\<not> issued (is_tel env) (cr_said creder) (rg_world (dk_world s))"
  shows "\<exists>s' o'. CredentialVerificationCollectionEnd_on_post env req rep s =
      (Inr (rep\<lparr>rs_status := 202, rs_data := Some (to_json (pending o'))\<rparr>), s') \<and>
    sget (me_ops (ai_mon (is_aid env))) (dk_world s') (''credential.'' @ cr_said creder) = Some o' \<and>
    (\<forall>t. verifier_run (is_tel env) keri (dk_world s') t \<longrightarrow> status (ai_mon (is_aid env)) o' t = (Inr (pending o'), t))"
proof -
  let ?tel = "is_tel env" and ?mon = "ai_mon (is_aid env)" and ?said = "cr_said creder"
  let ?feed = "is_feed env (is_serialize env creder (seal_of iserder))"
  define t1 where "t1 = (dk_world s)\<lparr>rg_world := snd (?feed (rg_world (dk_world s)))\<rparr>"
  define o' where "o' = \<lparr>op_oid = ?said, op_type = ''credential'', op_start = me_nowIso ?mon t1,
    op_metadata = JObj [(''ced'', JObj cs)]\<rparr>"
  let ?t2 = "snd (spin (me_ops ?mon) t1 (''credential.'' @ ?said) o')"
  have same: "cred_stores ?tel (rg_world ?t2) = cred_stores ?tel (rg_world (dk_world s))"
    using frames_store(2) [OF mon(3), of t1] feed(1) by (simp add: t1_def keeps_def)
  have unissued: "\<not> issued ?tel ?said (rg_world ?t2)" using new issued_stores [OF same] by simp
  have status: "status ?mon o' t = (Inr (pending o'), t)" if "verifier_run ?tel keri ?t2 t" for t
  proof -
    have "?said \<notin> credentials ?tel (rg_world t)"
      using verifier_run_unissued [OF that ok keri unissued] by (simp add: issued_def)
    moreover have "status ?mon o' t =
        (Inr (if ?said \<in> credentials ?tel (rg_world t) then finished o' (JObj [(''ced'', JObj cs)]) else pending o'), t)"
      by (rule status_issuing [OF _ _ _ req(5) mon(2), where ms = "[(''ced'', JObj cs)]"]) (simp_all add: o'_def)
    ultimately show ?thesis by simp
  qed
  have stored: "sget (me_ops ?mon) ?t2 (''credential.'' @ ?said) = Some o'" by (simp add: spin_ok mon(1))
  have submit: "Monitor_submit ?mon ?said ''credential'' (JObj [(''ced'', JObj cs)]) t1 = (Inr (Some (pending o')), ?t2)"
    using stored status [OF verifier_run.start]
    by (simp add: Monitor_submit_def OpTypes_def Monitor_get_def bindA_Inr o'_def [symmetric])
  have fed: "wext ?feed s = (Inr (), s\<lparr>dk_world := t1\<rparr>)" by (simp add: wext_run feed(2) t1_def)
  have "CredentialVerificationCollectionEnd_on_post env req rep s =
      (Inr (rep\<lparr>rs_status := 202, rs_data := Some (to_json (pending o'))\<rparr>), s\<lparr>dk_world := ?t2\<rparr>)"
    using req fed submit
    by (simp add: CredentialVerificationCollectionEnd_on_post_def events_of_def catchA_def getRequiredParam_def bindA_Inr
        dext_run accepted_def bindA_def [of "dext m" for m])
  with stored status show ?thesis by (intro exI [of _ "s\<lparr>dk_world := ?t2\<rparr>"] exI [of _ o']) simp
qed

subsection \<open>From the request to the end of the operation\<close>

text \<open>What an issuance has to pass before its anchoring event is taken.\<close>

definition issue_request ::
  "'w issue_env \<Rightarrow> request \<Rightarrow> string \<Rightarrow> 'w registrar decks \<Rightarrow> (string \<times> json) list \<Rightarrow> hab \<Rightarrow>
   json \<times> creder \<times> serder \<times> serder \<Rightarrow> json \<Rightarrow> bool" where
  "issue_request env req name s body hab events regk \<longleftrightarrow>
     rq_media req = Inr (JObj body) \<and> find_hab (is_aid env) name (dk_world s) = Some hab \<and>
     issue_events env (JObj body) s = (Inr (Inr events), s) \<and>
     registry_of (fst (snd (snd events))) = Inr regk \<and> regk \<noteq> JNull \<and> in_tevers env (rg_world (dk_world s)) regk = Inr True"

lemma issue_run:
  assumes "issue_request env req name s body hab (sad, creder, iserder, anc) regk"
    and "anchoring_event env hab name (JObj body) s = (Inr o', s1)"
  shows "CredentialCollectionEnd_on_post env req rep name s =
    bindA (catchA (bindA (issue_credential env regk sad creder iserder anc o') (\<lambda>o'. retA (Inr o')))
             (\<lambda>e. if isConfigurationError e then Some (retA (Inl e)) else None))
      (\<lambda>r. case r of Inl e \<Rightarrow> retA (text_400 rep e) | Inr o' \<Rightarrow> sent_200 rep o') s1"
proof -
  have hab: "the_hab env name s = (Inr hab, s)"
    using assms(1) by (simp add: issue_request_def the_hab_def dext_run some_hab_def)
  have known: "wext (readA (\<lambda>w. in_tevers env w regk)) s = (Inr True, s)"
    using assms(1) by (simp add: issue_request_def wext_run)
  show ?thesis
    unfolding CredentialCollectionEnd_on_post_def
    using assms hab known by (simp add: issue_request_def bindA_Inr)
qed

lemma interact_queues:
  assumes "interact_identifier env name (JObj body) s = (Inr o', s1)" and "dict_get body ''group'' = None"
    and "dict_get body ''ixn'' = Some ixn" and "find_hab env name (dk_world s) = Some hab"
  shows "\<exists>serder kv w. ai_serder env ixn = Inr serder \<and> ai_hkever env w hab = Some kv \<and>
    dk_witners s1 = dk_witners s @ (if ik_wits kv = [] then [] else [serder])"
proof -
  have hab: "dext (some_hab (find_hab env) name e) s = (Inr hab, s)" for e
    using assms(4) by (simp add: dext_run some_hab_def)
  from assms(1,2,3) obtain serder kv w2 where serder: "ai_serder env ixn = Inr serder"
    and kv: "ai_hkever env w2 hab = Some kv" and submit: "submit_witness env hab kv serder (s\<lparr>dk_world := w2\<rparr>) = (Inr o', s1)"
    unfolding interact_identifier_def bindA_Inr [of "dext (some_hab f n e)" for f n e, OF hab]
    by (auto simp: hkever_def bindA_guardA elim!: bindA_eq_InrD dest!: dext_InrD split: if_splits option.splits)
  have "dk_witners s1 = dk_witners s @ (if ik_wits kv = [] then [] else [serder])"
    using submit by (auto simp: submit_witness_def dest!: dext_InrD split: if_splits)
  with serder kv show ?thesis by auto
qed

text \<open>
  The schema is checked after the anchoring event. A credential with an unknown schema, or that does not
  conform to it, is answered with status 400 and the reason; nothing is issued, but the event that was to anchor it
  has been accepted, and its receipts are collected: the state is the one that event left.
\<close>

theorem issue_schema_late:
  assumes req: "issue_request env req name s body hab (sad, creder, iserder, anc) regk"
    and event: "anchoring_event env hab name (JObj body) s = (Inr o', s1)"
    and wits: "is_estOnly env (dk_world s) hab = Inr False" "dict_get body ''group'' = None" "dict_get body ''ixn'' = Some ixn"
      "\<And>w kv. ai_hkever (is_aid env) w hab = Some kv \<Longrightarrow> ik_wits kv \<noteq> []"
  defines "scraw \<equiv> te_resolve (is_tel env) (rg_world (dk_world s1)) (cr_schema creder)"
    and "schema \<equiv> te_show (is_tel env) (cr_schema creder)"
  shows "(\<exists>serder. ai_serder (is_aid env) ixn = Inr serder \<and> dk_witners s1 = dk_witners s @ [serder]) \<and>
    (scraw = [] \<longrightarrow> CredentialCollectionEnd_on_post env req rep name s = (Inr (text_400 rep (schema_missing schema)), s1)) \<and>
    (\<forall>schemer m. scraw \<noteq> [] \<and> te_schemer (is_tel env) scraw = Inr schemer \<and>
       te_verify (is_tel env) schemer (cr_raw creder) = Inl (ValidationError m) \<longrightarrow>
       CredentialCollectionEnd_on_post env req rep name s = (Inr (text_400 rep (schema_failed schema m)), s1))"
proof (intro conjI allI impI; (elim conjE)?)
  have late: "CredentialCollectionEnd_on_post env req rep name s = (Inr (text_400 rep e), s1)"
    if "Credentialer_validate (is_tel env) creder (rg_world (dk_world s1)) = (Inl e, rg_world (dk_world s1))" "isConfigurationError e" for e
  proof -
    have "wext (Credentialer_validate (is_tel env) creder) s1 = (Inl e, s1)" using that(1) by (simp add: wext_run)
    then show ?thesis using that(2) by (simp add: issue_run [OF req event] issue_credential_def catchA_def bindA_Inl bindA_Inr)
  qed
  have "find_hab (is_aid env) name (dk_world s) = Some hab" using req by (simp add: issue_request_def)
  moreover have "interact_identifier (is_aid env) name (JObj body) s = (Inr o', s1)"
    using event wits(1) by (simp add: anchoring_event_def bindA_def [of "dext m" for m] dext_run)
  ultimately show "\<exists>serder. ai_serder (is_aid env) ixn = Inr serder \<and> dk_witners s1 = dk_witners s @ [serder]"
    using interact_queues [OF _ wits(2,3)] wits(4) by fastforce
  show "CredentialCollectionEnd_on_post env req rep name s = (Inr (text_400 rep (schema_missing schema)), s1)" if "scraw = []"
    by (rule late) (use that in \<open>simp_all add: Credentialer_validate_def scraw_def schema_def schema_missing_def\<close>)
  show "CredentialCollectionEnd_on_post env req rep name s = (Inr (text_400 rep (schema_failed schema m)), s1)"
    if "scraw \<noteq> []" "te_schemer (is_tel env) scraw = Inr schemer"
      "te_verify (is_tel env) schemer (cr_raw creder) = Inl (ValidationError m)" for schemer m
    by (rule late) (use that in \<open>simp_all add: Credentialer_validate_def scraw_def schema_def schema_failed_def\<close>)
qed

text \<open>The databases an issuance goes through leave each other alone, and so do \<open>keri\<close>'s parts of it.\<close>

definition way_in :: "'w tel_env \<Rightarrow> 'w \<Rightarrow> (string \<times> int \<Rightarrow> seal list) \<times> (string \<times> int \<Rightarrow> creder option)" where
  "way_in env w = (dget (te_tpwe env) w, sget (te_cmse env) w)"

definition issue_ok :: "'w issue_env \<Rightarrow> bool" where
  "issue_ok env \<longleftrightarrow>
     (let tel = is_tel env; mon = ai_mon (is_aid env) in
      tel_ok tel \<and> suber_ok (me_ops mon) \<and> asks_credentialer tel mon \<and>
      frames (te_cmse tel) (dget (te_tpwe tel)) \<and> frames (me_ops mon) (\<lambda>t. way_in tel (rg_world t)) \<and>
      (\<forall>c registry serder. keeps (\<lambda>w. way_in tel w = c) (te_processEvent tel registry serder)) \<and>
      (\<forall>c p d n t. keeps (\<lambda>w. way_in tel w = c) (te_anchorMsg tel p d n t)) \<and>
      (\<forall>c creder seal. keeps (\<lambda>w. way_in tel w = c) (te_processCredential tel creder seal)))"

lemma issue_laws:
  assumes "issue_ok env"
  shows "tel_ok (is_tel env)" "suber_ok (me_ops (ai_mon (is_aid env)))" "asks_credentialer (is_tel env) (ai_mon (is_aid env))"
    "frames (te_cmse (is_tel env)) (dget (te_tpwe (is_tel env)))"
    "frames (me_ops (ai_mon (is_aid env))) (\<lambda>t. way_in (is_tel env) (rg_world t))"
    "keeps (\<lambda>w. way_in (is_tel env) w = c) (te_processEvent (is_tel env) registry serder)"
    "keeps (\<lambda>w. way_in (is_tel env) w = c) (te_anchorMsg (is_tel env) p d n t)"
    "keeps (\<lambda>w. way_in (is_tel env) w = c) (te_processCredential (is_tel env) creder seal)"
  using assms unfolding issue_ok_def Let_def by blast+

lemma rext_InrD: "rext m s = (r, s') \<Longrightarrow> \<exists>w. m (rg_world s) = (r, w) \<and> s' = s\<lparr>rg_world := w\<rparr>"
  by (auto simp: rext_run prod_eq_iff)

lemma keepsD_eq: "(\<And>c. keeps (\<lambda>w. f w = c) m) \<Longrightarrow> m w = (r, w') \<Longrightarrow> f w' = f w"
  using keepsD [of "\<lambda>v. f v = f w" m w r w'] by blast

lemma issue_waits:
  assumes ok: "issue_ok env" and run: "Registrar_issue (is_tel env) regk iserder anc t = (Inr x, t')"
    and registry: "te_regs (is_tel env) (rg_world t) regk = Inr registry" "\<not> is_group (ry_hab registry)"
    and event: "jitem (se_ked iserder) ''i'' = Inr (JStr said)" "jitem (se_ked iserder) ''s'' = Inr sv"
      "te_seqner (is_tel env) sv = Inr n"
  shows "\<exists>v. v \<in> set (dget (te_tpwe (is_tel env)) (rg_world t') (said, n)) \<and>
    sget (te_cmse (is_tel env)) (rg_world t') = sget (te_cmse (is_tel env)) (rg_world t)"
proof -
  let ?tel = "is_tel env"
  have read: "rext (readA (\<lambda>w. te_regs ?tel w regk)) t = (Inr registry, t)" using registry by (simp add: rext_run)
  from run obtain t1 where t1: "rext (te_processEvent ?tel registry iserder) t = (Inr (), t1)"
    and single: "anchor_single ?tel (ry_hab registry) said (se_said iserder) n t1 = (Inr (), t')"
    using registry event by (auto simp: Registrar_issue_def bindA_Inr read ked_text_def ked_number_def elim!: bindA_eq_InrD)
  from single obtain v w where v: "te_anchorMsg ?tel said (se_said iserder) (fst (snd v)) (snd (snd v)) (rg_world t1) = (Inr (), w)"
    and t': "rg_world t' = snd (dadd (te_tpwe ?tel) w (said, n) v)"
    unfolding anchor_single_def by (auto elim!: bindA_eq_InrD dest!: rext_InrD)
  have "way_in ?tel (rg_world t1) = way_in ?tel (rg_world t)" using keepsD_eq [OF issue_laws(6) [OF ok]] rext_InrD [OF t1] by auto
  moreover have "way_in ?tel w = way_in ?tel (rg_world t1)" by (rule keepsD_eq [OF issue_laws(7) [OF ok] v])
  moreover have "sget (te_cmse ?tel) (snd (dadd (te_tpwe ?tel) w (said, n) v)) = sget (te_cmse ?tel) w"
    using issue_laws(1) [OF ok] by (simp add: tel_ok_def frames_Pair single_stores_def dframes_store)
  ultimately show ?thesis using tel_laws(1) [OF issue_laws(1) [OF ok]]
    by (intro exI [of _ v]) (simp add: t' dadd_ok way_in_def)
qed

lemma issue_holds:
  assumes ok: "issue_ok env" and run: "Credentialer_issue (is_tel env) creder iserder w = (Inr (), w')"
    and new: "sget (te_cmse (is_tel env)) w (cr_said creder, se_sn iserder) = None"
  shows "sget (te_cmse (is_tel env)) w' (cr_said creder, se_sn iserder) = Some creder \<and>
    dget (te_tpwe (is_tel env)) w' = dget (te_tpwe (is_tel env)) w"
proof -
  let ?tel = "is_tel env"
  define w1 where "w1 = snd (sput (te_cmse ?tel) w (cr_said creder, se_sn iserder) creder)"
  have "keeps (\<lambda>v. way_in ?tel v = way_in ?tel w1)
      (catchA (te_processCredential ?tel creder (se_pre iserder, se_sn iserder, se_said iserder))
         (\<lambda>e. if e = MissingRegistryError then Some (retA ()) else None))"
    by (intro wp issue_laws(8) [OF ok]) (auto simp: keeps_retA split: if_splits)
  moreover from run have "catchA (te_processCredential ?tel creder (se_pre iserder, se_sn iserder, se_said iserder))
      (\<lambda>e. if e = MissingRegistryError then Some (retA ()) else None) w1 = (Inr (), w')"
    by (simp add: Credentialer_issue_def w1_def)
  ultimately have "way_in ?tel w' = way_in ?tel w1" using keepsD by (metis (mono_tags, lifting))
  moreover have "sget (te_cmse ?tel) w1 (cr_said creder, se_sn iserder) = Some creder"
    using tel_laws(5) [OF issue_laws(1) [OF ok]] new by (simp add: w1_def sput_get)
  moreover have "dget (te_tpwe ?tel) w1 = dget (te_tpwe ?tel) w"
    using issue_laws(4) [OF ok] by (simp add: w1_def frames_store)
  ultimately show ?thesis by (simp add: way_in_def)
qed

lemma submit_credential:
  assumes ok: "issue_ok env" and run: "Monitor_submit (ai_mon (is_aid env)) said ''credential'' (JObj ms) t = (Inr x, t')"
    and ms: "dict_get ms ''ced'' = Some (JObj cs)" "dict_get cs ''d'' = Some (JStr said)"
  shows "\<exists>o'. sget (me_ops (ai_mon (is_aid env))) t' (''credential.'' @ said) = Some o' \<and> op_type o' = ''credential'' \<and>
    op_metadata o' = JObj ms \<and> x \<noteq> None \<and> way_in (is_tel env) (rg_world t') = way_in (is_tel env) (rg_world t)"
proof -
  let ?mon = "ai_mon (is_aid env)"
  define o' where "o' = \<lparr>op_oid = said, op_type = ''credential'', op_start = me_nowIso ?mon t, op_metadata = JObj ms\<rparr>"
  let ?t = "snd (spin (me_ops ?mon) t (''credential.'' @ said) o')"
  have stored: "sget (me_ops ?mon) ?t (''credential.'' @ said) = Some o'" by (simp add: spin_ok issue_laws(2) [OF ok])
  from run have "bindA (status ?mon o') (\<lambda>r. retA (Some r)) ?t = (Inr x, t')"
    using stored by (simp add: Monitor_submit_def OpTypes_def Monitor_get_def o'_def [symmetric])
  moreover have "snd (status ?mon o' ?t) = ?t"
    by (subst status_issuing [OF _ _ ms issue_laws(3) [OF ok]]) (simp_all add: o'_def)
  ultimately have "t' = ?t" and "x \<noteq> None" by (auto elim!: bindA_eq_InrD)
  then show ?thesis
    using stored frames_store(2) [OF issue_laws(5) [OF ok], of t] by (intro exI [of _ o']) (simp add: o'_def)
qed

text \<open>What an issuance leaves in the escrows.\<close>

lemma issue_leaves:
  fixes env :: "'w issue_env" and s1 :: "'w registrar decks"
  assumes ok: "issue_ok env" and run: "issue_credential env regk (JObj cs) creder iserder anc o' s1 = (Inr x, s')"
    and registry: "te_regs (is_tel env) (rg_world (dk_world s1)) regk = Inr registry" "\<not> is_group (ry_hab registry)"
    and names: "dict_get cs ''d'' = Some (JStr (cr_said creder))" "jitem (se_ked iserder) ''i'' = Inr (JStr (cr_said creder))"
      "jitem (se_ked iserder) ''s'' = Inr sv" "te_seqner (is_tel env) sv = Inr (se_sn iserder)"
    and new: "sget (te_cmse (is_tel env)) (rg_world (dk_world s1)) (cr_said creder, se_sn iserder) = None"
  obtains o'' v where "sget (me_ops (ai_mon (is_aid env))) (dk_world s') (''credential.'' @ cr_said creder) = Some o''"
    and "op_type o'' = ''credential''" and "op_metadata o'' = JObj [(''ced'', JObj cs), (''depends'', depends o')]"
    and "sget (te_cmse (is_tel env)) (rg_world (dk_world s')) (cr_said creder, se_sn iserder) = Some creder"
    and "v \<in> set (dget (te_tpwe (is_tel env)) (rg_world (dk_world s')) (cr_said creder, se_sn iserder))"
proof -
  let ?tel = "is_tel env" and ?mon = "ai_mon (is_aid env)" and ?said = "cr_said creder"
  let ?k = "(?said, se_sn iserder)"
  from run obtain u s2 r s3 s4 where
    v: "wext (Credentialer_validate ?tel creder) s1 = (Inr u, s2)" and i: "dext (Registrar_issue ?tel regk iserder anc) s2 = (Inr r, s3)"
    and c: "wext (Credentialer_issue ?tel creder iserder) s3 = (Inr (), s4)"
    and m: "dext (Monitor_submit ?mon ?said ''credential'' (JObj [(''ced'', JObj cs), (''depends'', depends o')])) s4 = (Inr x, s')"
    unfolding issue_credential_def by (auto elim!: bindA_eq_InrD)
  have "keeps (\<lambda>w. w = rg_world (dk_world s1)) (Credentialer_validate ?tel creder)"
    unfolding Credentialer_validate_def by (intro wp)
  then have s2: "rg_world (dk_world s2) = rg_world (dk_world s1)" using v by (auto simp: wext_run keeps_def)
  obtain t3 where i': "Registrar_issue ?tel regk iserder anc (dk_world s2) = (Inr r, t3)" and s3: "s3 = s2\<lparr>dk_world := t3\<rparr>"
    using dext_InrD [OF i] by blast
  obtain w where w: "w \<in> set (dget (te_tpwe ?tel) (rg_world t3) ?k)"
    and cmse3: "sget (te_cmse ?tel) (rg_world t3) = sget (te_cmse ?tel) (rg_world (dk_world s1))"
    using issue_waits [OF ok i' _ registry(2) names(2-4)] registry(1) s2 by auto
  have c': "Credentialer_issue ?tel creder iserder (rg_world t3) = (Inr (), rg_world (dk_world s4))"
    using c s3 by (auto simp: wext_run prod_eq_iff)
  have in4: "sget (te_cmse ?tel) (rg_world (dk_world s4)) ?k = Some creder"
    "dget (te_tpwe ?tel) (rg_world (dk_world s4)) = dget (te_tpwe ?tel) (rg_world t3)"
    using issue_holds [OF ok c'] new cmse3 by simp_all
  have m': "Monitor_submit ?mon ?said ''credential'' (JObj [(''ced'', JObj cs), (''depends'', depends o')]) (dk_world s4) = (Inr x, dk_world s')"
    using dext_InrD [OF m] by auto
  obtain o'' where stored: "sget (me_ops ?mon) (dk_world s') (''credential.'' @ ?said) = Some o''" "op_type o'' = ''credential''"
      "op_metadata o'' = JObj [(''ced'', JObj cs), (''depends'', depends o')]"
    and same: "way_in ?tel (rg_world (dk_world s')) = way_in ?tel (rg_world (dk_world s4))"
    using submit_credential [OF ok m' _ names(1)] by auto
  show thesis by (rule that [OF stored]) (use in4 w same in \<open>simp_all add: way_in_def\<close>)
qed

text \<open>
  C20. From the request to the end of its operation. An issuance for an identifier of the agent's own that is answered with
  status 200 has stored an operation for the credential, and one turn of the escrows ends that operation,
  if by then \<open>keri\<close> has accepted the event of the registry and saved the credential, and the anchor has no
  witnesses to wait for or has their receipts. That takes the event to name the credential and its
  sequence number: the code does not check that.
\<close>

theorem issue_completes:
  fixes env :: "'w issue_env" and s :: "'w registrar decks"
  assumes ok: "issue_ok env" and req: "issue_request env req name s body hab (JObj cs, creder, iserder, anc) regk"
    and event: "anchoring_event env hab name (JObj body) s = (Inr o', s1)"
    and run: "CredentialCollectionEnd_on_post env req rep name s = (Inr rep', s')" and "rs_status rep' = 200"
    and registry: "te_regs (is_tel env) (rg_world (dk_world s1)) regk = Inr registry" "\<not> is_group (ry_hab registry)"
    and names: "dict_get cs ''d'' = Some (JStr (cr_said creder))" "jitem (se_ked iserder) ''i'' = Inr (JStr (cr_said creder))"
      "jitem (se_ked iserder) ''s'' = Inr sv" "te_seqner (is_tel env) sv = Inr (se_sn iserder)"
    and new: "sget (te_cmse (is_tel env)) (rg_world (dk_world s1)) (cr_said creder, se_sn iserder) = None"
    and keri: "keri_escrows keri (rg_world (dk_world s')) = (Inr (), w1)"
      "way_in (is_tel env) w1 = way_in (is_tel env) (rg_world (dk_world s'))"
    and known: "registrar_known (is_tel env) ((dk_world s')\<lparr>rg_world := w1\<rparr>)"
    and accepted: "te_hasTel (is_tel env) w1 (cr_said creder) (se_sn iserder)" "te_saved (is_tel env) w1 (cr_said creder) \<noteq> None"
      "\<And>v. ((cr_said creder, se_sn iserder), v) \<in> waiting (te_tpwe (is_tel env)) w1 \<Longrightarrow>
         tpwe_verdict (is_tel env) ((dk_world s')\<lparr>rg_world := w1\<rparr>) ((cr_said creder, se_sn iserder), v) = Moves"
  shows "\<exists>o'' s2. sget (me_ops (ai_mon (is_aid env))) (dk_world s') (''credential.'' @ cr_said creder) = Some o'' \<and>
    Escrower_recur (agent_escrows (is_tel env) keri) True (dk_world s') = (Inr False, s2) \<and>
    status (ai_mon (is_aid env)) o'' s2 = (Inr (finished o'' (JObj [(''ced'', JObj cs)])), s2)"
proof -
  let ?tel = "is_tel env" and ?mon = "ai_mon (is_aid env)" and ?said = "cr_said creder"
  let ?k = "(?said, se_sn iserder)"
  from run have "bindA (catchA (bindA (issue_credential env regk (JObj cs) creder iserder anc o') (\<lambda>o'. retA (Inr o')))
             (\<lambda>e. if isConfigurationError e then Some (retA (Inl e)) else None))
      (\<lambda>r. case r of Inl e \<Rightarrow> retA (text_400 rep e) | Inr o' \<Rightarrow> sent_200 rep o') s1 = (Inr rep', s')"
    by (simp add: issue_run [OF req event])
  with \<open>rs_status rep' = 200\<close> obtain x where "issue_credential env regk (JObj cs) creder iserder anc o' s1 = (Inr x, s')"
    by (auto simp: catchA_def text_400_def sent_200_def bindA_def split: prod.splits sum.splits option.splits if_splits)
  then obtain o'' w where stored: "sget (me_ops ?mon) (dk_world s') (''credential.'' @ ?said) = Some o''" "op_type o'' = ''credential''"
      "op_metadata o'' = JObj [(''ced'', JObj cs), (''depends'', depends o')]"
    and left: "sget (te_cmse ?tel) (rg_world (dk_world s')) ?k = Some creder" "w \<in> set (dget (te_tpwe ?tel) (rg_world (dk_world s')) ?k)"
    by (rule issue_leaves [OF ok _ registry names new])
  have way: "sget (te_cmse ?tel) w1 ?k = Some creder" "w \<in> set (dget (te_tpwe ?tel) w1 ?k)"
    using left keri(2) by (simp_all add: way_in_def)
  then have "(?k, w) \<in> due ?tel ((dk_world s')\<lparr>rg_world := w1\<rparr>)"
    using accepted(3) [of w] by (simp add: due_def waiting_def)
  with way(1) accepted(1,2) have "\<exists>d n c. sget (te_cmse ?tel) w1 (d, n) = Some c \<and> cr_said c = ?said \<and> te_saved ?tel w1 d \<noteq> None \<and>
      ((d, n) \<in> finished_tels ?tel ((dk_world s')\<lparr>rg_world := w1\<rparr>) \<or>
       te_hasTel ?tel w1 d n \<and> (\<exists>v. ((d, n), v) \<in> due ?tel ((dk_world s')\<lparr>rg_world := w1\<rparr>)))" by blast
  then obtain s2' where turn: "Escrower_recur (agent_escrows ?tel keri) True (dk_world s') = (Inr False, s2')"
    "?said \<in> credentials ?tel (rg_world s2')"
    using credential_turn [OF keri(1) known, of ?said] by blast
  have "status ?mon o'' s2' = (Inr (finished o'' (JObj [(''ced'', JObj cs)])), s2')"
    using status_issuing [OF stored(2,3) _ names(1) issue_laws(3) [OF ok], of s2'] turn(2) by simp
  with stored(1) turn(1) show ?thesis by blast
qed

subsection \<open>Names of registries\<close>

text \<open>
  \<open>registryByName\<close> looks a name up among the records and the key it finds among the registries; the
  records are a database of their own, and the name of a registry object is an attribute of it.
\<close>

definition registries_ok :: "'w issue_env \<Rightarrow> bool" where
  "registries_ok env \<longleftrightarrow>
     suber_ok (is_regords env) \<and> frames (is_regords env) (is_regs env) \<and>
     (\<forall>w k r. map_of (is_regs env w) k = Some r \<longrightarrow> ry_regk r = k) \<and>
     (\<forall>w n. is_byName env w (JStr n) = Inr (case sget (is_regords env) w n of None \<Rightarrow> None
        | Some (k, p) \<Rightarrow> map_of (is_regs env w) k)) \<and>
     (\<forall>c registry name. keeps (\<lambda>w. (sget (is_regords env) w, is_regs env w) = c) (is_setRegName env registry name))"

lemma registries_laws:
  assumes "registries_ok env"
  shows "suber_ok (is_regords env)" "frames (is_regords env) (is_regs env)"
    "map_of (is_regs env w) k = Some r \<Longrightarrow> ry_regk r = k"
    "is_byName env w (JStr n) = Inr (case sget (is_regords env) w n of None \<Rightarrow> None
       | Some (k, p) \<Rightarrow> map_of (is_regs env w) k)"
    "keeps (\<lambda>w. (sget (is_regords env) w, is_regs env w) = c) (is_setRegName env registry name)"
  using assms unfolding registries_ok_def by blast+

lemma wext_InrD: "wext m s = (r, s') \<Longrightarrow> m (rg_world (dk_world s)) = (r, rg_world (dk_world s'))"
  by (auto simp: wext_run prod_eq_iff)

lemma keeps_registry_record [wp]: "keeps P (registry_record env registry)"
  unfolding registry_record_def by (intro wp)

lemma rename_run:
  assumes ok: "registries_ok env" and run: "RegistryResourceEnd_on_put env req rep name old s = (Inr rep', s')"
    and req: "rq_media req = Inr (JObj body)" "dict_get body ''name'' = Some (JStr new)"
    and hab: "find_hab (is_aid env) name (dk_world s) = Some hab"
    and found: "fst (named_registry env hab (JStr new) old (rg_world (dk_world s))) = Inr registry"
      "snd (named_registry env hab (JStr new) old (rg_world (dk_world s))) = rg_world (dk_world s)"
  shows "is_byName env (rg_world (dk_world s)) (JStr new) = Inr None"
    "sget (is_regords env) (rg_world (dk_world s')) =
       (sget (is_regords env) (rg_world (dk_world s))) (new \<mapsto> (ry_regk registry, hb_pre hab), old := None)"
    "is_regs env (rg_world (dk_world s')) = is_regs env (rg_world (dk_world s))"
proof -
  let ?w = "rg_world (dk_world s)"
  have start: "the_hab env name s = (Inr hab, s)" using hab by (simp add: the_hab_def dext_run some_hab_def)
  have named: "wext (named_registry env hab (JStr new) old) s = (Inr registry, s)" using found by (simp add: wext_run)
  have read: "wext (readA (\<lambda>w. is_byName env w (JStr new))) s = (is_byName env ?w (JStr new), s)" by (simp add: wext_run)
  show free: "is_byName env ?w (JStr new) = Inr None"
    using run req by (auto simp: RegistryResourceEnd_on_put_def bindA_Inr start bindA_def [of "wext (readA f)" for f] read bindA_guardA
        split: sum.splits if_splits)
  define w1 where "w1 = snd (srem (is_regords env) (snd (spin (is_regords env) ?w new (ry_regk registry, hb_pre hab))) old)"
  from run obtain u s1 w3 s3 where set: "wext (is_setRegName env registry (JStr new)) s1 = (Inr u, s3)"
    and s1: "rg_world (dk_world s1) = w1" and rd: "wext (registry_record env registry) s3 = (Inr w3, s')"
    using req free by (auto simp: RegistryResourceEnd_on_put_def bindA_Inr start read named w1_def
        bindA_def [of "wext (pinS a b c)" for a b c] bindA_def [of "wext (remS a b)" for a b] wext_run [of "pinS a b c" for a b c]
        wext_run [of "remS a b" for a b] elim!: bindA_eq_InrD)
  have "(sget (is_regords env) (rg_world (dk_world s3)), is_regs env (rg_world (dk_world s3))) = (sget (is_regords env) w1, is_regs env w1)"
    using keepsD [OF registries_laws(5) [OF ok] _ wext_InrD [OF set]] s1 by blast
  moreover have "rg_world (dk_world s') = rg_world (dk_world s3)"
    using keepsD [OF keeps_registry_record [where P = "(=) (rg_world (dk_world s3))"] refl wext_InrD [OF rd]] by simp
  ultimately show "sget (is_regords env) (rg_world (dk_world s')) = (sget (is_regords env) ?w) (new \<mapsto> (ry_regk registry, hb_pre hab), old := None)"
    "is_regs env (rg_world (dk_world s')) = is_regs env ?w"
    using registries_laws(1,2) [OF ok] by (simp_all add: w1_def spin_ok srem_ok frames_store)
qed

text \<open>
  Renaming a registry. A free name leads to the registry afterwards and the one in the path no longer does;
  no other name changes. Two things are not looked after: whoever's the registry is, its record then
  says that it belongs to the identifier in the path; and with the identifier of the registry in the path
  no name is given up, so the registry keeps all the names it had besides the new one.
\<close>

theorem registry_rename:
  assumes ok: "registries_ok env" and run: "RegistryResourceEnd_on_put env req rep name old s = (Inr rep', s')"
    and req: "rq_media req = Inr (JObj body)" "dict_get body ''name'' = Some (JStr new)" and "old \<noteq> new"
    and hab: "find_hab (is_aid env) name (dk_world s) = Some hab"
    and registry: "map_of (is_regs env (rg_world (dk_world s))) k = Some registry"
    and which: "(\<exists>p. sget (is_regords env) (rg_world (dk_world s)) old = Some (k, p)) \<or>
      sget (is_regords env) (rg_world (dk_world s)) old = None \<and> old = k"
  defines "w \<equiv> rg_world (dk_world s)" and "w' \<equiv> rg_world (dk_world s')"
  shows "is_byName env w (JStr new) = Inr None \<and> is_byName env w' (JStr new) = Inr (Some registry) \<and>
    is_byName env w' (JStr old) = Inr None \<and>
    (\<forall>n. n \<noteq> old \<and> n \<noteq> new \<longrightarrow> is_byName env w' (JStr n) = is_byName env w (JStr n)) \<and>
    sget (is_regords env) w' new = Some (k, hb_pre hab) \<and>
    (sget (is_regords env) w old = None \<longrightarrow>
       (\<forall>n q. sget (is_regords env) w n = Some (k, q) \<longrightarrow> is_byName env w' (JStr n) = Inr (Some registry)))"
proof -
  note byName = registries_laws(4) [OF ok]
  have "named_registry env hab (JStr new) old w = (Inr registry, w)"
    using which registry by (auto simp: named_registry_def byName bindA_def [of "readA f" for f] w_def)
  then have *: "is_byName env w (JStr new) = Inr None"
    "sget (is_regords env) w' = (sget (is_regords env) w) (new \<mapsto> (ry_regk registry, hb_pre hab), old := None)"
    "is_regs env w' = is_regs env w"
    using rename_run [OF ok run req hab, of registry] by (simp_all add: w_def w'_def)
  have k: "ry_regk registry = k" by (rule registries_laws(3) [OF ok registry])
  have "n \<noteq> new" if "sget (is_regords env) w n = Some (k, q)" for n q
    using that *(1) registry by (auto simp: byName w_def)
  then show ?thesis
    using * k registry \<open>old \<noteq> new\<close> by (auto simp: byName w_def split: option.splits)
qed

text \<open>
  A registry is made before the event that anchors it is taken. If that event is refused, the request
  fails, but the registry stays: a second request with a good event finds the name in use.
\<close>

theorem registry_name_burnt:
  fixes env :: "'w issue_env" and s :: "'w registrar decks"
  assumes req: "rq_media req = Inr (JObj body)" "dict_get body ''name'' = Some (JStr rname)" "dict_get body ''vcp'' = Some (JObj vcp)"
      "dict_get body ''ixn'' = Some (JObj ixn)" "dict_get body ''sigs'' = Some (jstrs (sig # sigs))"
    and parse: "ai_serder (is_aid env) (JObj vcp) = Inr vserder" "ai_serder (is_aid env) (JObj ixn) = Inr iserder"
      "\<And>x. ai_siger (is_aid env) (JStr x) = Inr x"
    and hab: "\<And>w. find_hab (is_aid env) name w = Some hab" "\<And>w. is_estOnly env w hab = Inr False"
    and free: "is_byName env (rg_world (dk_world s)) (JStr rname) = Inr None"
    and made: "is_makeRegistry env (JStr rname) (hb_pre hab) vserder (rg_world (dk_world s)) = (Inr registry, w1)"
      "is_byName env w1 (JStr rname) = Inr (Some registry)"
    and refused: "\<And>t. ai_interact (is_aid env) hab iserder (sig # sigs) t = (Inl e, t)"
  shows "\<exists>s'. RegistryCollectionEnd_on_post env req rep name s = (Inl e, s') \<and> rg_world (dk_world s') = w1 \<and>
    (\<forall>req2 body2 vcp2 ixn2 v2 i2. rq_media req2 = Inr (JObj body2) \<and> dict_get body2 ''name'' = Some (JStr rname) \<and>
       dict_get body2 ''vcp'' = Some (JObj vcp2) \<and> dict_get body2 ''ixn'' = Some (JObj ixn2) \<and>
       ai_serder (is_aid env) (JObj vcp2) = Inr v2 \<and> ai_serder (is_aid env) (JObj ixn2) = Inr i2 \<longrightarrow>
       RegistryCollectionEnd_on_post env req2 rep name s' =
         (Inl (HTTPError 400 (''registry name '' @ rname @ '' already in use'')), s'))"
proof -
  have the_hab: "the_hab env name t = (Inr hab, t)" for t by (simp add: the_hab_def dext_run some_hab_def hab)
  have found: "dext (some_hab (find_hab (is_aid env)) name e') t = (Inr hab, t)" for t e' by (simp add: dext_run some_hab_def hab)
  have byName: "wext (readA (\<lambda>w. is_byName env w n)) t = (is_byName env (rg_world (dk_world t)) n, t)" for n t by (simp add: wext_run)
  let ?s = "s\<lparr>dk_world := (dk_world s)\<lparr>rg_world := w1\<rparr>\<rparr>"
  have make: "wext (is_makeRegistry env (JStr rname) (hb_pre hab) vserder) s = (Inr registry, ?s)" using made by (simp add: wext_run)
  have sigers: "list_of (ai_siger (is_aid env)) (jstrs xs) t = (Inr xs, t)" for xs and t :: "'w registrar"
    by (induction xs) (simp_all add: list_of_def jstrs_def bindA_Inr parse(3))
  have sigs: "dext (event_sigers (is_aid env) (JObj body) title) t = (Inr (sig # sigs), t)" for title and t :: "'w registrar decks"
    using req(5) sigers [of "sig # sigs" "dk_world t"] by (simp add: dext_run event_sigers_def jstrs_def)
  have no: "dext (ai_interact (is_aid env) hab iserder (sig # sigs)) t = (Inl e, t)" for t by (simp add: dext_run refused)
  have "interact_identifier (is_aid env) name (JObj body) ?s = (Inl e, ?s)"
    using req(4) parse(2)
    by (simp add: interact_identifier_def bindA_Inr found sigs bindA_Inl no)
  then have "anchoring_event env hab name (JObj body) ?s = (Inl e, ?s)"
    by (simp add: anchoring_event_def bindA_def [of "dext (readA f)" for f] dext_run hab)
  then have "RegistryCollectionEnd_on_post env req rep name s = (Inl e, ?s)"
    using req parse free
    by (simp add: RegistryCollectionEnd_on_post_def getRequiredParam_def bindA_Inr the_hab byName make bindA_Inl)
  then show ?thesis
    using made(2) by (intro exI [of _ ?s])
      (simp add: RegistryCollectionEnd_on_post_def getRequiredParam_def bindA_Inr the_hab byName shown_def show_value_def)
qed

subsection \<open>An issuer in memory\<close>

text \<open>The identifier \<open>EI\<close> with its registry \<open>ER\<close>; \<open>wits\<close> are its witnesses, \<open>scraw\<close> what is stored of every schema.\<close>

record mem_issue =
  mi_tpwe :: "(string \<times> int, seal list) alist"
  mi_tmse :: "(string \<times> int \<times> string, seal list) alist"
  mi_tede :: "(string \<times> int, seal list) alist"
  mi_ctel :: "(string \<times> int, string) alist"
  mi_cmse :: "(string \<times> int, creder) alist"
  mi_ccrd :: "(string, creder) alist"
  mi_ops :: "(string, op) alist"
  mi_regords :: "(string, string \<times> string) alist"

definition mem_registry :: registry where
  "mem_registry = \<lparr>ry_hab = SignifyHab ''EI'', ry_regk = ''ER'', ry_regd = ''ER''\<rparr>"

definition mem_issue_tel :: "string list \<Rightarrow> string \<Rightarrow> mem_issue tel_env" where
  "mem_issue_tel wits scraw =
     \<lparr>te_tpwe = mem_dup mi_tpwe (\<lambda>a w. w\<lparr>mi_tpwe := a\<rparr>) fst,
      te_tmse = mem_dup mi_tmse (\<lambda>a w. w\<lparr>mi_tmse := a\<rparr>) fst,
      te_tede = mem_dup mi_tede (\<lambda>a w. w\<lparr>mi_tede := a\<rparr>) fst,
      te_ctel = mem_suber mi_ctel (\<lambda>a w. w\<lparr>mi_ctel := a\<rparr>),
      te_cmse = mem_suber mi_cmse (\<lambda>a w. w\<lparr>mi_cmse := a\<rparr>),
      te_ccrd = mem_suber mi_ccrd (\<lambda>a w. w\<lparr>mi_ccrd := a\<rparr>),
      te_hkever = (\<lambda>_ h. Inr (hb_pre h, 3, ''EA'')), te_wits = (\<lambda>_ _. Some wits), te_wigs = (\<lambda>_ _ _. 0),
      te_habs = (\<lambda>_ p. Some (SignifyHab p)), te_complete = (\<lambda>_ _. Inr True), te_start = (\<lambda>_ _. retA ()),
      te_regs = (\<lambda>_ _. Inr mem_registry), te_seqner = jhex, te_serder = mem_serder,
      te_processEvent = (\<lambda>_ _. retA ()), te_anchorMsg = (\<lambda>_ _ _ _. retA ()), te_putAnc = (\<lambda>_ _ _ _. retA ()),
      te_hasTel = (\<lambda>_ _ _. True), te_cloneTel = (\<lambda>_ _ _. [''iss'']), te_resolve = (\<lambda>_ _. scraw),
      te_schemer = (\<lambda>_. Inr JNull), te_verify = (\<lambda>_ _. Inr ()), te_show = (\<lambda>_. ''ES''),
      te_processCredential = (\<lambda>_ _. retA ()), te_saved = (\<lambda>_ said. Some said)\<rparr>"

fun mem_acdc :: "json \<Rightarrow> exn + creder" where
  "mem_acdc (JObj d) =
     (case dict_get d ''d'' of
        Some (JStr x) \<Rightarrow> Inr \<lparr>cr_said = x, cr_schema = JStr ''ES'', cr_raw = []\<rparr>
      | _ \<Rightarrow> Inl (ValidationError ''invalid credential''))"
| "mem_acdc _ = Inl TypeError"

definition mem_issue_mon :: "mem_issue tel_env \<Rightarrow> mem_issue registrar mon_env" where
  "mem_issue_mon tel =
     (plain_mon (mem_suber (\<lambda>s. mi_ops (rg_world s)) (\<lambda>a s. s\<lparr>rg_world := (rg_world s)\<lparr>mi_ops := a\<rparr>\<rparr>)))
       \<lparr>me_credential := (\<lambda>j. bindA (liftA (jstr j)) (\<lambda>said. rext (Credentialer_complete tel said))),
        me_kever := (\<lambda>_ pre. Some \<lparr>kv_pre = pre, kv_sn = 1, kv_toad = 1, kv_said = pre, kv_state = JNull\<rparr>),
        me_keLast := (\<lambda>_ pre _. Some pre)\<rparr>"

definition mem_issue_aid :: "string list \<Rightarrow> string \<Rightarrow> mem_issue registrar aid_env" where
  "mem_issue_aid wits scraw =
     \<lparr>ai_mon = mem_issue_mon (mem_issue_tel wits scraw), ai_rb = null_keeper, ai_depth = 9,
      ai_aids = null_suber, ai_caid = ''EC'', ai_names = null_suber, ai_habords = null_suber, ai_cntHabs = (\<lambda>_. 1),
      ai_habs = (\<lambda>_ n. if n = ''EI'' then Some (SignifyHab ''EI'') else None), ai_habByName = (\<lambda>_ _. None),
      ai_name = (\<lambda>_ _. ''issuer''), ai_setName = (\<lambda>_ _. retA ()),
      ai_hkever = (\<lambda>_ h. Some \<lparr>ik_pre = hb_pre h, ik_sn = 1, ik_delpre = None, ik_wits = wits, ik_transferable = True,
         ik_state = JNull, ik_windexes = []\<rparr>),
      ai_dts = (\<lambda>_ _. Some ''2024''), ai_known = (\<lambda>_ _. Inr False), ai_urls = (\<lambda>_ _. Inr False),
      ai_serder = mem_serder, ai_verfers = (\<lambda>_. []), ai_ndigers = (\<lambda>_. []), ai_siger = jstr, ai_verfer = jstr,
      ai_diger = jstr, ai_latest = (\<lambda>_ _ _. True), ai_makeSignify = (\<lambda>_ _ _. raiseA TypeError),
      ai_makeGroup = (\<lambda>_ _ _ _ _ _. raiseA TypeError), ai_deleteHab = (\<lambda>_. retA True),
      ai_rotate = (\<lambda>_ _ _ _. retA ()), ai_interact = (\<lambda>_ _ _. retA ()), ai_show = (\<lambda>_. [])\<rparr>"

definition mem_issue_env :: "string list \<Rightarrow> string \<Rightarrow> mem_issue issue_env" where
  "mem_issue_env wits scraw =
     \<lparr>is_aid = mem_issue_aid wits scraw, is_tel = mem_issue_tel wits scraw, is_estOnly = (\<lambda>_ _. Inr False),
      is_byName = (\<lambda>w n. case n of JStr n \<Rightarrow> Inr (case DAList.lookup (mi_regords w) n of None \<Rightarrow> None
         | Some (k, p) \<Rightarrow> map_of [(''ER'', mem_registry)] k) | _ \<Rightarrow> Inl TypeError),
      is_makeRegistry = (\<lambda>_ _ _. retA mem_registry), is_regs = (\<lambda>_. [(''ER'', mem_registry)]),
      is_tevers = (\<lambda>_ k. k = ''ER''), is_regName = (\<lambda>_ _. JStr ''vlei''), is_setRegName = (\<lambda>_ _. retA ()),
      is_state = (\<lambda>_ _. Inr JNull), is_regords = mem_suber mi_regords (\<lambda>a w. w\<lparr>mi_regords := a\<rparr>), is_tvt = (\<lambda>_ _. None),
      is_parse = (\<lambda>_. Inl TypeError), is_acdc = mem_acdc, is_serialize = (\<lambda>c _. cr_said c), is_feed = (\<lambda>_. retA ()),
      is_cloneCreds = (\<lambda>_ _. Inr [])\<rparr>"

lemma mem_issue_tel_ok: "tel_ok (mem_issue_tel wits scraw)"
  by (simp add: tel_ok_def mem_issue_tel_def mem_dup_ok mem_suber_ok frames_Pair mem_dup_frames mem_suber_frames
      single_stores_def tel_reads_def; intro conjI mem_dup_frames mem_suber_frames; simp add: mem_dup_def mem_suber_def)

lemma mem_issue_parts [simp]:
  "is_tel (mem_issue_env wits scraw) = mem_issue_tel wits scraw" "is_aid (mem_issue_env wits scraw) = mem_issue_aid wits scraw"
  "ai_mon (mem_issue_aid wits scraw) = mem_issue_mon (mem_issue_tel wits scraw)"
  "me_ops (mem_issue_mon tel) = mem_suber (\<lambda>s. mi_ops (rg_world s)) (\<lambda>a s. s\<lparr>rg_world := (rg_world s)\<lparr>mi_ops := a\<rparr>\<rparr>)"
  by (simp_all add: mem_issue_env_def mem_issue_aid_def mem_issue_mon_def plain_mon_def)

lemma mem_issue_asks: "asks_credentialer tel (mem_issue_mon tel)"
  by (simp add: asks_credentialer_def mem_issue_mon_def)

lemma mem_issue_frame: "frames (te_cmse (mem_issue_tel wits scraw)) (dget (te_tpwe (mem_issue_tel wits scraw)))"
  unfolding mem_issue_tel_def tel_env.select_convs by (rule mem_suber_frames) (simp add: mem_dup_def fun_eq_iff)

lemma mem_issue_ok: "issue_ok (mem_issue_env wits scraw)"
  unfolding issue_ok_def Let_def mem_issue_parts
  by (intro conjI allI mem_issue_tel_ok mem_suber_ok mem_issue_asks mem_issue_frame mem_suber_frames;
      simp add: mem_issue_tel_def keeps_retA way_in_def mem_dup_def mem_suber_def fun_eq_iff)

definition mem_issue_start :: "(string, string \<times> string) alist \<Rightarrow> mem_issue registrar decks" where
  "mem_issue_start names = no_decks \<lparr>rg_receipts = [], rg_cues = [], rg_publish = [],
     rg_world = \<lparr>mi_tpwe = DAList.empty, mi_tmse = DAList.empty, mi_tede = DAList.empty, mi_ctel = DAList.empty,
       mi_cmse = DAList.empty, mi_ccrd = DAList.empty, mi_ops = DAList.empty, mi_regords = names\<rparr>\<rparr>"

definition issue_body :: "(string \<times> json) list" where
  "issue_body = [(''acdc'', JObj [(''d'', JStr ''EC'')]), (''iss'', JObj [(''i'', JStr ''EC''), (''s'', JStr ''1''), (''ri'', JStr ''ER'')]),
     (''ixn'', JObj [(''i'', JStr ''EI'')]), (''sigs'', jstrs [''AA''])]"

lemma verifier_run_turns:
  "verifier_run env keri s (((\<lambda>t. snd (Escrower_recur (agent_escrows env keri) True t)) ^^ n) s)"
  by (induction n) (simp_all add: verifier_run.intros)

text \<open>A credential the verifier has saved, after a thousand turns.\<close>

theorem verification_pending_witness:
  "\<exists>s' o'. CredentialVerificationCollectionEnd_on_post (mem_issue_env [] ''{}'') (json_request (JObj issue_body)) fresh_response
      (mem_issue_start DAList.empty) = (Inr (fresh_response\<lparr>rs_status := 202, rs_data := Some (to_json (pending o'))\<rparr>), s') \<and>
    fst (status (mem_issue_mon (mem_issue_tel [] ''{}'')) o'
      (((\<lambda>t. snd (Escrower_recur (agent_escrows (mem_issue_tel [] ''{}'') (\<lambda>_. retA ())) True t)) ^^ 1000) (dk_world s'))) =
      Inr (pending o') \<and>
    te_saved (mem_issue_tel [] ''{}'') (rg_world (dk_world s')) ''EC'' \<noteq> None"
proof -
  let ?env = "mem_issue_env [] ''{}''"
  have fr: "frames (me_ops (ai_mon (is_aid ?env))) (\<lambda>t. cred_stores (is_tel ?env) (rg_world t))"
    unfolding mem_issue_parts by (rule mem_suber_frames) (simp add: cred_stores_def mem_issue_tel_def fun_eq_iff)
  have feed: "is_feed ?env m = retA ()" for m by (simp add: mem_issue_env_def)
  have req: "rq_media (json_request (JObj issue_body)) = Inr (JObj issue_body)"
    "dict_get issue_body ''acdc'' = Some (JObj [(''d'', JStr ''EC'')])"
    "dict_get issue_body ''iss'' = Some (JObj [(''i'', JStr ''EC''), (''s'', JStr ''1''), (''ri'', JStr ''ER'')])"
    by (simp_all add: json_request_def issue_body_def)
  have acdc: "is_acdc ?env (JObj [(''d'', JStr ''EC'')]) = Inr \<lparr>cr_said = ''EC'', cr_schema = JStr ''ES'', cr_raw = []\<rparr>"
    by (simp add: mem_issue_env_def)
  have iss: "ai_serder (is_aid ?env) (JObj [(''i'', JStr ''EC''), (''s'', JStr ''1''), (''ri'', JStr ''ER'')]) =
      Inr \<lparr>se_pre = ''EC'', se_sn = 1, se_said = ''EC'', se_ked = JObj [(''i'', JStr ''EC''), (''s'', JStr ''1''), (''ri'', JStr ''ER'')]\<rparr>"
    by (simp add: mem_issue_aid_def)
  have new: "\<not> issued (is_tel ?env) ''EC'' (rg_world (dk_world (mem_issue_start DAList.empty)))"
    by (simp add: issued_def credentials_def mem_issue_tel_def mem_issue_start_def no_decks_def)
  have keri: "keeps (\<lambda>w. cred_stores (is_tel ?env) w = c) (retA ())" for c by (rule keeps_retA)
  have ops: "suber_ok (me_ops (ai_mon (is_aid ?env)))" by (simp add: mem_suber_ok)
  obtain s' o' where run: "CredentialVerificationCollectionEnd_on_post ?env (json_request (JObj issue_body)) fresh_response
      (mem_issue_start DAList.empty) = (Inr (fresh_response\<lparr>rs_status := 202, rs_data := Some (to_json (pending o'))\<rparr>), s')"
    and pending: "\<And>t. verifier_run (is_tel ?env) (\<lambda>_. retA ()) (dk_world s') t \<Longrightarrow>
      status (ai_mon (is_aid ?env)) o' t = (Inr (pending o'), t)"
    using verification_pending [of ?env "\<lambda>_. retA ()", OF _ keri ops _ fr _ _ req acdc _ iss, where s = "mem_issue_start DAList.empty"
        and rep = fresh_response] new feed mem_issue_tel_ok mem_issue_asks
    by (auto simp: keeps_retA)
  have saved: "te_saved (mem_issue_tel [] ''{}'') w ''EC'' \<noteq> None" for w by (simp add: mem_issue_tel_def)
  show ?thesis using run pending [OF verifier_run_turns [of _ _ _ 1000]] saved by (intro exI [of _ s'] exI [of _ o']) simp
qed

abbreviation ec_creder :: creder where "ec_creder \<equiv> \<lparr>cr_said = ''EC'', cr_schema = JStr ''ES'', cr_raw = []\<rparr>"

abbreviation ec_iss :: serder where
  "ec_iss \<equiv> \<lparr>se_pre = ''EC'', se_sn = 1, se_said = ''EC'',
     se_ked = JObj [(''i'', JStr ''EC''), (''s'', JStr ''1''), (''ri'', JStr ''ER'')]\<rparr>"

abbreviation ei_ixn :: serder where
  "ei_ixn \<equiv> \<lparr>se_pre = ''EI'', se_sn = 1, se_said = ''EI'', se_ked = JObj [(''i'', JStr ''EI'')]\<rparr>"

lemma mem_issue_request:
  "issue_request (mem_issue_env wits scraw) (json_request (JObj issue_body)) ''EI'' (mem_issue_start names) issue_body (SignifyHab ''EI'')
     (JObj [(''d'', JStr ''EC'')], ec_creder, ec_iss, ei_ixn) (JStr ''ER'')"
  by (simp add: issue_request_def json_request_def find_hab_def mem_issue_aid_def issue_events_def events_of_def catchA_def
      getRequiredParam_def issue_body_def registry_of_def in_tevers_def) (simp add: mem_issue_env_def)

definition after_ixn :: "string list \<Rightarrow> string \<Rightarrow> mem_issue registrar decks" where
  "after_ixn wits scraw = snd (anchoring_event (mem_issue_env wits scraw) (SignifyHab ''EI'') ''EI'' (JObj issue_body) (mem_issue_start DAList.empty))"

lemma mem_issue_event:
  "fst (anchoring_event (mem_issue_env [''BW''] []) (SignifyHab ''EI'') ''EI'' (JObj issue_body) (mem_issue_start DAList.empty)) =
     Inr (Some (pending \<lparr>op_oid = ''EI'', op_type = ''witness'', op_start = ''t0'', op_metadata = sn_metadata (SignifyHab ''EI'') 1\<rparr>))"
  "fst (anchoring_event (mem_issue_env [] ''{}'') (SignifyHab ''EI'') ''EI'' (JObj issue_body) (mem_issue_start DAList.empty)) =
     Inr (Some (finished \<lparr>op_oid = ''EI'', op_type = ''done'', op_start = ''t0'', op_metadata = JObj [(''response'', JObj [(''i'', JStr ''EI'')])]\<rparr> (JObj [(''i'', JStr ''EI'')])))"
  by code_simp+

theorem issue_schema_late_witness:
  "\<exists>s'. CredentialCollectionEnd_on_post (mem_issue_env [''BW''] []) (json_request (JObj issue_body)) fresh_response ''EI''
      (mem_issue_start DAList.empty) = (Inr (text_400 fresh_response (schema_missing ''ES'')), s') \<and> dk_witners s' = [ei_ixn]"
proof -
  let ?env = "mem_issue_env [''BW''] []" and ?s = "mem_issue_start DAList.empty"
  obtain o' where event: "anchoring_event ?env (SignifyHab ''EI'') ''EI'' (JObj issue_body) ?s = (Inr o', after_ixn [''BW''] [])"
    using mem_issue_event(1) by (metis after_ixn_def prod.collapse)
  have est: "is_estOnly ?env (dk_world ?s) (SignifyHab ''EI'') = Inr False" by (simp add: mem_issue_env_def)
  have body: "dict_get issue_body ''group'' = None" "dict_get issue_body ''ixn'' = Some (JObj [(''i'', JStr ''EI'')])"
    by (simp_all add: issue_body_def)
  have wits: "ik_wits kv \<noteq> []" if "ai_hkever (is_aid ?env) w (SignifyHab ''EI'') = Some kv" for w kv
    using that by (auto simp: mem_issue_aid_def)
  have "ai_serder (is_aid ?env) (JObj [(''i'', JStr ''EI'')]) = Inr ei_ixn" by (simp add: mem_issue_aid_def)
  moreover have "te_resolve (is_tel ?env) w v = []" "te_show (is_tel ?env) v = ''ES''" for w v by (simp_all add: mem_issue_tel_def)
  moreover have "dk_witners ?s = []" by (simp add: mem_issue_start_def no_decks_def)
  ultimately show ?thesis
    using issue_schema_late [OF mem_issue_request event est body wits, where rep = fresh_response]
    by (intro exI [of _ "after_ixn [''BW''] []"]) auto
qed

lemma mem_issue_post:
  "case CredentialCollectionEnd_on_post (mem_issue_env [] ''{}'') (json_request (JObj issue_body)) fresh_response ''EI''
      (mem_issue_start DAList.empty) of (Inr rep', s') \<Rightarrow> rs_status rep' = 200 | _ \<Rightarrow> False"
  by code_simp

lemma after_ixn_cmse: "sget (te_cmse (mem_issue_tel [] ''{}'')) (rg_world (dk_world (after_ixn [] ''{}''))) k = None"
proof -
  have "DAList.impl_of (mi_cmse (rg_world (dk_world (after_ixn [] ''{}'')))) = []" by code_simp
  then show ?thesis by (simp add: mem_issue_tel_def DAList.lookup_def)
qed

theorem issue_completes_witness:
  "\<exists>rep' s' o' s2. CredentialCollectionEnd_on_post (mem_issue_env [] ''{}'') (json_request (JObj issue_body)) fresh_response ''EI''
      (mem_issue_start DAList.empty) = (Inr rep', s') \<and> rs_status rep' = 200 \<and>
    DAList.lookup (mi_ops (rg_world (dk_world s'))) ''credential.EC'' = Some o' \<and>
    Escrower_recur (agent_escrows (mem_issue_tel [] ''{}'') (\<lambda>_. retA ())) True (dk_world s') = (Inr False, s2) \<and>
    status (mem_issue_mon (mem_issue_tel [] ''{}'')) o' s2 = (Inr (finished o' (JObj [(''ced'', JObj [(''d'', JStr ''EC'')])])), s2)"
proof -
  let ?env = "mem_issue_env [] ''{}''" and ?s = "mem_issue_start DAList.empty" and ?tel = "mem_issue_tel [] ''{}''"
  obtain o' where event: "anchoring_event ?env (SignifyHab ''EI'') ''EI'' (JObj issue_body) ?s = (Inr o', after_ixn [] ''{}'')"
    using mem_issue_event(2) by (metis after_ixn_def prod.collapse)
  obtain rep' s' where run: "CredentialCollectionEnd_on_post ?env (json_request (JObj issue_body)) fresh_response ''EI'' ?s = (Inr rep', s')"
    and ok: "rs_status rep' = 200" using mem_issue_post by (auto split: prod.splits sum.splits)
  have tel: "te_regs ?tel w v = Inr mem_registry" "te_hasTel ?tel w p n" "te_saved ?tel w p = Some p" "te_seqner ?tel = jhex"
    "te_wits ?tel w p = Some []" "te_complete ?tel w q = Inr True" "te_habs ?tel w p = Some (SignifyHab p)" for w v p n q by (simp_all add: mem_issue_tel_def)
  have reg: "te_regs (is_tel ?env) (rg_world (dk_world (after_ixn [] ''{}''))) (JStr ''ER'') = Inr mem_registry" "\<not> is_group (ry_hab mem_registry)"
    by (simp_all add: tel mem_registry_def)
  have names: "dict_get [(''d'', JStr ''EC'')] ''d'' = Some (JStr (cr_said ec_creder))"
    "jitem (se_ked ec_iss) ''i'' = Inr (JStr (cr_said ec_creder))" "jitem (se_ked ec_iss) ''s'' = Inr (JStr ''1'')" by simp_all
  have "jhex (JStr ''1'') = Inr 1" by code_simp
  then have sn: "te_seqner (is_tel ?env) (JStr ''1'') = Inr (se_sn ec_iss)" by (simp add: tel)
  have new: "sget (te_cmse (is_tel ?env)) (rg_world (dk_world (after_ixn [] ''{}''))) (cr_said ec_creder, se_sn ec_iss) = None"
    using after_ixn_cmse by simp
  have keri: "keri_escrows (\<lambda>_. retA ()) (rg_world (dk_world s')) = (Inr (), rg_world (dk_world s'))" by (simp add: keri_escrows_def)
  have known: "registrar_known (is_tel ?env) ((dk_world s')\<lparr>rg_world := rg_world (dk_world s')\<rparr>)"
    by (simp add: registrar_known_def mem_issue_tel_ok tpwe_known_def tmse_known_def tel split_beta)
  have moves: "tpwe_verdict (is_tel ?env) t e = Moves" for t e by (simp add: tpwe_verdict_def tel split_beta)
  have accepted: "te_hasTel (is_tel ?env) (rg_world (dk_world s')) (cr_said ec_creder) (se_sn ec_iss)"
    "te_saved (is_tel ?env) (rg_world (dk_world s')) (cr_said ec_creder) \<noteq> None" by (simp_all add: tel)
  show ?thesis
    using issue_completes [OF mem_issue_ok mem_issue_request event run ok reg names sn new keri refl known accepted moves] run ok
    by auto
qed

text \<open>A registry with the name \<open>vlei\<close>, renamed with its identifier in the path.\<close>

theorem registry_rename_witness:
  "\<exists>rep' s'. RegistryResourceEnd_on_put (mem_issue_env [] ''{}'') (json_request (JObj [(''name'', JStr ''qvi'')])) fresh_response ''EI'' ''ER''
      (mem_issue_start (DAList.update ''vlei'' (''ER'', ''EI'') DAList.empty)) = (Inr rep', s') \<and>
    is_byName (mem_issue_env [] ''{}'') (rg_world (dk_world s')) (JStr ''vlei'') = Inr (Some mem_registry) \<and>
    is_byName (mem_issue_env [] ''{}'') (rg_world (dk_world s')) (JStr ''qvi'') = Inr (Some mem_registry)"
proof -
  let ?env = "mem_issue_env [] ''{}''" and ?s = "mem_issue_start (DAList.update ''vlei'' (''ER'', ''EI'') DAList.empty)"
  have "case RegistryResourceEnd_on_put ?env (json_request (JObj [(''name'', JStr ''qvi'')])) fresh_response ''EI'' ''ER'' ?s of
      (Inr _, _) \<Rightarrow> True | _ \<Rightarrow> False" by code_simp
  then obtain rep' s' where run: "RegistryResourceEnd_on_put ?env (json_request (JObj [(''name'', JStr ''qvi'')])) fresh_response ''EI'' ''ER'' ?s =
      (Inr rep', s')" by (auto split: prod.splits sum.splits)
  have ok: "registries_ok ?env"
    unfolding registries_ok_def mem_issue_env_def issue_env.select_convs
    by (intro conjI allI mem_suber_ok mem_suber_frames; auto simp: mem_registry_def keeps_retA split: if_splits)
  have req: "rq_media (json_request (JObj [(''name'', JStr ''qvi'')])) = Inr (JObj [(''name'', JStr ''qvi'')])"
    "dict_get [(''name'', JStr ''qvi'')] ''name'' = Some (JStr ''qvi'')" "''ER'' \<noteq> ''qvi''"
    by (simp_all add: json_request_def)
  have hab: "find_hab (is_aid ?env) ''EI'' (dk_world ?s) = Some (SignifyHab ''EI'')" by (simp add: find_hab_def mem_issue_aid_def)
  have reg: "map_of (is_regs ?env (rg_world (dk_world ?s))) ''ER'' = Some mem_registry"
    and ords: "sget (is_regords ?env) (rg_world (dk_world ?s)) = DAList.lookup (DAList.update ''vlei'' (''ER'', ''EI'') DAList.empty)"
    by (simp_all add: mem_issue_env_def mem_issue_start_def no_decks_def fun_eq_iff)
  have none: "sget (is_regords ?env) (rg_world (dk_world ?s)) ''ER'' = None"
    and one: "sget (is_regords ?env) (rg_world (dk_world ?s)) ''vlei'' = Some (''ER'', ''EI'')" by (simp_all add: ords)
  note result = registry_rename [OF ok run req hab reg disjI2 [OF conjI [OF none refl]]]
  from result none one have "is_byName ?env (rg_world (dk_world s')) (JStr ''vlei'') = Inr (Some mem_registry)" by blast
  moreover from result have "is_byName ?env (rg_world (dk_world s')) (JStr ''qvi'') = Inr (Some mem_registry)" by blast
  ultimately show ?thesis using run by blast
qed

end
