(* ===== verification/Wallet.thy ===== *)
theory Wallet
  imports Cursors Httping
begin

text \<open>
  The endpoints of \<open>app/credentialing.py\<close> that read and delete the credentials an agent holds: export
  with everything a credential builds on (\<open>outputCred\<close>), the query, deletion with its index entries,
  schemas and states. They run on the indexes of \<open>Seeking\<close>. The databases and what \<open>keri\<close> clones from
  them are arguments (\<open>wallet_env\<close>). A body set as \<open>text\<close> or as bytes is a \<open>JStr\<close> of \<open>rs_data\<close>.
\<close>

record wcred =
  wc_said :: string
  wc_issuer :: json
  wc_schema :: json
  wc_edge :: json
  wc_attrib :: json
  wc_regi :: "json option"
  wc_message :: string

record 'w wallet_env =
  wa_cursor :: "'w cursor_env"
  wa_saider :: "json \<Rightarrow> exn + string"
  wa_cloneCred :: "'w \<Rightarrow> string \<Rightarrow> exn + wcred"
  wa_cloneCreds :: "'w \<Rightarrow> string list \<Rightarrow> exn + json list"
  wa_kel :: "'w \<Rightarrow> json \<Rightarrow> (string \<times> string) list"
  wa_tel :: "'w \<Rightarrow> json \<Rightarrow> (string \<times> string) list"
  wa_subjs :: "('w, json, string) dupsuber"
  wa_schms :: "('w, json, string) dupsuber"
  wa_issus :: "('w, json, string) dupsuber"
  wa_cancs :: "('w, string, string) suber"
  wa_schemas :: "'w \<Rightarrow> (string \<times> json) list"
  wa_tevers :: "'w \<Rightarrow> string \<Rightarrow> bool"
  wa_vcState :: "'w \<Rightarrow> string \<Rightarrow> string \<Rightarrow> json option"

subsection \<open>Export\<close>

text \<open>The credentials a credential is chained to: the edges that are objects, by their node \<open>n\<close>.\<close>

fun source_saids :: "(string \<times> json) list \<Rightarrow> exn + string list" where
  "source_saids [] = Inr []"
| "source_saids ((k, source) # rest) =
     (if k = ''d'' \<or> \<not> is_dict source then source_saids rest
      else case jitem source ''n'' of
             Inl e \<Rightarrow> Inl e
           | Inr n \<Rightarrow> (case jstr n of Inl e \<Rightarrow> Inl e
                       | Inr s \<Rightarrow> (case source_saids rest of Inl e \<Rightarrow> Inl e | Inr ss \<Rightarrow> Inr (s # ss))))"

definition chained_saids :: "wcred \<Rightarrow> exn + string list" where
  "chained_saids c =
     (if jtrue (wc_edge c)
      then case jitems (wc_edge c) of Inl e \<Rightarrow> Inl e | Inr es \<Rightarrow> source_saids es
      else Inr [])"

definition messages :: "(string \<times> string) list \<Rightarrow> string" where
  "messages ms = concat (map (\<lambda>(raw, atc). raw @ atc) ms)"

text \<open>What is sent of the credential itself: the events of its issuer and subject, its registry's and its own.\<close>

definition own_artifacts :: "'w wallet_env \<Rightarrow> 'w \<Rightarrow> wcred \<Rightarrow> exn + string" where
  "own_artifacts env w c =
     (case jin ''i'' (wc_attrib c) of
        Inl e \<Rightarrow> Inl e
      | Inr has_subject \<Rightarrow>
          (case (if has_subject then (case jitem (wc_attrib c) ''i'' of Inl e \<Rightarrow> Inl e
                                      | Inr subj \<Rightarrow> Inr (messages (wa_kel env w subj))) else Inr []) of
             Inl e \<Rightarrow> Inl e
           | Inr subject \<Rightarrow>
               Inr (messages (wa_kel env w (wc_issuer c)) @ subject @
                 (case wc_regi c of None \<Rightarrow> []
                  | Some regi \<Rightarrow> messages (wa_tel env w regi) @ messages (wa_tel env w (JStr (wc_said c)))) @
                 wc_message c)))"

text \<open>The first argument is the depth of calls Python still allows.\<close>

fun outputCred :: "nat \<Rightarrow> 'w wallet_env \<Rightarrow> 'w \<Rightarrow> string \<Rightarrow> exn + string" where
  "outputCred 0 env w said = Inl RecursionError"
| "outputCred (Suc n) env w said =
     (case wa_cloneCred env w said of
        Inl e \<Rightarrow> Inl e
      | Inr c \<Rightarrow>
          (case chained_saids c of
             Inl e \<Rightarrow> Inl e
           | Inr saids \<Rightarrow>
               (case mapE (outputCred n env w) saids of
                  Inl e \<Rightarrow> Inl e
                | Inr parts \<Rightarrow>
                    (case own_artifacts env w c of Inl e \<Rightarrow> Inl e | Inr own \<Rightarrow> Inr (concat parts @ own)))))"

definition header_of :: "request \<Rightarrow> string \<Rightarrow> string option" where
  "header_of req k = dict_get (rq_headers req) k"

definition CredentialResourceEnd_on_get ::
  "nat \<Rightarrow> 'w wallet_env \<Rightarrow> request \<Rightarrow> response \<Rightarrow> string \<Rightarrow> ('w, response) act" where
  "CredentialResourceEnd_on_get depth env req rep said =
     bindA
       (catchA
         (if header_of req ''accept'' = Some ''application/json+cesr'' then
            bindA (bindA (getA (\<lambda>w. outputCred depth env w said)) liftA) (\<lambda>out.
            retA (set_header ''content-type'' ''application/json+cesr'' rep, JStr out))
          else
            bindA (liftA (wa_saider env (JStr said))) (\<lambda>saider.
            bindA (bindA (getA (\<lambda>w. wa_cloneCreds env w [saider])) liftA) (\<lambda>creds.
            bindA (liftA (jindex (JArr creds) 0)) (\<lambda>data.
            retA (set_header ''content-type'' ''application/json'' rep, data)))))
         (\<lambda>e. if e = MissingEntryError
              then Some (raiseA (HTTPError 404 (''credential for said '' @ said @ '' not found.''))) else None))
       (\<lambda>(rep, data). retA (rep\<lparr>rs_status := 200, rs_data := Some data\<rparr>))"

subsection \<open>Query\<close>

text \<open>\<open>body[k] if k in body else d\<close>.\<close>

definition given :: "json \<Rightarrow> string \<Rightarrow> json \<Rightarrow> exn + json" where
  "given body k d = (case jin k body of Inl e \<Rightarrow> Inl e | Inr b \<Rightarrow> if b then jitem body k else Inr d)"

text \<open>The defaults without a body; an order that is no list of texts is refused with \<open>TypeError\<close>.\<close>

definition query_fields :: "request \<Rightarrow> exn + json \<times> json \<times> json \<times> json" where
  "query_fields req =
     (case rq_media req of
        Inl (HTTPError c d) \<Rightarrow> Inr (JObj [], JObj [], JInt 0, JInt 25)
      | Inl e \<Rightarrow> Inl e
      | Inr body \<Rightarrow>
          (case (given body ''filter'' (JObj []), given body ''sort'' JNull, given body ''skip'' (JInt 0), given body ''limit'' (JInt 25)) of
             (Inr f, Inr s, Inr k, Inr l) \<Rightarrow> Inr (f, s, k, l)
           | (Inl e, _) \<Rightarrow> Inl e
           | (_, Inl e, _) \<Rightarrow> Inl e
           | (_, _, Inl e, _) \<Rightarrow> Inl e
           | (_, _, _, Inl e) \<Rightarrow> Inl e))"

fun sort_list :: "json \<Rightarrow> exn + string list option" where
  "sort_list JNull = Inr None"
| "sort_list v = (case jiter v of Inl e \<Rightarrow> Inl e
                  | Inr vs \<Rightarrow> (case mapE jstr vs of Inl e \<Rightarrow> Inl e | Inr xs \<Rightarrow> Inr (Some xs)))"

definition jint_option :: "json \<Rightarrow> exn + int option" where
  "jint_option v = (if v = JNull then Inr None else case jint v of Inl e \<Rightarrow> Inl e | Inr n \<Rightarrow> Inr (Some n))"

definition query_end :: "json \<Rightarrow> nat \<Rightarrow> exn + int" where
  "query_end skip n = (if n > 0 then (case jint skip of Inl e \<Rightarrow> Inl e | Inr k \<Rightarrow> Inr (k + (int n - 1))) else Inr 0)"

fun show_number :: "json \<Rightarrow> string" where
  "show_number (JInt i) = show_int i"
| "show_number (JBool b) = (if b then ''True'' else ''False'')"
| "show_number _ = ''None''"

definition CredentialQueryCollectionEnd_on_post ::
  "'w wallet_env \<Rightarrow> request \<Rightarrow> response \<Rightarrow> ('w seeker, response) act" where
  "CredentialQueryCollectionEnd_on_post env req rep =
     bindA (liftA (query_fields req)) (\<lambda>(filtr, srt, skip, limit).
     bindA (liftA (jitems filtr)) (\<lambda>fs.
     bindA (liftA (sort_list srt)) (\<lambda>ordr.
     bindA (liftA (jint_option skip)) (\<lambda>k.
     bindA (liftA (jint_option limit)) (\<lambda>l.
     bindA (Seeker_find (wa_cursor env) fs ordr k l) (\<lambda>saids.
     bindA (liftA (mapE (\<lambda>s. wa_saider env (JStr s)) saids)) (\<lambda>saids.
     bindA (bindA (getA (\<lambda>s. wa_cloneCreds env (sk_world s) saids)) liftA) (\<lambda>creds.
     bindA (liftA (query_end skip (length creds))) (\<lambda>stop.
     let rep = set_header ''Accept-Ranges'' ''credentials'' rep in
     let rep = set_header ''Content-Range''
       (''credentials '' @ show_number skip @ ''-'' @ show_int stop @ ''/'' @ show_number limit) rep in
     retA (rep\<lparr>rs_status := 200, rs_data := Some (JArr creds)\<rparr>))))))))))"

subsection \<open>Deletion\<close>

definition CredentialResourceEnd_on_delete :: "'w wallet_env \<Rightarrow> response \<Rightarrow> string \<Rightarrow> ('w seeker, response) act" where
  "CredentialResourceEnd_on_delete env rep said =
     (let seek = ce_seek (wa_cursor env) in
      bindA (catchA (bindA (getA (\<lambda>s. wa_cloneCred env (sk_world s) said)) liftA)
               (\<lambda>e. if e = MissingEntryError
                    then Some (raiseA (HTTPError 404 (''credential for said '' @ said @ '' not found.''))) else None)) (\<lambda>creder.
      seqA (Seeker_unindex seek said)
      (bindA (liftA (wa_saider env (JStr said))) (\<lambda>saider.
       bindA (case wc_attrib creder of JStr _ \<Rightarrow> retA False | a \<Rightarrow> liftA (jin ''i'' a)) (\<lambda>has_subject.
       seqA (whenA has_subject
              (bindA (liftA (jitem (wc_attrib creder) ''i'')) (\<lambda>subj.
               whenA (jtrue subj) (bindA (sext (remD (wa_subjs env) subj (Some saider))) (\<lambda>_. retA ())))))
       (bindA (sext (remD (wa_schms env) (wc_schema creder) (Some saider))) (\<lambda>_.
        bindA (sext (remD (wa_issus env) (wc_issuer creder) (Some saider))) (\<lambda>_.
        bindA (sext (remS (se_saved seek) said)) (\<lambda>_.
        bindA (sext (remS (se_creds seek) said)) (\<lambda>_.
        bindA (sext (remS (wa_cancs env) said)) (\<lambda>_.
        retA (rep\<lparr>rs_status := 204\<rparr>))))))))))))"

subsection \<open>Schemas and states\<close>

definition SchemaResourceEnd_on_get :: "'w wallet_env \<Rightarrow> response \<Rightarrow> string \<Rightarrow> ('w, response) act" where
  "SchemaResourceEnd_on_get env rep said =
     bindA (getA (\<lambda>w. map_of (wa_schemas env w) said)) (\<lambda>schemer.
     case schemer of
       None \<Rightarrow> raiseA (HTTPError 404 ''Schema not found'')
     | Some data \<Rightarrow> retA (rep\<lparr>rs_status := 200, rs_data := Some data\<rparr>))"

definition SchemaCollectionEnd_on_get :: "'w wallet_env \<Rightarrow> response \<Rightarrow> ('w, response) act" where
  "SchemaCollectionEnd_on_get env rep =
     bindA (getA (wa_schemas env)) (\<lambda>items.
     retA (rep\<lparr>rs_status := 200, rs_data := Some (JArr (map snd items))\<rparr>))"

definition CredentialRegistryResourceEnd_on_get ::
  "'w wallet_env \<Rightarrow> response \<Rightarrow> string \<Rightarrow> string \<Rightarrow> ('w, response) act" where
  "CredentialRegistryResourceEnd_on_get env rep ri vci =
     bindA (getA (\<lambda>w. wa_tevers env w ri)) (\<lambda>known.
     seqA (guardA known (HTTPError 404 (''registry '' @ ri @ '' not found'')))
     (bindA (getA (\<lambda>w. wa_vcState env w ri vci)) (\<lambda>state.
      case state of
        None \<Rightarrow> raiseA (HTTPError 404 (''credential '' @ vci @ '' not found in registry '' @ ri))
      | Some state \<Rightarrow> retA (rep\<lparr>rs_status := 200, rs_data := Some state\<rparr>))))"

subsection \<open>The export ends\<close>

text \<open>
  A credential whose chains are at most \<open>d\<close> deep: it and everything it builds on are in the wallet.
  The digest of a credential covers those of its edges, so chains have no cycles.
\<close>

inductive chain_within :: "'w wallet_env \<Rightarrow> 'w \<Rightarrow> string \<Rightarrow> nat \<Rightarrow> bool" for env w where
  "wa_cloneCred env w said = Inr c \<Longrightarrow> chained_saids c = Inr ss \<Longrightarrow> own_artifacts env w c = Inr own \<Longrightarrow>
   (\<And>s. s \<in> set ss \<Longrightarrow> chain_within env w s d) \<Longrightarrow> chain_within env w said (Suc d)"

inductive_cases chain_withinE: "chain_within env w said d"

lemma outputCred_within:
  assumes "chain_within env w said d"
  shows "\<exists>out. \<forall>n \<ge> d. outputCred n env w said = Inr out"
  using assms
proof induction
  case (1 said c ss own d)
  have "\<forall>s \<in> set ss. \<exists>out. \<forall>n \<ge> d. outputCred n env w s = Inr out" by (intro ballI) (rule 1)
  from bchoice [OF this] obtain g where g: "\<And>s n. s \<in> set ss \<Longrightarrow> d \<le> n \<Longrightarrow> outputCred n env w s = Inr (g s)"
    by blast
  have "outputCred n env w said = Inr (concat (map g ss) @ own)" if n: "Suc d \<le> n" for n
  proof -
    from n obtain m where m: "n = Suc m" "d \<le> m" by (cases n) auto
    have "mapE (outputCred m env w) ss = Inr (map g ss)" by (rule mapE_all) (use g m in auto)
    then show ?thesis using 1(1-3) m by simp
  qed
  then show ?case by blast
qed

text \<open>
  C23. The export of a credential comes to an end: with a limit on the depth of calls not below the
  depth of its chains it does not depend on the limit, and it is the exports of the credentials
  it is chained to, in the order of its edges, followed by the events of its issuer and subject,
  its registry's and its own, and the credential. So whatever a credential builds on comes first.
\<close>

theorem export_terminates:
  assumes within: "chain_within env w said d" and "d \<le> n"
  shows "\<exists>c ss outs own. wa_cloneCred env w said = Inr c \<and> chained_saids c = Inr ss \<and> own_artifacts env w c = Inr own \<and>
    outputCred n env w said = Inr (concat outs @ own) \<and> outputCred n env w said = outputCred d env w said \<and>
    list_all2 (\<lambda>s out. \<forall>m \<ge> d - 1. outputCred m env w s = Inr out) ss outs"
  using within
proof (rule chain_withinE)
  fix c ss own d'
  assume d: "d = Suc d'" and c: "wa_cloneCred env w said = Inr c" "chained_saids c = Inr ss"
    "own_artifacts env w c = Inr own" and below: "\<And>s. s \<in> set ss \<Longrightarrow> chain_within env w s d'"
  have "\<forall>s \<in> set ss. \<exists>out. \<forall>n \<ge> d'. outputCred n env w s = Inr out"
    by (intro ballI outputCred_within below)
  from bchoice [OF this] obtain g where g: "\<And>s n. s \<in> set ss \<Longrightarrow> d' \<le> n \<Longrightarrow> outputCred n env w s = Inr (g s)"
    by blast
  from assms(2) d obtain m where m: "n = Suc m" "d' \<le> m" by (cases n) auto
  have "mapE (outputCred m env w) ss = Inr (map g ss)" by (rule mapE_all) (use g m in auto)
  then have n: "outputCred n env w said = Inr (concat (map g ss) @ own)" using c m by simp
  obtain out where out: "\<forall>n \<ge> d. outputCred n env w said = Inr out" using outputCred_within [OF within] ..
  have same: "outputCred n env w said = outputCred d env w said" using out assms(2) by simp
  have "list_all2 (\<lambda>s out. \<forall>m \<ge> d - 1. outputCred m env w s = Inr out) ss (map g ss)"
    using g d by (simp add: list_all2_conv_all_nth)
  with c n same show ?thesis by (intro exI [of _ c] exI [of _ ss] exI [of _ "map g ss"] exI [of _ own] conjI)
qed

text \<open>
  Nothing remembers what has been exported: where every credential is chained to two of the level
  below, the export of one of level \<open>k\<close> repeats the artifacts of the lowest level \<open>2 ^ k\<close> times, although
  the wallet holds two credentials for each level.
\<close>

lemma export_doubles:
  assumes levels: "\<And>k x. x \<in> L (Suc k) \<Longrightarrow> \<exists>c y z own. wa_cloneCred env w x = Inr c \<and> chained_saids c = Inr [y, z] \<and>
      y \<in> L k \<and> z \<in> L k \<and> own_artifacts env w c = Inr own"
    and base: "\<And>x. x \<in> L 0 \<Longrightarrow> \<exists>c own. wa_cloneCred env w x = Inr c \<and> chained_saids c = Inr [] \<and>
      own_artifacts env w c = Inr own \<and> b \<le> length own"
    and "x \<in> L k"
  shows "\<exists>out. outputCred (Suc k) env w x = Inr out \<and> 2 ^ k * b \<le> length out"
  using assms(3)
proof (induction k arbitrary: x)
  case 0
  then show ?case using base by fastforce
next
  case (Suc k)
  from levels [OF Suc.prems] obtain c y z own where c: "wa_cloneCred env w x = Inr c" "chained_saids c = Inr [y, z]"
      "own_artifacts env w c = Inr own" and yz: "y \<in> L k" "z \<in> L k" by blast
  from Suc.IH [OF yz(1)] Suc.IH [OF yz(2)] obtain o1 o2 where
    "outputCred (Suc k) env w y = Inr o1" "2 ^ k * b \<le> length o1"
    "outputCred (Suc k) env w z = Inr o2" "2 ^ k * b \<le> length o2" by blast
  with c show ?case by (simp add: outputCred.simps(2) [of "Suc k"] del: outputCred.simps)
qed

subsection \<open>Deletion is complete\<close>

abbreviation wa_seek :: "'w wallet_env \<Rightarrow> 'w seek_env" where
  "wa_seek env \<equiv> ce_seek (wa_cursor env)"

definition index_entries :: "'w seek_env \<Rightarrow> 'w \<Rightarrow> string \<Rightarrow> string \<Rightarrow> string list" where
  "index_entries seek w k = dget (se_idx seek k) w"

text \<open>The databases behave as documented and leave each other alone; \<open>cloneCred\<close> knows what is not stored.\<close>

definition wallet_ok :: "'w wallet_env \<Rightarrow> bool" where
  "wallet_ok env \<longleftrightarrow>
     (let seek = wa_seek env; saved = sget (se_saved seek); creds = sget (se_creds seek);
          subjs = dget (wa_subjs env); schms = dget (wa_schms env); issus = dget (wa_issus env); idx = index_entries seek in
      seek_ok seek \<and> suber_ok (se_saved seek) \<and> suber_ok (se_creds seek) \<and>
      dup_ok (wa_subjs env) \<and> dup_ok (wa_schms env) \<and> dup_ok (wa_issus env) \<and>
      (\<forall>k. dframes (se_idx seek k) (\<lambda>w. (subjs w, schms w, issus w))) \<and>
      dframes (wa_subjs env) (\<lambda>w. (idx w, saved w, creds w, schms w, issus w)) \<and>
      dframes (wa_schms env) (\<lambda>w. (idx w, saved w, creds w, subjs w, issus w)) \<and>
      dframes (wa_issus env) (\<lambda>w. (idx w, saved w, creds w, subjs w, schms w)) \<and>
      frames (se_saved seek) (\<lambda>w. (idx w, creds w, subjs w, schms w, issus w)) \<and>
      frames (se_creds seek) (\<lambda>w. (idx w, saved w, subjs w, schms w, issus w)) \<and>
      frames (wa_cancs env) (\<lambda>w. (idx w, saved w, creds w, subjs w, schms w, issus w)) \<and>
      (\<forall>w said. creds w said = None \<longrightarrow> wa_cloneCred env w said = Inl MissingEntryError))"

lemma keeps_unindex_stored:
  assumes "seek_ok seek"
  shows "keeps (\<lambda>s. P (sget (se_saved seek) (sk_world s)) (sget (se_creds seek) (sk_world s)) (dget (se_schIdx seek) (sk_world s)))
    (Seeker_unindex seek said)"
proof -
  let ?P = "\<lambda>s. P (sget (se_saved seek) (sk_world s)) (sget (se_creds seek) (sk_world s)) (dget (se_schIdx seek) (sk_world s))"
  have "keeps ?P (sext (remD (se_idx seek k) v x))" for k v x
    using assms by (simp add: keeps_def sext_run seek_ok_def dframes_store)
  then show ?thesis unfolding Seeker_unindex_def load_creder_def at_index_def index_value_def by (intro wp)
qed

text \<open>What \<open>on_delete\<close> does after the credential is out of the indexes.\<close>

definition forgotten :: "'w wallet_env \<Rightarrow> wcred \<Rightarrow> string \<Rightarrow> 'w \<Rightarrow> 'w" where
  "forgotten env c said w =
     (let w1 = (case wc_attrib c of JObj a \<Rightarrow>
                  (case dict_get a ''i'' of None \<Rightarrow> w | Some subj \<Rightarrow>
                     if jtrue subj then snd (drem (wa_subjs env) w subj (Some said)) else w) | _ \<Rightarrow> w);
          w2 = snd (drem (wa_issus env) (snd (drem (wa_schms env) w1 (wc_schema c) (Some said))) (wc_issuer c) (Some said)) in
      snd (srem (wa_cancs env) (snd (srem (se_creds (wa_seek env)) (snd (srem (se_saved (wa_seek env)) w2 said)) said)) said))"

definition attrib_ok :: "wcred \<Rightarrow> bool" where
  "attrib_ok c \<longleftrightarrow> (case wc_attrib c of JObj _ \<Rightarrow> True | JStr _ \<Rightarrow> True | _ \<Rightarrow> False)"

lemma on_delete_run:
  assumes "wa_cloneCred env (sk_world s) said = Inr c" and "wa_saider env (JStr said) = Inr said"
    and "attrib_ok c"
    and "Seeker_unindex (wa_seek env) said s = (Inr (), s1)"
  shows "CredentialResourceEnd_on_delete env rep said s = (Inr (rep\<lparr>rs_status := 204\<rparr>), s1\<lparr>sk_world := forgotten env c said (sk_world s1)\<rparr>)"
proof -
  have sext: "bindA (sext m) f s = (case m (sk_world s) of (Inl e, w) \<Rightarrow> (Inl e, s\<lparr>sk_world := w\<rparr>) | (Inr x, w) \<Rightarrow> f x (s\<lparr>sk_world := w\<rparr>))" for m f s
    by (simp add: bindA_def sext_run split: prod.split sum.split)
  show ?thesis
    using assms by (auto simp: CredentialResourceEnd_on_delete_def Let_def catchA_def bindA_Inr sext forgotten_def
        attrib_ok_def split: option.split json.splits)
qed

lemma forgotten_world:
  assumes "wallet_ok env"
  shows "index_entries (wa_seek env) (forgotten env c said w) = index_entries (wa_seek env) w"
    "sget (se_saved (wa_seek env)) (forgotten env c said w) = (sget (se_saved (wa_seek env)) w)(said := None)"
    "sget (se_creds (wa_seek env)) (forgotten env c said w) = (sget (se_creds (wa_seek env)) w)(said := None)"
    "set (dget (wa_schms env) (forgotten env c said w) (wc_schema c)) = set (dget (wa_schms env) w (wc_schema c)) - {said}"
    "set (dget (wa_issus env) (forgotten env c said w) (wc_issuer c)) = set (dget (wa_issus env) w (wc_issuer c)) - {said}"
  using assms unfolding wallet_ok_def Let_def frames_Pair
  by (auto simp: forgotten_def Let_def srem_ok drem_ok frames_store dframes_store split: option.split json.split)

text \<open>
  C24. Deleting a credential takes it out of the wallet and of every index of its schema, and nothing
  else out of them; asking again gives 404. But a credential with a value that is no text at an indexed
  path, which can never be indexed either, can not be deleted: the request fails and the credential
  stays, however often it is tried.
\<close>

theorem credential_delete:
  fixes rep :: response
  assumes ok: "wallet_ok env" and ic: "indexed_credential (wa_seek env) (sk_world s) said c" and "cd_said c = said"
    and clone: "wa_cloneCred env (sk_world s) said = Inr wc" and "wa_saider env (JStr said) = Inr said" and "attrib_ok wc"
  shows "(case entries (wa_seek env) s c of
      Inl e \<Rightarrow> fst (CredentialResourceEnd_on_delete env rep said s) = Inl e \<and>
        indexed_credential (wa_seek env) (sk_world (snd (CredentialResourceEnd_on_delete env rep said s))) said c
    | Inr es \<Rightarrow> (\<exists>s'. CredentialResourceEnd_on_delete env rep said s = (Inr (rep\<lparr>rs_status := 204\<rparr>), s') \<and>
        sget (se_saved (wa_seek env)) (sk_world s') = (sget (se_saved (wa_seek env)) (sk_world s))(said := None) \<and>
        sget (se_creds (wa_seek env)) (sk_world s') = (sget (se_creds (wa_seek env)) (sk_world s))(said := None) \<and>
        (\<forall>k v x. x \<in> set (index_entries (wa_seek env) (sk_world s') k v) \<longleftrightarrow>
           x \<in> set (index_entries (wa_seek env) (sk_world s) k v) \<and> \<not> (x = said \<and> (k, v) \<in> set es)) \<and>
        said \<notin> set (dget (wa_schms env) (sk_world s') (wc_schema wc)) \<and>
        said \<notin> set (dget (wa_issus env) (sk_world s') (wc_issuer wc)) \<and>
        fst (CredentialResourceEnd_on_delete env rep said s') =
          Inl (HTTPError 404 (''credential for said '' @ said @ '' not found.''))))"
proof (cases "entries (wa_seek env) s c")
  case (Inl e)
  from ok have seek: "seek_ok (wa_seek env)" by (simp add: wallet_ok_def Let_def)
  have fails: "fst (Seeker_unindex (wa_seek env) said s) = Inl e" using Seeker_unindex_run [OF seek ic] Inl by simp
  then obtain s1 where s1: "Seeker_unindex (wa_seek env) said s = (Inl e, s1)" by (cases "Seeker_unindex (wa_seek env) said s") auto
  have "keeps (\<lambda>s. indexed_credential (wa_seek env) (sk_world s) said c) (Seeker_unindex (wa_seek env) said)"
    using keeps_unindex_stored [OF seek, where P = "\<lambda>a b d. a said = Some (cd_said c) \<and> b (cd_said c) = Some c \<and> d (cd_schema c) \<noteq> []"]
    by (simp add: indexed_credential_def)
  from keepsD [OF this ic s1] have "indexed_credential (wa_seek env) (sk_world s1) said c" .
  moreover have "CredentialResourceEnd_on_delete env rep said s = (Inl e, s1)"
    using clone s1 by (simp add: CredentialResourceEnd_on_delete_def Let_def catchA_def bindA_Inr bindA_Inl)
  ultimately show ?thesis using Inl by simp
next
  case (Inr es)
  from ok have seek: "seek_ok (wa_seek env)" by (simp add: wallet_ok_def Let_def)
  define w1 where "w1 = write_all (wa_seek env) (\<lambda>db v w. drem db w v (Some said)) es (sk_world s)"
  have run: "Seeker_unindex (wa_seek env) said s = (Inr (), s\<lparr>sk_world := w1\<rparr>)"
    using Seeker_unindex_run [OF seek ic] Inr assms(3) by (simp add: w1_def)
  let ?s' = "s\<lparr>sk_world := forgotten env wc said w1\<rparr>"
  have stored: "sget (se_saved (wa_seek env)) w1 = sget (se_saved (wa_seek env)) (sk_world s)"
    "sget (se_creds (wa_seek env)) w1 = sget (se_creds (wa_seek env)) (sk_world s)"
    using seek by (auto simp: w1_def seek_ok_def intro!: write_all_frame dframes_store)
  have "CredentialResourceEnd_on_delete env rep said s = (Inr (rep\<lparr>rs_status := 204\<rparr>), ?s')"
    using on_delete_run [OF clone assms(5,6) run] by simp
  moreover have "x \<in> set (index_entries (wa_seek env) (sk_world ?s') k v) \<longleftrightarrow>
      x \<in> set (index_entries (wa_seek env) (sk_world s) k v) \<and> \<not> (x = said \<and> (k, v) \<in> set es)" for k v x
    using rem_all_get [OF seek, of k said es "sk_world s" v]
    by (simp add: forgotten_world [OF ok]) (auto simp: w1_def index_entries_def)
  moreover have "fst (CredentialResourceEnd_on_delete env rep said ?s') =
      Inl (HTTPError 404 (''credential for said '' @ said @ '' not found.''))"
  proof -
    have "sget (se_creds (wa_seek env)) (sk_world ?s') said = None" by (simp add: forgotten_world [OF ok])
    then have "wa_cloneCred env (sk_world ?s') said = Inl MissingEntryError"
      using ok unfolding wallet_ok_def Let_def by blast
    then show ?thesis by (simp add: CredentialResourceEnd_on_delete_def Let_def catchA_def bindA_def)
  qed
  ultimately show ?thesis using forgotten_world [OF ok, of wc said w1] stored Inr by auto
qed

text \<open>
  C25. A query answers with the credentials of one page: those from \<open>skip\<close> on, at most \<open>limit\<close>, of what
  the filter found, in the order asked for. The header names the range, but where the total belongs
  it has the limit again, and a page without credentials from \<open>skip\<close> on is the range from \<open>skip\<close> to 0.
\<close>

theorem credential_query:
  assumes "query_fields req = Inr (JObj fs, srt, JInt k, JInt l)" and "sort_list srt = Inr ordr"
    and "0 \<le> k" and "0 < l" and "make_cursor (wa_seek env) fs ordr (Some k) (Some l) = Inr c"
    and "query_saids (wa_cursor env) c s = (Inr saids, s1)" and "mapE (se_bext (wa_seek env)) (cu_sort c) = Inr paths"
    and "\<And>x. wa_saider env (JStr x) = Inr x" and "\<And>xs. wa_cloneCreds env (sk_world s1) xs = Inr (map cloned_of xs)"
  defines "xs \<equiv> (if cu_sort c = [] then saids
     else case dict_get (sk_indexes s1) (subkey_of paths) of
            None \<Rightarrow> saids
          | Some i \<Rightarrow> filter (\<lambda>x. x \<in> set saids) (map snd (ditems (se_idx (wa_seek env) i) (sk_world s1))))"
  defines "page \<equiv> take (nat l) (drop (nat k) xs)"
  shows "\<exists>rep'. CredentialQueryCollectionEnd_on_post env req rep s = (Inr rep', s1) \<and>
    rs_status rep' = 200 \<and> rs_data rep' = Some (JArr (map cloned_of page)) \<and>
    dict_get (rs_headers rep') ''content-range'' = Some (''credentials '' @ show_int k @ ''-'' @
      show_int (if page = [] then 0 else k + int (length page) - 1) @ ''/'' @ show_int l)"
proof -
  have c: "cu_skip c = k" "cu_limit c = l" using assms(5) by (auto simp: make_cursor_def split: sum.splits)
  have "Cursor_list (wa_cursor env) c s = (Inr page, s1)"
    using Cursor_list_page [of c "wa_cursor env" s saids s1 paths] assms(3,4,6,7) c by (simp add: page_def xs_def)
  then have find: "Seeker_find (wa_cursor env) fs ordr (Some k) (Some l) s = (Inr page, s1)"
    using assms(5) by (simp add: Seeker_find_def bindA_Inr)
  have saiders: "mapE (\<lambda>x. wa_saider env (JStr x)) page = Inr page"
    using mapE_all [of page "\<lambda>x. wa_saider env (JStr x)" "\<lambda>x. x"] assms(8) by simp
  have lower: "lower ''Content-Range'' = ''content-range''" by (simp add: lower_def lower_char_def char_of_eq_iff)
  show ?thesis
    using assms(1,2) find saiders assms(9)
    by (auto simp: CredentialQueryCollectionEnd_on_post_def jint_option_def bindA_Inr query_end_def Let_def lower add_diff_eq)
qed

subsection \<open>A wallet in memory\<close>

record mem_wallet = mem_seek +
  mw_subjs :: "(json, string list) alist"
  mw_schms :: "(json, string list) alist"
  mw_issus :: "(json, string list) alist"
  mw_cancs :: "(string, string) alist"

definition mem_wallet_seek :: "mem_wallet seek_env" where
  "mem_wallet_seek =
     \<lparr>se_saved = mem_suber ms_saved (\<lambda>a w. w\<lparr>ms_saved := a\<rparr>),
      se_creds = mem_suber ms_creds (\<lambda>a w. w\<lparr>ms_creds := a\<rparr>),
      se_schema = (\<lambda>_ _. None),
      se_schIdx = mem_dup ms_sch (\<lambda>a w. w\<lparr>ms_sch := a\<rparr>) (\<lambda>k. k),
      se_dynIdx = mem_suber ms_dyn (\<lambda>a w. w\<lparr>ms_dyn := a\<rparr>),
      se_idx = (\<lambda>k. mem_dup (\<lambda>w. ms_ix w k) (\<lambda>a w. w\<lparr>ms_ix := (ms_ix w)(k := a)\<rparr>) (\<lambda>v. v)),
      se_path = (\<lambda>ps. concat (map (\<lambda>p. CHR ''-'' # p) ps)),
      se_bext = (\<lambda>f. Inr f),
      se_resolve = (\<lambda>p sad. walk (tl (split_on (CHR ''-'') (hd (split_on (CHR ''.'') p)))) sad)\<rparr>"

lemma mem_wallet_seek_ok: "seek_ok mem_wallet_seek"
  unfolding seek_ok_def mem_wallet_seek_def seek_env.select_convs
  by (intro conjI allI impI mem_dup_ok mem_suber_ok mem_dup_frames mem_suber_frames;
      simp add: fun_eq_iff; intro conjI allI mem_dup_frames; simp add: mem_dup_def)

fun field_of :: "json \<Rightarrow> string \<Rightarrow> json" where
  "field_of (JObj d) k = (case dict_get d k of None \<Rightarrow> JNull | Some v \<Rightarrow> v)"
| "field_of _ k = JNull"

definition mem_clone :: "mem_wallet \<Rightarrow> string \<Rightarrow> exn + wcred" where
  "mem_clone w said =
     (case DAList.lookup (ms_creds w) said of
        None \<Rightarrow> Inl MissingEntryError
      | Some c \<Rightarrow> Inr \<lparr>wc_said = said, wc_issuer = field_of (cd_sad c) ''i'', wc_schema = field_of (cd_sad c) ''s'',
          wc_edge = field_of (cd_sad c) ''e'', wc_attrib = field_of (cd_sad c) ''a'', wc_regi = None, wc_message = said\<rparr>)"

definition mem_wallet_env :: "mem_wallet wallet_env" where
  "mem_wallet_env =
     \<lparr>wa_cursor = \<lparr>ce_seek = mem_wallet_seek, ce_table = getA (\<lambda>s. map fst (DAList.impl_of (ms_creds (sk_world s)))),
        ce_value = (\<lambda>said. retA JNull), ce_scan = retA []\<rparr>,
      wa_saider = (\<lambda>v. jstr v), wa_cloneCred = mem_clone, wa_cloneCreds = (\<lambda>_ xs. Inr (map JStr xs)),
      wa_kel = (\<lambda>_ _. [(''k'', ''a'')]), wa_tel = (\<lambda>_ _. []),
      wa_subjs = mem_dup mw_subjs (\<lambda>a w. w\<lparr>mw_subjs := a\<rparr>) (\<lambda>_. ''''),
      wa_schms = mem_dup mw_schms (\<lambda>a w. w\<lparr>mw_schms := a\<rparr>) (\<lambda>_. ''''),
      wa_issus = mem_dup mw_issus (\<lambda>a w. w\<lparr>mw_issus := a\<rparr>) (\<lambda>_. ''''),
      wa_cancs = mem_suber mw_cancs (\<lambda>a w. w\<lparr>mw_cancs := a\<rparr>),
      wa_schemas = (\<lambda>_. []), wa_tevers = (\<lambda>_ _. True), wa_vcState = (\<lambda>_ _ _. None)\<rparr>"

lemma mem_wallet_parts [simp]:
  "wa_seek mem_wallet_env = mem_wallet_seek" "wa_cloneCred mem_wallet_env = mem_clone"
  "wa_subjs mem_wallet_env = mem_dup mw_subjs (\<lambda>a w. w\<lparr>mw_subjs := a\<rparr>) (\<lambda>_. '''')"
  "wa_schms mem_wallet_env = mem_dup mw_schms (\<lambda>a w. w\<lparr>mw_schms := a\<rparr>) (\<lambda>_. '''')"
  "wa_issus mem_wallet_env = mem_dup mw_issus (\<lambda>a w. w\<lparr>mw_issus := a\<rparr>) (\<lambda>_. '''')"
  "wa_cancs mem_wallet_env = mem_suber mw_cancs (\<lambda>a w. w\<lparr>mw_cancs := a\<rparr>)"
  "se_saved mem_wallet_seek = mem_suber ms_saved (\<lambda>a w. w\<lparr>ms_saved := a\<rparr>)"
  "se_creds mem_wallet_seek = mem_suber ms_creds (\<lambda>a w. w\<lparr>ms_creds := a\<rparr>)"
  "se_idx mem_wallet_seek k = mem_dup (\<lambda>w. ms_ix w k) (\<lambda>a w. w\<lparr>ms_ix := (ms_ix w)(k := a)\<rparr>) (\<lambda>v. v)"
  by (simp_all add: mem_wallet_env_def mem_wallet_seek_def)

lemma mem_wallet_ok: "wallet_ok mem_wallet_env"
  unfolding wallet_ok_def Let_def frames_Pair mem_wallet_parts
  by (intro conjI allI impI mem_dup_ok mem_suber_ok mem_dup_frames mem_suber_frames mem_wallet_seek_ok ext;
      simp add: mem_dup_def mem_suber_def index_entries_def mem_clone_def)

text \<open>A credential about the holder \<open>EH\<close> that builds on another one.\<close>

definition base_cred :: creder where
  "base_cred = \<lparr>cd_said = ''EB'', cd_schema = ''ET'', cd_sad = JObj [(''i'', JStr ''EQ''), (''s'', JStr ''ET''), (''a'', JObj [])]\<rparr>"

definition held_cred :: creder where
  "held_cred = \<lparr>cd_said = ''EC'', cd_schema = ''ES'', cd_sad =
     JObj [(''i'', JStr ''EI''), (''s'', JStr ''ES''), (''a'', JObj [(''i'', JStr ''EH'')]),
       (''e'', JObj [(''d'', JStr ''EE''), (''b'', JObj [(''n'', JStr ''EB'')])])]\<rparr>"

definition mem_held :: "mem_wallet seeker" where
  "mem_held =
     \<lparr>sk_indexes = [(''-s'', ''-s''), (''-i'', ''-i'')],
      sk_world = \<lparr>ms_saved = DAList.update ''EC'' ''EC'' DAList.empty,
                  ms_creds = DAList.update ''EB'' base_cred (DAList.update ''EC'' held_cred DAList.empty),
                  ms_sch = DAList.update ''ES'' [''-s'', ''-i''] DAList.empty,
                  ms_dyn = DAList.update ''-s'' \<lparr>ix_subkey = ''-s'', ix_paths = [''-s'']\<rparr>
                    (DAList.update ''-i'' \<lparr>ix_subkey = ''-i'', ix_paths = [''-i'']\<rparr> DAList.empty),
                  ms_ix = (\<lambda>k. if k = ''-i'' then DAList.update ''EI'' [''EC''] DAList.empty else DAList.empty),
                  mw_subjs = DAList.empty, mw_schms = DAList.update (JStr ''ES'') [''EC''] DAList.empty,
                  mw_issus = DAList.empty, mw_cancs = DAList.empty\<rparr>\<rparr>"

lemma mem_held_clones:
  "mem_clone (sk_world mem_held) ''EB'' = Inr \<lparr>wc_said = ''EB'', wc_issuer = JStr ''EQ'', wc_schema = JStr ''ET'',
     wc_edge = JNull, wc_attrib = JObj [], wc_regi = None, wc_message = ''EB''\<rparr>"
  "mem_clone (sk_world mem_held) ''EC'' = Inr \<lparr>wc_said = ''EC'', wc_issuer = JStr ''EI'', wc_schema = JStr ''ES'',
     wc_edge = JObj [(''d'', JStr ''EE''), (''b'', JObj [(''n'', JStr ''EB'')])], wc_attrib = JObj [(''i'', JStr ''EH'')],
     wc_regi = None, wc_message = ''EC''\<rparr>"
  by (simp_all add: mem_clone_def mem_held_def base_cred_def held_cred_def lookup_update)

lemma mem_held_artifacts:
  "own_artifacts mem_wallet_env w \<lparr>wc_said = d, wc_issuer = i, wc_schema = s, wc_edge = e, wc_attrib = JObj a, wc_regi = None, wc_message = m\<rparr> =
     Inr (''ka'' @ (if dict_get a ''i'' = None then [] else ''ka'') @ m)"
  by (simp add: own_artifacts_def mem_wallet_env_def messages_def split: option.split)

lemma mem_held_within: "chain_within mem_wallet_env (sk_world mem_held) ''EC'' 2"
proof -
  have base: "chain_within mem_wallet_env (sk_world mem_held) ''EB'' (Suc 0)"
    by (rule chain_within.intros [where ss = "[]"], simp add: mem_held_clones, simp add: chained_saids_def,
        rule mem_held_artifacts, simp)
  show ?thesis
    unfolding numeral_2_eq_2
    by (rule chain_within.intros [where ss = "[''EB'']"], simp add: mem_held_clones, simp add: chained_saids_def is_dict_def,
        rule mem_held_artifacts, simp add: base)
qed

theorem export_terminates_witness:
  "outputCred 1000 mem_wallet_env (sk_world mem_held) ''EC'' = Inr ''kaEBkakaEC''"
proof -
  have "outputCred 1000 mem_wallet_env (sk_world mem_held) ''EC'' = outputCred 2 mem_wallet_env (sk_world mem_held) ''EC''"
    using export_terminates [OF mem_held_within, of 1000] by auto
  also have "\<dots> = Inr ''kaEBkakaEC''"
    by (simp add: numeral_2_eq_2 mem_held_clones chained_saids_def is_dict_def mem_held_artifacts)
  finally show ?thesis .
qed

definition doubled :: "string \<Rightarrow> wcred" where
  "doubled said =
     \<lparr>wc_said = said, wc_issuer = JStr ''EI'', wc_schema = JStr ''ES'',
      wc_edge = (case said of [] \<Rightarrow> JNull
        | _ # rest \<Rightarrow> JObj [(''l'', JObj [(''n'', JStr rest)]), (''r'', JObj [(''n'', JStr rest)])]),
      wc_attrib = JObj [], wc_regi = None, wc_message = ''m''\<rparr>"

lemma chained_doubled: "chained_saids (doubled []) = Inr []" "chained_saids (doubled (a # rest)) = Inr [rest, rest]"
  by (simp_all add: chained_saids_def doubled_def is_dict_def)

lemma export_doubles_witness:
  "\<exists>out. outputCred 21 (mem_wallet_env\<lparr>wa_cloneCred := (\<lambda>_ said. Inr (doubled said))\<rparr>) w (replicate 20 CHR ''x'') = Inr out \<and>
     1000000 < length out"
proof -
  let ?env = "mem_wallet_env\<lparr>wa_cloneCred := (\<lambda>_ said. Inr (doubled said))\<rparr>"
  let ?L = "\<lambda>k. {replicate k CHR ''x''}"
  have own: "own_artifacts ?env w (doubled x) = Inr ''kam''" for x
    by (simp add: own_artifacts_def doubled_def mem_wallet_env_def messages_def)
  have levels: "\<exists>c y z own. wa_cloneCred ?env w x = Inr c \<and> chained_saids c = Inr [y, z] \<and>
      y \<in> ?L k \<and> z \<in> ?L k \<and> own_artifacts ?env w c = Inr own" if "x \<in> ?L (Suc k)" for k x
    using that own by (simp add: chained_doubled)
  have base: "\<exists>c own. wa_cloneCred ?env w x = Inr c \<and> chained_saids c = Inr [] \<and>
      own_artifacts ?env w c = Inr own \<and> 3 \<le> length own" if "x \<in> ?L 0" for x
    using that own by (simp add: chained_doubled)
  from export_doubles [of ?L ?env w 3 "replicate 20 CHR ''x''" 20, OF levels base] show ?thesis by fastforce
qed

theorem credential_delete_witness:
  "\<exists>s'. CredentialResourceEnd_on_delete mem_wallet_env fresh_response ''EC'' mem_held = (Inr (fresh_response\<lparr>rs_status := 204\<rparr>), s') \<and>
    ''EC'' \<in> set (index_entries mem_wallet_seek (sk_world mem_held) ''-i'' ''EI'') \<and>
    ''EC'' \<notin> set (index_entries mem_wallet_seek (sk_world s') ''-i'' ''EI'') \<and>
    fst (CredentialResourceEnd_on_delete mem_wallet_env fresh_response ''EC'' s') =
      Inl (HTTPError 404 ''credential for said EC not found.'')"
proof -
  have ic: "indexed_credential (wa_seek mem_wallet_env) (sk_world mem_held) ''EC'' held_cred"
    by (simp add: indexed_credential_def mem_held_def held_cred_def lookup_update)
      (simp add: mem_wallet_seek_def mem_dup_def)
  have es: "entries (wa_seek mem_wallet_env) mem_held held_cred = Inr [(''-s'', ''ES''), (''-i'', ''EI'')]"
    unfolding mem_wallet_parts by code_simp
  have here: "''EC'' \<in> set (index_entries mem_wallet_seek (sk_world mem_held) ''-i'' ''EI'')"
    by (simp add: index_entries_def mem_held_def mem_dup_def)
  have saider: "wa_saider mem_wallet_env (JStr ''EC'') = Inr ''EC''" by (simp add: mem_wallet_env_def)
  show ?thesis
    using credential_delete [OF mem_wallet_ok ic, of "\<lparr>wc_said = ''EC'', wc_issuer = JStr ''EI'', wc_schema = JStr ''ES'',
     wc_edge = JObj [(''d'', JStr ''EE''), (''b'', JObj [(''n'', JStr ''EB'')])], wc_attrib = JObj [(''i'', JStr ''EH'')],
     wc_regi = None, wc_message = ''EC''\<rparr>" fresh_response]
      here saider unfolding es sum.case
    by (auto simp: held_cred_def mem_held_clones attrib_ok_def)
qed

definition wallet_query :: request where
  "wallet_query = \<lparr>rq_method = ''POST'', rq_path = ''/credentials/query'', rq_headers = [], rq_params = [],
     rq_media = Inr (JObj [(''skip'', JInt 1)]), rq_auth = None, rq_content_length = Some 0, rq_content_type = Some '''', rq_body = ''''\<rparr>"

theorem credential_query_witness:
  "\<exists>rep'. CredentialQueryCollectionEnd_on_post mem_wallet_env wallet_query fresh_response mem_held = (Inr rep', mem_held) \<and>
    rs_data rep' = Some (JArr [JStr ''EB'']) \<and> dict_get (rs_headers rep') ''content-range'' = Some ''credentials 1-1/25''"
proof -
  have fields: "query_fields wallet_query = Inr (JObj [], JNull, JInt 1, JInt 25)"
    by (simp add: query_fields_def wallet_query_def given_def)
  have c: "make_cursor (wa_seek mem_wallet_env) [] None (Some 1) (Some 25) =
      Inr \<lparr>cu_filtr = [], cu_ops = [], cu_sort = [], cu_skip = 1, cu_limit = 25\<rparr>"
    by (simp add: make_cursor_def)
  have saids: "map fst (DAList.impl_of (ms_creds (sk_world mem_held))) = [''EC'', ''EB'']"
    by (simp add: mem_held_def DAList.update.rep_eq DAList.empty.rep_eq)
  have q: "query_saids (wa_cursor mem_wallet_env) \<lparr>cu_filtr = [], cu_ops = [], cu_sort = [], cu_skip = 1, cu_limit = 25\<rparr> mem_held =
      (Inr [''EC'', ''EB''], mem_held)"
    using saids by (simp add: query_saids_def mem_wallet_env_def)
  have numbers: "show_int 1 = ''1''" "show_int 25 = ''25''" by code_simp+
  show ?thesis
    using credential_query [OF fields _ _ _ c q, where cloned_of = JStr and rep = fresh_response and paths = "[]"]
    by (simp add: mem_wallet_env_def numbers) blast
qed

end
