(* ===== verification/Contacts.thy ===== *)
theory Contacts
  imports Identifiers
begin

text \<open>
  What an agent knows of others (\<open>app/aiding.py\<close>): OOBIs of an identifier, endpoint roles and locations, challenges,
  contacts, and the members of a group. The contacts are kept by the \<open>Organizer\<close> of \<open>keri\<close>, an argument with
  the rest of the Habery (\<open>contact_env\<close>); \<open>org_ok\<close> states what it documents. A body set as a stream is a \<open>JStr\<close>
  of \<open>rs_data\<close>.
\<close>

record 'w contact_env =
  ct_aid :: "'w aid_env"
  ct_kevers :: "'w \<Rightarrow> string \<Rightarrow> bool"
  ct_prefixes :: "'w \<Rightarrow> string \<Rightarrow> bool"
  ct_get :: "'w \<Rightarrow> string \<Rightarrow> (string \<times> json) list option"
  ct_replace :: "string \<Rightarrow> json \<Rightarrow> ('w, unit) act"
  ct_update :: "string \<Rightarrow> json \<Rightarrow> ('w, unit) act"
  ct_rem :: "string \<Rightarrow> ('w, bool) act"
  ct_list :: "'w \<Rightarrow> (string \<times> json) list list"
  ct_find :: "'w \<Rightarrow> json \<Rightarrow> json \<Rightarrow> exn + (string \<times> json) list list"
  ct_values :: "'w \<Rightarrow> json \<Rightarrow> json \<Rightarrow> exn + string list"
  ct_setImg :: "string \<Rightarrow> string option \<Rightarrow> string \<Rightarrow> ('w, unit) act"
  ct_getImgData :: "'w \<Rightarrow> string \<Rightarrow> (string \<times> string) option"
  ct_getImg :: "'w \<Rightarrow> string \<Rightarrow> string"
  ct_endsFor :: "'w \<Rightarrow> string \<Rightarrow> json"
  ct_chas :: "('w, string, string) dupsuber"
  ct_saider :: "json \<Rightarrow> exn + string"
  ct_wkas :: "'w \<Rightarrow> string \<Rightarrow> (string \<times> string) list"
  ct_generate :: "'w \<Rightarrow> int \<Rightarrow> exn + string"
  ct_parseOne :: "serder \<Rightarrow> string \<Rightarrow> ('w, unit) act"
  ct_processReply :: "serder \<Rightarrow> idkever \<Rightarrow> string list \<Rightarrow> ('w, unit) act"
  ct_ends :: "'w \<Rightarrow> string list \<Rightarrow> (string \<times> string \<times> string) list"
  ct_rpes :: "'w \<Rightarrow> json option \<Rightarrow> exn + string list"
  ct_members :: "'w \<Rightarrow> string \<Rightarrow> string list \<times> string list"
  ct_fetchUrls :: "'w \<Rightarrow> string \<Rightarrow> string \<Rightarrow> (string \<times> string) list"
  ct_roleUrls :: "'w \<Rightarrow> string \<Rightarrow> string \<Rightarrow> string \<Rightarrow> (string \<times> (string \<times> (string \<times> string) list) list) list"
  ct_set :: "string list \<Rightarrow> string list"

definition invalid_alias :: "string \<Rightarrow> exn" where
  "invalid_alias name = HTTPError 404 (''invalid alias or prefix '' @ name)"

definition a_hab :: "'w contact_env \<Rightarrow> string \<Rightarrow> exn \<Rightarrow> ('w, hab) act" where
  "a_hab env name e = some_hab (find_hab (ct_aid env)) name e"

subsection \<open>OOBIs of an identifier\<close>

definition fetch_either :: "'w contact_env \<Rightarrow> string \<Rightarrow> ('w, (string \<times> string) list) act" where
  "fetch_either env eid =
     getA (\<lambda>w. let urls = ct_fetchUrls env w eid ''http'' in if urls \<noteq> [] then urls else ct_fetchUrls env w eid ''https'')"

text \<open>One OOBI at an endpoint that has to be there.\<close>

definition endpoint_oobi :: "'w contact_env \<Rightarrow> string \<Rightarrow> string \<Rightarrow> string \<Rightarrow> ('w, string) act" where
  "endpoint_oobi env what eid path =
     bindA (fetch_either env eid) (\<lambda>urls.
     seqA (guardA (urls \<noteq> []) (HTTPError 404 (''unable to query '' @ what @ '' '' @ eid @ '', no http endpoint'')))
     (bindA (liftA (pick_url urls)) (\<lambda>url. retA (urljoin url path))))"

text \<open>
  All values of a key of a dictionary with several (\<open>naball\<close>), and the OOBIs of the participants in a role, over
  a set of keys whose order is that of \<open>ct_set\<close>.
\<close>

definition naball :: "(string \<times> 'a) list \<Rightarrow> string \<Rightarrow> 'a list" where
  "naball m k = map snd (filter (\<lambda>(k', _). k' = k) m)"

definition role_oobis :: "'w contact_env \<Rightarrow> string \<Rightarrow> string \<Rightarrow> ('w, string list) act" where
  "role_oobis env pre role =
     bindA (getA (\<lambda>w. let urls = ct_roleUrls env w pre role ''http'' in
                      if urls \<noteq> [] then urls else ct_roleUrls env w pre role ''https'')) (\<lambda>roleUrls.
     retA (case dict_get roleUrls role of
        None \<Rightarrow> []
      | Some aoobis \<Rightarrow>
          concat (map (\<lambda>eid.
            concat (map (\<lambda>murl.
              map (\<lambda>url. urljoin url (''/oobi/'' @ pre @ ''/'' @ role @ ''/'' @ eid)) (naball murl ''http'' @ naball murl ''https''))
              (naball aoobis eid)))
            (ct_set env (map fst aoobis)))))"

definition IdentifierOOBICollectionEnd_on_get ::
  "'w contact_env \<Rightarrow> request \<Rightarrow> response \<Rightarrow> string \<Rightarrow> ('w, response) act" where
  "IdentifierOOBICollectionEnd_on_get env req rep name =
     seqA (name_required name)
     (bindA (a_hab env name (HTTPError 404 ''invalid alias or prefix {name}'')) (\<lambda>hab.
      case dict_get (rq_params req) ''role'' of
        None \<Rightarrow> raiseA (HTTPError 400 ''role parameter required'')
      | Some role \<Rightarrow>
          bindA
            (if role = JStr ''witness'' then
               bindA (hkever (ct_aid env) hab) (\<lambda>kever.
               mapA (\<lambda>wit. endpoint_oobi env ''witness'' wit (''/oobi/'' @ hb_pre hab @ ''/witness/'' @ wit)) (ik_wits kever))
             else if role = JStr ''controller'' then
               bindA (endpoint_oobi env ''controller'' (hb_pre hab) (''/oobi/'' @ hb_pre hab @ ''/controller'')) (\<lambda>u. retA [u])
             else if role = JStr ''agent'' then role_oobis env (hb_pre hab) ''agent''
             else if role = JStr ''mailbox'' then role_oobis env (hb_pre hab) ''mailbox''
             else raiseA (HTTPError 400 (''unsupport role type '' @ show_value (ai_show (ct_aid env)) role @ '' for oobi request'')))
            (\<lambda>oobis. retA (rep\<lparr>rs_status := 200, rs_data := Some (JObj [(''role'', role), (''oobis'', jstrs oobis)])\<rparr>))))"

subsection \<open>Endpoint roles and locations\<close>

text \<open>The routes give a name, or the identifier, and possibly a role.\<close>

definition EndRoleCollectionEnd_on_get ::
  "'w contact_env \<Rightarrow> response \<Rightarrow> string option \<Rightarrow> string option \<Rightarrow> string option \<Rightarrow> ('w, response) act" where
  "EndRoleCollectionEnd_on_get env rep name aid role =
     bindA (case name of
              Some name \<Rightarrow> bindA (a_hab env name (invalid_alias name)) (\<lambda>hab. retA (hb_pre hab))
            | None \<Rightarrow> (case aid of Some aid \<Rightarrow> retA aid
                       | None \<Rightarrow> raiseA (HTTPError 400 ''name or prefix is required in the path''))) (\<lambda>pre.
     bindA (getA (\<lambda>w. ct_ends env w (case role of Some role \<Rightarrow> [pre, role] | None \<Rightarrow> [pre]))) (\<lambda>items.
     retA (rep\<lparr>rs_status := 200, rs_data := Some (JArr (map (\<lambda>(cid, erole, eid).
       JObj [(''cid'', JStr pre), (''role'', JStr erole), (''eid'', JStr eid)]) items))\<rparr>)))"

definition process_reply :: "'w contact_env \<Rightarrow> serder \<Rightarrow> idkever \<Rightarrow> string list \<Rightarrow> ('w, unit) act" where
  "process_reply env rserder kever rsigers =
     catchA (ct_processReply env rserder kever rsigers)
       (\<lambda>e. if e = UnverifiedReplyError then Some (retA ())
            else if isValidationError e then Some (raiseA (HTTPError 400 ''unable to verify end role reply message''))
            else None)"

text \<open>The fields of the attributes of a reply, and \<open>".".join(..)\<close> of them.\<close>

definition reply_fields :: "serder \<Rightarrow> string list \<Rightarrow> exn + json list" where
  "reply_fields rserder ks =
     (case jitem (se_ked rserder) ''a'' of Inl e \<Rightarrow> Inl e | Inr data \<Rightarrow> mapE (jitem data) ks)"

definition dotted :: "json list \<Rightarrow> exn + string" where
  "dotted vs = (case mapE jstr vs of Inl e \<Rightarrow> Inl e | Inr xs \<Rightarrow> Inr (join ''.'' xs))"

text \<open>Without a name in the path the call lacks an argument.\<close>

definition EndRoleCollectionEnd_on_post ::
  "'w contact_env \<Rightarrow> request \<Rightarrow> response \<Rightarrow> string option \<Rightarrow> string option \<Rightarrow> string option \<Rightarrow> ('w, response) act" where
  "EndRoleCollectionEnd_on_post env req rep name aid role =
     (case name of
        None \<Rightarrow> raiseA TypeError
      | Some name \<Rightarrow>
          seqA (guardA (role = None \<and> aid = None) (HTTPError 404 ''route not found''))
          (bindA (liftA (rq_media req)) (\<lambda>body.
           bindA (liftA (getRequiredParam body ''rpy'')) (\<lambda>rpy.
           bindA (liftA (getRequiredParam body ''sigs'')) (\<lambda>rsigs.
           bindA (liftA (ai_serder (ct_aid env) rpy)) (\<lambda>rserder.
           bindA (liftA (reply_fields rserder [''cid'', ''role'', ''eid''])) (\<lambda>fs.
           bindA (a_hab env name (invalid_alias name)) (\<lambda>hab.
           seqA (guardA (fs ! 0 = JStr (hb_pre hab))
             (HTTPError 400 (''error trying to create end role for unknown local AID '' @ show_value (ai_show (ct_aid env)) (fs ! 0))))
           (bindA (list_of (ai_siger (ct_aid env)) rsigs) (\<lambda>rsigers.
            bindA (hkever (ct_aid env) hab) (\<lambda>kever.
            seqA (process_reply env rserder kever rsigers)
            (bindA (liftA (dotted fs)) (\<lambda>oid.
             bindA (Monitor_submit (ai_mon (ct_aid env)) oid ''endrole''
               (JObj [(''cid'', fs ! 0), (''role'', fs ! 1), (''eid'', fs ! 2)])) (accepted rep))))))))))))))"

definition LocSchemeCollectionEnd_on_post ::
  "'w contact_env \<Rightarrow> request \<Rightarrow> response \<Rightarrow> string \<Rightarrow> ('w, response) act" where
  "LocSchemeCollectionEnd_on_post env req rep name =
     bindA (liftA (rq_media req)) (\<lambda>body.
     bindA (a_hab env name (invalid_alias name)) (\<lambda>hab.
     bindA (liftA (getRequiredParam body ''rpy'')) (\<lambda>rpy.
     bindA (liftA (getRequiredParam body ''sigs'')) (\<lambda>rsigs.
     bindA (liftA (ai_serder (ct_aid env) rpy)) (\<lambda>rserder.
     bindA (liftA (reply_fields rserder [''eid'', ''scheme'', ''url''])) (\<lambda>fs.
     bindA (list_of (ai_siger (ct_aid env)) rsigs) (\<lambda>rsigers.
     bindA (hkever (ct_aid env) hab) (\<lambda>kever.
     seqA (process_reply env rserder kever rsigers)
     (bindA (liftA (dotted (take 2 fs))) (\<lambda>oid.
      bindA (Monitor_submit (ai_mon (ct_aid env)) oid ''locscheme''
        (JObj [(''eid'', fs ! 0), (''scheme'', fs ! 1), (''url'', fs ! 2)])) (accepted rep)))))))))))"

definition RpyEscrowCollectionEnd_on_get :: "'w contact_env \<Rightarrow> request \<Rightarrow> response \<Rightarrow> ('w, response) act" where
  "RpyEscrowCollectionEnd_on_get env req rep =
     bindA (readA (\<lambda>w. ct_rpes env w (dict_get (rq_params req) ''route''))) (\<lambda>saiders.
     bindA (mapA (\<lambda>said. bindA (getA (\<lambda>w. me_rpys (ai_mon (ct_aid env)) w said)) (\<lambda>ked.
                          case ked of None \<Rightarrow> raiseA AttributeError | Some ked \<Rightarrow> retA ked)) saiders) (\<lambda>events.
     retA ((set_header ''Content-Type'' ''application/json'' rep)\<lparr>rs_status := 200, rs_data := Some (JArr events)\<rparr>)))"

subsection \<open>Challenges\<close>

text \<open>\<open>int(s)\<close> of a query parameter, which is a text or a list of texts.\<close>

fun jdec :: "json \<Rightarrow> exn + int" where
  "jdec (JStr s) = (case py_int s of None \<Rightarrow> Inl (ValueError ''invalid literal for int() with base 10'') | Some n \<Rightarrow> Inr n)"
| "jdec _ = Inl TypeError"

definition ChallengeCollectionEnd_on_get :: "'w contact_env \<Rightarrow> request \<Rightarrow> response \<Rightarrow> ('w, response) act" where
  "ChallengeCollectionEnd_on_get env req rep =
     bindA (liftA (case dict_get (rq_params req) ''strength'' of None \<Rightarrow> Inr 128 | Some s \<Rightarrow> jdec s)) (\<lambda>strength.
     bindA (readA (\<lambda>w. ct_generate env w strength)) (\<lambda>words.
     retA (rep\<lparr>rs_status := 200, rs_data := Some (JObj [(''words'', jstrs (split_on (CHR '' '') words))])\<rparr>)))"

text \<open>A message for the task that sends it has also the recipient, which that task does not read.\<close>

definition ChallengeResourceEnd_on_post ::
  "'w contact_env \<Rightarrow> request \<Rightarrow> response \<Rightarrow> string \<Rightarrow> ('w decks, response) act" where
  "ChallengeResourceEnd_on_post env req rep name =
     bindA (dext (a_hab env name (HTTPError 400 ''no matching Hab for alias or prefix {name}''))) (\<lambda>hab.
     bindA (liftA (rq_media req)) (\<lambda>body.
     bindA (liftA (jin ''exn'' body)) (\<lambda>exn.
     bindA (if exn then liftA (jin ''sig'' body) else retA False) (\<lambda>sg.
     bindA (if sg then liftA (jin ''recipient'' body) else retA False) (\<lambda>given.
     seqA (guardA given (HTTPError 400 (''challenge response requires 'words', 'sig' and 'recipient'' @ [CHR 0x27])))
     (bindA (liftA (jitem body ''exn'')) (\<lambda>exn.
      bindA (liftA (jitem body ''sig'')) (\<lambda>sg.
      bindA (liftA (jitem body ''recipient'')) (\<lambda>recpt.
      bindA (liftA (ai_serder (ct_aid env) exn)) (\<lambda>serder.
      bindA (liftA (case sg of JStr s \<Rightarrow> Inr s | _ \<Rightarrow> Inl AttributeError)) (\<lambda>sg.
      seqA (dext (ct_parseOne env serder sg))
      (seqA (modA (\<lambda>s. s\<lparr>dk_exchanges := dk_exchanges s @
               [\<lparr>xm_said = se_said serder, xm_pre = hb_pre hab, xm_topic = JStr ''challenge''\<rparr>]\<rparr>))
         (retA (rep\<lparr>rs_status := 202\<rparr>))))))))))))))"

definition known_source :: "'w contact_env \<Rightarrow> string \<Rightarrow> ('w, unit) act" where
  "known_source env source =
     bindA (getA (\<lambda>w. ct_kevers env w source)) (\<lambda>known.
     guardA known (HTTPError 404 (''challenge response source='' @ source @ '' not found'')))"

definition ChallengeVerifyResourceEnd_on_post ::
  "'w contact_env \<Rightarrow> request \<Rightarrow> response \<Rightarrow> string \<Rightarrow> ('w, response) act" where
  "ChallengeVerifyResourceEnd_on_post env req rep source =
     bindA (liftA (rq_media req)) (\<lambda>body.
     bindA (liftA (getRequiredParam body ''words'')) (\<lambda>words.
     seqA (known_source env source)
     (bindA (Monitor_submit (ai_mon (ct_aid env)) source ''challenge'' (JObj [(''words'', words)])) (accepted rep))))"

definition ChallengeVerifyResourceEnd_on_put ::
  "'w contact_env \<Rightarrow> request \<Rightarrow> response \<Rightarrow> string \<Rightarrow> ('w, response) act" where
  "ChallengeVerifyResourceEnd_on_put env req rep source =
     bindA (liftA (rq_media req)) (\<lambda>body.
     bindA (liftA (jin ''said'' body)) (\<lambda>given.
     seqA (guardA given (HTTPError 400 (''challenge response acceptance requires 'aid' and 'said'' @ [CHR 0x27])))
     (seqA (known_source env source)
     (bindA (liftA (jitem body ''said'')) (\<lambda>said.
      bindA (liftA (ct_saider env said)) (\<lambda>saider.
      bindA (addD (ct_chas env) source saider) (\<lambda>_.
      retA (rep\<lparr>rs_status := 202\<rparr>))))))))"

subsection \<open>Contacts\<close>

definition challenge_entry :: "'w contact_env \<Rightarrow> string list \<Rightarrow> string \<Rightarrow> ('w, json) act" where
  "challenge_entry env acc said =
     bindA (getA (\<lambda>w. me_exns (ai_mon (ct_aid env)) w said)) (\<lambda>exn.
     case exn of
       None \<Rightarrow> raiseA AttributeError
     | Some ked \<Rightarrow>
         bindA (liftA (jitem ked ''dt'')) (\<lambda>dt.
         bindA (liftA (jitem ked ''a'')) (\<lambda>a.
         bindA (liftA (jitem a ''words'')) (\<lambda>words.
         retA (JObj [(''dt'', dt), (''words'', words), (''said'', JStr said), (''authenticated'', JBool (said \<in> set acc))])))))"

text \<open>A contact with its endpoints, challenges and well-knowns (the body of the loop of \<open>authn\<close>).\<close>

definition authn_contact :: "'w contact_env \<Rightarrow> (string \<times> json) list \<Rightarrow> ('w, (string \<times> json) list) act" where
  "authn_contact env contact =
     bindA (liftA (jitem (JObj contact) ''id'')) (\<lambda>aid.
     bindA (liftA (jstr aid)) (\<lambda>aid.
     bindA (getA (\<lambda>w. ct_endsFor env w aid)) (\<lambda>ends.
     bindA (getD (ct_chas env) aid) (\<lambda>acc.
     bindA (getA (\<lambda>w. me_reps (ai_mon (ct_aid env)) w aid)) (\<lambda>received.
     bindA (mapA (challenge_entry env acc) received) (\<lambda>challenges.
     bindA (getA (\<lambda>w. ct_wkas env w aid)) (\<lambda>wkans.
     retA (dict_set (dict_set (dict_set contact ''ends'' ends) ''challenges'' (JArr challenges)) ''wellKnowns''
       (JArr (map (\<lambda>(url, dt). JObj [(''url'', JStr url), (''dt'', JStr dt)]) wkans))))))))))"

definition authn :: "'w contact_env \<Rightarrow> (string \<times> json) list list \<Rightarrow> ('w, json) act" where
  "authn env contacts = bindA (mapA (authn_contact env) contacts) (\<lambda>cs. retA (JArr (map JObj cs)))"

definition remote_known :: "'w contact_env \<Rightarrow> (string \<times> json) list \<Rightarrow> ('w, bool) act" where
  "remote_known env contact =
     bindA (liftA (jitem (JObj contact) ''id'')) (\<lambda>aid.
     bindA (liftA (jstr aid)) (\<lambda>aid.
     getA (\<lambda>w. ct_kevers env w aid \<and> \<not> ct_prefixes env w aid)))"

fun filterA :: "('a \<Rightarrow> ('w, bool) act) \<Rightarrow> 'a list \<Rightarrow> ('w, 'a list) act" where
  "filterA p [] = retA []"
| "filterA p (x # xs) = bindA (p x) (\<lambda>b. bindA (filterA p xs) (\<lambda>ys. retA (if b then x # ys else ys)))"

definition ContactCollectionEnd_on_get :: "'w contact_env \<Rightarrow> request \<Rightarrow> response \<Rightarrow> ('w, response) act" where
  "ContactCollectionEnd_on_get env req rep =
     bindA
       (case dict_get (rq_params req) ''group'' of
          Some grp \<Rightarrow>
            bindA (readA (\<lambda>w. ct_values env w grp (jopt (dict_get (rq_params req) ''filter_value'')))) (\<lambda>values.
            bindA (mapA (\<lambda>v. bindA (bindA (readA (\<lambda>w. ct_find env w grp (JStr v))) (authn env)) (\<lambda>cs. retA (v, cs))) values)
              (\<lambda>data. retA (JObj (foldl (\<lambda>d (v, cs). dict_set d v cs) [] data))))
        | None \<Rightarrow>
            (case dict_get (rq_params req) ''filter_field'' of
               Some fld \<Rightarrow>
                 (case dict_get (rq_params req) ''filter_value'' of
                    None \<Rightarrow> raiseA (HTTPError 400 ''filter_value if required if field_field is specified'')
                  | Some val \<Rightarrow> bindA (readA (\<lambda>w. ct_find env w fld val)) (authn env))
             | None \<Rightarrow> bindA (bindA (getA (ct_list env)) (filterA (remote_known env))) (authn env)))
       (\<lambda>data. retA (rep\<lparr>rs_status := 200, rs_data := Some data\<rparr>))"

definition known_prefix :: "'w contact_env \<Rightarrow> string \<Rightarrow> string \<Rightarrow> ('w, unit) act" where
  "known_prefix env pfx msg =
     bindA (getA (\<lambda>w. ct_kevers env w pfx)) (\<lambda>known. guardA known (HTTPError 404 msg))"

definition ContactImageResourceEnd_on_post ::
  "'w contact_env \<Rightarrow> request \<Rightarrow> response \<Rightarrow> string \<Rightarrow> ('w, response) act" where
  "ContactImageResourceEnd_on_post env req rep pfx =
     seqA (known_prefix env pfx (pfx @ '' is not a known identifier.''))
     (bindA (liftA (case rq_content_length req of None \<Rightarrow> Inl TypeError | Some n \<Rightarrow> Inr n)) (\<lambda>n.
      seqA (guardA (n \<le> 1000000) (HTTPError 400 ''image too big to save''))
     (seqA (ct_setImg env pfx (rq_content_type req) (rq_body req)) (retA (rep\<lparr>rs_status := 202\<rparr>)))))"

definition ContactImageResourceEnd_on_get :: "'w contact_env \<Rightarrow> response \<Rightarrow> string \<Rightarrow> ('w, response) act" where
  "ContactImageResourceEnd_on_get env rep pfx =
     seqA (known_prefix env pfx (pfx @ '' is not a known identifier.''))
     (bindA (getA (\<lambda>w. ct_getImgData env w pfx)) (\<lambda>data.
      case data of
        None \<Rightarrow> raiseA (HTTPError 404 (''no image available for '' @ pfx @ ''.''))
      | Some (ty, len) \<Rightarrow>
          bindA (getA (\<lambda>w. ct_getImg env w pfx)) (\<lambda>img.
          retA ((set_header ''Content-Length'' len (set_header ''Content-Type'' ty rep))
            \<lparr>rs_status := 200, rs_data := Some (JStr img)\<rparr>))))"

definition ContactResourceEnd_on_get :: "'w contact_env \<Rightarrow> response \<Rightarrow> string \<Rightarrow> ('w, response) act" where
  "ContactResourceEnd_on_get env rep pfx =
     seqA (known_prefix env pfx (pfx @ '' is not a known identifier.''))
     (bindA (getA (\<lambda>w. ct_get env w pfx)) (\<lambda>contact.
      case contact of
        None \<Rightarrow> raiseA (HTTPError 404 ''NOT FOUND'')
      | Some d \<Rightarrow> retA (rep\<lparr>rs_status := 200, rs_data := Some (JObj d)\<rparr>)))"

text \<open>\<open>if "id" in body: del body["id"]\<close>.\<close>

definition without_id :: "json \<Rightarrow> exn + json" where
  "without_id body =
     (case jin ''id'' body of
        Inl e \<Rightarrow> Inl e
      | Inr b \<Rightarrow> if \<not> b then Inr body else (case body of JObj d \<Rightarrow> Inr (JObj (dict_del d ''id'')) | _ \<Rightarrow> Inl TypeError))"

definition remote_prefix :: "'w contact_env \<Rightarrow> string \<Rightarrow> ('w, unit) act" where
  "remote_prefix env pfx =
     bindA (getA (\<lambda>w. ct_prefixes env w pfx)) (\<lambda>own.
     guardA (\<not> own) (HTTPError 400 (pfx @ '' is a local identifier, contact information only for remote identifiers'')))"

definition contact_reply :: "'w contact_env \<Rightarrow> response \<Rightarrow> string \<Rightarrow> ('w, response) act" where
  "contact_reply env rep pfx =
     bindA (getA (\<lambda>w. ct_get env w pfx)) (\<lambda>contact.
     retA (rep\<lparr>rs_status := 200, rs_data := Some (jopt (map_option JObj contact))\<rparr>))"

definition ContactResourceEnd_on_post ::
  "'w contact_env \<Rightarrow> request \<Rightarrow> response \<Rightarrow> string \<Rightarrow> ('w, response) act" where
  "ContactResourceEnd_on_post env req rep pfx =
     bindA (liftA (rq_media req)) (\<lambda>body.
     seqA (known_prefix env pfx ''{prefix} is not a known identifier.  oobi required before contact information'')
     (seqA (remote_prefix env pfx)
     (bindA (liftA (without_id body)) (\<lambda>body.
      bindA (getA (\<lambda>w. ct_get env w pfx)) (\<lambda>old.
      seqA (guardA (old \<in> {None, Some []}) (HTTPError 400 (''contact data for '' @ pfx @ '' already exists'')))
      (seqA (ct_replace env pfx body) (contact_reply env rep pfx)))))))"

definition ContactResourceEnd_on_put ::
  "'w contact_env \<Rightarrow> request \<Rightarrow> response \<Rightarrow> string \<Rightarrow> ('w, response) act" where
  "ContactResourceEnd_on_put env req rep pfx =
     bindA (liftA (rq_media req)) (\<lambda>body.
     seqA (known_prefix env pfx (pfx @ '' is not a known identifier.  oobi required before contact information''))
     (seqA (remote_prefix env pfx)
     (bindA (liftA (without_id body)) (\<lambda>body.
      seqA (ct_update env pfx body) (contact_reply env rep pfx)))))"

definition ContactResourceEnd_on_delete :: "'w contact_env \<Rightarrow> response \<Rightarrow> string \<Rightarrow> ('w, response) act" where
  "ContactResourceEnd_on_delete env rep pfx =
     bindA (ct_rem env pfx) (\<lambda>deleted.
     seqA (guardA deleted (HTTPError 404 (''no contact information to delete for '' @ pfx)))
       (retA (rep\<lparr>rs_status := 202\<rparr>)))"

subsection \<open>Members of a group\<close>

definition GroupMemberCollectionEnd_on_get :: "'w contact_env \<Rightarrow> response \<Rightarrow> string \<Rightarrow> ('w, response) act" where
  "GroupMemberCollectionEnd_on_get env rep name =
     bindA (a_hab env name (invalid_alias name)) (\<lambda>hab.
     seqA (guardA (case hab of SignifyGroupHab _ _ \<Rightarrow> True | _ \<Rightarrow> False)
             (HTTPError 400 ''members endpoint only available for group AIDs''))
     (bindA (getA (\<lambda>w. ct_members env w (hb_pre hab))) (\<lambda>(smids, rmids).
      bindA (getA (\<lambda>w. \<lambda>mids. JArr (map (\<lambda>mid. JObj [(''aid'', JStr mid), (''ends'', ct_endsFor env w mid)]) mids))) (\<lambda>records.
      retA (rep\<lparr>rs_status := 200, rs_data :=
        Some (JObj [(''signing'', records smids), (''rotation'', records rmids)])\<rparr>)))))"

subsection \<open>A contact and its changes\<close>

text \<open>
  What \<open>Organizer\<close> documents: \<open>replace\<close> and \<open>update\<close> store the fields, the latter over those there are, and
  \<open>get\<close> adds the identifier; \<open>rem\<close> tells whether there was something. They touch nothing else.
\<close>

definition org_ok :: "'w contact_env \<Rightarrow> bool" where
  "org_ok env \<longleftrightarrow>
     (\<forall>p d w. let w' = snd (ct_replace env p (JObj d) w) in fst (ct_replace env p (JObj d) w) = Inr () \<and>
        ct_get env w' = (ct_get env w)(p \<mapsto> dict_set d ''id'' (JStr p)) \<and>
        ct_kevers env w' = ct_kevers env w \<and> ct_prefixes env w' = ct_prefixes env w) \<and>
     (\<forall>p d w. let w' = snd (ct_update env p (JObj d) w); old = (case ct_get env w p of None \<Rightarrow> [] | Some c \<Rightarrow> c) in
        fst (ct_update env p (JObj d) w) = Inr () \<and>
        ct_get env w' = (ct_get env w)(p \<mapsto> dict_set (dict_update old d) ''id'' (JStr p)) \<and>
        ct_kevers env w' = ct_kevers env w \<and> ct_prefixes env w' = ct_prefixes env w) \<and>
     (\<forall>p w. let w' = snd (ct_rem env p w) in fst (ct_rem env p w) = Inr (ct_get env w p \<noteq> None) \<and>
        ct_get env w' = (ct_get env w)(p := None) \<and>
        ct_kevers env w' = ct_kevers env w \<and> ct_prefixes env w' = ct_prefixes env w)"

lemma org_replace:
  assumes "org_ok env"
  obtains w' where "ct_replace env p (JObj d) w = (Inr (), w')" and "ct_get env w' = (ct_get env w)(p \<mapsto> dict_set d ''id'' (JStr p))"
    and "ct_kevers env w' = ct_kevers env w" and "ct_prefixes env w' = ct_prefixes env w"
  using assms unfolding org_ok_def Let_def by (metis prod.collapse)

lemma org_update:
  assumes "org_ok env"
  obtains w' where "ct_update env p (JObj d) w = (Inr (), w')"
    and "ct_get env w' = (ct_get env w)(p \<mapsto> dict_set (dict_update (case ct_get env w p of None \<Rightarrow> [] | Some c \<Rightarrow> c) d) ''id'' (JStr p))"
    and "ct_kevers env w' = ct_kevers env w" and "ct_prefixes env w' = ct_prefixes env w"
  using assms unfolding org_ok_def Let_def by (metis prod.collapse)

lemma org_rem:
  assumes "org_ok env"
  obtains w' where "ct_rem env p w = (Inr (ct_get env w p \<noteq> None), w')" and "ct_get env w' = (ct_get env w)(p := None)"
    and "ct_kevers env w' = ct_kevers env w" and "ct_prefixes env w' = ct_prefixes env w"
  using assms unfolding org_ok_def Let_def by (metis prod.collapse)

lemma dict_get_update: "dict_get (dict_update d d') k = (case dict_get (rev d') k of None \<Rightarrow> dict_get d k | Some v \<Rightarrow> Some v)"
  by (induction d' rule: rev_induct) (auto simp: dict_update_def)

lemma dict_get_notin: "k \<notin> fst ` set d \<Longrightarrow> dict_get d k = None"
  by (induction d) auto

lemma dict_get_rev: "distinct (map fst d) \<Longrightarrow> dict_get (rev d) k = dict_get d k"
proof (induction d)
  case (Cons x d)
  then show ?case
    by (cases x, cases "fst x = k") (auto simp: dict_get_append dict_get_notin split: option.split prod.splits)
qed simp

lemma without_id_run: "without_id (JObj d) = Inr (JObj (dict_del d ''id''))"
proof (cases "dict_get d ''id''")
  case None
  then have "dict_del d ''id'' = d" by (induction d) (auto simp: dict_del_def split: if_splits)
  with None show ?thesis by (simp add: without_id_def)
qed (simp add: without_id_def)

lemma contact_post:
  assumes "org_ok env" and "ct_kevers env w pfx" and "\<not> ct_prefixes env w pfx" and "ct_get env w pfx = None"
    and "rq_media req = Inr (JObj d)"
  defines "c \<equiv> dict_set (dict_del d ''id'') ''id'' (JStr pfx)"
  obtains w' where "ContactResourceEnd_on_post env req rep pfx w = (Inr (rep\<lparr>rs_status := 200, rs_data := Some (JObj c)\<rparr>), w')"
    and "ct_get env w' = (ct_get env w)(pfx \<mapsto> c)" and "ct_kevers env w' = ct_kevers env w" and "ct_prefixes env w' = ct_prefixes env w"
proof -
  obtain w' where "ct_replace env pfx (JObj (dict_del d ''id'')) w = (Inr (), w')" "ct_get env w' = (ct_get env w)(pfx \<mapsto> c)"
      "ct_kevers env w' = ct_kevers env w" "ct_prefixes env w' = ct_prefixes env w"
    unfolding c_def by (rule org_replace [OF assms(1)])
  with assms(2-5) show ?thesis
    by (intro that [of w']) (simp_all add: ContactResourceEnd_on_post_def known_prefix_def remote_prefix_def contact_reply_def without_id_run bindA_Inr)
qed

text \<open>
  C10. A contact of a known identifier of somebody else. It is stored by a first \<open>POST\<close> and read as it was sent, with the
  identifier of the path for \<open>id\<close>, whatever the body had; a second \<open>POST\<close> is refused; a \<open>PUT\<close> overwrites
  the fields it has and keeps the others; after a \<open>DELETE\<close> it is gone. No other contact changes.
\<close>

theorem contact_lifecycle:
  fixes rep :: response
  assumes ok: "org_ok env" and "ct_kevers env w pfx" and "\<not> ct_prefixes env w pfx" and new: "ct_get env w pfx = None"
    and body: "rq_media req1 = Inr (JObj d1)" "rq_media req2 = Inr (JObj d2)" "distinct (map fst d2)"
  defines "c1 \<equiv> dict_set (dict_del d1 ''id'') ''id'' (JStr pfx)"
  shows "\<exists>w1 w2 w3 c2. ContactResourceEnd_on_post env req1 rep pfx w = (Inr (rep\<lparr>rs_status := 200, rs_data := Some (JObj c1)\<rparr>), w1) \<and>
    ContactResourceEnd_on_get env rep pfx w1 = (Inr (rep\<lparr>rs_status := 200, rs_data := Some (JObj c1)\<rparr>), w1) \<and>
    ContactResourceEnd_on_post env req2 rep pfx w1 = (Inl (HTTPError 400 (''contact data for '' @ pfx @ '' already exists'')), w1) \<and>
    ContactResourceEnd_on_put env req2 rep pfx w1 = (Inr (rep\<lparr>rs_status := 200, rs_data := Some (JObj c2)\<rparr>), w2) \<and>
    (\<forall>k. dict_get c2 k = (if k = ''id'' then Some (JStr pfx)
       else case dict_get d2 k of Some v \<Rightarrow> Some v | None \<Rightarrow> dict_get d1 k)) \<and>
    ContactResourceEnd_on_get env rep pfx w2 = (Inr (rep\<lparr>rs_status := 200, rs_data := Some (JObj c2)\<rparr>), w2) \<and>
    ContactResourceEnd_on_delete env rep pfx w2 = (Inr (rep\<lparr>rs_status := 202\<rparr>), w3) \<and>
    ContactResourceEnd_on_get env rep pfx w3 = (Inl (HTTPError 404 ''NOT FOUND''), w3) \<and>
    (\<forall>q. q \<noteq> pfx \<longrightarrow> ct_get env w1 q = ct_get env w q \<and> ct_get env w2 q = ct_get env w q \<and> ct_get env w3 q = ct_get env w q)"
proof -
  obtain w1 where w1: "ContactResourceEnd_on_post env req1 rep pfx w = (Inr (rep\<lparr>rs_status := 200, rs_data := Some (JObj c1)\<rparr>), w1)"
      "ct_get env w1 = (ct_get env w)(pfx \<mapsto> c1)" "ct_kevers env w1 = ct_kevers env w" "ct_prefixes env w1 = ct_prefixes env w"
    unfolding c1_def by (rule contact_post [OF ok assms(2,3) new body(1)])
  let ?c2 = "dict_set (dict_update c1 (dict_del d2 ''id'')) ''id'' (JStr pfx)"
  obtain w2 where w2: "ct_update env pfx (JObj (dict_del d2 ''id'')) w1 = (Inr (), w2)" "ct_get env w2 = (ct_get env w1)(pfx \<mapsto> ?c2)"
      "ct_kevers env w2 = ct_kevers env w1" "ct_prefixes env w2 = ct_prefixes env w1"
    using org_update [OF ok, of pfx "dict_del d2 ''id''" w1] w1(2) by auto
  obtain w3 where w3: "ct_rem env pfx w2 = (Inr True, w3)" "ct_get env w3 = (ct_get env w2)(pfx := None)"
      "ct_kevers env w3 = ct_kevers env w2" "ct_prefixes env w3 = ct_prefixes env w2"
    using org_rem [OF ok, of pfx w2] w2(2) by auto
  have "dict_get c1 ''id'' = Some (JStr pfx)" by (simp add: c1_def)
  then have "c1 \<noteq> []" by (cases c1) auto
  then have "ContactResourceEnd_on_get env rep pfx w1 = (Inr (rep\<lparr>rs_status := 200, rs_data := Some (JObj c1)\<rparr>), w1)"
    "ContactResourceEnd_on_post env req2 rep pfx w1 = (Inl (HTTPError 400 (''contact data for '' @ pfx @ '' already exists'')), w1)"
    "ContactResourceEnd_on_put env req2 rep pfx w1 = (Inr (rep\<lparr>rs_status := 200, rs_data := Some (JObj ?c2)\<rparr>), w2)"
    "ContactResourceEnd_on_get env rep pfx w2 = (Inr (rep\<lparr>rs_status := 200, rs_data := Some (JObj ?c2)\<rparr>), w2)"
    "ContactResourceEnd_on_delete env rep pfx w2 = (Inr (rep\<lparr>rs_status := 202\<rparr>), w3)"
    "ContactResourceEnd_on_get env rep pfx w3 = (Inl (HTTPError 404 ''NOT FOUND''), w3)"
    using assms(2,3) new body w1 w2 w3
    by (simp_all add: ContactResourceEnd_on_post_def ContactResourceEnd_on_get_def ContactResourceEnd_on_put_def ContactResourceEnd_on_delete_def
        known_prefix_def remote_prefix_def contact_reply_def without_id_run bindA_Inr)
  moreover note w1(1)
  moreover have "dict_get ?c2 k = (if k = ''id'' then Some (JStr pfx)
      else case dict_get d2 k of Some v \<Rightarrow> Some v | None \<Rightarrow> dict_get d1 k)" for k
    using body(3) by (auto simp: dict_get_update dict_get_rev c1_def split: option.split)
  moreover have "ct_get env w1 q = ct_get env w q \<and> ct_get env w2 q = ct_get env w q \<and> ct_get env w3 q = ct_get env w q"
    if "q \<noteq> pfx" for q using that w1(2) w2(2) w3(2) by simp
  ultimately show ?thesis by blast
qed

subsection \<open>The list of contacts\<close>

text \<open>
  The contact as the list shows it, where \<open>acc\<close> tells which responses were accepted; \<open>complete\<close>: it has an
  identifier, and the responses received from it are stored with a date and words.
\<close>

definition id_of :: "(string \<times> json) list \<Rightarrow> string" where
  "id_of c = (case dict_get c ''id'' of Some (JStr aid) \<Rightarrow> aid | _ \<Rightarrow> [])"

definition shown :: "'w contact_env \<Rightarrow> 'w \<Rightarrow> (string \<Rightarrow> string \<Rightarrow> bool) \<Rightarrow> string \<Rightarrow> string \<Rightarrow> json" where
  "shown env w acc aid said =
     (case me_exns (ai_mon (ct_aid env)) w said of
        Some (JObj ked) \<Rightarrow>
          JObj [(''dt'', jopt (dict_get ked ''dt'')),
                (''words'', case dict_get ked ''a'' of Some (JObj a) \<Rightarrow> jopt (dict_get a ''words'') | _ \<Rightarrow> JNull),
                (''said'', JStr said), (''authenticated'', JBool (acc aid said))]
      | _ \<Rightarrow> JNull)"

definition listed :: "'w contact_env \<Rightarrow> 'w \<Rightarrow> (string \<Rightarrow> string \<Rightarrow> bool) \<Rightarrow> (string \<times> json) list \<Rightarrow> (string \<times> json) list" where
  "listed env w acc c =
     dict_set (dict_set (dict_set c ''ends'' (ct_endsFor env w (id_of c)))
       ''challenges'' (JArr (map (shown env w acc (id_of c)) (me_reps (ai_mon (ct_aid env)) w (id_of c)))))
       ''wellKnowns'' (JArr (map (\<lambda>(url, dt). JObj [(''url'', JStr url), (''dt'', JStr dt)]) (ct_wkas env w (id_of c))))"

definition responded :: "'w contact_env \<Rightarrow> 'w \<Rightarrow> string \<Rightarrow> bool" where
  "responded env w said =
     (case me_exns (ai_mon (ct_aid env)) w said of
        Some (JObj ked) \<Rightarrow> (case dict_get ked ''a'' of
           Some (JObj a) \<Rightarrow> dict_get ked ''dt'' \<noteq> None \<and> dict_get a ''words'' \<noteq> None | _ \<Rightarrow> False)
      | _ \<Rightarrow> False)"

definition complete :: "'w contact_env \<Rightarrow> 'w \<Rightarrow> (string \<times> json) list \<Rightarrow> bool" where
  "complete env w c \<longleftrightarrow> dict_get c ''id'' = Some (JStr (id_of c)) \<and>
     list_all (responded env w) (me_reps (ai_mon (ct_aid env)) w (id_of c))"

abbreviation remote :: "'w contact_env \<Rightarrow> 'w \<Rightarrow> (string \<times> json) list \<Rightarrow> bool" where
  "remote env w c \<equiv> ct_kevers env w (id_of c) \<and> \<not> ct_prefixes env w (id_of c)"

lemma filterA_pure: "(\<And>x. x \<in> set xs \<Longrightarrow> f x w = (Inr (p x), w)) \<Longrightarrow> filterA f xs w = (Inr (filter p xs), w)"
  by (induction xs) (simp_all add: bindA_Inr)

lemma responded_iff:
  "responded env w said \<longleftrightarrow> (\<exists>ked a dt ws. me_exns (ai_mon (ct_aid env)) w said = Some (JObj ked) \<and>
     dict_get ked ''a'' = Some (JObj a) \<and> dict_get ked ''dt'' = Some dt \<and> dict_get a ''words'' = Some ws)"
proof (cases "me_exns (ai_mon (ct_aid env)) w said")
  case (Some j)
  show ?thesis
  proof (cases j)
    case (JObj ked)
    show ?thesis
    proof (cases "dict_get ked ''a''")
      case (Some a)
      then show ?thesis using \<open>_ = Some j\<close> JObj by (cases a) (auto simp: responded_def)
    qed (use Some JObj in \<open>simp add: responded_def\<close>)
  qed (use Some in \<open>simp_all add: responded_def\<close>)
qed (simp add: responded_def)

lemma challenge_entry_shown:
  assumes "responded env w said" and "acc aid said = (said \<in> set accs)"
  shows "challenge_entry env accs said w = (Inr (shown env w acc aid said), w)"
  using assms unfolding responded_iff by (elim exE conjE) (simp add: challenge_entry_def shown_def)

lemma authn_contact_listed:
  assumes "complete env w c"
  shows "authn_contact env c w = (Inr (listed env w (\<lambda>aid said. said \<in> set (dget (ct_chas env) w aid)) c), w)"
proof -
  let ?aid = "id_of c" and ?acc = "\<lambda>aid said. said \<in> set (dget (ct_chas env) w aid)"
  have "mapA (challenge_entry env (dget (ct_chas env) w ?aid)) (me_reps (ai_mon (ct_aid env)) w ?aid) w =
      (Inr (map (shown env w ?acc ?aid) (me_reps (ai_mon (ct_aid env)) w ?aid)), w)"
    using assms by (intro mapA_pure) (auto simp: complete_def list_all_iff challenge_entry_shown)
  then show ?thesis using assms by (simp add: authn_contact_def complete_def listed_def bindA_Inr)
qed

lemma filterA_remote:
  assumes "list_all (\<lambda>c. dict_get c ''id'' = Some (JStr (id_of c))) cs"
  shows "filterA (remote_known env) cs w = (Inr (filter (remote env w) cs), w)"
  using assms by (intro filterA_pure) (auto simp: remote_known_def list_all_iff)

lemma contacts_listed:
  assumes plain: "dict_get (rq_params req) ''group'' = None" "dict_get (rq_params req) ''filter_field'' = None"
    and ids: "list_all (\<lambda>c. dict_get c ''id'' = Some (JStr (id_of c))) (ct_list env w)"
    and good: "list_all (complete env w) (filter (remote env w) (ct_list env w))"
  shows "ContactCollectionEnd_on_get env req rep w = (Inr (rep\<lparr>rs_status := 200, rs_data := Some (JArr
      (map (\<lambda>c. JObj (listed env w (\<lambda>aid said. said \<in> set (dget (ct_chas env) w aid)) c))
        (filter (remote env w) (ct_list env w))))\<rparr>), w)"
proof -
  have "mapA (authn_contact env) (filter (remote env w) (ct_list env w)) w =
      (Inr (map (listed env w (\<lambda>aid said. said \<in> set (dget (ct_chas env) w aid))) (filter (remote env w) (ct_list env w))), w)"
    using good by (intro mapA_pure) (simp add: list_all_iff authn_contact_listed)
  then show ?thesis using plain
    by (simp add: ContactCollectionEnd_on_get_def authn_def filterA_remote [OF ids] bindA_Inr comp_def)
qed

text \<open>The store of accepted responses is apart from what a contact is made of.\<close>

definition chas_apart :: "'w contact_env \<Rightarrow> bool" where
  "chas_apart env \<longleftrightarrow> dup_ok (ct_chas env) \<and> dframes (ct_chas env) (\<lambda>w. (ct_list env w, ct_kevers env w, ct_prefixes env w)) \<and>
     dframes (ct_chas env) (\<lambda>w. (ct_endsFor env w, ct_wkas env w, me_reps (ai_mon (ct_aid env)) w, me_exns (ai_mon (ct_aid env)) w))"

lemma chas_apart_add:
  fixes source said :: string and w :: 'w
  assumes "chas_apart env" defines "w' \<equiv> snd (dadd (ct_chas env) w source said)"
  shows "ct_list env w' = ct_list env w" "ct_kevers env w' = ct_kevers env w" "ct_prefixes env w' = ct_prefixes env w"
    "ct_endsFor env w' = ct_endsFor env w" "ct_wkas env w' = ct_wkas env w"
    "me_reps (ai_mon (ct_aid env)) w' = me_reps (ai_mon (ct_aid env)) w" "me_exns (ai_mon (ct_aid env)) w' = me_exns (ai_mon (ct_aid env)) w"
    "s \<in> set (dget (ct_chas env) w' aid) \<longleftrightarrow> s \<in> set (dget (ct_chas env) w aid) \<or> aid = source \<and> s = said"
  using assms(1) by (auto simp: chas_apart_def frames_Pair w'_def store)

text \<open>
  C11. Without parameters the contacts are listed in their order, only those of known identifiers of others, each
  with its endpoints, well-knowns and the challenge responses received from it; a response is \<open>authenticated\<close> exactly
  when it was accepted. Accepting one of a known source (\<open>PUT\<close>) makes that one so for that source in the next
  list, and changes nothing else.
\<close>

theorem contact_list:
  fixes rep :: response
  assumes env: "chas_apart env"
    and plain: "dict_get (rq_params req) ''group'' = None" "dict_get (rq_params req) ''filter_field'' = None"
    and ids: "list_all (\<lambda>c. dict_get c ''id'' = Some (JStr (id_of c))) (ct_list env w)"
    and good: "list_all (complete env w) (filter (remote env w) (ct_list env w))"
    and put: "rq_media req' = Inr (JObj body)" "dict_get body ''said'' = Some v" "ct_saider env v = Inr said"
    and known: "ct_kevers env w source"
  defines "acc \<equiv> \<lambda>aid s. s \<in> set (dget (ct_chas env) w aid)"
  shows "\<exists>w'. ContactCollectionEnd_on_get env req rep w = (Inr (rep\<lparr>rs_status := 200, rs_data := Some (JArr
        (map (\<lambda>c. JObj (listed env w acc c)) (filter (remote env w) (ct_list env w))))\<rparr>), w) \<and>
    ChallengeVerifyResourceEnd_on_put env req' rep source w = (Inr (rep\<lparr>rs_status := 202\<rparr>), w') \<and>
    ContactCollectionEnd_on_get env req rep w' = (Inr (rep\<lparr>rs_status := 200, rs_data := Some (JArr
        (map (\<lambda>c. JObj (listed env w (\<lambda>aid s. acc aid s \<or> aid = source \<and> s = said) c))
          (filter (remote env w) (ct_list env w))))\<rparr>), w')"
proof -
  let ?w = "snd (dadd (ct_chas env) w source said)"
  note keep = chas_apart_add [OF env, where w = w and source = source and said = said]
  have "responded env ?w = responded env w" by (intro ext) (simp add: responded_def keep)
  then have same: "complete env ?w = complete env w" by (intro ext) (simp add: complete_def keep)
  have "shown env ?w a = shown env w a" for a by (intro ext) (simp add: shown_def keep)
  then have l: "listed env ?w (\<lambda>aid s. s \<in> set (dget (ct_chas env) ?w aid)) = listed env w (\<lambda>aid s. acc aid s \<or> aid = source \<and> s = said)"
    by (intro ext) (simp add: listed_def keep acc_def)
  have "ChallengeVerifyResourceEnd_on_put env req' rep source w = (Inr (rep\<lparr>rs_status := 202\<rparr>), ?w)"
    using put known by (simp add: ChallengeVerifyResourceEnd_on_put_def known_source_def)
  moreover have "ContactCollectionEnd_on_get env req rep ?w = (Inr (rep\<lparr>rs_status := 200, rs_data := Some (JArr
        (map (\<lambda>c. JObj (listed env w (\<lambda>aid s. acc aid s \<or> aid = source \<and> s = said) c))
          (filter (remote env w) (ct_list env w))))\<rparr>), ?w)"
    using contacts_listed [where env = env and w = ?w and req = req and rep = rep, OF plain] ids good
    by (simp only: keep(1-3) same l)
  ultimately show ?thesis using contacts_listed [where rep = rep, OF plain ids good] unfolding acc_def by blast
qed

subsection \<open>An organizer in memory\<close>

text \<open>The Habery knows \<open>E1\<close>, \<open>E2\<close> and \<open>EL\<close>, the last of which is its own.\<close>

record mem_contacts =
  mc_contacts :: "(string \<times> (string \<times> json) list) list"
  mc_chas :: "(string, string list) alist"

definition null_aid_env :: "'w mon_env \<Rightarrow> 'w aid_env" where
  "null_aid_env mon =
     \<lparr>ai_mon = mon, ai_rb = null_keeper, ai_depth = 9, ai_aids = null_suber, ai_caid = ''EC'', ai_names = null_suber,
      ai_habords = null_suber, ai_cntHabs = (\<lambda>_. 0), ai_habs = (\<lambda>_ _. None), ai_habByName = (\<lambda>_ _. None), ai_name = (\<lambda>_ _. []),
      ai_setName = (\<lambda>_ _. retA ()), ai_hkever = (\<lambda>_ _. None), ai_dts = (\<lambda>_ _. None), ai_known = (\<lambda>_ _. Inr False),
      ai_urls = (\<lambda>_ _. Inr False), ai_serder = (\<lambda>_. Inl TypeError), ai_verfers = (\<lambda>_. []), ai_ndigers = (\<lambda>_. []),
      ai_siger = jstr, ai_verfer = jstr, ai_diger = jstr, ai_latest = (\<lambda>_ _ _. True),
      ai_makeSignify = (\<lambda>_ _ _. raiseA TypeError), ai_makeGroup = (\<lambda>_ _ _ _ _ _. raiseA TypeError),
      ai_deleteHab = (\<lambda>_. retA False), ai_rotate = (\<lambda>_ _ _ _. retA ()), ai_interact = (\<lambda>_ _ _. retA ()), ai_show = (\<lambda>_. [])\<rparr>"

definition mem_put :: "string \<Rightarrow> (string \<times> json) list \<Rightarrow> (mem_contacts, unit) act" where
  "mem_put pfx d = modA (\<lambda>w. w\<lparr>mc_contacts := dict_set (mc_contacts w) pfx (dict_set d ''id'' (JStr pfx))\<rparr>)"

definition mem_contact_env :: "mem_contacts contact_env" where
  "mem_contact_env =
     \<lparr>ct_aid = null_aid_env ((plain_mon null_suber)
        \<lparr>me_reps := (\<lambda>_ pre. if pre = ''E1'' then [''D1'', ''D2''] else []),
         me_exns := (\<lambda>_ said. Some (JObj [(''dt'', JStr ''t''), (''a'', JObj [(''words'', jstrs [said])])]))\<rparr>),
      ct_kevers = (\<lambda>_ p. p \<in> {''E1'', ''E2'', ''EL''}), ct_prefixes = (\<lambda>_ p. p = ''EL''),
      ct_get = (\<lambda>w. dict_get (mc_contacts w)),
      ct_replace = (\<lambda>p body. case body of JObj d \<Rightarrow> mem_put p d | _ \<Rightarrow> raiseA TypeError),
      ct_update = (\<lambda>p body. case body of
         JObj d \<Rightarrow> (\<lambda>w. mem_put p (dict_update (case dict_get (mc_contacts w) p of None \<Rightarrow> [] | Some c \<Rightarrow> c) d) w) | _ \<Rightarrow> raiseA TypeError),
      ct_rem = (\<lambda>p w. (Inr (dict_get (mc_contacts w) p \<noteq> None), w\<lparr>mc_contacts := dict_del (mc_contacts w) p\<rparr>)),
      ct_list = (\<lambda>w. map snd (mc_contacts w)), ct_find = (\<lambda>_ _ _. Inr []), ct_values = (\<lambda>_ _ _. Inr []),
      ct_setImg = (\<lambda>_ _ _. retA ()), ct_getImgData = (\<lambda>_ _. None), ct_getImg = (\<lambda>_ _. []),
      ct_endsFor = (\<lambda>_ _. JObj []), ct_chas = mem_dup mc_chas (\<lambda>a w. w\<lparr>mc_chas := a\<rparr>) id, ct_saider = jstr, ct_wkas = (\<lambda>_ _. []),
      ct_generate = (\<lambda>_ _. Inr []), ct_parseOne = (\<lambda>_ _. retA ()), ct_processReply = (\<lambda>_ _ _. retA ()), ct_ends = (\<lambda>_ _. []),
      ct_rpes = (\<lambda>_ _. Inr []), ct_members = (\<lambda>_ _. ([], [])), ct_fetchUrls = (\<lambda>_ _ _. []), ct_roleUrls = (\<lambda>_ _ _ _. []),
      ct_set = id\<rparr>"

lemma mem_contact_org: "org_ok mem_contact_env"
  by (simp add: org_ok_def mem_contact_env_def mem_put_def Let_def fun_eq_iff)

lemma mem_contact_chas: "chas_apart mem_contact_env"
  by (simp add: chas_apart_def mem_contact_env_def null_aid_env_def mem_dup_ok mem_dup_frames)

definition no_contacts :: mem_contacts where
  "no_contacts = \<lparr>mc_contacts = [], mc_chas = DAList.empty\<rparr>"

definition two_contacts :: mem_contacts where
  "two_contacts = \<lparr>mc_contacts = [(''E1'', [(''id'', JStr ''E1'')]), (''EL'', [(''id'', JStr ''EL'')]), (''E9'', [(''id'', JStr ''E9'')])],
     mc_chas = DAList.empty\<rparr>"

definition alias_body :: "(string \<times> json) list" where
  "alias_body = [(''id'', JStr ''EX''), (''alias'', JStr ''ann'')]"

definition phone_body :: "(string \<times> json) list" where
  "phone_body = [(''alias'', JStr ''anna''), (''phone'', JStr ''1'')]"

theorem contact_lifecycle_witness:
  "\<exists>w1 w2 c2. ContactResourceEnd_on_post mem_contact_env (json_request (JObj alias_body)) fresh_response ''E1'' no_contacts =
      (Inr (fresh_response\<lparr>rs_status := 200, rs_data := Some (JObj [(''alias'', JStr ''ann''), (''id'', JStr ''E1'')])\<rparr>), w1) \<and>
    ContactResourceEnd_on_put mem_contact_env (json_request (JObj phone_body)) fresh_response ''E1'' w1 =
      (Inr (fresh_response\<lparr>rs_status := 200, rs_data := Some (JObj c2)\<rparr>), w2) \<and> dict_get c2 ''alias'' = Some (JStr ''anna'')"
proof -
  have c: "dict_set (dict_del alias_body ''id'') ''id'' (JStr ''E1'') = [(''alias'', JStr ''ann''), (''id'', JStr ''E1'')]"
    "dict_get phone_body ''alias'' = Some (JStr ''anna'')" by code_simp+
  have m: "rq_media (json_request j) = Inr j" for j by (simp add: json_request_def)
  have "ct_kevers mem_contact_env no_contacts ''E1''" "\<not> ct_prefixes mem_contact_env no_contacts ''E1''"
    "ct_get mem_contact_env no_contacts ''E1'' = None" "distinct (map fst phone_body)"
    by (simp_all add: mem_contact_env_def no_contacts_def phone_body_def)
  note life = contact_lifecycle [where ?d1.0 = alias_body and ?d2.0 = phone_body and rep = fresh_response,
    OF mem_contact_org this(1-3) m m this(4), unfolded c(1)]
  obtain w1 w2 c2 where "ContactResourceEnd_on_post mem_contact_env (json_request (JObj alias_body)) fresh_response ''E1'' no_contacts =
        (Inr (fresh_response\<lparr>rs_status := 200, rs_data := Some (JObj [(''alias'', JStr ''ann''), (''id'', JStr ''E1'')])\<rparr>), w1)"
      "ContactResourceEnd_on_put mem_contact_env (json_request (JObj phone_body)) fresh_response ''E1'' w1 =
        (Inr (fresh_response\<lparr>rs_status := 200, rs_data := Some (JObj c2)\<rparr>), w2)"
      and "\<forall>k. dict_get c2 k = (if k = ''id'' then Some (JStr ''E1'') else
         case dict_get phone_body k of Some v \<Rightarrow> Some v | None \<Rightarrow> dict_get alias_body k)"
    using life by (elim exE conjE) (rule that)
  moreover from this(3) have "dict_get c2 ''alias'' = Some (JStr ''anna'')" by (simp add: c(2))
  ultimately show ?thesis by blast
qed

theorem contact_list_witness:
  "\<exists>w'. ChallengeVerifyResourceEnd_on_put mem_contact_env (json_request (JObj [(''said'', JStr ''D2'')])) fresh_response ''E1'' two_contacts =
      (Inr (fresh_response\<lparr>rs_status := 202\<rparr>), w') \<and>
    ContactCollectionEnd_on_get mem_contact_env (json_request JNull) fresh_response w' =
      (Inr (fresh_response\<lparr>rs_status := 200, rs_data := Some (JArr [JObj [(''id'', JStr ''E1''), (''ends'', JObj []),
        (''challenges'', JArr [JObj [(''dt'', JStr ''t''), (''words'', jstrs [''D1'']), (''said'', JStr ''D1''), (''authenticated'', JBool False)],
           JObj [(''dt'', JStr ''t''), (''words'', jstrs [''D2'']), (''said'', JStr ''D2''), (''authenticated'', JBool True)]]),
        (''wellKnowns'', JArr [])]])\<rparr>), w')"
proof -
  let ?E = mem_contact_env
  have "filter (remote ?E two_contacts) (ct_list ?E two_contacts) = [[(''id'', JStr ''E1'')]]"
    by (simp add: mem_contact_env_def two_contacts_def id_of_def)
  moreover have "list_all (\<lambda>c. dict_get c ''id'' = Some (JStr (id_of c))) (ct_list ?E two_contacts)"
    by (simp add: mem_contact_env_def two_contacts_def id_of_def)
  moreover have "complete ?E two_contacts [(''id'', JStr ''E1'')]"
    by (simp add: complete_def responded_def mem_contact_env_def null_aid_env_def plain_mon_def id_of_def)
  moreover have "ct_saider ?E (JStr ''D2'') = Inr ''D2''" "ct_kevers ?E two_contacts ''E1''"
    by (simp_all add: mem_contact_env_def)
  moreover have "listed ?E two_contacts (\<lambda>aid s. s \<in> set (dget (ct_chas ?E) two_contacts aid) \<or> aid = ''E1'' \<and> s = ''D2'') [(''id'', JStr ''E1'')] =
      [(''id'', JStr ''E1''), (''ends'', JObj []),
        (''challenges'', JArr [JObj [(''dt'', JStr ''t''), (''words'', jstrs [''D1'']), (''said'', JStr ''D1''), (''authenticated'', JBool False)],
           JObj [(''dt'', JStr ''t''), (''words'', jstrs [''D2'']), (''said'', JStr ''D2''), (''authenticated'', JBool True)]]),
        (''wellKnowns'', JArr [])]"
    by (simp add: listed_def shown_def mem_contact_env_def null_aid_env_def plain_mon_def id_of_def two_contacts_def mem_dup_def
        alist_get_def DAList.lookup.rep_eq DAList.empty.rep_eq)
  ultimately show ?thesis
    using contact_list [OF mem_contact_chas, where w = two_contacts and req = "json_request JNull"
        and req' = "json_request (JObj [(''said'', JStr ''D2'')])" and body = "[(''said'', JStr ''D2'')]" and v = "JStr ''D2''"
        and said = "''D2''" and source = "''E1''" and rep = fresh_response]
    by (simp add: json_request_def)
qed

end
