(* ===== verification/Exchanges.thy ===== *)
theory Exchanges
  imports Contacts Wallet
begin

text \<open>
  Exchange messages as clients send and read them: the five steps of IPEX (\<open>app/ipexing.py\<close>) and the general
  endpoint, the query and the fetch of \<open>peer/exchanging.py\<close>. A message is parsed, put on the queue of the task that
  sends it and, for a grant or an admit, on that of a second task (\<open>Doers\<close>). Parsing, and cloning a stored
  message, are arguments (\<open>exn_env\<close>): \<open>xe_parse\<close> takes the event, its signatures, the hab and key state whose
  last establishment event the seal names, and the attachments.
\<close>

record 'w exn_env =
  xe_aid :: "'w aid_env"
  xe_parse :: "serder \<Rightarrow> string list \<Rightarrow> hab \<Rightarrow> idkever \<Rightarrow> string \<Rightarrow> ('w, unit) act"
  xe_clone :: "'w \<Rightarrow> string \<Rightarrow> exn + cloned option"

subsection \<open>Parsing and sending\<close>

definition referenced_hab :: "'w exn_env \<Rightarrow> string \<Rightarrow> ('w decks, hab) act" where
  "referenced_hab env name =
     dext (some_hab (find_hab (xe_aid env)) name (HTTPError 404 (name @ '' is not a valid reference to an identifier'')))"

text \<open>The text an f-string makes of a value.\<close>

definition shown_value :: "'w exn_env \<Rightarrow> json \<Rightarrow> string" where
  "shown_value env = show_value (ai_show (xe_aid env))"

definition known_recipient :: "'w exn_env \<Rightarrow> json \<Rightarrow> ('w decks, unit) act" where
  "known_recipient env recp =
     bindA (dext (readA (\<lambda>w. ai_known (xe_aid env) w recp))) (\<lambda>known.
     guardA known (HTTPError 400 (''attempt to send to unknown AID='' @ shown_value env recp)))"

definition signed_exn :: "'w exn_env \<Rightarrow> json \<Rightarrow> json \<Rightarrow> ('w decks, serder \<times> string list) act" where
  "signed_exn env ked sigs =
     bindA (liftA (ai_serder (xe_aid env) ked)) (\<lambda>serder.
     bindA (list_of (ai_siger (xe_aid env)) sigs) (\<lambda>sigers. retA (serder, sigers)))"

definition stream_exn :: "'w exn_env \<Rightarrow> hab \<Rightarrow> serder \<Rightarrow> string list \<Rightarrow> json \<Rightarrow> ('w decks, unit) act" where
  "stream_exn env hab serder sigers atc =
     bindA (dext (hkever (xe_aid env) hab)) (\<lambda>kever.
     bindA (liftA (case atc of JStr a \<Rightarrow> Inr a | _ \<Rightarrow> Inl AttributeError)) (\<lambda>atc.
     dext (xe_parse env serder sigers hab kever atc)))"

definition parse_exn :: "'w exn_env \<Rightarrow> hab \<Rightarrow> json \<Rightarrow> json \<Rightarrow> json \<Rightarrow> ('w decks, serder) act" where
  "parse_exn env hab ked sigs atc =
     bindA (signed_exn env ked sigs) (\<lambda>(serder, sigers).
     seqA (stream_exn env hab serder sigers atc) (retA serder))"

definition queue_exchange :: "serder \<Rightarrow> hab \<Rightarrow> json \<Rightarrow> ('w decks, unit) act" where
  "queue_exchange serder hab topic =
     modA (\<lambda>s. s\<lparr>dk_exchanges := dk_exchanges s @ [\<lparr>xm_said = se_said serder, xm_pre = hb_pre hab, xm_topic = topic\<rparr>]\<rparr>)"

definition submit_exchange :: "'w exn_env \<Rightarrow> serder \<Rightarrow> ('w decks, operation option) act" where
  "submit_exchange env serder =
     dext (Monitor_submit (ai_mon (xe_aid env)) (se_said serder) ''exchange'' (JObj [(''said'', JStr (se_said serder))]))"

text \<open>A message of the queue of admits or grants has the said of the body and no topic.\<close>

definition second_message :: "json \<Rightarrow> hab \<Rightarrow> ('w decks, exmsg) act" where
  "second_message ked hab =
     bindA (liftA (jitem ked ''d'')) (\<lambda>said.
     bindA (liftA (jstr said)) (\<lambda>said. retA \<lparr>xm_said = said, xm_pre = hb_pre hab, xm_topic = JNull\<rparr>))"

subsection \<open>IPEX\<close>

definition sendAdmit :: "'w exn_env \<Rightarrow> hab \<Rightarrow> json \<Rightarrow> json \<Rightarrow> ('w decks, operation option) act" where
  "sendAdmit env hab ked sigs =
     bindA (liftA (recipient ked)) (\<lambda>recp.
     seqA (known_recipient env recp)
     (bindA (parse_exn env hab ked sigs (JStr [])) (\<lambda>serder.
      seqA (queue_exchange serder hab (JStr ''credential''))
      (bindA (second_message ked hab) (\<lambda>msg.
       seqA (modA (\<lambda>s. s\<lparr>dk_admits := dk_admits s @ [msg]\<rparr>)) (submit_exchange env serder))))))"

text \<open>\<open>recp or None\<close>.\<close>

definition or_none :: "json \<Rightarrow> json" where
  "or_none recp = (if jtrue recp then recp else JNull)"

definition sendGrant :: "'w exn_env \<Rightarrow> hab \<Rightarrow> json \<Rightarrow> json \<Rightarrow> json \<Rightarrow> ('w decks, operation option) act" where
  "sendGrant env hab ked sigs atc =
     bindA (liftA (recipient ked)) (\<lambda>recp.
     seqA (known_recipient env (or_none recp))
     (bindA (parse_exn env hab ked sigs atc) (\<lambda>serder.
      seqA (queue_exchange serder hab (JStr ''credential''))
      (bindA (second_message ked hab) (\<lambda>msg.
       seqA (modA (\<lambda>s. s\<lparr>dk_grants := dk_grants s @ [msg]\<rparr>)) (submit_exchange env serder))))))"

definition sendApply :: "'w exn_env \<Rightarrow> hab \<Rightarrow> json \<Rightarrow> json \<Rightarrow> ('w decks, operation option) act" where
  "sendApply env hab ked sigs =
     bindA (liftA (recipient ked)) (\<lambda>recp.
     seqA (known_recipient env (or_none recp))
     (bindA (parse_exn env hab ked sigs (JStr [])) (\<lambda>serder.
      seqA (queue_exchange serder hab (JStr ''credential'')) (submit_exchange env serder))))"

definition sendOffer :: "'w exn_env \<Rightarrow> hab \<Rightarrow> json \<Rightarrow> json \<Rightarrow> json \<Rightarrow> ('w decks, operation option) act" where
  "sendOffer env hab ked sigs atc =
     bindA (liftA (recipient ked)) (\<lambda>recp.
     seqA (known_recipient env recp)
     (bindA (parse_exn env hab ked sigs atc) (\<lambda>serder.
      seqA (queue_exchange serder hab (JStr ''credential'')) (submit_exchange env serder))))"

definition sendAgree :: "'w exn_env \<Rightarrow> hab \<Rightarrow> json \<Rightarrow> json \<Rightarrow> ('w decks, operation option) act" where
  "sendAgree env hab ked sigs =
     bindA (liftA (recipient ked)) (\<lambda>recp.
     seqA (known_recipient env (or_none recp))
     (bindA (parse_exn env hab ked sigs (JStr [])) (\<lambda>serder.
      seqA (queue_exchange serder hab (JStr ''credential'')) (submit_exchange env serder))))"

definition IpexAdmitCollectionEnd_on_post ::
  "'w exn_env \<Rightarrow> request \<Rightarrow> response \<Rightarrow> string \<Rightarrow> ('w decks, response) act" where
  "IpexAdmitCollectionEnd_on_post env req rep name =
     bindA (referenced_hab env name) (\<lambda>hab.
     bindA (liftA (rq_media req)) (\<lambda>body.
     bindA (liftA (getRequiredParam body ''exn'')) (\<lambda>ked.
     bindA (liftA (getRequiredParam body ''sigs'')) (\<lambda>sigs.
     bindA (liftA (jitem ked ''r'')) (\<lambda>route.
     bindA (if route = JStr ''/ipex/admit'' then sendAdmit env hab ked sigs
            else raiseA (HTTPError 400 (''invalid message route '' @ shown_value env route)))
       (sent_200 rep))))))"

definition IpexGrantCollectionEnd_on_post ::
  "'w exn_env \<Rightarrow> request \<Rightarrow> response \<Rightarrow> string \<Rightarrow> ('w decks, response) act" where
  "IpexGrantCollectionEnd_on_post env req rep name =
     bindA (referenced_hab env name) (\<lambda>hab.
     bindA (liftA (rq_media req)) (\<lambda>body.
     bindA (liftA (getRequiredParam body ''exn'')) (\<lambda>ked.
     bindA (liftA (getRequiredParam body ''sigs'')) (\<lambda>sigs.
     bindA (liftA (getRequiredParam body ''atc'')) (\<lambda>atc.
     bindA (liftA (jitem ked ''r'')) (\<lambda>route.
     bindA (if route = JStr ''/ipex/grant'' then sendGrant env hab ked sigs atc
            else raiseA (HTTPError 400 (''invalid route '' @ shown_value env route)))
       (sent_200 rep)))))))"

definition IpexApplyCollectionEnd_on_post ::
  "'w exn_env \<Rightarrow> request \<Rightarrow> response \<Rightarrow> string \<Rightarrow> ('w decks, response) act" where
  "IpexApplyCollectionEnd_on_post env req rep name =
     bindA (referenced_hab env name) (\<lambda>hab.
     bindA (liftA (rq_media req)) (\<lambda>body.
     bindA (liftA (getRequiredParam body ''exn'')) (\<lambda>ked.
     bindA (liftA (getRequiredParam body ''sigs'')) (\<lambda>sigs.
     bindA (liftA (jitem ked ''r'')) (\<lambda>route.
     bindA (if route = JStr ''/ipex/apply'' then sendApply env hab ked sigs
            else raiseA (HTTPError 400 (''invalid message route '' @ shown_value env route)))
       (sent_200 rep))))))"

definition IpexOfferCollectionEnd_on_post ::
  "'w exn_env \<Rightarrow> request \<Rightarrow> response \<Rightarrow> string \<Rightarrow> ('w decks, response) act" where
  "IpexOfferCollectionEnd_on_post env req rep name =
     bindA (referenced_hab env name) (\<lambda>hab.
     bindA (liftA (rq_media req)) (\<lambda>body.
     bindA (liftA (getRequiredParam body ''exn'')) (\<lambda>ked.
     bindA (liftA (getRequiredParam body ''sigs'')) (\<lambda>sigs.
     bindA (liftA (getRequiredParam body ''atc'')) (\<lambda>atc.
     bindA (liftA (jitem ked ''r'')) (\<lambda>route.
     bindA (if route = JStr ''/ipex/offer'' then sendOffer env hab ked sigs atc
            else raiseA (HTTPError 400 (''invalid route '' @ shown_value env route)))
       (sent_200 rep)))))))"

definition IpexAgreeCollectionEnd_on_post ::
  "'w exn_env \<Rightarrow> request \<Rightarrow> response \<Rightarrow> string \<Rightarrow> ('w decks, response) act" where
  "IpexAgreeCollectionEnd_on_post env req rep name =
     bindA (referenced_hab env name) (\<lambda>hab.
     bindA (liftA (rq_media req)) (\<lambda>body.
     bindA (liftA (getRequiredParam body ''exn'')) (\<lambda>ked.
     bindA (liftA (getRequiredParam body ''sigs'')) (\<lambda>sigs.
     bindA (liftA (jitem ked ''r'')) (\<lambda>route.
     bindA (if route = JStr ''/ipex/agree'' then sendAgree env hab ked sigs
            else raiseA (HTTPError 400 (''invalid route '' @ shown_value env route)))
       (sent_200 rep))))))"

subsection \<open>Other exchange messages\<close>

text \<open>The route is read for a log line.\<close>

definition ExchangeCollectionEnd_on_post ::
  "'w exn_env \<Rightarrow> request \<Rightarrow> response \<Rightarrow> string \<Rightarrow> ('w decks, response) act" where
  "ExchangeCollectionEnd_on_post env req rep name =
     bindA (liftA (rq_media req)) (\<lambda>body.
     bindA (referenced_hab env name) (\<lambda>hab.
     bindA (liftA (getRequiredParam body ''exn'')) (\<lambda>ked.
     bindA (liftA (getRequiredParam body ''sigs'')) (\<lambda>sigs.
     bindA (liftA (getRequiredParam body ''atc'')) (\<lambda>atc.
     bindA (liftA (getRequiredParam body ''tpc'')) (\<lambda>topic.
     bindA (liftA (recipient ked)) (\<lambda>recp.
     seqA (known_recipient env recp)
     (bindA (signed_exn env ked sigs) (\<lambda>(serder, sigers).
      bindA (liftA (jitem (se_ked serder) ''r'')) (\<lambda>_.
      seqA (stream_exn env hab serder sigers atc)
      (seqA (queue_exchange serder hab topic)
        (retA (rep\<lparr>rs_status := 202, rs_data := Some (se_ked serder)\<rparr>)))))))))))))"

definition cloned_json :: "cloned \<Rightarrow> json" where
  "cloned_json c = JObj [(''exn'', se_ked (cl_serder c)), (''pathed'', JObj (map (\<lambda>(k, v). (k, JStr v)) (cl_pathed c)))]"

definition exn_of :: "'w exn_env \<Rightarrow> string \<Rightarrow> ('w, json) act" where
  "exn_of env said =
     bindA (readA (\<lambda>w. xe_clone env w said)) (\<lambda>c.
     case c of None \<Rightarrow> raiseA AttributeError | Some c \<Rightarrow> retA (cloned_json c))"

text \<open>The fields of a query are those of a query for credentials.\<close>

definition ExchangeQueryCollectionEnd_on_post ::
  "'w exn_env \<Rightarrow> 'w cursor_env \<Rightarrow> (json \<Rightarrow> exn + string) \<Rightarrow> request \<Rightarrow> response \<Rightarrow> ('w seeker, response) act" where
  "ExchangeQueryCollectionEnd_on_post env ce saider req rep =
     bindA (liftA (query_fields req)) (\<lambda>(filtr, srt, skip, limit).
     bindA (liftA (jitems filtr)) (\<lambda>fs.
     bindA (liftA (sort_list srt)) (\<lambda>ordr.
     bindA (liftA (jint_option skip)) (\<lambda>k.
     bindA (liftA (jint_option limit)) (\<lambda>l.
     bindA (Seeker_find ce fs ordr k l) (\<lambda>saids.
     bindA (liftA (mapE (\<lambda>s. saider (JStr s)) saids)) (\<lambda>saids.
     bindA (sext (mapA (exn_of env) saids)) (\<lambda>exns.
     retA (rep\<lparr>rs_status := 200, rs_data := Some (JArr exns)\<rparr>)))))))))"

definition ExchangeResourceEnd_on_get :: "'w exn_env \<Rightarrow> response \<Rightarrow> string \<Rightarrow> ('w, response) act" where
  "ExchangeResourceEnd_on_get env rep said =
     bindA (readA (\<lambda>w. xe_clone env w said)) (\<lambda>c.
     case c of
       None \<Rightarrow> raiseA (HTTPError 404 (''SAID '' @ said @ '' does not match a verified EXN message''))
     | Some c \<Rightarrow> retA (rep\<lparr>rs_status := 200, rs_data := Some (cloned_json c)\<rparr>))"

subsection \<open>What the steps of IPEX share\<close>

text \<open>
  Every step checks the recipient, parses the message, queues it and submits its operation; \<open>extra\<close> is the second
  queue of a grant or an admit. \<open>norm\<close> and \<open>attached\<close> are what the steps differ in besides.
\<close>

locale ipex_step =
  fixes env :: "'w exn_env" and send :: "hab \<Rightarrow> json \<Rightarrow> json \<Rightarrow> json \<Rightarrow> ('w decks, operation option) act"
    and norm :: "json \<Rightarrow> json" and attached :: "json \<Rightarrow> json" and extra :: "json \<Rightarrow> hab \<Rightarrow> ('w decks, unit) act"
  assumes steps: "send hab ked sigs atc =
     bindA (liftA (recipient ked)) (\<lambda>recp.
     seqA (known_recipient env (norm recp))
     (bindA (parse_exn env hab ked sigs (attached atc)) (\<lambda>serder.
      seqA (queue_exchange serder hab (JStr ''credential'')) (seqA (extra ked hab) (submit_exchange env serder)))))"
    and second: "extra ked hab s = (r, s') \<Longrightarrow> dk_exchanges s' = dk_exchanges s \<and> dk_world s' = dk_world s"
begin

lemma refuses_unknown:
  assumes "recipient ked = Inr recp" and "ai_known (xe_aid env) (dk_world s) (norm recp) = Inr False"
  shows "send hab ked sigs atc s = (Inl (HTTPError 400 (''attempt to send to unknown AID='' @ shown_value env (norm recp))), s)"
  using assms by (simp add: steps known_recipient_def dext_run bindA_def)

lemma accepts:
  assumes "send hab ked sigs atc s = (Inr o', s')"
  obtains serder w s2 where "ai_serder (xe_aid env) ked = Inr serder"
    and "extra ked hab (s\<lparr>dk_world := w, dk_exchanges := dk_exchanges s @
      [\<lparr>xm_said = se_said serder, xm_pre = hb_pre hab, xm_topic = JStr ''credential''\<rparr>]\<rparr>) = (Inr (), s2)"
    and "submit_exchange env serder s2 = (Inr o', s')"
proof -
  from assms obtain recp s1 serder s2 s3 where r: "known_recipient env (norm recp) s = (Inr (), s1)"
    and parsed: "parse_exn env hab ked sigs (attached atc) s1 = (Inr serder, s2)"
    and ex: "extra ked hab (s2\<lparr>dk_exchanges := dk_exchanges s2 @
      [\<lparr>xm_said = se_said serder, xm_pre = hb_pre hab, xm_topic = JStr ''credential''\<rparr>]\<rparr>) = (Inr (), s3)"
    and sub: "submit_exchange env serder s3 = (Inr o', s')"
    unfolding steps seqA_def queue_exchange_def by (auto elim!: bindA_eq_InrD)
  have "s1 = s" using r by (auto simp: known_recipient_def dext_run guardA_def elim!: bindA_eq_InrD split: if_splits)
  with parsed obtain w where "ai_serder (xe_aid env) ked = Inr serder" and "s2 = s\<lparr>dk_world := w\<rparr>"
    by (auto simp: parse_exn_def signed_exn_def stream_exn_def list_of_def mapA_liftA elim!: bindA_eq_InrD dest!: dext_InrD)
  with ex sub that show ?thesis by simp
qed

end

definition second_queue :: "(exmsg \<Rightarrow> 'w decks \<Rightarrow> 'w decks) \<Rightarrow> json \<Rightarrow> hab \<Rightarrow> ('w decks, unit) act" where
  "second_queue put ked hab = bindA (second_message ked hab) (\<lambda>msg. modA (put msg))"

lemma second_queue_keeps:
  assumes "\<And>m s. dk_exchanges (put m s) = dk_exchanges s \<and> dk_world (put m s) = dk_world s"
    and "second_queue put ked hab s = (r, s')"
  shows "dk_exchanges s' = dk_exchanges s \<and> dk_world s' = dk_world s"
  using assms(2) by (auto simp: second_queue_def second_message_def bindA_def assms(1) split: sum.splits)

lemma second_queue_Inr:
  "second_queue put ked hab s = (Inr u, s') \<Longrightarrow> \<exists>said. jitem ked ''d'' = Inr (JStr said) \<and>
     s' = put \<lparr>xm_said = said, xm_pre = hb_pre hab, xm_topic = JNull\<rparr> s"
  by (auto simp: second_queue_def second_message_def elim!: bindA_eq_InrD jstr.elims)

interpretation admits: ipex_step env "\<lambda>hab ked sigs atc. sendAdmit env hab ked sigs" "\<lambda>r. r" "\<lambda>_. JStr []"
  "second_queue (\<lambda>m s. s\<lparr>dk_admits := dk_admits s @ [m]\<rparr>)"
  by (unfold_locales, simp add: sendAdmit_def second_queue_def seqA_def bindA_assoc, rule second_queue_keeps [rotated], assumption, simp)

interpretation grants: ipex_step env "sendGrant env" or_none "\<lambda>atc. atc" "second_queue (\<lambda>m s. s\<lparr>dk_grants := dk_grants s @ [m]\<rparr>)"
  by (unfold_locales, simp add: sendGrant_def second_queue_def seqA_def bindA_assoc, rule second_queue_keeps [rotated], assumption, simp)

lemma retA_seq: "bindA (retA x) f = f x"
  by (rule ext) simp

interpretation applies: ipex_step env "\<lambda>hab ked sigs atc. sendApply env hab ked sigs" or_none "\<lambda>_. JStr []" "\<lambda>_ _. retA ()"
  by unfold_locales (simp_all add: sendApply_def seqA_def retA_seq)

interpretation offers: ipex_step env "sendOffer env" "\<lambda>r. r" "\<lambda>atc. atc" "\<lambda>_ _. retA ()"
  by unfold_locales (simp_all add: sendOffer_def seqA_def retA_seq)

interpretation agrees: ipex_step env "\<lambda>hab ked sigs atc. sendAgree env hab ked sigs" or_none "\<lambda>_. JStr []" "\<lambda>_ _. retA ()"
  by unfold_locales (simp_all add: sendAgree_def seqA_def retA_seq)

subsection \<open>What is refused leaves nothing behind\<close>

definition ipex_posts :: "'w exn_env \<Rightarrow> (string \<times> (request \<Rightarrow> response \<Rightarrow> string \<Rightarrow> ('w decks, response) act)) list" where
  "ipex_posts env =
     [(''/ipex/admit'', IpexAdmitCollectionEnd_on_post env), (''/ipex/grant'', IpexGrantCollectionEnd_on_post env),
      (''/ipex/apply'', IpexApplyCollectionEnd_on_post env), (''/ipex/offer'', IpexOfferCollectionEnd_on_post env),
      (''/ipex/agree'', IpexAgreeCollectionEnd_on_post env)]"

text \<open>
  C38. Each endpoint of IPEX takes only messages of its own route, and only to a recipient the agent knows. Any other is
  answered with status 400, and nothing is parsed, queued or submitted.
\<close>

theorem ipex_refused:
  fixes rep :: response
  assumes hab: "find_hab (xe_aid env) name (dk_world s) = Some hab"
    and body: "rq_media req = Inr (JObj body)" "dict_get body ''exn'' = Some (JObj ked)" "dict_get body ''sigs'' = Some sigs"
      "dict_get body ''atc'' = Some atc" "sigs \<noteq> JNull" "atc \<noteq> JNull"
    and exn: "dict_get ked ''r'' = Some (JStr route)" "dict_get ked ''rp'' = Some (JStr recp)" "recp \<noteq> []"
      "ai_known (xe_aid env) (dk_world s) (JStr recp) = Inr known"
    and own: "(r, post) \<in> set (ipex_posts env)" and bad: "route \<noteq> r \<or> \<not> known"
  shows "\<exists>d. post req rep name s = (Inl (HTTPError 400 d), s) \<and>
    (if route = r then d = ''attempt to send to unknown AID='' @ recp else d \<in> {''invalid message route '' @ route, ''invalid route '' @ route})"
proof -
  have h: "referenced_hab env name s = (Inr hab, s)" using hab by (simp add: referenced_hab_def dext_run some_hab_def)
  have recipient: "recipient (JObj ked) = Inr (JStr recp)" using exn by (simp add: recipient_def)
  have v: "shown_value env (JStr x) = x" for x by (simp add: shown_value_def show_value_def)
  have n: "or_none (JStr recp) = JStr recp" using exn(3) by (simp add: or_none_def)
  have p: "getRequiredParam (JObj body) ''exn'' = Inr (JObj ked)" "getRequiredParam (JObj body) ''sigs'' = Inr sigs"
    "getRequiredParam (JObj body) ''atc'' = Inr atc" using body by simp_all
  note run = bindA_Inr h body(1) p exn(1) v
  show ?thesis
  proof (cases "route = r")
    case True
    with bad exn(4) have unknown: "ai_known (xe_aid env) (dk_world s) (JStr recp) = Inr False" by simp
    note refused = admits.refuses_unknown [where env = env and s = s, OF recipient unknown] grants.refuses_unknown [where env = env and s = s, OF recipient, unfolded n, OF unknown]
      applies.refuses_unknown [where env = env and s = s, OF recipient, unfolded n, OF unknown] offers.refuses_unknown [where env = env and s = s, OF recipient unknown]
      agrees.refuses_unknown [where env = env and s = s, OF recipient, unfolded n, OF unknown]
    from own True show ?thesis
      by (auto simp: ipex_posts_def IpexAdmitCollectionEnd_on_post_def IpexGrantCollectionEnd_on_post_def IpexApplyCollectionEnd_on_post_def
          IpexOfferCollectionEnd_on_post_def IpexAgreeCollectionEnd_on_post_def run bindA_Inl refused 
            )
  next
    case False
    with own show ?thesis
      by (auto simp: ipex_posts_def IpexAdmitCollectionEnd_on_post_def IpexGrantCollectionEnd_on_post_def IpexApplyCollectionEnd_on_post_def
          IpexOfferCollectionEnd_on_post_def IpexAgreeCollectionEnd_on_post_def run)
  qed
qed

subsection \<open>A grant from its request to its tasks\<close>

lemma status_exchange_run:
  assumes "op_type o' = ''exchange''" and "me_exchange mon (op_oid o') w = (Inr c, w)"
  shows "status mon o' w = (Inr (if c then finished o' (JObj [(''said'', JStr (op_oid o'))]) else pending o'), w)"
  using assms by (simp add: status_def status_exchange_def bindA_Inr)

lemma submit_exchange_stored:
  assumes "mon_ok (ai_mon (xe_aid env))" and "submit_exchange env serder s = (r, s')"
  shows "\<exists>o' w. s' = s\<lparr>dk_world := w\<rparr> \<and> sget (me_ops (ai_mon (xe_aid env))) w (''exchange.'' @ se_said serder) = Some o' \<and>
    op_type o' = ''exchange'' \<and> op_oid o' = se_said serder"
proof -
  from assms(2) obtain w where w: "Monitor_submit (ai_mon (xe_aid env)) (se_said serder) ''exchange'' (JObj [(''said'', JStr (se_said serder))]) (dk_world s) = (r, w)"
    "s' = s\<lparr>dk_world := w\<rparr>" unfolding submit_exchange_def by (auto dest: dext_InrD)
  have "''exchange'' \<in> set OpTypes" by (simp add: OpTypes_def)
  from Monitor_submit_stored [OF assms(1) this w(1)] w(2) show ?thesis by auto
qed

lemma complete_grant_leaves:
  assumes "de_complete tasks (xm_said m) (dk_world t) = (Inr True, w)"
  shows "dk_grants (snd (GrantDoer_recur tasks m t)) = dk_grants t"
proof -
  have k: "keeps (\<lambda>s. dk_grants s = dk_grants t) (dext x)" for x :: "('b, 'c) act" by (intro keeps_dext) simp
  have run: "GrantDoer_recur tasks m t = bindA (post_complete tasks m) (\<lambda>_. retA True) (t\<lparr>dk_world := w\<rparr>)"
    using assms by (simp add: GrantDoer_recur_def postGrant_def bindA_def [of "dext (de_complete tasks (xm_said m))"] dext_run)
  have "keeps (\<lambda>s. dk_grants s = dk_grants t) (bindA (post_complete tasks m) (\<lambda>_. retA True))"
    unfolding post_complete_def by (intro wp k) (auto intro!: wp k split: option.splits if_splits)
  from keepsD [OF this _ prod.collapse [symmetric], of "t\<lparr>dk_world := w\<rparr>"] run show ?thesis by simp
qed

text \<open>The operation, the queues and the task of a message stand and fall with the completeness of its signatures.\<close>

lemma exchange_attempt:
  assumes "de_complete tasks said = me_exchange mon said" and "me_exchange mon said w = (Inr c, w)" and "xm_said m = said"
  shows "fst (exchange_one tasks deliveries w m) = c"
  using assms by (simp add: exchange_one_def)

lemma grant_attempt:
  assumes "de_complete tasks said = me_exchange mon said" and "me_exchange mon said (dk_world t) = (Inr c, dk_world t)" and "xm_said m = said"
  shows "dk_grants (snd (GrantDoer_recur tasks m t)) = dk_grants t @ (if c then [] else [m])"
proof (cases c)
  case True
  with assms complete_grant_leaves [of tasks m t "dk_world t"] show ?thesis by simp
qed (use assms in \<open>simp add: GrantDoer_recur_def postGrant_def bindA_def dext_run\<close>)

text \<open>
  C37. An accepted grant is queued for both tasks, and its operation is stored. The operation tells how far the
  signatures are, not the messages: while they are incomplete it is pending, and both tasks put the message back at the
  end of their queues; as soon as they are complete it is finished, although the message is still to be sent, and each
  task drops the message at its next attempt, whether sending it succeeds or not.
\<close>

theorem grant_posted:
  fixes env :: "'w exn_env" and tasks :: "'w doer_env"
  assumes ok: "mon_ok (ai_mon (xe_aid env))" and hab: "find_hab (xe_aid env) name (dk_world s) = Some hab"
    and body: "rq_media req = Inr (JObj body)" "dict_get body ''exn'' = Some (JObj ked)"
    and exn: "ai_serder (xe_aid env) (JObj ked) = Inr serder" "dict_get ked ''d'' = Some (JStr (se_said serder))"
    and run: "IpexGrantCollectionEnd_on_post env req rep name s = (Inr rep', s1)"
    and tasks: "de_complete tasks (se_said serder) = me_exchange (ai_mon (xe_aid env)) (se_said serder)"
  defines "mon \<equiv> ai_mon (xe_aid env)" and "said \<equiv> se_said serder"
    and "m1 \<equiv> \<lparr>xm_said = se_said serder, xm_pre = hb_pre hab, xm_topic = JStr ''credential''\<rparr>"
    and "m2 \<equiv> \<lparr>xm_said = se_said serder, xm_pre = hb_pre hab, xm_topic = JNull\<rparr>"
  shows "rs_status rep' = 200 \<and> dk_exchanges s1 = dk_exchanges s @ [m1] \<and> dk_grants s1 = dk_grants s @ [m2] \<and>
    (\<exists>o'. sget (me_ops mon) (dk_world s1) (''exchange.'' @ said) = Some o' \<and>
      (\<forall>t c ms deliveries. me_exchange mon said (dk_world t) = (Inr c, dk_world t) \<longrightarrow>
        status mon o' (dk_world t) = (Inr (if c then finished o' (JObj [(''said'', JStr said)]) else pending o'), dk_world t) \<and>
        dk_grants (snd (GrantDoer_recur tasks m2 t)) = dk_grants t @ (if c then [] else [m2]) \<and>
        (dk_exchanges t = m1 # ms \<longrightarrow>
          dk_exchanges (snd (ExchangeSender_recur tasks (dext deliveries) t)) = ms @ (if c then [] else [m1]))))"
proof -
  have h: "referenced_hab env name s = (Inr hab, s)" using hab by (simp add: referenced_hab_def dext_run some_hab_def)
  from run obtain sigs atc o1 where sent: "sendGrant env hab (JObj ked) sigs atc s = (Inr o1, s1)" and rep: "rs_status rep' = 200"
    using body by (auto simp: IpexGrantCollectionEnd_on_post_def bindA_Inr h sent_200_def getRequiredParam_def
        elim!: bindA_eq_InrD split: option.splits if_splits)
  obtain x w s2 where x: "ai_serder (xe_aid env) (JObj ked) = Inr x"
    and "second_queue (\<lambda>m s. s\<lparr>dk_grants := dk_grants s @ [m]\<rparr>) (JObj ked) hab (s\<lparr>dk_world := w, dk_exchanges := dk_exchanges s @
        [\<lparr>xm_said = se_said x, xm_pre = hb_pre hab, xm_topic = JStr ''credential''\<rparr>]\<rparr>) = (Inr (), s2)"
    and "submit_exchange env x s2 = (Inr o1, s1)" by (rule grants.accepts [OF sent])
  moreover have "x = serder" using x exn(1) by simp
  ultimately have second: "second_queue (\<lambda>m s. s\<lparr>dk_grants := dk_grants s @ [m]\<rparr>) (JObj ked) hab
        (s\<lparr>dk_world := w, dk_exchanges := dk_exchanges s @ [m1]\<rparr>) = (Inr (), s2)"
    and sub: "submit_exchange env serder s2 = (Inr o1, s1)" unfolding m1_def by simp_all
  have s2: "s2 = s\<lparr>dk_world := w, dk_exchanges := dk_exchanges s @ [m1], dk_grants := dk_grants s @ [m2]\<rparr>"
    using second_queue_Inr [OF second] exn(2) by (simp add: m2_def)
  obtain o' w' where stored: "s1 = s2\<lparr>dk_world := w'\<rparr>" "sget (me_ops mon) w' (''exchange.'' @ said) = Some o'"
      "op_type o' = ''exchange''" "op_oid o' = said"
    using submit_exchange_stored [OF ok sub] unfolding mon_def said_def by blast
  have "status mon o' (dk_world t) = (Inr (if c then finished o' (JObj [(''said'', JStr said)]) else pending o'), dk_world t) \<and>
        dk_grants (snd (GrantDoer_recur tasks m2 t)) = dk_grants t @ (if c then [] else [m2]) \<and>
        (dk_exchanges t = m1 # ms \<longrightarrow>
          dk_exchanges (snd (ExchangeSender_recur tasks (dext deliveries) t)) = ms @ (if c then [] else [m1]))"
    if c: "me_exchange mon said (dk_world t) = (Inr c, dk_world t)" for t c ms deliveries
  proof -
    have t: "de_complete tasks said = me_exchange mon said" using tasks by (simp add: mon_def said_def)
    have "xm_said m1 = said" "xm_said m2 = said" by (simp_all add: m1_def m2_def said_def)
    then show ?thesis
      using status_exchange_run [OF stored(3), of mon] c stored(4) grant_attempt [OF t c] exchange_attempt [OF t c]
        sender.turn [of t m1 ms tasks deliveries] by (simp del: if_split)
  qed
  then show ?thesis using rep stored(1,2) s2 by (intro conjI exI [of _ o']) auto
qed

subsection \<open>A search that can not be answered\<close>

text \<open>
  A search for a field without index fails. As soon as one message is stored (with a said of the usual length),
  a query with a single condition on such a field ends in \<open>ValueError\<close>, whatever the value and the page asked for; without messages the answer is the empty list.
\<close>

theorem exchange_search_unindexed:
  fixes rep :: response
  assumes fields: "query_fields req = Inr (JObj [(f, v)], srt, skip, limit)" "\<And>d. v \<noteq> JObj d"
      "sort_list srt = Inr None" "jint_option skip = Inr k" "jint_option limit = Inr l"
    and path: "se_bext se f = Inr p" and unindexed: "dict_get (sk_indexes s) p = None"
    and usual: "list_all (\<lambda>said. length said \<noteq> 2) (items (sk_world s))"
  shows "ExchangeQueryCollectionEnd_on_post env (exn_cursor se exns items) saider req rep s =
    (if items (sk_world s) = [] then (Inr (rep\<lparr>rs_status := 200, rs_data := Some (JArr [])\<rparr>), s)
     else (Inl (ValueError ''too many values to unpack''), s))"
proof -
  define c where "c = \<lparr>cu_filtr = [(f, v)], cu_ops = [Eq f p v], cu_sort = [], cu_skip = (case k of None \<Rightarrow> 0 | Some n \<Rightarrow> n),
    cu_limit = (case l of None \<Rightarrow> 25 | Some n \<Rightarrow> n)\<rparr>"
  let ?ce = "exn_cursor se exns items"
  have made: "make_cursor se [(f, v)] None k l = Inr c"
  proof (cases v)
    case (JObj d)
    with fields(2) [of d] show ?thesis by simp
  qed (use path in \<open>simp_all add: make_cursor_def make_Eq_def c_def\<close>)
  have scan: "ce_scan ?ce s = (if items (sk_world s) = [] then (Inr [], s) else (Inl (ValueError ''too many values to unpack''), s))"
    using usual by (cases "items (sk_world s)") (simp_all add: exn_cursor_def)
  have "query_saids ?ce c s = (if items (sk_world s) = [] then (Inr [], s) else (Inl (ValueError ''too many values to unpack''), s))"
    using unindexed scan
    by (simp add: query_saids_def indexSearch_def indexScan_def c_def fullTableScan_def tableScan_def bindA_Inr bindA_Inl)
  then have "Cursor_query ?ce c s = (if items (sk_world s) = [] then (Inr [], s) else (Inl (ValueError ''too many values to unpack''), s))"
    by (cases "items (sk_world s) = []") (simp_all add: Cursor_query_def order_def slice_def py_slice_def c_def bindA_Inr bindA_Inl)
  moreover have "ce_seek ?ce = se" by (simp add: exn_cursor_def)
  ultimately have "Seeker_find ?ce [(f, v)] None k l s =
      (if items (sk_world s) = [] then (Inr [], s) else (Inl (ValueError ''too many values to unpack''), s))"
    using made by (simp add: Seeker_find_def Cursor_list_def catchA_def)
  then show ?thesis using fields
    by (simp add: ExchangeQueryCollectionEnd_on_post_def bindA_Inr bindA_Inl bindA_def [of "sext m" for m] sext_run)
qed

subsection \<open>Witnesses\<close>

definition mem_exn_env :: "bool \<Rightarrow> mem_aid exn_env" where
  "mem_exn_env known = \<lparr>xe_aid = mem_aid_env\<lparr>ai_known := \<lambda>_ _. Inr known\<rparr>, xe_parse = \<lambda>_ _ _ _ _. retA (), xe_clone = \<lambda>_ _. Inr None\<rparr>"

definition sender_world :: mem_aid where
  "sender_world = mem_aid_start\<lparr>ma_habs := DAList.update ''E1'' (SignifyHab ''E1'') DAList.empty\<rparr>"

definition exn_ked :: "string \<Rightarrow> (string \<times> json) list" where
  "exn_ked route = [(''i'', JStr ''E1''), (''d'', JStr ''E1''), (''r'', JStr route), (''rp'', JStr ''E2'')]"

definition exn_body :: "string \<Rightarrow> (string \<times> json) list" where
  "exn_body route = [(''exn'', JObj (exn_ked route)), (''sigs'', jstrs [''AA'']), (''atc'', JStr [])]"

lemma mem_exn_parts:
  "find_hab (xe_aid (mem_exn_env known)) ''E1'' sender_world = Some (SignifyHab ''E1'')"
  "rq_media (json_request j) = Inr j" "dict_get (exn_body route) ''exn'' = Some (JObj (exn_ked route))"
  "dict_get (exn_body route) ''sigs'' = Some (jstrs [''AA''])" "dict_get (exn_body route) ''atc'' = Some (JStr [])"
  "dict_get (exn_ked route) ''r'' = Some (JStr route)" "dict_get (exn_ked route) ''rp'' = Some (JStr ''E2'')"
  "dict_get (exn_ked route) ''d'' = Some (JStr ''E1'')" "dict_get (exn_ked route) ''i'' = Some (JStr ''E1'')"
  "ai_known (xe_aid (mem_exn_env known)) w x = Inr known"
  by (simp_all add: find_hab_def mem_exn_env_def mem_aid_env_def sender_world_def json_request_def exn_body_def exn_ked_def jstrs_def)

theorem ipex_refused_witness:
  "\<exists>d. IpexGrantCollectionEnd_on_post (mem_exn_env False) (json_request (JObj (exn_body ''/ipex/grant''))) fresh_response ''E1'' (no_decks sender_world) =
      (Inl (HTTPError 400 d), no_decks sender_world) \<and> d = ''attempt to send to unknown AID=E2''"
  using ipex_refused [where env = "mem_exn_env False" and s = "no_decks sender_world" and name = "''E1''" and rep = fresh_response
      and hab = "SignifyHab ''E1''" and req = "json_request (JObj (exn_body ''/ipex/grant''))" and body = "exn_body ''/ipex/grant''"
      and r = "''/ipex/grant''" and post = "IpexGrantCollectionEnd_on_post (mem_exn_env False)" and route = "''/ipex/grant''"
      and recp = "''E2''" and known = False, OF _ mem_exn_parts(2-5) _ _ mem_exn_parts(6,7) _ mem_exn_parts(10)]
  by (simp add: mem_exn_parts(1) no_decks_def ipex_posts_def jstrs_def)

definition null_exn_env :: "'w exn_env" where
  "null_exn_env = \<lparr>xe_aid = null_aid_env (plain_mon null_suber), xe_parse = \<lambda>_ _ _ _ _. retA (), xe_clone = \<lambda>_ _. Inr None\<rparr>"

theorem exchange_search_unindexed_witness:
  "ExchangeQueryCollectionEnd_on_post null_exn_env (exn_cursor mem_seek_env (\<lambda>_ _. None) (\<lambda>_. [''EX1''])) jstr
      (json_request (JObj [(''filter'', JObj [(''-a-n'', JInt 1)])])) fresh_response (mem_seeker [''-i'']) =
    (Inl (ValueError ''too many values to unpack''), mem_seeker [''-i''])"
proof -
  have "query_fields (json_request (JObj [(''filter'', JObj [(''-a-n'', JInt 1)])])) =
      Inr (JObj [(''-a-n'', JInt 1)], JNull, JInt 0, JInt 25)"
    by (simp add: query_fields_def json_request_def given_def)
  from exchange_search_unindexed [where env = null_exn_env and se = mem_seek_env and items = "\<lambda>_. [''EX1'']" and saider = jstr
      and exns = "\<lambda>_ _. None" and p = "''-a-n''" and s = "mem_seeker [''-i'']" and rep = fresh_response, OF this]
  show ?thesis by (simp add: jint_option_def mem_seek_env_def mem_seeker_def)
qed

lemma mem_exn_mon: "mon_ok (ai_mon (xe_aid (mem_exn_env known)))"
  unfolding mon_ok_def by (simp add: mem_exn_env_def mem_aid_env_def plain_mon_def mem_suber_ok keeps_retA)

theorem grant_posted_witness:
  "\<exists>rep' s1 o'. IpexGrantCollectionEnd_on_post (mem_exn_env True) (json_request (JObj (exn_body ''/ipex/grant''))) fresh_response ''E1''
      (no_decks sender_world) = (Inr rep', s1) \<and>
    map xm_said (dk_grants s1) = [''E1''] \<and> status (ai_mon (xe_aid (mem_exn_env True))) o' (dk_world s1) = (Inr (pending o'), dk_world s1) \<and>
    dk_grants (snd (GrantDoer_recur idle_tasks \<lparr>xm_said = ''E1'', xm_pre = ''E1'', xm_topic = JNull\<rparr> s1)) =
      dk_grants s1 @ [\<lparr>xm_said = ''E1'', xm_pre = ''E1'', xm_topic = JNull\<rparr>]"
proof -
  let ?env = "mem_exn_env True" and ?serder = "\<lparr>se_pre = ''E1'', se_sn = 1, se_said = ''E1'', se_ked = JObj (exn_ked ''/ipex/grant'')\<rparr>"
  have serder: "ai_serder (xe_aid ?env) (JObj (exn_ked ''/ipex/grant'')) = Inr ?serder"
    by (simp add: mem_exn_env_def mem_aid_env_def mem_exn_parts(9))
  have rest: "recipient (JObj (exn_ked ''/ipex/grant'')) = Inr (JStr ''E2'')" "list_of (ai_siger (xe_aid ?env)) (jstrs [''AA'']) s = (Inr [''AA''], s)"
    "hkever (xe_aid ?env) (SignifyHab ''E1'') sender_world = (Inr (the (mem_kever sender_world (SignifyHab ''E1''))), sender_world)" for s :: "mem_aid decks"
    by (simp_all add: recipient_def mem_exn_parts list_of_def jstrs_def mapA_liftA mem_exn_env_def mem_aid_env_def hkever_def mem_kever_def sender_world_def)
  obtain rep' s1 where run: "IpexGrantCollectionEnd_on_post ?env (json_request (JObj (exn_body ''/ipex/grant''))) fresh_response ''E1''
      (no_decks sender_world) = (Inr rep', s1)"
  proof -
    let ?mon = "ai_mon (xe_aid ?env)"
    have mon: "?mon = plain_mon (mem_suber ma_ops (\<lambda>a w. w\<lparr>ma_ops := a\<rparr>))" by (simp add: mem_exn_env_def mem_aid_env_def)
    have st: "status ?mon o' w = (Inr (pending o'), w)" if "op_type o' = ''exchange''" for o' w
      using status_exchange_run [OF that, of ?mon w False] by (simp add: mon plain_mon_def)
    obtain x w where "Monitor_submit ?mon ''E1'' ''exchange'' (JObj [(''said'', JStr ''E1'')]) sender_world = (Inr (Some x), w)"
      using st by (simp add: Monitor_submit_def OpTypes_def Monitor_get_def bindA_Inr mon)
        (simp add: mem_suber_def plain_mon_def bindA_Inr)
    then have "submit_exchange ?env ?serder s = (Inr (Some x), s\<lparr>dk_world := w\<rparr>)" if "dk_world s = sender_world" for s
      using that by (simp add: submit_exchange_def dext_run)
    moreover have "dext (xe_parse ?env a b c d e) s = (Inr (), s)" for a b c d e s by (simp add: dext_run mem_exn_env_def)
    ultimately show ?thesis
      using that serder rest
      by (simp add: IpexGrantCollectionEnd_on_post_def referenced_hab_def dext_run some_hab_def mem_exn_parts bindA_Inr no_decks_def sendGrant_def
          known_recipient_def or_none_def parse_exn_def signed_exn_def stream_exn_def queue_exchange_def second_message_def sent_200_def
          bindA_def [of "dext m" for m] jstrs_def)
  qed
  have "me_exchange (ai_mon (xe_aid ?env)) ''E1'' w = (Inr False, w)" for w
    by (simp add: mem_exn_env_def mem_aid_env_def plain_mon_def)
  moreover have "de_complete idle_tasks ''E1'' = me_exchange (ai_mon (xe_aid ?env)) ''E1''"
    by (simp add: mem_exn_env_def mem_aid_env_def plain_mon_def idle_tasks_def)
  moreover have "Ex Not" by auto
  ultimately show ?thesis
    using grant_posted [OF mem_exn_mon _ mem_exn_parts(2,3) serder _ run, where tasks = idle_tasks and hab = "SignifyHab ''E1''"] run
    by (simp add: mem_exn_parts no_decks_def) (elim conjE exE, intro conjI exI, auto)
qed

end
