(* ===== verification/Grouping.thy ===== *)
theory Grouping
  imports Exchanges
begin

text \<open>
  The endpoints of multisig groups (\<open>app/grouping.py\<close>): a message to the other members, joining a group from one of its
  events, and the messages of a conversation. The group identifiers of the Habery, the multiplexor of \<open>keri\<close> and the
  order of a Python set are arguments (\<open>group_env\<close>).
\<close>

record 'w group_env =
  gr_exn :: "'w exn_env"
  gr_signing :: "'w \<Rightarrow> string \<Rightarrow> string list option"
  gr_set :: "json list \<Rightarrow> json list"
  gr_join :: "json \<Rightarrow> string \<Rightarrow> hab \<Rightarrow> json \<Rightarrow> json \<Rightarrow> ('w, hab) act"
  gr_make :: "hab \<Rightarrow> serder \<Rightarrow> string list \<Rightarrow> ('w, unit) act"
  gr_exns :: "'w \<Rightarrow> string \<Rightarrow> json option"
  gr_mux :: "'w \<Rightarrow> json \<Rightarrow> exn + (string \<times> json) list list"
  gr_contact :: "'w \<Rightarrow> json \<Rightarrow> exn + (string \<times> json) list option"

abbreviation gr_aid :: "'w group_env \<Rightarrow> 'w aid_env" where
  "gr_aid env \<equiv> xe_aid (gr_exn env)"

subsection \<open>A message to the other members\<close>

text \<open>The signing members but the own one are written to the queue and the log; the task does not read them.\<close>

definition others_signing :: "'w group_env \<Rightarrow> hab \<Rightarrow> hab \<Rightarrow> ('w, string list) act" where
  "others_signing env hab mhab =
     bindA (getA (\<lambda>w. gr_signing env w (hb_pre hab))) (\<lambda>slist.
     case slist of None \<Rightarrow> raiseA TypeError | Some smids \<Rightarrow> retA (remove1 (hb_pre mhab) smids))"

definition MultisigRequestCollectionEnd_on_post ::
  "'w group_env \<Rightarrow> request \<Rightarrow> response \<Rightarrow> string \<Rightarrow> ('w decks, response) act" where
  "MultisigRequestCollectionEnd_on_post env req rep name =
     bindA (liftA (rq_media req)) (\<lambda>body.
     bindA (dext (some_hab (find_hab (gr_aid env)) name
              (HTTPError 404 (''alias or prefix '' @ name @ '' is not a valid reference to an identifier'')))) (\<lambda>hab.
     case hab of
       SignifyGroupHab _ mhab \<Rightarrow>
         bindA (liftA (getRequiredParam body ''exn'')) (\<lambda>ked.
         bindA (liftA (ai_serder (gr_aid env) ked)) (\<lambda>serder.
         bindA (liftA (getRequiredParam body ''sigs'')) (\<lambda>sigs.
         bindA (liftA (getRequiredParam body ''atc'')) (\<lambda>atc.
         bindA (liftA (jitem ked ''r'')) (\<lambda>_.
         bindA (liftA (jitem ked ''d'')) (\<lambda>_.
         bindA (list_of (ai_siger (gr_aid env)) sigs) (\<lambda>sigers.
         seqA (stream_exn (gr_exn env) mhab serder sigers atc)
         (bindA (dext (others_signing env hab mhab)) (\<lambda>_.
          seqA (queue_exchange serder hab (JStr ''multisig''))
            (retA (rep\<lparr>rs_status := 200, rs_data := Some (se_ked serder)\<rparr>)))))))))))
     | _ \<Rightarrow> raiseA (HTTPError 400 (''hab for alias or prefix '' @ name @ '' is not a multisig''))))"

subsection \<open>Joining a group\<close>

text \<open>\<open>list(set(smids + (rmids or [])))\<close>.\<close>

definition joined :: "json \<Rightarrow> json \<Rightarrow> exn + json list" where
  "joined x y =
     (case (x, if jtrue y then y else JArr []) of
        (JArr xs, JArr ys) \<Rightarrow> Inr (xs @ ys)
      | (JStr a, JStr b) \<Rightarrow> Inr (map (\<lambda>c. JStr [c]) (a @ b))
      | _ \<Rightarrow> Inl TypeError)"

fun hashable :: "json \<Rightarrow> bool" where
  "hashable (JArr _) = False"
| "hashable (JObj _) = False"
| "hashable _ = True"

definition member_set :: "'w group_env \<Rightarrow> json \<Rightarrow> json \<Rightarrow> exn + json list" where
  "member_set env smids rmids =
     (case joined smids rmids of
        Inl e \<Rightarrow> Inl e
      | Inr xs \<Rightarrow> if list_all hashable xs then Inr (gr_set env xs) else Inl TypeError)"

text \<open>An unknown member: the hab that was looked up, and is \<open>None\<close> here, is asked for its name.\<close>

fun known_members :: "'w group_env \<Rightarrow> json list \<Rightarrow> ('w, unit) act" where
  "known_members env [] = retA ()"
| "known_members env (recp # rest) =
     bindA (readA (\<lambda>w. ai_known (gr_aid env) w recp)) (\<lambda>known.
     if \<not> known then raiseA AttributeError else known_members env rest)"

fun first_local :: "'w group_env \<Rightarrow> 'w \<Rightarrow> json list \<Rightarrow> exn + hab option" where
  "first_local env w [] = Inr None"
| "first_local env w (mid # rest) =
     (case at_key (ai_habs (gr_aid env) w) mid of
        Inl e \<Rightarrow> Inl e
      | Inr None \<Rightarrow> first_local env w rest
      | Inr (Some hab) \<Rightarrow> Inr (Some hab))"

definition serder_or_400 :: "'w group_env \<Rightarrow> json \<Rightarrow> ('s, serder) act" where
  "serder_or_400 env rot =
     catchA (liftA (ai_serder (gr_aid env) rot))
       (\<lambda>e. case e of SerializeError m \<Rightarrow> Some (raiseA (HTTPError 400 m)) | _ \<Rightarrow> None)"

record joining =
  jn_serder :: serder
  jn_sigers :: "string list"
  jn_verfers :: "string list"
  jn_digers :: "string list"
  jn_gid :: json
  jn_smids :: json
  jn_rmids :: json
  jn_both :: "json list"

text \<open>The body of the request: its event, signatures and members, all of which have to be known.\<close>

definition join_request :: "'w group_env \<Rightarrow> json \<Rightarrow> ('w decks, joining) act" where
  "join_request env body =
     bindA (liftA (getRequiredParam body ''rot'')) (\<lambda>rot.
     bindA (serder_or_400 env rot) (\<lambda>serder.
     bindA (liftA (getRequiredParam body ''sigs'')) (\<lambda>sigs.
     bindA (liftA (getRequiredParam body ''gid'')) (\<lambda>gid.
     bindA (liftA (getRequiredParam body ''smids'')) (\<lambda>smids.
     bindA (liftA (getRequiredParam body ''rmids'')) (\<lambda>rmids.
     bindA (liftA (member_set env smids rmids)) (\<lambda>both.
     seqA (dext (known_members env both))
     (bindA (list_of (ai_siger (gr_aid env)) sigs) (\<lambda>sigers.
      bindA (bindA (liftA (jitem rot ''k'')) (list_of (ai_verfer (gr_aid env)))) (\<lambda>verfers.
      bindA (bindA (liftA (jitem rot ''n'')) (list_of (ai_diger (gr_aid env)))) (\<lambda>digers.
      retA \<lparr>jn_serder = serder, jn_sigers = sigers, jn_verfers = verfers, jn_digers = digers, jn_gid = gid,
        jn_smids = smids, jn_rmids = rmids, jn_both = both\<rparr>)))))))))))"

definition join_group :: "'w group_env \<Rightarrow> string \<Rightarrow> hab \<Rightarrow> joining \<Rightarrow> ('w, hab) act" where
  "join_group env name mhab j =
     bindA (gr_join env (jn_gid j) name mhab (jn_smids j) (jn_rmids j)) (\<lambda>hab.
     seqA (catchA (gr_make env hab (jn_serder j) (jn_sigers j)) (\<lambda>e. if isValueError e then Some (retA ()) else None))
     (bindA (liftA (jstr (jn_gid j))) (\<lambda>pre.
      seqA (Agent_inceptGroup (gr_aid env) pre (hb_pre mhab) (jn_verfers j) (jn_digers j)) (retA hab))))"

definition join_as :: "'w group_env \<Rightarrow> response \<Rightarrow> string \<Rightarrow> joining \<Rightarrow> ('w decks, response) act" where
  "join_as env rep name j =
     bindA (dext (readA (\<lambda>w. first_local env w (jn_both j)))) (\<lambda>mhab.
     case mhab of
       None \<Rightarrow> raiseA (HTTPError 400
         (''Invalid multisig group rotation request, signing member list must contain a local identifier'' @ [CHR 0x27]))
     | Some mhab \<Rightarrow>
         seqA (dext (join_group env name mhab j))
         (seqA (modA (\<lambda>s. s\<lparr>dk_groups := dk_groups s @ [jn_serder j]\<rparr>))
         (bindA (dext (Monitor_submit (ai_mon (gr_aid env)) (se_said (jn_serder j)) ''group''
            (JObj [(''pre'', JStr (se_pre (jn_serder j))), (''sn'', JInt (se_sn (jn_serder j)))]))) (accepted rep))))"

definition MultisigJoinCollectionEnd_on_post ::
  "'w group_env \<Rightarrow> request \<Rightarrow> response \<Rightarrow> string \<Rightarrow> ('w decks, response) act" where
  "MultisigJoinCollectionEnd_on_post env req rep name =
     bindA (dext (getA (find_hab (gr_aid env) name))) (\<lambda>old.
     seqA (guardA (old = None)
       (HTTPError 400 (''attempt to create identifier with an already used alias or prefix '' @ name)))
     (bindA (liftA (rq_media req)) (\<lambda>body.
      bindA (join_request env body) (join_as env rep name))))"

subsection \<open>The messages of a conversation\<close>

text \<open>The parts of a route (\<open>route.split("/")\<close>), and the tests of the message that is asked for.\<close>

definition parts :: "string \<Rightarrow> string list" where
  "parts route = split_on (CHR ''/'') route"

definition local_request :: "'w group_env \<Rightarrow> string \<Rightarrow> json \<Rightarrow> string \<Rightarrow> ('w, unit) act" where
  "local_request env said ked route =
     seqA (guardA (startswith route ''/multisig'') (HTTPError 400 (''invalid mutlsig conversation with said='' @ said)))
     (bindA (liftA (jitem ked ''a'')) (\<lambda>payload.
      case parts route of
        [] # m # rest \<Rightarrow>
          if m = ''multisig'' \<and> rest \<noteq> [''icp''] \<and> rest \<noteq> [''rot''] then
            bindA (liftA (jitem payload ''gid'')) (\<lambda>gid.
            bindA (readA (\<lambda>w. at_key (ai_habs (gr_aid env) w) gid)) (\<lambda>hab.
            guardA (hab \<noteq> None) (HTTPError 400 (''multisig request for non-local group pre='' @ shown_value (gr_exn env) gid))))
          else retA ()
      | _ \<Rightarrow> retA ()))"

definition group_names :: "'w group_env \<Rightarrow> hab \<Rightarrow> (string \<times> json) list \<Rightarrow> ('w, (string \<times> json) list) act" where
  "group_names env ghab d =
     bindA (getA (\<lambda>w. ai_name (gr_aid env) w ghab)) (\<lambda>groupName.
     case ghab of
       SignifyGroupHab _ mhab \<Rightarrow>
         bindA (getA (\<lambda>w. ai_name (gr_aid env) w mhab)) (\<lambda>memberName.
         retA (dict_set (dict_set d ''groupName'' (JStr groupName)) ''memberName'' (JStr memberName)))
     | _ \<Rightarrow> raiseA AttributeError)"

definition local_group :: "'w group_env \<Rightarrow> json \<Rightarrow> ('w, hab option) act" where
  "local_group env payload =
     bindA (liftA (jitem payload ''gid'')) (\<lambda>gid. readA (\<lambda>w. at_key (ai_habs (gr_aid env) w) gid))"

definition sender_name :: "'w group_env \<Rightarrow> json \<Rightarrow> (string \<times> json) list \<Rightarrow> ('w, (string \<times> json) list) act" where
  "sender_name env ked d =
     bindA (liftA (jitem ked ''i'')) (\<lambda>sender.
     bindA (readA (\<lambda>w. gr_contact env w sender)) (\<lambda>c.
     case c of
       None \<Rightarrow> retA d
     | Some c \<Rightarrow> bindA (liftA (jitem (JObj c) ''alias'')) (\<lambda>alias. retA (dict_set d ''sender'' alias))))"

text \<open>The names added to one message of the conversation.\<close>

definition named_message :: "'w group_env \<Rightarrow> (string \<times> json) list \<Rightarrow> ('w, (string \<times> json) list) act" where
  "named_message env d =
     bindA (liftA (jitem (JObj d) ''exn'')) (\<lambda>exn.
     bindA (liftA (ai_serder (gr_aid env) exn)) (\<lambda>serder.
     bindA (liftA (jitem (se_ked serder) ''r'')) (\<lambda>route.
     bindA (liftA (jitem (se_ked serder) ''a'')) (\<lambda>payload.
     bindA (liftA (case route of JStr r \<Rightarrow> Inr r | _ \<Rightarrow> Inl AttributeError)) (\<lambda>route.
     if parts route = [[], ''multisig'', ''rot''] then
       bindA (local_group env payload) (\<lambda>ghab.
       case ghab of None \<Rightarrow> retA d | Some ghab \<Rightarrow> group_names env ghab d)
     else if parts route \<in> {[[], ''multisig'', ''vcp''], [[], ''multisig'', ''iss'']} then
       bindA (local_group env payload) (\<lambda>ghab.
       case ghab of
         None \<Rightarrow> raiseA (KeyError [])
       | Some ghab \<Rightarrow> bindA (group_names env ghab d) (sender_name env (se_ked serder)))
     else retA d)))))"

definition MultisigRequestResourceEnd_on_get :: "'w group_env \<Rightarrow> response \<Rightarrow> string \<Rightarrow> ('w, response) act" where
  "MultisigRequestResourceEnd_on_get env rep said =
     bindA (getA (\<lambda>w. gr_exns env w said)) (\<lambda>exn.
     case exn of
       None \<Rightarrow> raiseA (HTTPError 404 (''no multisig request with said='' @ said @ '' found''))
     | Some ked \<Rightarrow>
         bindA (liftA (jitem ked ''r'')) (\<lambda>route.
         bindA (liftA (case route of JStr r \<Rightarrow> Inr r | _ \<Rightarrow> Inl AttributeError)) (\<lambda>route.
         seqA (local_request env said ked route)
         (bindA (liftA (jitem ked ''e'')) (\<lambda>e.
          bindA (liftA (jitem e ''d'')) (\<lambda>esaid.
          bindA (readA (\<lambda>w. gr_mux env w esaid)) (\<lambda>exns.
          bindA (mapA (named_message env) exns) (\<lambda>exns.
          retA (rep\<lparr>rs_status := 200, rs_data := Some (JArr (map JObj exns))\<rparr>)))))))))"

subsection \<open>What a join promises\<close>

lemma known_members_run:
  assumes "\<And>m. m \<in> set ms \<Longrightarrow> ai_known (gr_aid env) w m = Inr (K m)"
  shows "known_members env ms w = (if list_all K ms then Inr () else Inl AttributeError, w)"
  using assms by (induction ms) (auto simp: bindA_Inr)

lemma first_local_None:
  assumes "first_local env w ms = Inr None" and "JStr m \<in> set ms" shows "ai_habs (gr_aid env) w m = None"
  using assms by (induction ms) (auto split: sum.splits option.splits)

lemma first_local_Some:
  assumes "first_local env w ms = Inr (Some hab)" shows "\<exists>m. JStr m \<in> set ms \<and> ai_habs (gr_aid env) w m = Some hab"
  using assms by (induction ms) (auto split: sum.splits option.splits elim!: at_key.elims)

text \<open>
  What is checked before a group is joined. When a member is not known, the endpoint wants to delete the hab
  and answer 400, but there is none under the new name: it ends in \<open>AttributeError\<close>, for whichever member it is; and
  when no member is local it answers 400. In both cases nothing has changed.
\<close>

theorem join_refused:
  fixes rep :: response
  assumes free: "find_hab (gr_aid env) name (dk_world s) = None"
    and body: "rq_media req = Inr (JObj body)" "getRequiredParam (JObj body) ''rot'' = Inr rot" "getRequiredParam (JObj body) ''sigs'' = Inr (JArr sigs)"
      "getRequiredParam (JObj body) ''gid'' = Inr gid" "getRequiredParam (JObj body) ''smids'' = Inr (jstrs smids)"
      "getRequiredParam (JObj body) ''rmids'' = Inr (jstrs rmids)"
    and event: "ai_serder (gr_aid env) rot = Inr serder" "mapE (ai_siger (gr_aid env)) sigs = Inr sigers"
      "jitem rot ''k'' = Inr (JArr k)" "mapE (ai_verfer (gr_aid env)) k = Inr verfers"
      "jitem rot ''n'' = Inr (JArr n)" "mapE (ai_diger (gr_aid env)) n = Inr digers"
    and order: "set (gr_set env (map JStr (smids @ rmids))) = JStr ` set (smids @ rmids)"
    and known: "\<And>m. ai_known (gr_aid env) (dk_world s) (JStr m) = Inr (K m)"
  shows "((\<exists>m \<in> set (smids @ rmids). \<not> K m) \<longrightarrow> MultisigJoinCollectionEnd_on_post env req rep name s = (Inl AttributeError, s)) \<and>
    ((\<forall>m \<in> set (smids @ rmids). K m \<and> ai_habs (gr_aid env) (dk_world s) m = None) \<longrightarrow>
      MultisigJoinCollectionEnd_on_post env req rep name s = (Inl (HTTPError 400
        (''Invalid multisig group rotation request, signing member list must contain a local identifier'' @ [CHR 0x27])), s))"
proof -
  let ?both = "gr_set env (map JStr (smids @ rmids))" and ?w = "dk_world s"
  have both: "member_set env (jstrs smids) (jstrs rmids) = Inr ?both"
    by (auto simp: member_set_def joined_def jstrs_def list_all_iff)
  define P where "P = (\<lambda>j. case j of JStr m \<Rightarrow> K m | _ \<Rightarrow> False)"
  have K: "dext (known_members env ?both) s = (if list_all P ?both then Inr () else Inl AttributeError, s)"
  proof -
    have "ai_known (gr_aid env) ?w m = Inr (P m)" if "m \<in> set ?both" for m
      using that known unfolding order by (auto simp: P_def)
    from known_members_run [OF this] show ?thesis by (simp add: dext_run del: map_append)
  qed
  have all: "list_all P ?both \<longleftrightarrow> (\<forall>m \<in> set (smids @ rmids). K m)"
    unfolding list_all_iff order by (simp add: P_def)
  have sig: "list_of f (JArr xs) s = (mapE f xs, s)" for f :: "json \<Rightarrow> exn + 'z" and xs by (simp add: list_of_def mapA_liftA)
  have loc: "first_local env ?w ?both = Inr None" if "\<forall>m \<in> set (smids @ rmids). ai_habs (gr_aid env) ?w m = None"
  proof -
    have "first_local env ?w ms = Inr None" if "set ms \<subseteq> JStr ` set (smids @ rmids)" for ms
      using that \<open>\<forall>m \<in> _. _\<close> by (induction ms) auto
    then show ?thesis using order by blast
  qed
  have "serder_or_400 env rot s = (Inr serder, s)" by (simp add: serder_or_400_def catchA_def event)
  then have request: "join_request env (JObj body) s = (if list_all P ?both then Inr \<lparr>jn_serder = serder, jn_sigers = sigers,
      jn_verfers = verfers, jn_digers = digers, jn_gid = gid, jn_smids = jstrs smids, jn_rmids = jstrs rmids, jn_both = ?both\<rparr>
      else Inl AttributeError, s)"
    using body event both K by (cases "list_all P ?both") (simp_all add: join_request_def bindA_Inr bindA_Inl sig)
  have start: "MultisigJoinCollectionEnd_on_post env req rep name s = bindA (join_request env (JObj body)) (join_as env rep name) s"
    using free body(1)
    by (simp add: MultisigJoinCollectionEnd_on_post_def bindA_def [of "dext (getA f)" for f] dext_run)
  show ?thesis
  proof (cases "list_all P ?both")
    case True
    with all loc show ?thesis
      by (simp add: start bindA_Inr request join_as_def bindA_def [of "dext (readA f)" for f] dext_run)
  next
    case False
    with all show ?thesis by (auto simp: start bindA_Inl request)
  qed
qed

lemma known_members_InrD:
  "known_members env ms w = (Inr u, w') \<Longrightarrow> w' = w \<and> (\<forall>m \<in> set ms. ai_known (gr_aid env) w m = Inr True)"
  by (induction ms) (auto elim!: bindA_eq_InrD split: if_splits)

lemma join_request_InrD:
  assumes "join_request env body s = (Inr j, s1)"
  obtains rot smids rmids xs where "s1 = s" and "getRequiredParam body ''rot'' = Inr rot" and "ai_serder (gr_aid env) rot = Inr (jn_serder j)"
    and "getRequiredParam body ''smids'' = Inr smids" and "getRequiredParam body ''rmids'' = Inr rmids"
    and "joined smids rmids = Inr xs" and "jn_both j = gr_set env xs"
    and "\<forall>m \<in> set (gr_set env xs). ai_known (gr_aid env) (dk_world s) m = Inr True"
proof -
  from assms obtain rot serder s2 smids rmids s3 where body: "getRequiredParam body ''rot'' = Inr rot"
      "getRequiredParam body ''smids'' = Inr smids" "getRequiredParam body ''rmids'' = Inr rmids"
    and serder: "serder_or_400 env rot s = (Inr serder, s2)"
    and both: "member_set env smids rmids = Inr (jn_both j)" and known: "dext (known_members env (jn_both j)) s2 = (Inr (), s3)"
    and j: "jn_serder j = serder" "s1 = s3"
    unfolding join_request_def by (auto simp: list_of_def mapA_liftA elim!: bindA_eq_InrD)
  have s2: "s2 = s" "ai_serder (gr_aid env) rot = Inr serder"
    using serder by (auto simp: serder_or_400_def catchA_def split: sum.splits exn.splits)
  obtain xs where "joined smids rmids = Inr xs" "jn_both j = gr_set env xs"
    using both by (auto simp: member_set_def split: sum.splits if_splits)
  moreover obtain "s3 = s" "\<forall>m \<in> set (jn_both j). ai_known (gr_aid env) (dk_world s) m = Inr True"
    using known s2(1) by (auto dest!: dext_InrD known_members_InrD)
  ultimately show ?thesis using that body s2 j by metis
qed

lemma status_group_pending:
  assumes "op_type o' = ''group''" "op_metadata o' = JObj [(''pre'', JStr pre), (''sn'', JInt sn)]"
    and "me_counselor mon pre (JInt sn) w = (Inr False, w)"
  shows "status mon o' w = (Inr (pending o'), w)"
  using assms(1,2)
  by (simp add: status_def status_group_def required_def has_def str_field_def field_def bindA_Inr [where m = "me_counselor mon pre (JInt sn)", OF assms(3)])

text \<open>
  C39. An accepted join. The name was free, all members are known and one of them is an identifier of this agent; the
  event is queued once for the task of the group, and an operation is stored that is pending until the counselor is
  done with it. At its turn the task starts the counselor for the identifier of the event: the identifier the request
  joined is compared with it nowhere, and when no such identifier is there the task ends in \<open>KeyError\<close>.
\<close>

theorem join_accepted:
  fixes env :: "'w group_env" and tasks :: "'w doer_env"
  assumes ok: "mon_ok (ai_mon (gr_aid env))" and order: "\<And>xs. set (gr_set env xs) = set xs"
    and body: "rq_media req = Inr body" and run: "MultisigJoinCollectionEnd_on_post env req rep name s = (Inr rep', s')"
  shows "find_hab (gr_aid env) name (dk_world s) = None \<and> rs_status rep' = 202 \<and>
    (\<exists>rot serder smids rmids xs m. getRequiredParam body ''rot'' = Inr rot \<and> ai_serder (gr_aid env) rot = Inr serder \<and>
      getRequiredParam body ''smids'' = Inr smids \<and> getRequiredParam body ''rmids'' = Inr rmids \<and> joined smids rmids = Inr xs \<and>
      (\<forall>m \<in> set xs. ai_known (gr_aid env) (dk_world s) m = Inr True) \<and>
      JStr m \<in> set xs \<and> ai_habs (gr_aid env) (dk_world s) m \<noteq> None \<and>
      s' = s\<lparr>dk_world := dk_world s', dk_groups := dk_groups s @ [serder]\<rparr> \<and>
      (\<exists>o'. sget (me_ops (ai_mon (gr_aid env))) (dk_world s') (''group.'' @ se_said serder) = Some o' \<and>
        (\<forall>w. me_counselor (ai_mon (gr_aid env)) (se_pre serder) (JInt (se_sn serder)) w = (Inr False, w) \<longrightarrow>
          status (ai_mon (gr_aid env)) o' w = (Inr (pending o'), w))) \<and>
      (\<forall>t ms. dk_groups t = serder # ms \<longrightarrow> GroupRequester_recur tasks t =
        (if de_habs tasks (dk_world t) (se_pre serder)
         then seqA (dext (de_counselor tasks (se_pre serder) (se_sn serder) (se_said serder))) (retA False) (t\<lparr>dk_groups := ms\<rparr>)
         else (Inl (KeyError (se_pre serder)), t\<lparr>dk_groups := ms\<rparr>))))"
proof -
  let ?mon = "ai_mon (gr_aid env)"
  from run body obtain j s1 where free: "find_hab (gr_aid env) name (dk_world s) = None"
    and request: "join_request env body s = (Inr j, s1)" and join: "join_as env rep name j s1 = (Inr rep', s')"
    by (auto simp: MultisigJoinCollectionEnd_on_post_def guardA_def elim!: bindA_eq_InrD dest!: dext_InrD split: if_splits)
  from request obtain rot smids rmids xs where s1: "s1 = s" and r: "getRequiredParam body ''rot'' = Inr rot"
      "ai_serder (gr_aid env) rot = Inr (jn_serder j)" "getRequiredParam body ''smids'' = Inr smids"
      "getRequiredParam body ''rmids'' = Inr rmids" "joined smids rmids = Inr xs" and both: "jn_both j = gr_set env xs"
    and known: "\<forall>m \<in> set (gr_set env xs). ai_known (gr_aid env) (dk_world s) m = Inr True"
    by (rule join_request_InrD)
  from join s1 obtain mhab h s2 o1 where local: "first_local env (dk_world s) (jn_both j) = Inr (Some mhab)"
    and group: "dext (join_group env name mhab j) s = (Inr h, s2)"
    and submit: "dext (Monitor_submit ?mon (se_said (jn_serder j)) ''group''
        (JObj [(''pre'', JStr (se_pre (jn_serder j))), (''sn'', JInt (se_sn (jn_serder j)))])) (s2\<lparr>dk_groups := dk_groups s2 @ [jn_serder j]\<rparr>) = (Inr (Some o1), s')"
    and rep: "rep' = rep\<lparr>rs_status := 202, rs_data := Some (to_json o1)\<rparr>"
    by (auto simp: join_as_def dext_run accepted_def elim!: bindA_eq_InrD split: option.splits)
  obtain w where s2: "s2 = s\<lparr>dk_world := w\<rparr>" using dext_InrD [OF group] by blast
  then have s': "s' = s\<lparr>dk_world := dk_world s', dk_groups := dk_groups s @ [jn_serder j]\<rparr>"
    using dext_InrD [OF submit] by auto
  have g: "''group'' \<in> set OpTypes" by (simp add: OpTypes_def)
  obtain w where w: "Monitor_submit ?mon (se_said (jn_serder j)) ''group''
      (JObj [(''pre'', JStr (se_pre (jn_serder j))), (''sn'', JInt (se_sn (jn_serder j)))]) (dk_world s2) = (Inr (Some o1), w)"
    "dk_world s' = w" using dext_InrD [OF submit] by auto
  from Monitor_submit_stored [OF ok g w(1)] have
    "\<exists>o'. sget (me_ops ?mon) (dk_world s') (''group.'' @ se_said (jn_serder j)) = Some o' \<and> op_type o' = ''group'' \<and>
      op_metadata o' = JObj [(''pre'', JStr (se_pre (jn_serder j))), (''sn'', JInt (se_sn (jn_serder j)))]"
    unfolding w(2) by auto
  then obtain o' where o': "sget (me_ops ?mon) (dk_world s') (''group.'' @ se_said (jn_serder j)) = Some o'"
    and op: "op_type o' = ''group''" "op_metadata o' = JObj [(''pre'', JStr (se_pre (jn_serder j))), (''sn'', JInt (se_sn (jn_serder j)))]"
    by (elim exE conjE) (rule that)
  note pending = status_group_pending [OF op]
  have requester: "GroupRequester_recur tasks t = (if de_habs tasks (dk_world t) (se_pre (jn_serder j))
      then seqA (dext (de_counselor tasks (se_pre (jn_serder j)) (se_sn (jn_serder j)) (se_said (jn_serder j)))) (retA False) (t\<lparr>dk_groups := ms\<rparr>)
      else (Inl (KeyError (se_pre (jn_serder j))), t\<lparr>dk_groups := ms\<rparr>))" if "dk_groups t = jn_serder j # ms" for t ms
    using that by (simp add: GroupRequester_recur_def)
  obtain m where m: "JStr m \<in> set xs" "ai_habs (gr_aid env) (dk_world s) m \<noteq> None"
    using first_local_Some [OF local] both order by fastforce
  have rep: "rs_status rep' = 202" by (simp add: rep)
  show ?thesis
    by (intro conjI exI [of _ rot] exI [of _ "jn_serder j"] exI [of _ smids] exI [of _ rmids] exI [of _ xs] exI [of _ m] exI [of _ o'] allI impI)
      (rule free rep r m o' s' known [unfolded order] pending requester; assumption?)+
qed

subsection \<open>A contact without alias in a conversation\<close>

lemma mapA_fails:
  assumes "\<And>b. b \<in> set before \<Longrightarrow> \<exists>b'. f b w = (Inr b', w)" and "f d w = (Inl e, w)"
  shows "mapA f (before @ d # behind) w = (Inl e, w)"
  using assms
proof (induction before)
  case (Cons b before)
  from Cons.prems(1) obtain b' where "f b w = (Inr b', w)" by auto
  moreover from Cons have "mapA f (before @ d # behind) w = (Inl e, w)" by simp
  ultimately show ?case by (simp add: bindA_Inr bindA_Inl)
qed (simp add: bindA_Inl)


text \<open>
  A contact may have any fields. Once one without alias is stored for a member of a group, the conversation about a
  credential or a registry that member has sent a message in can not be read any more: the request ends in
  \<open>KeyError\<close>, for every message of the conversation.
\<close>

theorem conversation_alias:
  fixes cenv :: "'w contact_env" and env :: "'w group_env"
  assumes org: "org_ok cenv" "ct_kevers cenv w p" "\<not> ct_prefixes cenv w p" "ct_get cenv w p = None"
    and contact: "rq_media req = Inr (JObj fs)" "dict_get fs ''alias'' = None"
      "ContactResourceEnd_on_post cenv req rep p w = (Inr rep', w1)"
    and same: "gr_contact env w1 (JStr p) = Inr (ct_get cenv w1 p)"
    and asked: "gr_exns env w1 said = Some (JObj ked)" "dict_get ked ''r'' = Some (JStr route)"
      "local_request env said (JObj ked) route w1 = (Inr (), w1)" "dict_get ked ''e'' = Some (JObj e)" "dict_get e ''d'' = Some esaid"
    and talk: "gr_mux env w1 esaid = Inr (before @ d # behind)" "\<And>b. b \<in> set before \<Longrightarrow> \<exists>b'. named_message env b w1 = (Inr b', w1)"
    and message: "dict_get d ''exn'' = Some exn" "ai_serder (gr_aid env) exn = Inr serder" "se_ked serder = JObj m"
      "dict_get m ''r'' \<in> {Some (JStr ''/multisig/vcp''), Some (JStr ''/multisig/iss'')}" "dict_get m ''i'' = Some (JStr p)"
      "dict_get m ''a'' = Some (JObj a)" "dict_get a ''gid'' = Some (JStr gid)"
    and grp: "ai_habs (gr_aid env) w1 gid = Some (SignifyGroupHab gid mhab)"
  shows "MultisigRequestResourceEnd_on_get env rep said w1 = (Inl (KeyError ''alias''), w1)"
proof -
  obtain w' where "ContactResourceEnd_on_post cenv req rep p w =
        (Inr (rep\<lparr>rs_status := 200, rs_data := Some (JObj (dict_set (dict_del fs ''id'') ''id'' (JStr p)))\<rparr>), w')"
      "ct_get cenv w' = (ct_get cenv w)(p \<mapsto> dict_set (dict_del fs ''id'') ''id'' (JStr p))"
    by (rule contact_post [OF org contact(1)])
  with contact(3) same have c: "gr_contact env w1 (JStr p) = Inr (Some (dict_set (dict_del fs ''id'') ''id'' (JStr p)))" by auto
  have parts: "parts ''/multisig/vcp'' = [[], ''multisig'', ''vcp'']" "parts ''/multisig/iss'' = [[], ''multisig'', ''iss'']"
    unfolding parts_def by code_simp+
  have "local_group env (JObj a) w1 = (Inr (Some (SignifyGroupHab gid mhab)), w1)"
    using message grp by (simp add: local_group_def)
  then have "named_message env d w1 = (Inl (KeyError ''alias''), w1)"
    using message c contact(2) parts
    by (auto simp: named_message_def bindA_Inr group_names_def sender_name_def)
  from mapA_fails [of before "named_message env" w1 d, OF talk(2) this]
  have "mapA (named_message env) (before @ d # behind) w1 = (Inl (KeyError ''alias''), w1)" .
  then show ?thesis using asked talk(1)
    by (simp add: MultisigRequestResourceEnd_on_get_def bindA_Inr bindA_Inl)
qed

subsection \<open>Witnesses\<close>

text \<open>\<open>E1\<close> is an identifier of the agent, and \<open>E2\<close> is known.\<close>

definition member_aid :: "(string, op) alist aid_env" where
  "member_aid = (null_aid_env (plain_mon (mem_suber (\<lambda>w. w) (\<lambda>a _. a))))
     \<lparr>ai_known := \<lambda>_ m. Inr (m \<in> {JStr ''E1'', JStr ''E2''}),
      ai_habs := \<lambda>_ p. if p = ''E1'' then Some (SignifyHab p) else None, ai_serder := mem_serder\<rparr>"

definition demo_group :: "'w aid_env \<Rightarrow> 'w group_env" where
  "demo_group aid =
     \<lparr>gr_exn = \<lparr>xe_aid = aid, xe_parse = \<lambda>_ _ _ _ _. retA (), xe_clone = \<lambda>_ _. Inr None\<rparr>, gr_signing = \<lambda>_ _. Some [],
      gr_set = remdups, gr_join = \<lambda>_ _ m _ _. retA (SignifyGroupHab ''EG'' m), gr_make = \<lambda>_ _ _. retA (),
      gr_exns = \<lambda>_ _. None, gr_mux = \<lambda>_ _. Inr [], gr_contact = \<lambda>_ _. Inr None\<rparr>"

definition demo_rot :: json where
  "demo_rot = JObj [(''i'', JStr ''EG''), (''k'', JArr []), (''n'', JArr [])]"

definition join_body :: "string list \<Rightarrow> (string \<times> json) list" where
  "join_body members = [(''rot'', demo_rot), (''sigs'', JArr []), (''gid'', JStr ''EG''), (''smids'', jstrs members), (''rmids'', jstrs [])]"

abbreviation demo_event :: serder where
  "demo_event \<equiv> \<lparr>se_pre = ''EG'', se_sn = 1, se_said = ''EG'', se_ked = demo_rot\<rparr>"

lemma join_body_parts:
  "getRequiredParam (JObj (join_body ms)) ''rot'' = Inr demo_rot" "getRequiredParam (JObj (join_body ms)) ''sigs'' = Inr (JArr [])"
  "getRequiredParam (JObj (join_body ms)) ''gid'' = Inr (JStr ''EG'')" "getRequiredParam (JObj (join_body ms)) ''smids'' = Inr (jstrs ms)"
  "getRequiredParam (JObj (join_body ms)) ''rmids'' = Inr (jstrs [])"
  "ai_serder (gr_aid (demo_group member_aid)) demo_rot = Inr demo_event"
  "jitem demo_rot ''k'' = Inr (JArr [])" "jitem demo_rot ''n'' = Inr (JArr [])"
  by (simp_all add: getRequiredParam_def join_body_def demo_rot_def jstrs_def demo_group_def member_aid_def null_aid_env_def)

theorem join_refused_witness:
  "MultisigJoinCollectionEnd_on_post (demo_group member_aid) (json_request (JObj (join_body [''E1'', ''E9'']))) fresh_response ''g'' (no_decks DAList.empty) =
      (Inl AttributeError, no_decks DAList.empty)"
  using join_refused [where env = "demo_group member_aid" and name = "''g''" and s = "no_decks DAList.empty" and rep = fresh_response
      and req = "json_request (JObj (join_body [''E1'', ''E9'']))" and K = "\<lambda>m. m \<in> {''E1'', ''E2''}",
      OF _ _ join_body_parts(1-5) join_body_parts(6) _ join_body_parts(7) _ join_body_parts(8)]
  by (simp add: find_hab_def demo_group_def member_aid_def null_aid_env_def json_request_def no_decks_def)

theorem join_accepted_witness:
  "\<exists>rep' s'. MultisigJoinCollectionEnd_on_post (demo_group member_aid) (json_request (JObj (join_body [''E2'', ''E1'']))) fresh_response ''g''
      (no_decks DAList.empty) = (Inr rep', s') \<and> dk_groups s' = [demo_event]"
proof -
  let ?env = "demo_group member_aid" and ?s = "no_decks DAList.empty :: (string, op) alist decks"
  have ok: "mon_ok (ai_mon (gr_aid ?env))"
    unfolding mon_ok_def by (simp add: demo_group_def member_aid_def null_aid_env_def plain_mon_def mem_suber_ok keeps_retA)
  let ?mon = "ai_mon (gr_aid ?env)" and ?j = "\<lparr>jn_serder = demo_event, jn_sigers = [], jn_verfers = [], jn_digers = [], jn_gid = JStr ''EG'',
    jn_smids = jstrs [''E2'', ''E1''], jn_rmids = jstrs [], jn_both = [JStr ''E2'', JStr ''E1'']\<rparr>"
  have both: "member_set ?env (jstrs [''E2'', ''E1'']) (jstrs []) = Inr [JStr ''E2'', JStr ''E1'']"
    by (simp add: member_set_def joined_def jstrs_def demo_group_def)
  have "known_members ?env [JStr ''E2'', JStr ''E1''] w = (Inr (), w)" for w
    by (subst known_members_run [where K = "\<lambda>_. True"]) (auto simp: demo_group_def member_aid_def)
  then have known: "dext (known_members ?env [JStr ''E2'', JStr ''E1'']) ?s = (Inr (), ?s)"
    by (simp add: dext_run del: known_members.simps)
  have "serder_or_400 ?env demo_rot ?s = (Inr demo_event, ?s)" by (simp add: serder_or_400_def catchA_def join_body_parts)
  moreover have "list_of f (JArr []) s = (Inr [], s)" for f :: "json \<Rightarrow> exn + string" and s :: "(string, op) alist decks" by (simp add: list_of_def)
  ultimately have request: "join_request ?env (JObj (join_body [''E2'', ''E1''])) ?s = (Inr ?j, ?s)"
    using both known by (simp add: join_request_def join_body_parts bindA_Inr)
  have "Agent_inceptGroup (gr_aid ?env) ''EG'' ''E1'' [] [] w = (Inr (), w)" for w
    by (simp add: Agent_inceptGroup_def GroupManager_incept_def incept_aid_def demo_group_def member_aid_def null_aid_env_def null_keeper_def null_suber_def putS_def pinS_def)
  then have join: "join_group ?env ''g'' (SignifyHab ''E1'') ?j w = (Inr (SignifyGroupHab ''EG'' (SignifyHab ''E1'')), w)" for w
    by (simp add: join_group_def bindA_def [of "catchA x h" for x h] catchA_def bindA_Inr demo_group_def)
  have "first_local ?env w [JStr ''E2'', JStr ''E1''] = Inr (Some (SignifyHab ''E1''))" for w
    by (simp add: demo_group_def member_aid_def)
  moreover have mon: "?mon = plain_mon (mem_suber (\<lambda>w. w) (\<lambda>a _. a))" by (simp add: demo_group_def member_aid_def null_aid_env_def)
  moreover have "\<exists>x w. Monitor_submit ?mon ''EG'' ''group'' (JObj [(''pre'', JStr ''EG''), (''sn'', JInt 1)]) DAList.empty = (Inr (Some x), w)"
  proof -
    have "status ?mon o' w = (Inr (pending o'), w)" if "op_type o' = ''group''" "op_metadata o' = JObj [(''pre'', JStr ''EG''), (''sn'', JInt 1)]" for o' w
      by (rule status_group_pending [OF that]) (simp add: mon plain_mon_def)
    then show ?thesis
      by (simp add: Monitor_submit_def OpTypes_def Monitor_get_def bindA_Inr mon) (simp add: mem_suber_def plain_mon_def bindA_Inr)
  qed
  moreover have "find_hab (gr_aid ?env) ''g'' w = None" for w by (simp add: find_hab_def demo_group_def member_aid_def null_aid_env_def)
  ultimately have "\<exists>rep' s'. MultisigJoinCollectionEnd_on_post ?env (json_request (JObj (join_body [''E2'', ''E1'']))) fresh_response ''g'' ?s =
      (Inr rep', s')"
    using request join
    by (auto simp: MultisigJoinCollectionEnd_on_post_def join_as_def json_request_def no_decks_def bindA_Inr bindA_def [of "dext m" for m]
        dext_run accepted_def)
  then obtain rep' s' where run: "MultisigJoinCollectionEnd_on_post ?env (json_request (JObj (join_body [''E2'', ''E1'']))) fresh_response ''g'' ?s =
      (Inr rep', s')" by blast
  have "set (gr_set ?env xs) = set xs" for xs by (simp add: demo_group_def)
  moreover have "rq_media (json_request j) = Inr j" for j by (simp add: json_request_def)
  ultimately obtain serder where event: "ai_serder (gr_aid ?env) demo_rot = Inr serder"
    and queued: "s' = ?s\<lparr>dk_world := dk_world s', dk_groups := dk_groups ?s @ [serder]\<rparr>"
    using join_accepted [OF ok _ _ run, where tasks = idle_tasks] by (auto simp: join_body_parts(1))
  have "dk_groups s' = [serder]" using arg_cong [OF queued, of dk_groups] by (simp add: no_decks_def)
  with event have "dk_groups s' = [demo_event]" by (simp add: join_body_parts(6))
  then show ?thesis using run by blast
qed

definition talking_aid :: "mem_contacts aid_env" where
  "talking_aid = (null_aid_env (plain_mon null_suber))
     \<lparr>ai_serder := mem_serder, ai_habs := \<lambda>_ p. if p = ''EG'' then Some (SignifyGroupHab p (SignifyHab ''E3'')) else None\<rparr>"

definition talk_message :: "(string \<times> json) list" where
  "talk_message = [(''i'', JStr ''E1''), (''r'', JStr ''/multisig/iss''), (''a'', JObj [(''gid'', JStr ''EG'')])]"

definition talking_group :: "mem_contacts group_env" where
  "talking_group = (demo_group talking_aid)
     \<lparr>gr_exns := \<lambda>_ _. Some (JObj [(''r'', JStr ''/multisig/icp''), (''a'', JObj []), (''e'', JObj [(''d'', JStr ''EE'')])]),
      gr_mux := \<lambda>_ _. Inr [[(''exn'', JObj talk_message)]],
      gr_contact := \<lambda>w j. case j of JStr p \<Rightarrow> Inr (dict_get (mc_contacts w) p) | _ \<Rightarrow> Inr None\<rparr>"

theorem conversation_alias_witness:
  "\<exists>rep' w1. ContactResourceEnd_on_post mem_contact_env (json_request (JObj [(''phone'', JStr ''1'')])) fresh_response ''E1'' no_contacts = (Inr rep', w1) \<and>
    MultisigRequestResourceEnd_on_get talking_group fresh_response ''EX'' w1 = (Inl (KeyError ''alias''), w1)"
proof -
  have org: "ct_kevers mem_contact_env no_contacts ''E1''" "\<not> ct_prefixes mem_contact_env no_contacts ''E1''"
    "ct_get mem_contact_env no_contacts ''E1'' = None" by (simp_all add: mem_contact_env_def no_contacts_def)
  have media: "rq_media (json_request j) = Inr j" for j by (simp add: json_request_def)
  obtain rep' w1 where post: "ContactResourceEnd_on_post mem_contact_env (json_request (JObj [(''phone'', JStr ''1'')])) fresh_response ''E1'' no_contacts =
      (Inr rep', w1)" by (rule contact_post [OF mem_contact_org org media])
  have route: "parts ''/multisig/icp'' = [[], ''multisig'', ''icp'']" "startswith ''/multisig/icp'' ''/multisig''"
    unfolding parts_def by code_simp+
  have "MultisigRequestResourceEnd_on_get talking_group fresh_response ''EX'' w1 = (Inl (KeyError ''alias''), w1)"
    using route
    by (intro conversation_alias [OF mem_contact_org org media _ post, where m = talk_message and serder = "\<lparr>se_pre = ''E1'', se_sn = 1,
        se_said = ''E1'', se_ked = JObj talk_message\<rparr>" and gid = "''EG''" and mhab = "SignifyHab ''E3''" and exn = "JObj talk_message"
        and a = "[(''gid'', JStr ''EG'')]" and before = "[]" and behind = "[]" and d = "[(''exn'', JObj talk_message)]" and esaid = "JStr ''EE''"
        and e = "[(''d'', JStr ''EE'')]" and route = "''/multisig/icp''"
        and ked = "[(''r'', JStr ''/multisig/icp''), (''a'', JObj []), (''e'', JObj [(''d'', JStr ''EE'')])]"])
      (simp_all add: talking_group_def demo_group_def talking_aid_def talk_message_def mem_contact_env_def null_aid_env_def local_request_def)
  then show ?thesis using post by blast
qed

end
