(* ===== verification/Indirecting.thy ===== *)
theory Indirecting
  imports Identifiers
begin

text \<open>
  The public endpoints of the agency: \<open>HttpEnd\<close> (\<open>app/indirecting.py\<close>), which puts CESR messages on the stream of
  the agent they are for, and \<open>OOBIEnd\<close> (\<open>end/ending.py\<close>), which introduces an identifier to others. Both find
  the agent by the identifier it manages (\<open>Agency_lookup\<close>) and run without signature check. The stream is that of
  the parser of an agent, named by its Habery; \<open>he_parse\<close> and \<open>he_sadder\<close> read a CESR request and its message,
  \<open>oe_reply\<close> and \<open>oe_replay\<close> give what an identifier says of itself. The text of an HTTP error is its title or its
  description.
\<close>

record sadder =
  sa_raw :: string
  sa_proto :: string
  sa_ked :: json

record ('h, 'w) http_env =
  he_agency :: "('h, 'w) agency_env"
  he_parse :: "request \<Rightarrow> exn + (json \<times> string)"
  he_sadder :: "json \<Rightarrow> exn + sadder"
  he_ims :: "'w \<Rightarrow> 'h \<Rightarrow> string"
  he_set_ims :: "'h \<Rightarrow> string \<Rightarrow> 'w \<Rightarrow> 'w"

subsection \<open>Messages for an agent\<close>

definition ims_extend :: "('h, 'w) http_env \<Rightarrow> 'h \<Rightarrow> string \<Rightarrow> ('w, unit) act" where
  "ims_extend env h msg = modA (\<lambda>w. he_set_ims env h (he_ims env w h @ msg) w)"

definition destination :: "('h, 'w) http_env \<Rightarrow> request \<Rightarrow> (('h, 'w) agency, 'h agent) act" where
  "destination env req =
     (case dict_get (rq_headers req) ''CESR-DESTINATION'' of
        None \<Rightarrow> raiseA (HTTPError 400 ''CESR request destination header missing'')
      | Some aid \<Rightarrow>
          bindA (Agency_lookup (he_agency env) aid) (\<lambda>agent.
          case agent of
            None \<Rightarrow> raiseA (HTTPError 404 (''unknown destination AID '' @ aid))
          | Some agent \<Rightarrow> retA agent))"

definition no_cache :: "response \<Rightarrow> response" where
  "no_cache rep = set_header ''connection'' ''close'' (set_header ''Cache-Control'' ''no-cache'' rep)"

text \<open>\<open>encode("utf-8")\<close> of a header, whose characters are below 256.\<close>

definition utf8 :: "string \<Rightarrow> string" where
  "utf8 s = concat (map (\<lambda>c. let n = (of_char c :: nat) in
     if n < 128 then [c] else [char_of (192 + n div 64), char_of (128 + n mod 64)]) s)"

definition accepted_ilks :: "json list" where
  "accepted_ilks = map JStr
     [''icp'', ''rot'', ''ixn'', ''dip'', ''drt'', ''exn'', ''rpy'', ''vcp'', ''vrt'', ''iss'', ''rev'', ''bis'', ''brv'']"

text \<open>The status for a message that is on the stream already; none for a type the code does not name.\<close>

definition message_status :: "sadder \<Rightarrow> exn + nat option" where
  "message_status serder =
     (if sa_proto serder = ''ACDC'' then Inr (Some 204)
      else case jitem (sa_ked serder) ''t'' of
        Inl e \<Rightarrow> Inl e
      | Inr ilk \<Rightarrow>
          if ilk \<in> set accepted_ilks then Inr (Some 204)
          else if ilk = JStr ''qry'' then
            (case jitem (sa_ked serder) ''r'' of
               Inl e \<Rightarrow> Inl e
             | Inr r \<Rightarrow> if r = JStr ''mbx'' then Inl (HTTPError 404 ''no mailbox support in KERIA'') else Inr (Some 204))
          else Inr None)"

definition HttpEnd_on_post ::
  "('h, 'w) http_env \<Rightarrow> request \<Rightarrow> response \<Rightarrow> (('h, 'w) agency, response) act" where
  "HttpEnd_on_post env req rep =
     (if rq_method req = ''OPTIONS'' then retA (rep\<lparr>rs_status := 200\<rparr>)
      else
        bindA (destination env req) (\<lambda>agent.
        bindA (liftA (he_parse env req)) (\<lambda>(payload, attachments).
        bindA (liftA (he_sadder env payload)) (\<lambda>serder.
        seqA (ext (ims_extend env (ag_hby agent) (sa_raw serder @ utf8 attachments)))
        (bindA (liftA (message_status serder)) (\<lambda>status.
         retA (case status of
           None \<Rightarrow> no_cache rep
         | Some n \<Rightarrow> (no_cache rep)\<lparr>rs_status := n\<rparr>)))))))"

definition HttpEnd_on_put ::
  "('h, 'w) http_env \<Rightarrow> request \<Rightarrow> response \<Rightarrow> (('h, 'w) agency, response) act" where
  "HttpEnd_on_put env req rep =
     (if rq_method req = ''OPTIONS'' then retA (rep\<lparr>rs_status := 200\<rparr>)
      else
        bindA (destination env req) (\<lambda>agent.
        seqA (ext (ims_extend env (ag_hby agent) (rq_body req)))
        (retA ((no_cache rep)\<lparr>rs_status := 204\<rparr>))))"

subsection \<open>OOBIs\<close>

record ('h, 'w) oobi_env =
  oe_agency :: "('h, 'w) agency_env"
  oe_default :: "string option"
  oe_kever :: "'w \<Rightarrow> 'h \<Rightarrow> string \<Rightarrow> (serder \<times> string) option"
  oe_witnessed :: "'w \<Rightarrow> 'h \<Rightarrow> serder \<Rightarrow> bool"
  oe_prefixes :: "'w \<Rightarrow> 'h \<Rightarrow> string \<Rightarrow> bool"
  oe_habs :: "'w \<Rightarrow> 'h \<Rightarrow> string \<Rightarrow> bool"
  oe_reply :: "'w \<Rightarrow> 'h \<Rightarrow> string \<Rightarrow> string \<Rightarrow> string option \<Rightarrow> string list \<Rightarrow> exn + string"
  oe_replay :: "'w \<Rightarrow> 'h \<Rightarrow> string \<Rightarrow> string \<Rightarrow> exn + string"
  oe_aid_header :: string

definition oobi_aid :: "('h, 'w) oobi_env \<Rightarrow> string option \<Rightarrow> exn + string" where
  "oobi_aid env aid =
     (case (case aid of Some a \<Rightarrow> if a \<noteq> [] then Some a else oe_default env | None \<Rightarrow> oe_default env) of
        None \<Rightarrow> Inl (HTTPError 404 ''no blind oobi for this node'')
      | Some a \<Rightarrow> Inr a)"

text \<open>The identifier that answers: known, fully witnessed and one of the agent's own.\<close>

definition oobi_hab :: "('h, 'w) oobi_env \<Rightarrow> 'h \<Rightarrow> string \<Rightarrow> ('w, string) act" where
  "oobi_hab env h aid =
     bindA (getA (\<lambda>w. oe_kever env w h aid)) (\<lambda>kever.
     case kever of
       None \<Rightarrow> raiseA (KeyError aid)
     | Some (serder, pre) \<Rightarrow>
         bindA (getA (\<lambda>w. oe_witnessed env w h serder)) (\<lambda>witnessed.
         seqA (guardA witnessed (HTTPError 404 (aid @ '' not available'')))
         (bindA (getA (\<lambda>w. oe_prefixes env w h pre)) (\<lambda>here.
          seqA (guardA here (HTTPError 406 (aid @ '' is not a local identifier'')))
          (bindA (getA (\<lambda>w. oe_habs env w h pre)) (\<lambda>there.
           seqA (guardA there (KeyError pre)) (retA pre)))))))"

definition oobi_msgs ::
  "('h, 'w) oobi_env \<Rightarrow> 'h \<Rightarrow> string \<Rightarrow> string \<Rightarrow> string option \<Rightarrow> string list \<Rightarrow> ('w, string) act" where
  "oobi_msgs env h hab aid role eids =
     bindA (readA (\<lambda>w. oe_reply env w h hab aid role eids)) (\<lambda>msgs.
     if msgs = [] \<and> role = None then
       bindA (readA (\<lambda>w. oe_reply env w h hab aid (Some ''witness'') eids)) (\<lambda>msgs.
       bindA (readA (\<lambda>w. oe_replay env w h hab aid)) (\<lambda>kel. retA (msgs @ kel)))
     else retA msgs)"

definition OOBIEnd_on_get ::
  "('h, 'w) oobi_env \<Rightarrow> response \<Rightarrow> string option \<Rightarrow> string option \<Rightarrow> string option \<Rightarrow>
   (('h, 'w) agency, response) act" where
  "OOBIEnd_on_get env rep aid role eid =
     bindA (liftA (oobi_aid env aid)) (\<lambda>aid.
     bindA (Agency_lookup (oe_agency env) aid) (\<lambda>agent.
     case agent of
       None \<Rightarrow> raiseA (HTTPError 404 ''AID not found for this OOBI'')
     | Some agent \<Rightarrow>
         bindA (ext (oobi_hab env (ag_hby agent) aid)) (\<lambda>hab.
         bindA (retA (case eid of Some e \<Rightarrow> if e \<noteq> [] then [e] else [] | None \<Rightarrow> [])) (\<lambda>eids.
         bindA (ext (oobi_msgs env (ag_hby agent) hab aid role eids)) (\<lambda>msgs.
         retA (if msgs \<noteq> [] then
             (set_header ''content-type'' ''application/json+cesr'' (set_header (oe_aid_header env) aid rep))
               \<lparr>rs_status := 200, rs_data := Some (JStr msgs)\<rparr>
           else rep\<lparr>rs_status := 404\<rparr>))))))"

subsection \<open>Whose agent it is\<close>

text \<open>The controller that manages an identifier, as the agency's database has it; also its agent's own identifier.\<close>

definition manager :: "('h, 'w) agency_env \<Rightarrow> 'w \<Rightarrow> string \<Rightarrow> string option" where
  "manager env w pre =
     (case sget (op_aids env) w pre of Some caid \<Rightarrow> Some caid | None \<Rightarrow> sget (op_ctrl env) w pre)"

text \<open>
  What the public side sees of the world, and what is asked of the code around the agency: a stream is extended
  on its own, and loading an agent, whose stream is empty, changes no stream and registers nothing.
\<close>

definition public_view :: "('h, 'w) http_env \<Rightarrow> 'w \<Rightarrow> ('h \<Rightarrow> string) \<times> (string \<rightharpoonup> string) \<times> (string \<rightharpoonup> string)" where
  "public_view env w = (he_ims env w, sget (op_aids (he_agency env)) w, sget (op_ctrl (he_agency env)) w)"

definition public_ok :: "('h, 'w) http_env \<Rightarrow> bool" where
  "public_ok env \<longleftrightarrow>
     (\<forall>h x w. public_view env (he_set_ims env h x w) =
        ((he_ims env w)(h := x), sget (op_aids (he_agency env)) w, sget (op_ctrl (he_agency env)) w)) \<and>
     (\<forall>caid conf salt w. public_view env (snd (op_habery (he_agency env) caid conf salt w)) = public_view env w) \<and>
     (\<forall>a w. public_view env (snd (op_extend (he_agency env) a w)) = public_view env w)"

abbreviation views :: "('h, 'w) http_env \<Rightarrow> ('h \<Rightarrow> string) \<times> (string \<rightharpoonup> string) \<times> (string \<rightharpoonup> string) \<Rightarrow>
  ('h, 'w) agency \<Rightarrow> bool" where
  "views env v s \<equiv> public_view env (ay_world s) = v"

lemma manager_view:
  assumes "public_view env w = public_view env w'"
  shows "manager (he_agency env) w pre = manager (he_agency env) w' pre" and "he_ims env w = he_ims env w'"
  using assms unfolding manager_def public_view_def by (simp_all split: option.split)

lemma keeps_ext_view: "(\<And>w. public_view env (snd (m w)) = public_view env w) \<Longrightarrow> keeps (views env v) (ext m)"
  by (simp add: keeps_def ext_run)

lemma keeps_lookup_view:
  assumes "public_ok env"
  shows "keeps (views env v) (Agency_lookup (he_agency env) pre)"
proof -
  have load: "keeps (views env v) (ext (op_habery (he_agency env) c conf salt))"
    "keeps (views env v) (ext (op_extend (he_agency env) a))" for c conf salt a
    using assms by (auto intro!: keeps_ext_view simp: public_ok_def)
  have ask: "keeps (views env v) (ext (getA f))" "keeps (views env v) (ext (getS d k))"
    "keeps (views env v) (modA (set_entry c en))" for f d k c en
    by (simp_all add: keeps_def ext_run)
  have "keeps (views env v) (Agency_get (he_agency env) c)" for c
    unfolding Agency_get_def by (intro wp load ask)
  then show ?thesis
    unfolding Agency_lookup_def by (intro wp ask) (auto split: if_splits intro: wp)
qed

text \<open>
  An identifier that is looked up belongs to the controller of the agent that is found, and a second look finds
  the same agent and touches only the time of its last use.
\<close>

lemma lookup_found:
  assumes "public_ok env" and "agency_inv s" and "Agency_lookup (he_agency env) pre s = (Inr (Some a), s')"
  shows "manager (he_agency env) (ay_world s) pre = Some (ag_caid a)" and "agency_inv s'"
    and "public_view env (ay_world s') = public_view env (ay_world s)"
    and "\<exists>s''. Agency_lookup (he_agency env) pre s' = (Inr (Some a), s'') \<and> ay_world s'' = ay_world s'"
proof -
  let ?e = "he_agency env"
  have "shut_inv False s" using assms(2) by (simp add: shut_inv_def)
  from keepsD [OF keeps_lookup this assms(3)] show inv: "agency_inv s'" by (simp add: shut_inv_def)
  show view: "public_view env (ay_world s') = public_view env (ay_world s)"
    by (rule keepsD [OF keeps_lookup_view [OF assms(1)] refl assms(3)])
  from assms(3) obtain c where c: "manager ?e (ay_world s) pre = Some c" and get: "Agency_get ?e c s = (Inr (Some a), s')"
    by (auto simp: Agency_lookup_def manager_def catchA_def split: option.splits prod.splits sum.splits if_splits)
  from Agency_get_caches [OF get] obtain en where en: "dict_get (ay_agents s') c = Some en" "en_agent en = a" by blast
  have "ag_caid a = c" using inv en by (auto simp: agency_inv_def)
  with c show "manager ?e (ay_world s) pre = Some (ag_caid a)" by simp
  have "manager ?e (ay_world s') pre = Some c" using c manager_view(1) [OF view] by simp
  then show "\<exists>s''. Agency_lookup ?e pre s' = (Inr (Some a), s'') \<and> ay_world s'' = ay_world s'"
    using Agency_get_cached [OF en(1), of ?e] en(2)
    by (auto simp: Agency_lookup_def manager_def catchA_def split: option.splits)
qed

subsection \<open>Messages reach the agent of their destination\<close>

lemma destination_found:
  assumes "destination env req s = (Inr a, s')"
  obtains aid where "dict_get (rq_headers req) ''CESR-DESTINATION'' = Some aid"
    and "Agency_lookup (he_agency env) aid s = (Inr (Some a), s')"
  using assms by (auto simp: destination_def elim!: bindA_eq_InrD split: option.splits)

lemma keeps_destination_view: "public_ok env \<Longrightarrow> keeps (views env v) (destination env req)"
  unfolding destination_def by (intro wp keeps_lookup_view)

lemma destination_run:
  assumes "dict_get (rq_headers req) ''CESR-DESTINATION'' = Some aid"
    and "Agency_lookup (he_agency env) aid s = (Inr (Some a), s')"
  shows "destination env req s = (Inr a, s')"
  using assms by (simp add: destination_def bindA_Inr)

lemma set_ims_get: "public_ok env \<Longrightarrow> he_ims env (he_set_ims env h x w) = (he_ims env w)(h := x)"
  by (simp add: public_ok_def public_view_def)

lemma extended_view:
  assumes "public_ok env"
  shows "he_ims env (snd (ims_extend env h msg w)) = (he_ims env w)(h := he_ims env w h @ msg)"
  by (simp add: ims_extend_def set_ims_get [OF assms])

text \<open>What a message leaves behind, whatever is answered.\<close>

definition put_on_stream :: "('h, 'w) http_env \<Rightarrow> ('h, 'w) agency \<Rightarrow> ('h, 'w) agency \<Rightarrow> 'h \<Rightarrow> string \<Rightarrow> bool" where
  "put_on_stream env s s' h msg \<longleftrightarrow>
     he_ims env (ay_world s') = (he_ims env (ay_world s))(h := he_ims env (ay_world s) h @ msg)"

lemma on_post_streams:
  assumes "public_ok env" and "HttpEnd_on_post env req rep s = (r, s')"
  shows "he_ims env (ay_world s') = he_ims env (ay_world s) \<or>
    (\<exists>a s1 msg. destination env req s = (Inr a, s1) \<and> ay_agents s' = ay_agents s1 \<and> put_on_stream env s1 s' (ag_hby a) msg)"
proof (cases "rq_method req = ''OPTIONS''")
  case False
  obtain q s1 where d: "destination env req s = (q, s1)" by fastforce
  have same: "he_ims env (ay_world s1) = he_ims env (ay_world s)"
    using keepsD [OF keeps_destination_view [OF assms(1)] refl d] by (rule manager_view(2))
  show ?thesis
  proof (cases q)
    case (Inl e)
    with False assms(2) d same show ?thesis by (simp add: HttpEnd_on_post_def bindA_def)
  next
    case (Inr a)
    show ?thesis
    proof (cases "\<exists>p atc sd. he_parse env req = Inr (p, atc) \<and> he_sadder env p = Inr sd")
      case True
      then obtain p atc sd where "he_parse env req = Inr (p, atc)" "he_sadder env p = Inr sd" by blast
      with False assms(2) d Inr have "s' = s1\<lparr>ay_world := snd (ims_extend env (ag_hby a) (sa_raw sd @ utf8 atc) (ay_world s1))\<rparr>"
        by (cases "message_status sd")
          (auto simp: HttpEnd_on_post_def bindA_def [of "destination e c" for e c] ims_extend_def ext_run bindA_def)
      with d Inr show ?thesis by (auto simp: put_on_stream_def extended_view [OF assms(1)])
    next
      case none: False
      with False assms(2) d Inr have "s' = s1"
        by (cases "he_parse env req")
          (auto simp: HttpEnd_on_post_def bindA_def split: sum.splits prod.splits)
      with same show ?thesis by simp
    qed
  qed
qed (use assms(2) in \<open>simp add: HttpEnd_on_post_def\<close>)

lemma on_put_streams:
  assumes "public_ok env" and "HttpEnd_on_put env req rep s = (r, s')"
  shows "he_ims env (ay_world s') = he_ims env (ay_world s) \<or>
    (\<exists>a s1 msg. destination env req s = (Inr a, s1) \<and> ay_agents s' = ay_agents s1 \<and> put_on_stream env s1 s' (ag_hby a) msg)"
proof (cases "rq_method req = ''OPTIONS''")
  case False
  obtain q s1 where d: "destination env req s = (q, s1)" by fastforce
  have same: "he_ims env (ay_world s1) = he_ims env (ay_world s)"
    using keepsD [OF keeps_destination_view [OF assms(1)] refl d] by (rule manager_view(2))
  show ?thesis
  proof (cases q)
    case (Inr a)
    with False assms(2) d have "s' = s1\<lparr>ay_world := snd (ims_extend env (ag_hby a) (rq_body req) (ay_world s1))\<rparr>"
      by (auto simp: HttpEnd_on_put_def bindA_def ims_extend_def ext_run)
    with d Inr show ?thesis by (auto simp: put_on_stream_def extended_view [OF assms(1)])
  qed (use False assms(2) d same in \<open>simp add: HttpEnd_on_put_def bindA_def\<close>)
qed (use assms(2) in \<open>simp add: HttpEnd_on_put_def\<close>)

lemma lookup_caches:
  assumes "agency_inv s" and "Agency_lookup env pre s = (Inr (Some a), s')"
  shows "\<exists>en. dict_get (ay_agents s') (ag_caid a) = Some en \<and> en_agent en = a"
proof -
  have "shut_inv False s" using assms(1) by (simp add: shut_inv_def)
  from keepsD [OF keeps_lookup this assms(2)] have inv: "agency_inv s'" by (simp add: shut_inv_def)
  from assms(2) obtain c where "Agency_get env c s = (Inr (Some a), s')"
    by (auto simp: Agency_lookup_def catchA_def split: option.splits prod.splits sum.splits if_splits)
  from Agency_get_caches [OF this] obtain en where en: "dict_get (ay_agents s') c = Some en" "en_agent en = a" by blast
  with inv have "ag_caid a = c" by (auto simp: agency_inv_def)
  with en show ?thesis by blast
qed

text \<open>
  C12. A request to the public endpoint, answered or refused, changes at most one stream: that of the agent the agency
  finds for the identifier of the header \<open>CESR-DESTINATION\<close>, which is the agent of the controller that manages that
  identifier and is cached under it afterwards; and there it only appends.
\<close>

theorem message_to_destination:
  fixes env :: "('h, 'w) http_env"
  assumes "public_ok env" and "agency_inv s"
    and "HttpEnd_on_post env req rep s = (r, s') \<or> HttpEnd_on_put env req rep s = (r, s')"
    and "he_ims env (ay_world s') h \<noteq> he_ims env (ay_world s) h"
  shows "\<exists>aid (a :: 'h agent) en msg. dict_get (rq_headers req) ''CESR-DESTINATION'' = Some aid \<and>
    fst (Agency_lookup (he_agency env) aid s) = Inr (Some a) \<and>
    manager (he_agency env) (ay_world s) aid = Some (ag_caid a) \<and>
    dict_get (ay_agents s') (ag_caid a) = Some en \<and> en_agent en = a \<and>
    ag_hby a = h \<and> put_on_stream env s s' h msg"
proof -
  obtain a s1 msg where d: "destination env req s = (Inr a, s1)" and same: "ay_agents s' = ay_agents s1"
    and p: "put_on_stream env s1 s' (ag_hby a) msg"
    using assms(3,4) on_post_streams [OF assms(1)] on_put_streams [OF assms(1)] by metis
  from destination_found [OF d] obtain aid where aid: "dict_get (rq_headers req) ''CESR-DESTINATION'' = Some aid"
    and l: "Agency_lookup (he_agency env) aid s = (Inr (Some a), s1)" .
  note found = lookup_found [OF assms(1,2) l]
  from lookup_caches [OF assms(2) l] obtain en where en: "dict_get (ay_agents s') (ag_caid a) = Some en" "en_agent en = a"
    using same by auto
  have p: "put_on_stream env s s' (ag_hby a) msg"
    using p by (simp add: put_on_stream_def manager_view(2) [OF found(3)])
  with assms(4) have "ag_hby a = h" by (auto simp: put_on_stream_def split: if_splits)
  with aid l found(1) en p show ?thesis
    by (intro exI [of _ aid] exI [of _ a] exI [of _ en] exI [of _ msg]) simp
qed

text \<open>
  A mailbox query is refused with 404 after it was put on the stream, where the parser finds it all the same; a
  message without type ends in \<open>KeyError\<close> there too.
\<close>

theorem refused_on_stream:
  assumes "public_ok env" and "rq_method req \<noteq> ''OPTIONS''"
    and "dict_get (rq_headers req) ''CESR-DESTINATION'' = Some aid"
    and "Agency_lookup (he_agency env) aid s = (Inr (Some a), s1)"
    and "he_parse env req = Inr (p, atc)" and "he_sadder env p = Inr sd" and "sa_ked sd = JObj ked"
    and "sa_proto sd \<noteq> ''ACDC''" and "dict_get ked ''r'' = Some (JStr ''mbx'')"
    and "dict_get ked ''t'' = (if typed then Some (JStr ''qry'') else None)"
  shows "\<exists>s'. HttpEnd_on_post env req rep s =
      (Inl (if typed then HTTPError 404 ''no mailbox support in KERIA'' else KeyError ''t''), s') \<and>
    put_on_stream env s1 s' (ag_hby a) (sa_raw sd @ utf8 atc)"
proof -
  have "message_status sd = Inl (if typed then HTTPError 404 ''no mailbox support in KERIA'' else KeyError ''t'')"
    using assms(7-10) by (simp add: message_status_def accepted_ilks_def)
  then show ?thesis using assms(2,5,6)
    by (simp add: HttpEnd_on_post_def bindA_def [of "destination e c" for e c] destination_run [OF assms(3,4)]
        bindA_def [of "ext m" for m] ext_run put_on_stream_def
        ims_extend_def set_ims_get [OF assms(1)])
qed

subsection \<open>An identifier that answers its OOBI takes messages\<close>

lemma oobi_hab_run:
  assumes "oobi_hab env h aid w = (Inr pre, w')"
  shows "w' = w \<and> oe_prefixes env w h pre \<and>
    (\<exists>serder. oe_kever env w h aid = Some (serder, pre) \<and> oe_witnessed env w h serder)"
  using assms by (auto simp: oobi_hab_def guardA_def elim!: bindA_eq_InrD split: option.splits if_splits)

lemma oobi_msgs_run: "oobi_msgs env h hab aid role eids w = (Inr msgs, w') \<Longrightarrow> w' = w"
  by (auto simp: oobi_msgs_def elim!: bindA_eq_InrD split: if_splits)

lemma oobi_answered:
  assumes "OOBIEnd_on_get env rep aid role eid s = (Inr rep', s')" and "rs_status rep' = 200"
  obtains pre a hab msgs where "oobi_aid env aid = Inr pre"
    and "Agency_lookup (oe_agency env) pre s = (Inr (Some a), s')"
    and "oobi_hab env (ag_hby a) pre (ay_world s') = (Inr hab, ay_world s')"
    and "rs_data rep' = Some (JStr msgs)" and "msgs \<noteq> []"
proof -
  let ?eids = "case eid of Some e \<Rightarrow> if e \<noteq> [] then [e] else [] | None \<Rightarrow> []"
  from assms(1) obtain pre og s1 where pre: "oobi_aid env aid = Inr pre"
    and l: "Agency_lookup (oe_agency env) pre s = (Inr og, s1)" and "og \<noteq> None"
    unfolding OOBIEnd_on_get_def by (elim bindA_eq_InrD) (auto split: option.splits)
  then obtain a where og: "og = Some a" by blast
  from assms(1) have "bindA (ext (oobi_hab env (ag_hby a) pre)) (\<lambda>hab.
      bindA (ext (oobi_msgs env (ag_hby a) hab pre role ?eids)) (\<lambda>msgs.
      retA (if msgs \<noteq> [] then
          (set_header ''content-type'' ''application/json+cesr'' (set_header (oe_aid_header env) pre rep))
            \<lparr>rs_status := 200, rs_data := Some (JStr msgs)\<rparr>
        else rep\<lparr>rs_status := 404\<rparr>))) s1 = (Inr rep', s')"
    by (simp add: OOBIEnd_on_get_def pre bindA_retA_eq bindA_def [of "Agency_lookup e p" for e p] l og
        bindA_def [of "liftA r" for r])
  then obtain hab s2 msgs where h: "ext (oobi_hab env (ag_hby a) pre) s1 = (Inr hab, s2)"
    and m: "ext (oobi_msgs env (ag_hby a) hab pre role ?eids) s2 = (Inr msgs, s')"
    and out: "rep' = (if msgs \<noteq> [] then
          (set_header ''content-type'' ''application/json+cesr'' (set_header (oe_aid_header env) pre rep))
            \<lparr>rs_status := 200, rs_data := Some (JStr msgs)\<rparr>
        else rep\<lparr>rs_status := 404\<rparr>)"
    by (elim bindA_eq_InrD) auto
  from h have hs: "oobi_hab env (ag_hby a) pre (ay_world s1) = (Inr hab, ay_world s1)" "s2 = s1"
    by (auto elim!: ext_cases dest: oobi_hab_run)
  from m have "s' = s2" by (auto elim!: ext_cases dest: oobi_msgs_run)
  with hs l og out assms(2) pre that show thesis by (auto split: if_splits)
qed

text \<open>
  C13. An OOBI that is answered is that of an identifier the agent of its controller holds as its own, whose key event is
  fully witnessed; the answer is not empty and the world is as the look-up left it. A message that is
  then sent to that identifier goes on the stream of that same agent and is answered with 204.
\<close>

theorem oobi_then_message:
  fixes henv :: "('h, 'w) http_env"
  assumes "public_ok henv" and "oe_agency env = he_agency henv" and "agency_inv s"
    and "OOBIEnd_on_get env rep aid role eid s = (Inr rep', s')" and "rs_status rep' = 200"
  shows "\<exists>pre (a :: 'h agent) serder hab msgs. oobi_aid env aid = Inr pre \<and>
    manager (oe_agency env) (ay_world s) pre = Some (ag_caid a) \<and>
    oe_kever env (ay_world s') (ag_hby a) pre = Some (serder, hab) \<and>
    oe_witnessed env (ay_world s') (ag_hby a) serder \<and> oe_prefixes env (ay_world s') (ag_hby a) hab \<and>
    rs_data rep' = Some (JStr msgs) \<and> msgs \<noteq> [] \<and>
    public_view henv (ay_world s') = public_view henv (ay_world s) \<and>
    (\<forall>req. rq_method req \<noteq> ''OPTIONS'' \<and> dict_get (rq_headers req) ''CESR-DESTINATION'' = Some pre \<longrightarrow>
       (\<exists>rep'' s''. HttpEnd_on_put henv req rep s' = (Inr rep'', s'') \<and> rs_status rep'' = 204 \<and>
          put_on_stream henv s' s'' (ag_hby a) (rq_body req)))"
proof -
  from oobi_answered [OF assms(4,5)] obtain pre a hab msgs where pre: "oobi_aid env aid = Inr pre"
    and l: "Agency_lookup (oe_agency env) pre s = (Inr (Some a), s')"
    and h: "oobi_hab env (ag_hby a) pre (ay_world s') = (Inr hab, ay_world s')"
    and out: "rs_data rep' = Some (JStr msgs)" "msgs \<noteq> []" .
  note found = lookup_found [OF assms(1,3) l [unfolded assms(2)]]
  have sent: "\<exists>rep'' s''. HttpEnd_on_put henv req rep s' = (Inr rep'', s'') \<and> rs_status rep'' = 204 \<and>
      put_on_stream henv s' s'' (ag_hby a) (rq_body req)"
    if "rq_method req \<noteq> ''OPTIONS''" "dict_get (rq_headers req) ''CESR-DESTINATION'' = Some pre" for req
  proof -
    from found(4) obtain s2 where l2: "Agency_lookup (he_agency henv) pre s' = (Inr (Some a), s2)" "ay_world s2 = ay_world s'"
      by blast
    from that(1) show ?thesis
      by (simp add: HttpEnd_on_put_def bindA_def [of "destination e c" for e c] destination_run [OF that(2) l2(1)]
          put_on_stream_def set_ims_get [OF assms(1)] l2(2) bindA_def [of "ext m" for m] ext_run ims_extend_def)
  qed
  from oobi_hab_run [OF h] obtain serder where "oe_kever env (ay_world s') (ag_hby a) pre = Some (serder, hab)"
    "oe_witnessed env (ay_world s') (ag_hby a) serder" "oe_prefixes env (ay_world s') (ag_hby a) hab" by blast
  with pre found(1,3) out sent show ?thesis
    by (intro exI [of _ pre] exI [of _ a] exI [of _ serder] exI [of _ hab] exI [of _ msgs]) (simp add: assms(2))
qed

subsection \<open>A public agency in memory\<close>

record mem_public =
  pb_agnt :: "(string, string) alist"
  pb_ctrl :: "(string, string) alist"
  pb_aids :: "(string, string) alist"
  pb_ims :: "(string, string) alist"

definition mem_public_env :: "(string, mem_public) agency_env" where
  "mem_public_env =
     \<lparr>op_habery = (\<lambda>caid _ _. retA caid), op_makeHab = (\<lambda>h _ _. retA (''A'' @ h)), op_habByName = (\<lambda>h _ _. Some (''A'' @ h)),
      op_deleteHab = (\<lambda>_ _. retA ()), op_close = (\<lambda>_ _. retA ()), op_extend = (\<lambda>_. retA ()),
      op_remove_doers = (\<lambda>_. retA ()), op_remove = (\<lambda>_. retA ()), op_run = (\<lambda>_. retA ()), op_done = (\<lambda>_ _. True),
      op_agnt_rem = (\<lambda>_. raiseA TypeError), op_agnt = mem_suber pb_agnt (\<lambda>a w. w\<lparr>pb_agnt := a\<rparr>),
      op_ctrl = mem_suber pb_ctrl (\<lambda>a w. w\<lparr>pb_ctrl := a\<rparr>), op_aids = mem_suber pb_aids (\<lambda>a w. w\<lparr>pb_aids := a\<rparr>),
      op_now = (\<lambda>_. 100000), op_nowIso = (\<lambda>_. ''2024''), op_config = None, op_name = ''keria'', op_curls = None,
      op_iurls = None, op_durls = None, op_timeout = 86400\<rparr>"

definition mem_http :: "(string, mem_public) http_env" where
  "mem_http =
     \<lparr>he_agency = mem_public_env, he_parse = (\<lambda>req. Inr (JObj [(''t'', JStr ''icp'')], ''-A'')),
      he_sadder = (\<lambda>j. Inr \<lparr>sa_raw = ''raw'', sa_proto = ''KERI'', sa_ked = j\<rparr>),
      he_ims = (\<lambda>w h. case DAList.lookup (pb_ims w) h of None \<Rightarrow> [] | Some x \<Rightarrow> x),
      he_set_ims = (\<lambda>h x w. w\<lparr>pb_ims := DAList.update h x (pb_ims w)\<rparr>)\<rparr>"

definition mem_oobi :: "(string, mem_public) oobi_env" where
  "mem_oobi =
     \<lparr>oe_agency = mem_public_env, oe_default = None,
      oe_kever = (\<lambda>_ _ aid. Some (\<lparr>se_pre = aid, se_sn = 0, se_said = aid, se_ked = JNull\<rparr>, aid)),
      oe_witnessed = (\<lambda>_ _ _. True), oe_prefixes = (\<lambda>_ _ _. True), oe_habs = (\<lambda>_ _ _. True),
      oe_reply = (\<lambda>_ _ _ _ _ _. Inr []), oe_replay = (\<lambda>_ _ _ _. Inr ''kel''), oe_aid_header = ''KERI-AID''\<rparr>"

definition mem_public_one :: "(string, mem_public) agency" where
  "mem_public_one =
     \<lparr>ay_agents = [(''C'', \<lparr>en_agent = \<lparr>ag_caid = ''C'', ag_pre = ''AC'', ag_hby = ''C''\<rparr>, en_last = 0, en_shut = False\<rparr>)],
      ay_shut = False,
      ay_world = \<lparr>pb_agnt = DAList.empty, pb_ctrl = DAList.empty, pb_aids = DAList.update ''E1'' ''C'' DAList.empty,
                  pb_ims = DAList.empty\<rparr>\<rparr>"

lemma mem_public_ok: "public_ok mem_http"
  by (auto simp: public_ok_def public_view_def mem_http_def mem_public_env_def mem_suber_def fun_eq_iff lookup_update)

lemma mem_public_inv: "agency_inv mem_public_one"
  by (simp add: agency_inv_def mem_public_one_def)

definition to_E1 :: request where
  "to_E1 = demo_request\<lparr>rq_headers := [(''CESR-DESTINATION'', ''E1'')]\<rparr>"

lemma mem_posted:
  "he_ims mem_http (ay_world (snd (HttpEnd_on_post mem_http to_E1 fresh_response mem_public_one))) ''C'' = ''raw-A''"
  "he_ims mem_http (ay_world mem_public_one) ''C'' = []"
  by code_simp+

lemma mem_answered:
  "case OOBIEnd_on_get mem_oobi fresh_response (Some ''E1'') None None mem_public_one of
     (Inr rep, s') \<Rightarrow> rs_status rep = 200 | _ \<Rightarrow> False"
  by code_simp

theorem message_to_destination_witness:
  "\<exists>(a :: string agent) msg. fst (Agency_lookup mem_public_env ''E1'' mem_public_one) = Inr (Some a) \<and>
     manager mem_public_env (ay_world mem_public_one) ''E1'' = Some (ag_caid a) \<and> ag_hby a = ''C'' \<and>
     put_on_stream mem_http mem_public_one (snd (HttpEnd_on_post mem_http to_E1 fresh_response mem_public_one)) ''C'' msg"
proof -
  obtain r s' where run: "HttpEnd_on_post mem_http to_E1 fresh_response mem_public_one = (r, s')" by fastforce
  have "he_ims mem_http (ay_world s') ''C'' \<noteq> he_ims mem_http (ay_world mem_public_one) ''C''"
    using mem_posted run by simp
  from message_to_destination [OF mem_public_ok mem_public_inv disjI1 [OF run] this]
  obtain aid and a :: "string agent" and en msg where "dict_get (rq_headers to_E1) ''CESR-DESTINATION'' = Some aid"
    and found: "fst (Agency_lookup (he_agency mem_http) aid mem_public_one) = Inr (Some a)"
      "manager (he_agency mem_http) (ay_world mem_public_one) aid = Some (ag_caid a)"
      "dict_get (ay_agents s') (ag_caid a) = Some en" "en_agent en = a" "ag_hby a = ''C''"
      "put_on_stream mem_http mem_public_one s' ''C'' msg"
    by (elim exE conjE) (rule that)
  moreover have "dict_get (rq_headers to_E1) ''CESR-DESTINATION'' = Some ''E1''" by (simp add: to_E1_def)
  moreover have "he_agency mem_http = mem_public_env" by (simp add: mem_http_def)
  ultimately have "fst (Agency_lookup mem_public_env ''E1'' mem_public_one) = Inr (Some a)"
    "manager mem_public_env (ay_world mem_public_one) ''E1'' = Some (ag_caid a)" by simp_all
  with found(5,6) run show ?thesis by (intro exI [of _ a] exI [of _ msg]) simp
qed

theorem oobi_then_message_witness:
  "\<exists>rep s' rep'' s''. OOBIEnd_on_get mem_oobi fresh_response (Some ''E1'') None None mem_public_one = (Inr rep, s') \<and>
     HttpEnd_on_put mem_http to_E1 fresh_response s' = (Inr rep'', s'') \<and> rs_status rep'' = 204"
proof -
  obtain rep s' where run: "OOBIEnd_on_get mem_oobi fresh_response (Some ''E1'') None None mem_public_one = (Inr rep, s')"
    and ok: "rs_status rep = 200"
    using mem_answered by (auto split: prod.splits sum.splits)
  have same: "oe_agency mem_oobi = he_agency mem_http" by (simp add: mem_oobi_def mem_http_def)
  have req: "rq_method to_E1 \<noteq> ''OPTIONS'' \<and> dict_get (rq_headers to_E1) ''CESR-DESTINATION'' = Some ''E1''"
    by (simp add: to_E1_def demo_request_def Let_def)
  have aid: "oobi_aid mem_oobi (Some ''E1'') = Inr ''E1''" by (simp add: oobi_aid_def)
  from oobi_then_message [OF mem_public_ok same mem_public_inv run ok] obtain a :: "string agent" where
    "\<exists>rep'' s''. HttpEnd_on_put mem_http to_E1 fresh_response s' = (Inr rep'', s'') \<and> rs_status rep'' = 204 \<and>
       put_on_stream mem_http s' s'' (ag_hby a) (rq_body to_E1)"
    using req aid by auto
  with run show ?thesis by blast
qed

end
