(* ===== verification/Notifying.thy ===== *)
theory Notifying
  imports Identifiers
begin

text \<open>
  The endpoints of notifications (\<open>app/notifying.py\<close>). The notifier is one of \<open>keri\<close>: it keeps signed notes in the
  order of their dates; \<open>nt_mar\<close> marks one as read and \<open>nt_rem\<close> removes one, both telling whether they did.
  A text body is a \<open>JStr\<close> of \<open>rs_data\<close>.
\<close>

record 'w note_env =
  nt_count :: "'w \<Rightarrow> int"
  nt_getNotes :: "int \<Rightarrow> int \<Rightarrow> 'w \<Rightarrow> exn + json list"
  nt_mar :: "string \<Rightarrow> ('w, bool) act"
  nt_rem :: "string \<Rightarrow> ('w, bool) act"

text \<open>The range of the header, and without header the first 25 notes.\<close>

definition notes_range :: "request \<Rightarrow> int \<times> int" where
  "notes_range req =
     (case dict_get (rq_headers req) ''RANGE'' of
        None \<Rightarrow> (0, 24)
      | Some rng \<Rightarrow> parseRangeHeader rng ''notes'' 0 9)"

definition notes_content_range :: "int \<Rightarrow> nat \<Rightarrow> int \<Rightarrow> string" where
  "notes_content_range start n count =
     ''notes '' @ show_int start @ ''-'' @ show_int (if 0 < n then start + (int n - 1) else 0) @ ''/'' @ show_int count"

text \<open>The status 206 that the code sets for a request with a range is replaced by 200 in the end.\<close>

definition NotificationCollectionEnd_on_get :: "'w note_env \<Rightarrow> request \<Rightarrow> response \<Rightarrow> ('w, response) act" where
  "NotificationCollectionEnd_on_get env req rep =
     (let rep = rep\<lparr>rs_status := (if dict_get (rq_headers req) ''RANGE'' = None then 200 else 206)\<rparr>
      in case notes_range req of
           (start, stop) \<Rightarrow>
             bindA (getA (nt_count env)) (\<lambda>count.
             bindA (readA (nt_getNotes env start stop)) (\<lambda>out.
             retA ((set_header ''Content-Range'' (notes_content_range start (length out) count)
                     (set_header ''Accept-Ranges'' ''notes'' rep))\<lparr>rs_status := 200, rs_data := Some (JArr out)\<rparr>))))"

definition NotificationResourceEnd_on_put :: "'w note_env \<Rightarrow> response \<Rightarrow> string \<Rightarrow> ('w, response) act" where
  "NotificationResourceEnd_on_put env rep said =
     bindA (nt_mar env said) (\<lambda>mared.
     if \<not> mared then
       retA (rep\<lparr>rs_status := 404,
                 rs_data := Some (JObj [(''msg'', JStr (''no notification to mark as read for '' @ said))])\<rparr>)
     else retA (rep\<lparr>rs_status := 202\<rparr>))"

definition NotificationResourceEnd_on_delete :: "'w note_env \<Rightarrow> response \<Rightarrow> string \<Rightarrow> ('w, response) act" where
  "NotificationResourceEnd_on_delete env rep said =
     bindA (nt_rem env said) (\<lambda>deleted.
     if \<not> deleted then
       retA (rep\<lparr>rs_status := 404, rs_data := Some (JStr (''no notification to delete for '' @ said))\<rparr>)
     else retA (rep\<lparr>rs_status := 202\<rparr>))"

subsection \<open>Reading in pages\<close>

text \<open>
  What the notifier documents: its notes by position, both ends included, and that removing one takes the note
  of that said away and tells whether there was one.
\<close>

definition notes_ok :: "'w note_env \<Rightarrow> ('w \<Rightarrow> (string \<times> json) list) \<Rightarrow> bool" where
  "notes_ok env nts \<longleftrightarrow>
     (\<forall>w. nt_count env w = int (length (nts w))) \<and>
     (\<forall>w i j. i \<le> j \<longrightarrow> nt_getNotes env (int i) (int j) w = Inr (map snd (take (Suc (j - i)) (drop i (nts w))))) \<and>
     (\<forall>w said. fst (nt_rem env said w) = Inr (said \<in> set (map fst (nts w))) \<and>
        nts (snd (nt_rem env said w)) = dict_del (nts w) said)"

text \<open>The request for page \<open>k\<close> of \<open>n\<close> notes each, and the notes of an answer.\<close>

definition page_request :: "request \<Rightarrow> nat \<Rightarrow> nat \<Rightarrow> request" where
  "page_request req n k = req\<lparr>rq_headers := [(''RANGE'', range_header ''notes'' (n * k) (n * k + (n - 1)))]\<rparr>"

definition notes_of :: "response \<Rightarrow> json list" where
  "notes_of rep = (case rs_data rep of Some (JArr xs) \<Rightarrow> xs | _ \<Rightarrow> [])"

lemma range_name_notes: "range_name ''notes''"
  by (simp add: range_name_def is_digit_def)

lemma page_run:
  fixes w :: 'w and n k :: nat
  assumes "notes_ok env nts" and "0 < n"
  defines "page \<equiv> map snd (take n (drop (n * k) (nts w)))"
  shows "NotificationCollectionEnd_on_get env (page_request req n k) rep w =
    (Inr ((set_header ''Content-Range'' (notes_content_range (int (n * k)) (length page) (int (length (nts w))))
             (set_header ''Accept-Ranges'' ''notes'' (rep\<lparr>rs_status := 206\<rparr>)))\<lparr>rs_status := 200, rs_data := Some (JArr page)\<rparr>), w)"
proof -
  let ?i = "n * k" and ?j = "n * k + (n - 1)"
  have "nt_getNotes env (int ?i) (int ?j) w = Inr (map snd (take (Suc (?j - ?i)) (drop ?i (nts w))))"
    using assms(1) unfolding notes_ok_def by (metis le_add1)
  then have "nt_getNotes env (int ?i) (int ?j) w = Inr page" using assms(2) by (simp add: page_def)
  moreover have "notes_range (page_request req n k) = (int ?i, int ?j)"
    by (simp add: notes_range_def page_request_def parseRangeHeader_sent [OF range_name_notes] del: of_nat_mult of_nat_add)
  moreover have "nt_count env w = int (length (nts w))" using assms(1) by (simp add: notes_ok_def)
  ultimately show ?thesis
    by (simp add: NotificationCollectionEnd_on_get_def bindA_def page_request_def del: of_nat_mult of_nat_add)
qed

lemma concat_pages: "concat (map (\<lambda>k. take n (drop (n * k) xs)) [0..<m]) = take (n * m) xs"
  by (induction m) (simp_all add: take_add [symmetric] add.commute [of n])

lemma served_range:
  assumes "i < length xs" and "0 < n"
  shows "notes_content_range (int i) (length (take n (drop i xs))) count =
    ''notes '' @ show_int (int i) @ ''-'' @ show_int (int (min (i + n) (length xs)) - 1) @ ''/'' @ show_int count"
proof -
  have "0 < length (take n (drop i xs))" and "int i + (int (length (take n (drop i xs))) - 1) = int (min (i + n) (length xs)) - 1"
    using assms by (auto simp: min_def)
  then show ?thesis unfolding notes_content_range_def by (simp only: if_True)
qed

text \<open>
  C14. Notes read in pages with \<open>Range\<close>: every page is answered (with 200, not 206), its header tells which notes of how
  many it has, and the pages one after the other are all the notes, each once and in order. Nothing is written. A
  note that a \<open>DELETE\<close> answers with 202 was there, and no later page has it.
\<close>

theorem notification_pages:
  assumes "notes_ok env nts" and "0 < n" and "length (nts w) \<le> n * m"
  shows "(\<exists>reps. map (\<lambda>k. NotificationCollectionEnd_on_get env (page_request req n k) rep w) [0..<m] =
      map (\<lambda>rep'. (Inr rep', w)) reps \<and>
    concat (map notes_of reps) = map snd (nts w) \<and>
    (\<forall>k < m. rs_status (reps ! k) = 200 \<and>
       (n * k < length (nts w) \<longrightarrow> dict_get (rs_headers (reps ! k)) ''content-range'' =
          Some (''notes '' @ show_int (int (n * k)) @ ''-'' @
                show_int (int (min (n * k + n) (length (nts w))) - 1) @ ''/'' @ show_int (int (length (nts w))))))) \<and>
    (\<forall>rep' w'. NotificationResourceEnd_on_delete env rep said w = (Inr rep', w') \<longrightarrow>
       (rs_status rep' = 202 \<longleftrightarrow> said \<in> set (map fst (nts w))) \<and> nts w' = filter (\<lambda>(s, _). s \<noteq> said) (nts w))"
proof -
  let ?page = "\<lambda>k. map snd (take n (drop (n * k) (nts w)))"
  let ?rep = "\<lambda>k. (set_header ''Content-Range'' (notes_content_range (int (n * k)) (length (?page k)) (int (length (nts w))))
      (set_header ''Accept-Ranges'' ''notes'' (rep\<lparr>rs_status := 206\<rparr>)))\<lparr>rs_status := 200, rs_data := Some (JArr (?page k))\<rparr>"
  have "concat (map notes_of (map ?rep [0..<m])) = map snd (concat (map (\<lambda>k. take n (drop (n * k) (nts w))) [0..<m]))"
    by (simp add: comp_def map_concat notes_of_def)
  then have all: "concat (map notes_of (map ?rep [0..<m])) = map snd (nts w)"
    using assms(3) by (simp add: concat_pages)
  have pages: "\<exists>reps. map (\<lambda>k. NotificationCollectionEnd_on_get env (page_request req n k) rep w) [0..<m] =
      map (\<lambda>rep'. (Inr rep', w)) reps \<and> concat (map notes_of reps) = map snd (nts w) \<and>
    (\<forall>k < m. rs_status (reps ! k) = 200 \<and>
       (n * k < length (nts w) \<longrightarrow> dict_get (rs_headers (reps ! k)) ''content-range'' =
          Some (''notes '' @ show_int (int (n * k)) @ ''-'' @
                show_int (int (min (n * k + n) (length (nts w))) - 1) @ ''/'' @ show_int (int (length (nts w))))))"
    by (intro exI [of _ "map ?rep [0..<m]"] conjI allI impI all)
      (simp_all add: page_run [OF assms(1,2)] served_range [OF _ assms(2), unfolded length_take length_drop] comp_def
        del: of_nat_mult)
  obtain w2 where rem: "nt_rem env said w = (Inr (said \<in> set (map fst (nts w))), w2)" "nts w2 = dict_del (nts w) said"
    using assms(1) unfolding notes_ok_def by (metis prod.collapse)
  have "(rs_status rep' = 202 \<longleftrightarrow> said \<in> set (map fst (nts w))) \<and> nts w' = filter (\<lambda>(s, _). s \<noteq> said) (nts w)"
    if "NotificationResourceEnd_on_delete env rep said w = (Inr rep', w')" for rep' w'
    using that rem(2) by (cases "said \<in> set (map fst (nts w))")
      (auto simp: NotificationResourceEnd_on_delete_def bindA_def rem(1) dict_del_def)
  with pages show ?thesis by blast
qed

definition mem_notes :: "(string \<times> json) list note_env" where
  "mem_notes =
     \<lparr>nt_count = (\<lambda>w. int (length w)),
      nt_getNotes = (\<lambda>i j w. Inr (map snd (take (Suc (nat j - nat i)) (drop (nat i) w)))),
      nt_mar = (\<lambda>said w. (Inr (said \<in> set (map fst w)), w)),
      nt_rem = (\<lambda>said w. (Inr (said \<in> set (map fst w)), dict_del w said))\<rparr>"

lemma mem_notes_ok: "notes_ok mem_notes (\<lambda>w. w)"
  by (auto simp: notes_ok_def mem_notes_def)

definition three_notes :: "(string \<times> json) list" where
  "three_notes = [(''A'', JInt 1), (''B'', JInt 2), (''C'', JInt 3)]"

theorem notification_pages_witness:
  "\<exists>reps. map (\<lambda>k. NotificationCollectionEnd_on_get mem_notes (page_request demo_request 2 k) fresh_response three_notes)
      [0..<2] = map (\<lambda>rep'. (Inr rep', three_notes)) reps \<and>
    concat (map notes_of reps) = [JInt 1, JInt 2, JInt 3] \<and>
    NotificationResourceEnd_on_delete mem_notes fresh_response ''B'' three_notes =
      (Inr (fresh_response\<lparr>rs_status := 202\<rparr>), [(''A'', JInt 1), (''C'', JInt 3)])"
proof -
  have l: "length three_notes \<le> 2 * 2" by (simp add: three_notes_def)
  have d: "NotificationResourceEnd_on_delete mem_notes fresh_response ''B'' three_notes =
      (Inr (fresh_response\<lparr>rs_status := 202\<rparr>), [(''A'', JInt 1), (''C'', JInt 3)])"
    by (simp add: NotificationResourceEnd_on_delete_def mem_notes_def three_notes_def bindA_def dict_del_def)
  have s: "map snd three_notes = [JInt 1, JInt 2, JInt 3]" by (simp add: three_notes_def)
  have "\<exists>reps. map (\<lambda>k. NotificationCollectionEnd_on_get mem_notes (page_request demo_request 2 k) fresh_response three_notes)
      [0..<2] = map (\<lambda>rep'. (Inr rep', three_notes)) reps \<and> concat (map notes_of reps) = map snd three_notes"
    using notification_pages [OF mem_notes_ok _ l, of demo_request fresh_response, THEN conjunct1] by fastforce
  with d show ?thesis unfolding s by blast
qed

end
