(* ===== verification/Openapi.thy ===== *)
theory Openapi
  imports PyData
begin

text \<open>
  The classes and schemas made from the field domains of \<open>keri\<close> (\<open>utils/openapi.py\<close>). The types of \<open>typing\<close> are
  values; a field of \<open>marshmallow\<close> is what it is made with, and the fields that \<open>class_schema\<close> makes of a class are an
  argument. The second part is the pass over an OpenAPI schema that makes fields alternatives of each other.
\<close>

subsection \<open>Types and fields\<close>

text \<open>\<open>TData\<close> is a dataclass, \<open>TClass\<close> any other class.\<close>

datatype pytype =
    TAny
  | TStr
  | TInt
  | TFloat
  | TNone
  | TList pytype
  | TDict pytype pytype
  | TUnion "pytype list"
  | TData string
  | TClass string

datatype mkind =
    MNested string
  | MListNested string
  | StringOrStringArrayField
  | StringOrArrayOrArrayOfArraysField
  | UnionField "pytype list"
  | MRaw
  | MString
  | MField

record mfield =
  mf_kind :: mkind
  mf_required :: bool
  mf_allow_none :: "bool option"

text \<open>An entry for \<open>make_dataclass\<close>: name, type, and whether it has the default \<open>None\<close>.\<close>

record fdef =
  fd_name :: string
  fd_type :: pytype
  fd_default :: bool

definition string_schema :: json where
  "string_schema = JObj [(''type'', JStr ''string'')]"

definition array_schema :: "json \<Rightarrow> json" where
  "array_schema items = JObj [(''type'', JStr ''array''), (''items'', items)]"

text \<open>The alternatives of a union; a member that is neither a string nor a list has none.\<close>

fun any_of :: "pytype \<Rightarrow> json list" where
  "any_of TStr = [string_schema]"
| "any_of (TList t) = (if t = TStr then [array_schema string_schema] else [JObj [(''type'', JStr ''array'')]])"
| "any_of _ = []"

fun field_metadata :: "mkind \<Rightarrow> (string \<times> json) list" where
  "field_metadata StringOrStringArrayField = [(''oneOf'', JArr [string_schema, array_schema string_schema])]"
| "field_metadata StringOrArrayOrArrayOfArraysField =
     [(''oneOf'', JArr [string_schema, array_schema string_schema, array_schema (array_schema string_schema)])]"
| "field_metadata (UnionField ts) = [(''anyOf'', JArr (concat (map any_of ts)))]"
| "field_metadata _ = []"

text \<open>\<open>Optional[t]\<close>, which is flat.\<close>

fun optional_of :: "pytype \<Rightarrow> pytype" where
  "optional_of TNone = TNone"
| "optional_of (TUnion ts) = TUnion (if TNone \<in> set ts then ts else ts @ [TNone])"
| "optional_of t = TUnion [t, TNone]"

text \<open>A \<open>bool\<close> is an \<open>int\<close> for \<open>isinstance\<close>, so the branch for \<open>bool\<close> is never reached.\<close>

fun inferType :: "json \<Rightarrow> string \<Rightarrow> pytype" where
  "inferType v key =
     (if key = ''a'' \<or> key = ''A'' then TAny
      else case v of
        JStr _ \<Rightarrow> TStr
      | JInt _ \<Rightarrow> TInt
      | JBool _ \<Rightarrow> TInt
      | JFloat _ \<Rightarrow> TFloat
      | JArr [] \<Rightarrow> TList TStr
      | JArr (x # xs) \<Rightarrow> TList (inferType x key)
      | JObj _ \<Rightarrow> TDict TStr TAny
      | JNull \<Rightarrow> TAny)"

definition createOptionalField :: "string \<Rightarrow> pytype \<Rightarrow> mkind \<Rightarrow> bool \<Rightarrow> fdef \<times> mfield" where
  "createOptionalField key t kind isOptional =
     (if isOptional then
        (\<lparr>fd_name = key, fd_type = optional_of t, fd_default = True\<rparr>,
         \<lparr>mf_kind = kind, mf_required = False, mf_allow_none = Some False\<rparr>)
      else
        (\<lparr>fd_name = key, fd_type = t, fd_default = False\<rparr>,
         \<lparr>mf_kind = kind, mf_required = True, mf_allow_none = None\<rparr>))"

fun is_list_type :: "pytype \<Rightarrow> bool" where
  "is_list_type (TList _) = True"
| "is_list_type _ = False"

text \<open>The kind of field for a custom type: the union of a string and a list of strings has its own.\<close>

fun custom_kind :: "pytype \<Rightarrow> mkind" where
  "custom_kind (TUnion ts) =
     (if length ts = 2 \<and> TStr \<in> set ts \<and> List.find is_list_type ts = Some (TList TStr)
      then StringOrStringArrayField else UnionField ts)"
| "custom_kind (TList (TData c)) = MListNested c"
| "custom_kind (TList _) = MRaw"
| "custom_kind (TDict _ _) = MRaw"
| "custom_kind (TData c) = MNested c"
| "custom_kind _ = MRaw"

definition createCustomNestedField :: "string \<Rightarrow> pytype \<Rightarrow> bool \<Rightarrow> fdef \<times> mfield" where
  "createCustomNestedField key t isOptional = createOptionalField key t (custom_kind t) isOptional"

definition createKtNtField :: "string \<Rightarrow> bool \<Rightarrow> fdef \<times> mfield" where
  "createKtNtField key isOptional =
     createOptionalField key (TUnion [TStr, TList TStr, TList (TList TStr)]) StringOrArrayOrArrayOfArraysField isOptional"

definition createRegularField :: "string \<Rightarrow> json \<Rightarrow> bool \<Rightarrow> fdef \<times> mfield option" where
  "createRegularField key value isOptional =
     (let inferredType = inferType value key;
          marshmallowField =
            (if isOptional \<and> \<not> (key = ''a'' \<or> key = ''A'') then
               Some \<lparr>mf_kind = (if inferredType = TStr \<or> inferredType = optional_of TStr then MString else MField),
                     mf_required = False, mf_allow_none = Some False\<rparr>
             else None)
      in if isOptional then (\<lparr>fd_name = key, fd_type = optional_of inferredType, fd_default = True\<rparr>, marshmallowField)
         else (\<lparr>fd_name = key, fd_type = inferredType, fd_default = False\<rparr>, marshmallowField))"

subsection \<open>A class from a field domain\<close>

record field_dom =
  dom_alls :: "(string \<times> json) list"
  dom_opts :: "string list"
  dom_alts :: "(string \<times> string) list"

definition processField ::
  "field_dom \<Rightarrow> (string \<times> pytype) list \<Rightarrow> string \<times> json \<Rightarrow> fdef \<times> mfield option" where
  "processField fdom customTypes kv =
     (case kv of (key, value) \<Rightarrow>
        let isOptional = key \<in> set (dom_opts fdom)
        in case dict_get customTypes key of
             Some t \<Rightarrow> map_prod id Some (createCustomNestedField key t isOptional)
           | None \<Rightarrow>
               if key = ''kt'' \<or> key = ''nt'' then map_prod id Some (createKtNtField key isOptional)
               else createRegularField key value isOptional)"

definition py_keywords :: "string list" where
  "py_keywords =
     [''False'', ''None'', ''True'', ''and'', ''as'', ''assert'', ''async'', ''await'', ''break'', ''class'', ''continue'',
      ''def'', ''del'', ''elif'', ''else'', ''except'', ''finally'', ''for'', ''from'', ''global'', ''if'', ''import'', ''in'',
      ''is'', ''lambda'', ''nonlocal'', ''not'', ''or'', ''pass'', ''raise'', ''return'', ''try'', ''while'', ''with'', ''yield'']"

definition is_letter :: "char \<Rightarrow> bool" where
  "is_letter c \<longleftrightarrow> (let n = (of_char c :: nat) in 65 \<le> n \<and> n \<le> 90 \<or> 97 \<le> n \<and> n \<le> 122 \<or> n = 95)"

definition field_identifier :: "string \<Rightarrow> bool" where
  "field_identifier s \<longleftrightarrow> s \<noteq> [] \<and> is_letter (hd s) \<and> (\<forall>c \<in> set s. is_letter c \<or> is_digit c) \<and> s \<notin> set py_keywords"

fun defaults_last :: "bool \<Rightarrow> fdef list \<Rightarrow> bool" where
  "defaults_last seen [] = True"
| "defaults_last seen (f # fs) = ((seen \<longrightarrow> fd_default f) \<and> defaults_last (seen \<or> fd_default f) fs)"

text \<open>\<open>make_dataclass\<close> refuses names that are no identifiers or not distinct, and a field without default after one with.\<close>

definition make_dataclass :: "string \<Rightarrow> fdef list \<Rightarrow> exn + (string \<times> fdef list)" where
  "make_dataclass name fds =
     (if list_all (field_identifier \<circ> fd_name) fds \<and> distinct (map fd_name fds) \<and> defaults_last False fds
      then Inr (name, fds) else Inl TypeError)"

datatype 'f sfield = Auto 'f | Own mfield

definition custom_fields :: "(string \<times> fdef \<times> mfield option) list \<Rightarrow> (string \<times> mfield) list" where
  "custom_fields rs =
     fold (\<lambda>(k, _, f) d. case f of None \<Rightarrow> d | Some f \<Rightarrow> dict_set d k f) rs []"

text \<open>The class, the fields of its schema (which is the same in \<open>fields\<close> and \<open>_declared_fields\<close>), and the alternatives.\<close>

definition dataclassFromFielddom ::
  "(string \<times> fdef list \<Rightarrow> (string \<times> 'f) list) \<Rightarrow> string \<Rightarrow> field_dom \<Rightarrow> (string \<times> pytype) list \<Rightarrow>
   exn + ((string \<times> fdef list) \<times> (string \<times> 'f sfield) list \<times> (string \<times> string) list)" where
  "dataclassFromFielddom class_schema name fdom customTypes =
     (let rs = map (\<lambda>kv. (fst kv, processField fdom customTypes kv)) (dom_alls fdom);
          optionalFields = map (fst \<circ> snd) (filter (\<lambda>(k, _). k \<in> set (dom_opts fdom)) rs);
          requiredFields = map (fst \<circ> snd) (filter (\<lambda>(k, _). k \<notin> set (dom_opts fdom)) rs)
      in case make_dataclass name (requiredFields @ optionalFields) of
           Inl e \<Rightarrow> Inl e
         | Inr cls \<Rightarrow>
             Inr (cls,
               fold (\<lambda>(k, f) d. dict_set d k (Own f)) (custom_fields rs) (map (map_prod id Auto) (class_schema cls)),
               dom_alts fdom))"

subsection \<open>Alternatives in a schema\<close>

text \<open>The pairs of alternate fields that a schema has, each field in one pair; the pairs are kept under a joint name.\<close>

fun alt_groups ::
  "json \<Rightarrow> string list \<Rightarrow> (string \<times> string \<times> string) list \<Rightarrow> (string \<times> string) list \<Rightarrow>
   exn + (string \<times> string \<times> string) list" where
  "alt_groups properties processedAlts altGroups [] = Inr altGroups"
| "alt_groups properties processedAlts altGroups ((f1, f2) # alts) =
     (if f1 \<in> set processedAlts \<or> f2 \<in> set processedAlts then alt_groups properties processedAlts altGroups alts
      else case jin f1 properties of
        Inl e \<Rightarrow> Inl e
      | Inr there1 \<Rightarrow>
          case (if there1 then jin f2 properties else Inr False) of
            Inl e \<Rightarrow> Inl e
          | Inr there \<Rightarrow>
              if there then alt_groups properties (processedAlts @ [f1, f2])
                              (dict_set altGroups (f1 @ ''_'' @ f2) (f1, f2)) alts
              else alt_groups properties processedAlts altGroups alts)"

text \<open>The schema with one of the two fields: \<open>f\<close> is kept, of the pair in \<open>fs\<close>.\<close>

definition alt_schema ::
  "(string \<times> json) list \<Rightarrow> (string \<times> json) list \<Rightarrow> json list \<Rightarrow> json \<Rightarrow> string list \<Rightarrow> string \<Rightarrow> exn + json" where
  "alt_schema schema properties reqs required fs f =
     (let baseProps = filter (\<lambda>(k, _). k \<notin> set fs) properties;
          baseRequired = filter (\<lambda>r. r \<notin> JStr ` set fs) reqs
      in case jin f required of
           Inl e \<Rightarrow> Inl e
         | Inr needed \<Rightarrow>
             (case jitem (JObj properties) f of
                Inl e \<Rightarrow> Inl e
              | Inr p \<Rightarrow>
                  Inr (JObj ([(''type'', JStr ''object''),
                              (''properties'', JObj (dict_set baseProps f p)),
                              (''additionalProperties'',
                                 case dict_get schema ''additionalProperties'' of None \<Rightarrow> JBool False | Some a \<Rightarrow> a)] @
                             (if needed \<or> baseRequired \<noteq> []
                              then [(''required'', JArr (baseRequired @ (if needed then [JStr f] else [])))] else [])))))"

definition group_schemas ::
  "(string \<times> json) list \<Rightarrow> json \<Rightarrow> json \<Rightarrow> string \<times> string \<times> string \<Rightarrow> exn + json list" where
  "group_schemas schema properties required g =
     (case g of (_, f1, f2) \<Rightarrow>
        case properties of
          JObj ps \<Rightarrow>
            (case jiter required of
               Inl e \<Rightarrow> Inl e
             | Inr reqs \<Rightarrow> mapE (alt_schema schema ps reqs required [f1, f2]) [f1, f2])
        | _ \<Rightarrow> Inl AttributeError)"

definition applyAltConstraintsToOpenApiSchema ::
  "(string \<times> json) list \<Rightarrow> (string \<times> string) list \<Rightarrow> exn + (string \<times> json) list" where
  "applyAltConstraintsToOpenApiSchema schema altConstraints =
     (case dict_get schema ''properties'' of
        None \<Rightarrow> Inr schema
      | Some properties \<Rightarrow>
          if altConstraints = [] then Inr schema
          else
            let required = (case dict_get schema ''required'' of None \<Rightarrow> JArr [] | Some r \<Rightarrow> r)
            in case alt_groups properties [] [] altConstraints of
                 Inl e \<Rightarrow> Inl e
               | Inr altGroups \<Rightarrow>
                   if altGroups = [] then Inr schema
                   else case mapE (group_schemas schema properties required) altGroups of
                          Inl e \<Rightarrow> Inl e
                        | Inr schemas \<Rightarrow> Inr [(''oneOf'', JArr (concat schemas))])"

text \<open>A named tuple: the name of its class and its fields in order.\<close>

definition enumSchemaFromNamedtuple :: "string \<times> (string \<times> json) list \<Rightarrow> string \<Rightarrow> json" where
  "enumSchemaFromNamedtuple nt description =
     JObj [(''type'', JStr ''string''), (''enum'', JArr (map snd (snd nt))),
           (''description'', JStr (if description \<noteq> [] then description else fst nt))]"

text \<open>\<open>None\<close> is an object that is no named tuple; the members of the enumeration in their order.\<close>

definition namedtupleToEnum :: "(string \<times> (string \<times> json) list) option \<Rightarrow> string \<Rightarrow> exn + (string \<times> (string \<times> json) list)" where
  "namedtupleToEnum nt enum_name = (case nt of None \<Rightarrow> Inl TypeError | Some (_, members) \<Rightarrow> Inr (enum_name, members))"

subsection \<open>What a schema accepts\<close>

text \<open>
  The meaning of a schema for the keys of an object, types aside: the required ones are there, and with
  \<open>additionalProperties\<close> false no others than the properties; with \<open>oneOf\<close> exactly one of the schemas accepts.
\<close>

definition keys_accepted :: "(string \<times> json) list \<Rightarrow> string list \<Rightarrow> bool" where
  "keys_accepted schema keys \<longleftrightarrow>
     (case dict_get schema ''required'' of Some (JArr rs) \<Rightarrow> set rs \<subseteq> JStr ` set keys | _ \<Rightarrow> True) \<and>
     (case (dict_get schema ''additionalProperties'', dict_get schema ''properties'') of
        (Some (JBool False), Some (JObj ps)) \<Rightarrow> set keys \<subseteq> set (map fst ps)
      | _ \<Rightarrow> True)"

definition one_of :: "json list \<Rightarrow> string list \<Rightarrow> nat" where
  "one_of ss keys = length (filter (\<lambda>s. case s of JObj sd \<Rightarrow> keys_accepted sd keys | _ \<Rightarrow> False) ss)"

definition accepts :: "(string \<times> json) list \<Rightarrow> string list \<Rightarrow> bool" where
  "accepts schema keys \<longleftrightarrow>
     (case dict_get schema ''oneOf'' of Some (JArr ss) \<Rightarrow> one_of ss keys = 1 | _ \<Rightarrow> keys_accepted schema keys)"

definition closed_keys :: "(string \<times> json) list \<Rightarrow> json list \<Rightarrow> string list \<Rightarrow> bool" where
  "closed_keys ps reqs keys \<longleftrightarrow> set reqs \<subseteq> JStr ` set keys \<and> set keys \<subseteq> set (map fst ps)"

lemma set_dict_set: "set (dict_set d k v) \<subseteq> insert (k, v) (set d)"
  by (induction d k v rule: dict_set.induct) auto

lemma set_keys_dict_set: "set (map fst (dict_set d k v)) = insert k (set (map fst d))"
  by (simp only: keys_dict_set split: if_splits) auto

lemma keys_filter: "set (map fst (filter (\<lambda>(k, _). P k) d)) = {k \<in> set (map fst d). P k}"
  by (induction d) auto

lemma alt_schema_accepts:
  assumes "dict_get schema ''additionalProperties'' = None" and "f \<in> set (map fst ps)" and "f \<noteq> g"
    and "JStr f \<notin> set reqs" and "JStr g \<notin> set reqs" and "set fs = {f, g}"
  obtains sd where "alt_schema schema ps reqs (JArr reqs) fs f = Inr (JObj sd)"
    and "\<And>keys. keys_accepted sd keys \<longleftrightarrow> closed_keys ps reqs keys \<and> g \<notin> set keys"
proof -
  obtain p where p: "dict_get ps f = Some p" using assms(2) by (cases "dict_get ps f") (auto simp: dict_get_map_of map_of_eq_None_iff)
  have reqs: "filter (\<lambda>r. r \<notin> JStr ` set fs) reqs = reqs" using assms(4-6) by (auto simp: filter_id_conv)
  let ?ps = "dict_set (filter (\<lambda>(k, _). k \<notin> set fs) ps) f p"
  let ?sd = "[(''type'', JStr ''object''), (''properties'', JObj ?ps), (''additionalProperties'', JBool False)] @
      (if reqs \<noteq> [] then [(''required'', JArr reqs)] else [])"
  have "set (map fst ?ps) = set (map fst ps) - {g}"
    using assms(2,3) unfolding set_keys_dict_set keys_filter assms(6) by blast
  then have "keys_accepted ?sd keys \<longleftrightarrow> closed_keys ps reqs keys \<and> g \<notin> set keys" for keys
    by (auto simp: keys_accepted_def closed_keys_def)
  moreover have "alt_schema schema ps reqs (JArr reqs) fs f = Inr (JObj ?sd)"
    using assms(1,4) p by (simp add: alt_schema_def reqs Let_def)
  ultimately show thesis by (intro that)
qed

lemma alt_groups_there:
  assumes "alt_groups (JObj ps) processed gs alts = Inr gs'"
    and "\<forall>g \<in> set gs. fst (snd g) \<in> set (map fst ps) \<and> snd (snd g) \<in> set (map fst ps)"
  shows "\<forall>g \<in> set gs'. fst (snd g) \<in> set (map fst ps) \<and> snd (snd g) \<in> set (map fst ps)"
  using assms
proof (induction alts arbitrary: processed gs)
  case (Cons a alts)
  obtain f1 f2 where a: "a = (f1, f2)" by fastforce
  show ?case
  proof (cases "f1 \<notin> set processed \<and> f2 \<notin> set processed \<and> dict_get ps f1 \<noteq> None \<and> dict_get ps f2 \<noteq> None")
    case True
    then have f: "f1 \<in> set (map fst ps)" "f2 \<in> set (map fst ps)"
      by (auto simp: dict_get_map_of map_of_eq_None_iff)
    have next_gs: "\<forall>g \<in> set (dict_set gs n (f1, f2)). fst (snd g) \<in> set (map fst ps) \<and> snd (snd g) \<in> set (map fst ps)" for n
    proof
      fix g assume "g \<in> set (dict_set gs n (f1, f2))"
      from subsetD [OF set_dict_set this] have "g = (n, f1, f2) \<or> g \<in> set gs" by simp
      with f Cons.prems(2) show "fst (snd g) \<in> set (map fst ps) \<and> snd (snd g) \<in> set (map fst ps)" by (elim disjE) simp_all
    qed
    have "alt_groups (JObj ps) (processed @ [f1, f2]) (dict_set gs (f1 @ ''_'' @ f2) (f1, f2)) alts = Inr gs'"
      using Cons.prems(1) True by (simp add: a)
    from Cons.IH [OF this next_gs] show ?thesis .
  next
    case False
    then have "alt_groups (JObj ps) processed gs alts = Inr gs'"
      using Cons.prems(1) by (auto simp: a split: if_splits)
    with Cons show ?thesis by blast
  qed
qed simp

lemma group_schemas_accept:
  assumes "dict_get schema ''additionalProperties'' = None" and "f1 \<in> set (map fst ps)" and "f2 \<in> set (map fst ps)"
    and "f1 \<noteq> f2" and "JStr f1 \<notin> set reqs" and "JStr f2 \<notin> set reqs"
  shows "\<exists>ss. group_schemas schema (JObj ps) (JArr reqs) (n, f1, f2) = Inr ss \<and>
    (\<forall>keys. one_of ss keys =
       (if closed_keys ps reqs keys then of_bool (f1 \<notin> set keys) + of_bool (f2 \<notin> set keys) else 0))"
proof -
  from alt_schema_accepts [OF assms(1,2,4,5,6), of "[f1, f2]"] obtain s1 where
    s1: "alt_schema schema ps reqs (JArr reqs) [f1, f2] f1 = Inr (JObj s1)"
      "\<And>keys. keys_accepted s1 keys \<longleftrightarrow> closed_keys ps reqs keys \<and> f2 \<notin> set keys" by auto
  from alt_schema_accepts [OF assms(1,3) assms(4) [symmetric] assms(6,5), of "[f1, f2]"] obtain s2 where
    s2: "alt_schema schema ps reqs (JArr reqs) [f1, f2] f2 = Inr (JObj s2)"
      "\<And>keys. keys_accepted s2 keys \<longleftrightarrow> closed_keys ps reqs keys \<and> f1 \<notin> set keys" by auto
  show ?thesis
    by (intro exI [of _ "[JObj s1, JObj s2]"]) (simp add: group_schemas_def s1 s2 one_of_def)
qed

lemma one_of_append: "one_of (ss @ ts) keys = one_of ss keys + one_of ts keys"
  by (simp add: one_of_def)

lemma all_schemas_accept:
  assumes "dict_get schema ''additionalProperties'' = None"
    and "\<forall>g \<in> set groups. fst (snd g) \<in> set (map fst ps) \<and> snd (snd g) \<in> set (map fst ps)"
    and "\<forall>g \<in> set groups. fst (snd g) \<noteq> snd (snd g) \<and> JStr (fst (snd g)) \<notin> set reqs \<and> JStr (snd (snd g)) \<notin> set reqs"
  shows "\<exists>sss. mapE (group_schemas schema (JObj ps) (JArr reqs)) groups = Inr sss \<and>
    (\<forall>keys. one_of (concat sss) keys = (if closed_keys ps reqs keys
       then \<Sum>g\<leftarrow>groups. of_bool (fst (snd g) \<notin> set keys) + of_bool (snd (snd g) \<notin> set keys) else 0))"
  using assms(2,3)
proof (induction groups)
  case Nil
  then show ?case by (simp add: one_of_def)
next
  case (Cons g groups)
  obtain n f1 f2 where g: "g = (n, f1, f2)" by (cases g) auto
  from Cons obtain sss where "mapE (group_schemas schema (JObj ps) (JArr reqs)) groups = Inr sss"
    "\<forall>keys. one_of (concat sss) keys = (if closed_keys ps reqs keys
       then \<Sum>g\<leftarrow>groups. of_bool (fst (snd g) \<notin> set keys) + of_bool (snd (snd g) \<notin> set keys) else 0)" by auto
  moreover from group_schemas_accept [OF assms(1), of f1 ps f2 reqs n] Cons.prems obtain ss where
    "group_schemas schema (JObj ps) (JArr reqs) g = Inr ss"
    "\<forall>keys. one_of ss keys =
       (if closed_keys ps reqs keys then of_bool (f1 \<notin> set keys) + of_bool (f2 \<notin> set keys) else 0)" by (auto simp: g)
  ultimately show ?case by (intro exI [of _ "ss # sss"]) (simp add: one_of_append g)
qed

text \<open>
  C32. Alternate fields of a schema that are not required, where the schema says nothing of additional properties
  (and so allows any): after the pass an object is accepted when the schema as it was accepted it, all its keys are
  properties of the schema, and exactly one alternate field is missing from it. So the pass also closes the schema: an
  object with one more key, which the schema accepted, is refused. With one pair the rest is
  what is meant, one of the two; with two pairs an object with one of each is refused, and one that has both
  fields of a pair and one of the other is accepted.
\<close>

theorem alternates_exclusive:
  assumes "dict_get schema ''properties'' = Some (JObj ps)" and "dict_get schema ''oneOf'' = None"
    and "dict_get schema ''required'' = Some (JArr reqs) \<or> dict_get schema ''required'' = None \<and> reqs = []"
    and "dict_get schema ''additionalProperties'' = None"
    and "alt_groups (JObj ps) [] [] alts = Inr groups" and "groups \<noteq> []"
    and "\<forall>g \<in> set groups. fst (snd g) \<noteq> snd (snd g) \<and> JStr (fst (snd g)) \<notin> set reqs \<and> JStr (snd (snd g)) \<notin> set reqs"
  shows "\<exists>schema'. applyAltConstraintsToOpenApiSchema schema alts = Inr schema' \<and>
    (\<forall>keys. accepts schema' keys \<longleftrightarrow> accepts schema keys \<and> set keys \<subseteq> set (map fst ps) \<and>
       (\<Sum>g\<leftarrow>groups. of_bool (fst (snd g) \<notin> set keys) + of_bool (snd (snd g) \<notin> set keys)) = (1 :: nat)) \<and>
    (\<forall>keys z. z \<notin> set (map fst ps) \<and> accepts schema keys \<longrightarrow> accepts schema (z # keys) \<and> \<not> accepts schema' (z # keys)) \<and>
    (\<forall>n f1 f2 keys. groups = [(n, f1, f2)] \<longrightarrow>
       accepts schema' keys =
         (accepts schema keys \<and> set keys \<subseteq> set (map fst ps) \<and> (f1 \<in> set keys) \<noteq> (f2 \<in> set keys))) \<and>
    (\<forall>n f1 f2 m g1 g2 keys. groups = [(n, f1, f2), (m, g1, g2)] \<longrightarrow> accepts schema keys \<longrightarrow> set keys \<subseteq> set (map fst ps) \<longrightarrow>
       ((f1 \<in> set keys) \<noteq> (f2 \<in> set keys) \<and> (g1 \<in> set keys) \<noteq> (g2 \<in> set keys) \<longrightarrow> \<not> accepts schema' keys) \<and>
       (f1 \<in> set keys \<and> f2 \<in> set keys \<and> (g1 \<in> set keys) \<noteq> (g2 \<in> set keys) \<longrightarrow> accepts schema' keys))"
proof -
  let ?missing = "\<lambda>keys. \<Sum>g\<leftarrow>groups. of_bool (fst (snd g) \<notin> set keys) + of_bool (snd (snd g) \<notin> set keys) :: nat"
  have required: "(case dict_get schema ''required'' of None \<Rightarrow> JArr [] | Some r \<Rightarrow> r) = JArr reqs"
    using assms(3) by auto
  have needed: "accepts schema keys \<longleftrightarrow> set reqs \<subseteq> JStr ` set keys" for keys
    using assms(1-4) by (auto simp: accepts_def keys_accepted_def)
  have before: "closed_keys ps reqs keys \<longleftrightarrow> accepts schema keys \<and> set keys \<subseteq> set (map fst ps)" for keys
    by (simp only: closed_keys_def needed)
  have "alts \<noteq> []" using assms(5,6) by auto
  from alt_groups_there [OF assms(5)] all_schemas_accept [OF assms(4) _ assms(7), of ps] obtain sss where
    sss: "mapE (group_schemas schema (JObj ps) (JArr reqs)) groups = Inr sss"
      "\<forall>keys. one_of (concat sss) keys = (if closed_keys ps reqs keys then ?missing keys else 0)" by auto
  have pass: "applyAltConstraintsToOpenApiSchema schema alts = Inr [(''oneOf'', JArr (concat sss))]"
    using assms(1,5,6) \<open>alts \<noteq> []\<close> sss(1) by (simp add: applyAltConstraintsToOpenApiSchema_def required Let_def)
  have count: "accepts [(''oneOf'', JArr (concat sss))] keys \<longleftrightarrow>
      accepts schema keys \<and> set keys \<subseteq> set (map fst ps) \<and> ?missing keys = 1" for keys
    using sss(2) before [of keys] by (auto simp: accepts_def [of "[(''oneOf'', JArr (concat sss))]"])
  have one: "?missing keys = 1 \<longleftrightarrow> (f1 \<in> set keys) \<noteq> (f2 \<in> set keys)" if "groups = [(n, f1, f2)]" for n f1 f2 keys
    by (simp add: that of_bool_def)
  have two: "?missing keys = of_bool (f1 \<notin> set keys) + of_bool (f2 \<notin> set keys) + (of_bool (g1 \<notin> set keys) + of_bool (g2 \<notin> set keys))"
    if "groups = [(n, f1, f2), (m, g1, g2)]" for n f1 f2 m g1 g2 keys
    by (simp add: that)
  have closes: "accepts schema (z # keys)" "\<not> accepts [(''oneOf'', JArr (concat sss))] (z # keys)"
    if "z \<notin> set (map fst ps)" "accepts schema keys" for z keys
    using that by (auto simp: needed count)
  show ?thesis
    by (intro exI [of _ "[(''oneOf'', JArr (concat sss))]"] conjI pass allI impI count closes)
      (auto simp: count one two)
qed

definition acdc_schema :: "(string \<times> json) list" where
  "acdc_schema = [(''type'', JStr ''object''),
     (''properties'', JObj [(''d'', string_schema), (''a'', JObj []), (''A'', JObj [])]), (''required'', JArr [JStr ''d''])]"

lemma acdc_groups:
  "alt_groups (JObj [(''d'', string_schema), (''a'', JObj []), (''A'', JObj [])]) [] [] [(''a'', ''A''), (''A'', ''a'')] =
     Inr [(''a_A'', ''a'', ''A'')]"
  by simp

theorem alternates_exclusive_witness:
  "\<exists>schema'. applyAltConstraintsToOpenApiSchema acdc_schema [(''a'', ''A''), (''A'', ''a'')] = Inr schema' \<and>
     accepts schema' [''d'', ''a''] \<and> accepts schema' [''d'', ''A''] \<and>
     \<not> accepts schema' [''d'', ''a'', ''A''] \<and> \<not> accepts schema' [''d''] \<and> \<not> accepts schema' [''a''] \<and>
     accepts acdc_schema [''zzz'', ''d'', ''a''] \<and> \<not> accepts schema' [''zzz'', ''d'', ''a'']"
proof -
  let ?ps = "[(''d'', string_schema), (''a'', JObj []), (''A'', JObj [])]"
  have p: "dict_get acdc_schema ''properties'' = Some (JObj ?ps)" "dict_get acdc_schema ''oneOf'' = None"
    "dict_get acdc_schema ''required'' = Some (JArr [JStr ''d'']) \<or> dict_get acdc_schema ''required'' = None \<and> [JStr ''d''] = []"
    "dict_get acdc_schema ''additionalProperties'' = None"
    by (simp_all add: acdc_schema_def)
  from alternates_exclusive [OF p acdc_groups] obtain schema' where
    "applyAltConstraintsToOpenApiSchema acdc_schema [(''a'', ''A''), (''A'', ''a'')] = Inr schema'"
    and z: "z \<notin> set (map fst ?ps) \<Longrightarrow> accepts acdc_schema keys \<Longrightarrow>
      accepts acdc_schema (z # keys) \<and> \<not> accepts schema' (z # keys)"
    and a: "accepts schema' keys \<longleftrightarrow> accepts acdc_schema keys \<and> set keys \<subseteq> set (map fst ?ps) \<and>
      (''a'' \<in> set keys) \<noteq> (''A'' \<in> set keys)" for z keys
    by auto
  moreover have "accepts acdc_schema [''d'', ''a'']" "accepts acdc_schema [''d'', ''A'']" "\<not> accepts acdc_schema [''a'']"
    by (simp_all add: accepts_def keys_accepted_def acdc_schema_def)
  moreover from z [OF _ this(1), of "''zzz''"] have "accepts acdc_schema [''zzz'', ''d'', ''a'']" "\<not> accepts schema' [''zzz'', ''d'', ''a'']"
    by simp_all
  ultimately show ?thesis by (intro exI [of _ schema']) (simp add: a)
qed

subsection \<open>The fields of a generated class\<close>

lemma processField_name [simp]: "fd_name (fst (processField fdom custom kv)) = fst kv"
  by (simp add: processField_def createCustomNestedField_def createKtNtField_def createOptionalField_def
      createRegularField_def Let_def split_beta split: option.split)

lemma processField_default [simp]: "fd_default (fst (processField fdom custom kv)) = (fst kv \<in> set (dom_opts fdom))"
  by (simp add: processField_def createCustomNestedField_def createKtNtField_def createOptionalField_def
      createRegularField_def Let_def split_beta split: option.split)

lemma defaults_last_append:
  assumes "list_all (\<lambda>f. \<not> fd_default f) fs" and "list_all fd_default gs"
  shows "defaults_last False (fs @ gs)"
proof -
  have "defaults_last b gs" for b using assms(2) by (induction gs arbitrary: b) auto
  with assms(1) show ?thesis by (induction fs) auto
qed

text \<open>Which fields the schema gets from the code, and how they are made.\<close>

definition own_field :: "field_dom \<Rightarrow> (string \<times> pytype) list \<Rightarrow> string \<Rightarrow> bool" where
  "own_field fdom custom k \<longleftrightarrow>
     dict_get custom k \<noteq> None \<or> k = ''kt'' \<or> k = ''nt'' \<or> k \<in> set (dom_opts fdom) \<and> k \<noteq> ''a'' \<and> k \<noteq> ''A''"

lemma processField_own:
  "(case snd (processField fdom custom kv) of
      None \<Rightarrow> \<not> own_field fdom custom (fst kv)
    | Some f \<Rightarrow> own_field fdom custom (fst kv) \<and> mf_required f = (fst kv \<notin> set (dom_opts fdom)) \<and>
        mf_allow_none f = (if fst kv \<in> set (dom_opts fdom) then Some False else None))"
  by (auto simp: processField_def createCustomNestedField_def createKtNtField_def createOptionalField_def
      createRegularField_def own_field_def Let_def split_beta split: option.split)

lemma custom_fields_fold:
  assumes "distinct (map fst rs)"
  shows "dict_get (fold (\<lambda>(k, _, f) d. case f of None \<Rightarrow> d | Some f \<Rightarrow> dict_set d k f) rs d0) k =
    (case dict_get rs k of Some (_, Some f) \<Rightarrow> Some f | _ \<Rightarrow> dict_get d0 k)"
  using assms
proof (induction rs arbitrary: d0)
  case (Cons r rs)
  obtain j fd f where r: "r = (j, fd, f)" by (cases r) auto
  have "dict_get rs j = None" using Cons.prems by (simp add: r dict_get_map_of map_of_eq_None_iff)
  with Cons show ?case by (auto simp: r split: option.split)
qed simp

lemma own_fold:
  assumes "distinct (map fst cs)"
  shows "dict_get (fold (\<lambda>(k, f) d. dict_set d k (Own f)) cs d0) k =
    (case dict_get cs k of Some f \<Rightarrow> Some (Own f) | None \<Rightarrow> dict_get d0 k)"
  using assms
proof (induction cs arbitrary: d0)
  case (Cons c cs)
  obtain j f where c: "c = (j, f)" by fastforce
  have "dict_get cs j = None" using Cons.prems by (simp add: c dict_get_map_of map_of_eq_None_iff)
  with Cons show ?case by (auto simp: c split: option.split)
qed simp

lemma own_fold_keys:
  assumes "set (map fst cs) \<subseteq> set (map fst d0)"
  shows "map fst (fold (\<lambda>(k, f) d. dict_set d k (Own f)) cs d0) = map fst d0"
  using assms
proof (induction cs arbitrary: d0)
  case (Cons c cs)
  obtain j f where c: "c = (j, f)" by fastforce
  have keys: "map fst (dict_set d0 j (Own f)) = map fst d0" using Cons.prems by (auto simp: c keys_dict_set)
  with Cons.prems have "set (map fst cs) \<subseteq> set (map fst (dict_set d0 j (Own f)))" by (simp only: keys) auto
  from Cons.IH [OF this] keys show ?case by (simp add: c)
qed simp

lemma custom_fields_distinct: "distinct (map fst (custom_fields rs))"
proof -
  have "distinct (map fst d) \<Longrightarrow>
      distinct (map fst (fold (\<lambda>(k, _, f) d. case f of None \<Rightarrow> d | Some f \<Rightarrow> dict_set d k f) rs d))" for d
    by (induction rs arbitrary: d) (auto split: option.split)
  then show ?thesis by (simp add: custom_fields_def)
qed

lemma custom_fields_get:
  assumes "distinct (map fst rs)"
  shows "dict_get (custom_fields rs) k = (case dict_get rs k of Some (_, Some f) \<Rightarrow> Some f | _ \<Rightarrow> None)"
  unfolding custom_fields_def custom_fields_fold [OF assms] by (simp split: option.split)

abbreviation processed :: "field_dom \<Rightarrow> (string \<times> pytype) list \<Rightarrow> (string \<times> fdef \<times> mfield option) list" where
  "processed fdom custom \<equiv> map (\<lambda>kv. (fst kv, processField fdom custom kv)) (dom_alls fdom)"

lemma processed_keys: "map fst (processed fdom custom) = map fst (dom_alls fdom)"
  by (simp add: comp_def)

lemma in_keys: "k \<in> set (map fst d) \<longleftrightarrow> dict_get d k \<noteq> None"
  by (simp add: dict_get_map_of map_of_eq_None_iff)

lemma custom_keys:
  assumes "distinct (map fst (dom_alls fdom))"
  shows "set (map fst (custom_fields (processed fdom custom))) \<subseteq> set (map fst (dom_alls fdom))"
proof
  fix k assume "k \<in> set (map fst (custom_fields (processed fdom custom)))"
  then have "dict_get (processed fdom custom) k \<noteq> None"
    using custom_fields_get [of "processed fdom custom" k] assms unfolding in_keys processed_keys
    by (auto split: option.splits)
  then show "k \<in> set (map fst (dom_alls fdom))" by (simp only: in_keys [symmetric] processed_keys)
qed

lemma field_made:
  fixes custom :: "(string \<times> pytype) list"
  assumes "distinct (map fst (dom_alls fdom))" and "k \<in> set (map fst (dom_alls fdom))" and "k \<in> set (map fst auto_fields)"
  defines "flds \<equiv> fold (\<lambda>(k, f) d. dict_set d k (Own f)) (custom_fields (processed fdom custom)) (map (map_prod id Auto) auto_fields)"
    and "opt \<equiv> k \<in> set (dom_opts fdom)"
  shows "if own_field fdom custom k
    then \<exists>f. dict_get flds k = Some (Own f) \<and> mf_required f = (\<not> opt) \<and> mf_allow_none f = (if opt then Some False else None)
    else \<exists>x. dict_get flds k = Some (Auto x) \<and> dict_get auto_fields k = Some x"
proof -
  from assms(2) obtain v where v: "(k, v) \<in> set (dom_alls fdom)" by auto
  then have "(k, processField fdom custom (k, v)) \<in> set (processed fdom custom)"
    by (auto intro!: image_eqI [of _ _ "(k, v)"])
  then have "dict_get (processed fdom custom) k = Some (processField fdom custom (k, v))"
    using assms(1) unfolding dict_get_map_of by (intro map_of_is_SomeI) (simp_all add: comp_def)
  then have own: "dict_get (custom_fields (processed fdom custom)) k = snd (processField fdom custom (k, v))"
    using custom_fields_get [of "processed fdom custom" k] assms(1) unfolding processed_keys
    by (simp add: split_beta split: option.split)
  from assms(3) obtain x where x: "dict_get auto_fields k = Some x" unfolding in_keys by blast
  then have "dict_get (map (map_prod id Auto) auto_fields) k = Some (Auto x)"
    by (simp add: dict_get_map_of map_prod_def split_beta map_of_map)
  then show ?thesis
    using processField_own [of fdom custom "(k, v)"] own x
    by (auto simp: flds_def opt_def own_fold [OF custom_fields_distinct] split: option.splits)
qed

text \<open>
  C33. A field domain whose keys are identifiers gives a class: its fields are those of the domain, the required ones first,
  so no field without default comes after one with. The schema has the same fields. Every optional
  field other than \<open>a\<close> and \<open>A\<close>, and every one with a custom type, is made by the code; made so, an optional
  one is not required and never null, a required one is required. The others are those of \<open>class_schema\<close>.
\<close>

theorem schema_fields:
  assumes "distinct (map fst (dom_alls fdom))" and "list_all (field_identifier \<circ> fst) (dom_alls fdom)"
    and "\<And>cls. map fst (class_schema cls) = map fd_name (snd cls)"
  defines "ks \<equiv> map fst (dom_alls fdom)" and "opt \<equiv> \<lambda>k. k \<in> set (dom_opts fdom)"
  shows "\<exists>fds flds. dataclassFromFielddom class_schema name fdom custom = Inr ((name, fds), flds, dom_alts fdom) \<and>
    map fd_name fds = filter (\<lambda>k. \<not> opt k) ks @ filter opt ks \<and> map fst flds = map fd_name fds \<and>
    (\<forall>k \<in> set ks. if own_field fdom custom k
       then \<exists>f. dict_get flds k = Some (Own f) \<and> mf_required f = (\<not> opt k) \<and>
              mf_allow_none f = (if opt k then Some False else None)
       else \<exists>x. dict_get flds k = Some (Auto x) \<and> dict_get (class_schema (name, fds)) k = Some x)"
proof -
  let ?rs = "processed fdom custom"
  let ?fds = "map (fst \<circ> snd) (filter (\<lambda>(k, _). k \<notin> set (dom_opts fdom)) ?rs) @
    map (fst \<circ> snd) (filter (\<lambda>(k, _). k \<in> set (dom_opts fdom)) ?rs)"
  let ?flds = "fold (\<lambda>(k, f) d. dict_set d k (Own f)) (custom_fields ?rs) (map (map_prod id Auto) (class_schema (name, ?fds)))"
  have names: "map fd_name ?fds = filter (\<lambda>k. \<not> opt k) ks @ filter opt ks"
    by (simp add: ks_def opt_def filter_map comp_def)
  have "list_all (field_identifier \<circ> fd_name) ?fds"
    using assms(2) by (auto simp: list_all_iff filter_map comp_def split_beta)
  moreover have "distinct (map fd_name ?fds)"
    unfolding names using assms(1) by (auto simp: ks_def opt_def)
  moreover have "defaults_last False ?fds"
    by (rule defaults_last_append) (simp_all add: list_all_iff filter_map comp_def split_beta)
  ultimately have "make_dataclass name ?fds = Inr (name, ?fds)" by (simp add: make_dataclass_def)
  then have run: "dataclassFromFielddom class_schema name fdom custom = Inr ((name, ?fds), ?flds, dom_alts fdom)"
    by (simp add: dataclassFromFielddom_def Let_def)
  have auto_keys: "map fst (class_schema (name, ?fds)) = map fd_name ?fds" using assms(3) [of "(name, ?fds)"] by simp
  then have same: "set (map fst (class_schema (name, ?fds))) = set ks" unfolding names by auto
  have "map fst ?flds = map fst (map (map_prod id Auto) (class_schema (name, ?fds)))"
    using custom_keys [OF assms(1)] same by (intro own_fold_keys) (simp add: ks_def comp_def)
  then have "map fst ?flds = map fd_name ?fds" using auto_keys by (simp add: comp_def)
  moreover note field_made [OF assms(1), of _ "class_schema (name, ?fds)" custom, folded ks_def, unfolded same]
  ultimately show ?thesis
    by (intro exI [of _ ?fds] exI [of _ ?flds] conjI run names ballI) (auto simp: opt_def)
qed

definition small_dom :: field_dom where
  "small_dom =
     \<lparr>dom_alls = [(''v'', JStr []), (''u'', JStr []), (''kt'', JStr ''0''), (''a'', JArr [])], dom_opts = [''u''], dom_alts = []\<rparr>"

definition plain_schema :: "string \<times> fdef list \<Rightarrow> (string \<times> unit) list" where
  "plain_schema cls = map (\<lambda>f. (fd_name f, ())) (snd cls)"

theorem schema_fields_witness:
  "\<exists>fds flds. dataclassFromFielddom plain_schema ''Small'' small_dom [] = Inr ((''Small'', fds), flds, []) \<and>
     map fd_name fds = [''v'', ''kt'', ''a'', ''u''] \<and>
     (\<exists>f. dict_get flds ''u'' = Some (Own f) \<and> \<not> mf_required f \<and> mf_allow_none f = Some False) \<and>
     (\<exists>f. dict_get flds ''kt'' = Some (Own f) \<and> mf_required f)"
proof -
  have ks: "map fst (dom_alls small_dom) = [''v'', ''u'', ''kt'', ''a'']" and o: "dom_opts small_dom = [''u'']"
    and a: "dom_alts small_dom = []"
    by (simp_all add: small_dom_def)
  have d: "distinct (map fst (dom_alls small_dom))" unfolding ks by simp
  have i: "list_all (field_identifier \<circ> fst) (dom_alls small_dom)"
    by (simp add: small_dom_def field_identifier_def is_letter_def py_keywords_def Let_def)
  have c: "map fst (plain_schema cls) = map fd_name (snd cls)" for cls by (simp add: plain_schema_def)
  have own: "own_field small_dom [] ''u''" "own_field small_dom [] ''kt''" by (simp_all add: own_field_def o)
  from schema_fields [OF d i c, of "''Small''" "[]"] obtain fds flds where
    run: "dataclassFromFielddom plain_schema ''Small'' small_dom [] = Inr ((''Small'', fds), flds, [])"
      "map fd_name fds = [''v'', ''kt'', ''a'', ''u'']"
    and f: "\<And>k. k \<in> set [''v'', ''u'', ''kt'', ''a''] \<Longrightarrow> own_field small_dom [] k \<Longrightarrow>
      \<exists>f. dict_get flds k = Some (Own f) \<and> mf_required f = (k \<notin> {''u''}) \<and> mf_allow_none f = (if k \<in> {''u''} then Some False else None)"
    unfolding ks o a by fastforce
  from f [OF _ own(1)] obtain u where "dict_get flds ''u'' = Some (Own u)" "\<not> mf_required u" "mf_allow_none u = Some False"
    by auto
  moreover from f [OF _ own(2)] obtain kt where "dict_get flds ''kt'' = Some (Own kt)" "mf_required kt" by auto
  ultimately show ?thesis using run by (intro exI [of _ fds] exI [of _ flds] conjI exI [of _ u] exI [of _ kt])
qed

end
