(* ===== verification/Interleaving.thy ===== *)
theory Interleaving
  imports AgentEnds "HOL-Library.Sublist"
begin

text \<open>
  The tasks of one agent, as its constructor wires them to the queues and in any order of turns
  (\<open>Agent.__init__\<close> in \<open>app/agenting.py\<close>). Between the turns the endpoints, and the tasks of \<open>keri\<close> that save
  credentials and exchange messages, put messages at the ends of queues.
\<close>

datatype task =
    Querier
  | Escrower
  | Witnesser
  | Delegator
  | ExchangeSender
  | Granter
  | GrantDoer exmsg
  | Admitter
  | GroupRequester
  | SeekerDoer
  | ExchangeCueDoer
  | Submitter
  | Request

text \<open>
  Requests and the other tasks: the world changes in any way, the queues only grow, and the generator of
  \<open>Witnesser\<close> stands still.
\<close>

definition queues_grow :: "'w decks \<Rightarrow> 'w decks \<Rightarrow> bool" where
  "queues_grow s s' \<longleftrightarrow>
     dk_witphase s' = dk_witphase s \<and>
     prefix (dk_witners s) (dk_witners s') \<and> prefix (dk_anchors s) (dk_anchors s') \<and>
     prefix (dk_exchanges s) (dk_exchanges s') \<and> prefix (dk_grants s) (dk_grants s') \<and>
     prefix (dk_admits s) (dk_admits s') \<and> prefix (dk_groups s) (dk_groups s') \<and>
     prefix (dk_queries s) (dk_queries s') \<and> prefix (dk_submits s) (dk_submits s') \<and>
     prefix (dk_saved s) (dk_saved s') \<and> prefix (dk_cues s) (dk_cues s')"

text \<open>
  One turn, whatever it returns or raises: the turn of \<open>Witnesser\<close> resumes its generator up to the next \<open>yield\<close>, that
  of any other task is one call of its \<open>recur\<close>. An exception ends the task that raises it (and in \<open>hio\<close> those that
  run it): its later turns are turns the code does not have, and what is shown of all runs holds of the code's. \<open>super\<close> is the turn of the tasks that a task runs itself; a
  \<open>GrantDoer\<close> is a task that \<open>Granter\<close> has started for a grant.
\<close>

inductive task_turn :: "'w doer_env \<Rightarrow> task \<Rightarrow> 'w decks \<Rightarrow> 'w decks \<Rightarrow> bool" for env :: "'w doer_env" where
  querier: "Querier_recur env (dext super) s = (r, s') \<Longrightarrow> task_turn env Querier s s'"
| escrower: "dext (Escrower_recur process tvy) s = (r, s') \<Longrightarrow> task_turn env Escrower s s'"
| witnesser: "Witnesser_recur env s = (r, s') \<Longrightarrow> task_turn env Witnesser s s'"
| delegator: "Delegator_recur env s = (r, s') \<Longrightarrow> task_turn env Delegator s s'"
| exchange_sender: "ExchangeSender_recur env (dext super) s = (r, s') \<Longrightarrow> task_turn env ExchangeSender s s'"
| granter: "Granter_recur s = (r, s') \<Longrightarrow> task_turn env Granter s s'"
| grant: "GrantDoer_recur env msg s = (r, s') \<Longrightarrow> task_turn env (GrantDoer msg) s s'"
| admitter: "Admitter_recur env s = (r, s') \<Longrightarrow> task_turn env Admitter s s'"
| group_requester: "GroupRequester_recur env s = (r, s') \<Longrightarrow> task_turn env GroupRequester s s'"
| seeker: "SeekerDoer_recur env s = (r, s') \<Longrightarrow> task_turn env SeekerDoer s s'"
| exchange_cue: "ExchangeCueDoer_recur env s = (r, s') \<Longrightarrow> task_turn env ExchangeCueDoer s s'"
| submitter: "Submitter_recur env (dext super) s = (r, s') \<Longrightarrow> task_turn env Submitter s s'"
| request: "queues_grow s s' \<Longrightarrow> task_turn env Request s s'"

inductive_cases own_turnE: "task_turn env Witnesser s s'" "task_turn env Delegator s s'" "task_turn env GroupRequester s s'"
  "task_turn env Querier s s'" "task_turn env ExchangeSender s s'" "task_turn env Admitter s s'"
  "task_turn env SeekerDoer s s'" "task_turn env ExchangeCueDoer s s'" "task_turn env Submitter s s'"

inductive agent_run :: "'w doer_env \<Rightarrow> task list \<Rightarrow> 'w decks \<Rightarrow> 'w decks \<Rightarrow> bool" for env :: "'w doer_env" where
  start: "agent_run env [] s s"
| turn: "task_turn env t s s' \<Longrightarrow> agent_run env ts s' s'' \<Longrightarrow> agent_run env (t # ts) s s''"

subsection \<open>What a task leaves alone\<close>

text \<open>
  A property of the queues that does not look at the queue of a task is kept by its turn. \<open>ExchangeCueDoer\<close> also
  puts queries at the end of theirs, an incomplete \<open>GrantDoer\<close> its grant.
\<close>

definition blind :: "('s \<Rightarrow> 's) \<Rightarrow> ('s \<Rightarrow> bool) \<Rightarrow> bool" where
  "blind f P \<longleftrightarrow> (\<forall>s. P s \<longrightarrow> P (f s))"

lemma keeps_blind: "blind f P \<Longrightarrow> keeps P (modA f)"
  by (simp add: blind_def keeps_def)

lemma keeps_dext_blind: "(\<And>w. blind (\<lambda>s. s\<lparr>dk_world := w\<rparr>) P) \<Longrightarrow> keeps P (dext m)"
  by (intro keeps_dext) (simp add: blind_def)

lemma keeps_tasks:
  assumes "\<And>w. blind (\<lambda>s. s\<lparr>dk_world := w\<rparr>) P"
  shows "(\<And>q. blind (\<lambda>s. s\<lparr>dk_anchors := q\<rparr>) P) \<Longrightarrow> keeps P (Delegator_recur env)"
    and "(\<And>q. blind (\<lambda>s. s\<lparr>dk_groups := q\<rparr>) P) \<Longrightarrow> keeps P (GroupRequester_recur env)"
    and "(\<And>q. blind (\<lambda>s. s\<lparr>dk_queries := q\<rparr>) P) \<Longrightarrow> keeps P (Querier_recur env (dext super))"
    and "(\<And>q. blind (\<lambda>s. s\<lparr>dk_grants := q\<rparr>) P) \<Longrightarrow> keeps P Granter_recur"
    and "(\<And>m. blind (\<lambda>s. s\<lparr>dk_grants := dk_grants s @ [m]\<rparr>) P) \<Longrightarrow> keeps P (GrantDoer_recur env msg)"
  unfolding Delegator_recur_def GroupRequester_recur_def Querier_recur_def Granter_recur_def
    GrantDoer_recur_def postGrant_def post_complete_def
  by (auto intro!: wp keeps_blind keeps_dext_blind [OF assms] split: list.split option.split if_splits)

lemma keeps_witnesser:
  assumes "\<And>w. blind (\<lambda>s. s\<lparr>dk_world := w\<rparr>) P" and "\<And>p. blind (\<lambda>s. s\<lparr>dk_witphase := p\<rparr>) P"
  shows "keeps P (receipts env serder)" and "keeps P (catchups env serder adds)"
    and "(\<And>q. blind (\<lambda>s. s\<lparr>dk_witners := q\<rparr>) P) \<Longrightarrow> keeps P (Witnesser_recur env)"
proof -
  show r: "keeps P (receipts env serder)" for serder
    unfolding receipts_def by (intro wp keeps_blind keeps_dext_blind assms)
  show c: "keeps P (catchups env serder adds)" for serder adds
    by (induction adds) (auto intro!: wp r keeps_blind keeps_dext_blind assms)
  show "keeps P (Witnesser_recur env)" if "\<And>q. blind (\<lambda>s. s\<lparr>dk_witners := q\<rparr>) P"
    unfolding Witnesser_recur_def take_event_def
    by (auto intro!: wp r c keeps_blind that assms split: list.split wit_phase.split if_splits)
qed

lemma keeps_tasks_back:
  assumes "\<And>w. blind (\<lambda>s. s\<lparr>dk_world := w\<rparr>) P"
  shows "(\<And>q. blind (\<lambda>s. s\<lparr>dk_exchanges := q\<rparr>) P) \<Longrightarrow> (\<And>m. blind (\<lambda>s. s\<lparr>dk_exchanges := dk_exchanges s @ [m]\<rparr>) P) \<Longrightarrow>
      keeps P (ExchangeSender_recur env (dext super))"
    and "(\<And>q. blind (\<lambda>s. s\<lparr>dk_admits := q\<rparr>) P) \<Longrightarrow> (\<And>m. blind (\<lambda>s. s\<lparr>dk_admits := dk_admits s @ [m]\<rparr>) P) \<Longrightarrow>
      keeps P (Admitter_recur env)"
    and "(\<And>q. blind (\<lambda>s. s\<lparr>dk_saved := q\<rparr>) P) \<Longrightarrow> (\<And>m. blind (\<lambda>s. s\<lparr>dk_saved := dk_saved s @ [m]\<rparr>) P) \<Longrightarrow>
      keeps P (SeekerDoer_recur env)"
    and "(\<And>q. blind (\<lambda>s. s\<lparr>dk_cues := q\<rparr>) P) \<Longrightarrow> (\<And>m. blind (\<lambda>s. s\<lparr>dk_cues := dk_cues s @ [m]\<rparr>) P) \<Longrightarrow>
      (\<And>m. blind (\<lambda>s. s\<lparr>dk_queries := dk_queries s @ [m]\<rparr>) P) \<Longrightarrow> keeps P (ExchangeCueDoer_recur env)"
    and "(\<And>q. blind (\<lambda>s. s\<lparr>dk_submits := q\<rparr>) P) \<Longrightarrow> (\<And>n cs. blind (\<lambda>s. s\<lparr>dk_doers := n, dk_witcues := cs\<rparr>) P) \<Longrightarrow>
      (blind (\<lambda>s. s\<lparr>dk_doers := Suc (dk_doers s)\<rparr>) P) \<Longrightarrow> keeps P (Submitter_recur env (dext super))"
  unfolding ExchangeSender_recur_def Admitter_recur_def SeekerDoer_recur_def ExchangeCueDoer_recur_def Submitter_recur_def
  by (auto intro!: wp keeps_blind keeps_dext_blind [OF assms] keeps_modA split: list.split option.split if_splits prod.split)
    (auto simp: blind_def)

text \<open>The events whose receipts are not in yet: the one \<open>Witnesser\<close> works on, and its queue.\<close>

fun in_work :: "wit_phase \<Rightarrow> serder list" where
  "in_work (WitCatchup serder _) = [serder]"
| "in_work (WitReceipt serder) = [serder]"
| "in_work _ = []"

definition unreceipted :: "'w decks \<Rightarrow> serder list" where
  "unreceipted s = in_work (dk_witphase s) @ dk_witners s"

text \<open>A queue that only the task \<open>T\<close> takes from: as a view of the state that no other task changes but by appending.\<close>

definition owned :: "task \<Rightarrow> ('w decks \<Rightarrow> 'm list) \<Rightarrow> bool" where
  "owned T get \<longleftrightarrow>
     (\<forall>s w. get (s\<lparr>dk_world := w\<rparr>) = get s) \<and>
     (\<forall>s s'. queues_grow s s' \<longrightarrow> prefix (get s) (get s')) \<and>
     (\<forall>s m. prefix (get s) (get (s\<lparr>dk_grants := dk_grants s @ [m]\<rparr>))) \<and>
     (\<forall>s m. prefix (get s) (get (s\<lparr>dk_queries := dk_queries s @ [m]\<rparr>))) \<and>
     (\<forall>s n. get (s\<lparr>dk_doers := n\<rparr>) = get s) \<and> (\<forall>s n cs. get (s\<lparr>dk_doers := n, dk_witcues := cs\<rparr>) = get s) \<and>
     (T \<noteq> Witnesser \<longrightarrow> (\<forall>s q. get (s\<lparr>dk_witners := q\<rparr>) = get s) \<and> (\<forall>s q. get (s\<lparr>dk_witphase := q\<rparr>) = get s)) \<and>
     (T \<noteq> Delegator \<longrightarrow> (\<forall>s q. get (s\<lparr>dk_anchors := q\<rparr>) = get s)) \<and>
     (T \<noteq> GroupRequester \<longrightarrow> (\<forall>s q. get (s\<lparr>dk_groups := q\<rparr>) = get s)) \<and>
     (T \<noteq> Querier \<longrightarrow> (\<forall>s q. get (s\<lparr>dk_queries := q\<rparr>) = get s)) \<and>
     (T \<noteq> Granter \<longrightarrow> (\<forall>s q. get (s\<lparr>dk_grants := q\<rparr>) = get s)) \<and>
     (T \<noteq> ExchangeSender \<longrightarrow> (\<forall>s q. get (s\<lparr>dk_exchanges := q\<rparr>) = get s)) \<and>
     (T \<noteq> Admitter \<longrightarrow> (\<forall>s q. get (s\<lparr>dk_admits := q\<rparr>) = get s)) \<and>
     (T \<noteq> SeekerDoer \<longrightarrow> (\<forall>s q. get (s\<lparr>dk_saved := q\<rparr>) = get s)) \<and>
     (T \<noteq> ExchangeCueDoer \<longrightarrow> (\<forall>s q. get (s\<lparr>dk_cues := q\<rparr>) = get s)) \<and>
     (T \<noteq> Submitter \<longrightarrow> (\<forall>s q. get (s\<lparr>dk_submits := q\<rparr>) = get s))"

lemma owned_queues:
  "owned Witnesser unreceipted" "owned Delegator dk_anchors" "owned GroupRequester dk_groups" "owned Querier dk_queries"
  "owned Granter dk_grants" "owned ExchangeSender dk_exchanges" "owned Admitter dk_admits" "owned SeekerDoer dk_saved"
  "owned ExchangeCueDoer dk_cues" "owned Submitter dk_submits"
  by (simp_all add: owned_def queues_grow_def unreceipted_def)

lemma kept_prefix: "m s = (r, s') \<Longrightarrow> keeps (\<lambda>x. prefix (get s) (get x)) m \<Longrightarrow> prefix (get s) (get s')"
  by (drule keepsD [rotated 2]) simp_all

lemma owned_blind:
  assumes "owned T get"
  shows "blind (\<lambda>s. s\<lparr>dk_world := w\<rparr>) (\<lambda>x. prefix p (get x))"
    and "blind (\<lambda>s. s\<lparr>dk_grants := dk_grants s @ [m]\<rparr>) (\<lambda>x. prefix p (get x))"
    and "blind (\<lambda>s. s\<lparr>dk_queries := dk_queries s @ [j]\<rparr>) (\<lambda>x. prefix p (get x))"
    and "blind (\<lambda>s. s\<lparr>dk_doers := Suc (dk_doers s)\<rparr>) (\<lambda>x. prefix p (get x))"
    and "blind (\<lambda>s. s\<lparr>dk_doers := n, dk_witcues := cs\<rparr>) (\<lambda>x. prefix p (get x))"
    and "T \<noteq> Witnesser \<Longrightarrow> blind (\<lambda>s. s\<lparr>dk_witners := f1 s\<rparr>) (\<lambda>x. prefix p (get x))"
    and "T \<noteq> Witnesser \<Longrightarrow> blind (\<lambda>s. s\<lparr>dk_witphase := ph\<rparr>) (\<lambda>x. prefix p (get x))"
    and "T \<noteq> Delegator \<Longrightarrow> blind (\<lambda>s. s\<lparr>dk_anchors := f2 s\<rparr>) (\<lambda>x. prefix p (get x))"
    and "T \<noteq> GroupRequester \<Longrightarrow> blind (\<lambda>s. s\<lparr>dk_groups := f3 s\<rparr>) (\<lambda>x. prefix p (get x))"
    and "T \<noteq> Querier \<Longrightarrow> blind (\<lambda>s. s\<lparr>dk_queries := f4 s\<rparr>) (\<lambda>x. prefix p (get x))"
    and "T \<noteq> Granter \<Longrightarrow> blind (\<lambda>s. s\<lparr>dk_grants := f5 s\<rparr>) (\<lambda>x. prefix p (get x))"
    and "T \<noteq> ExchangeSender \<Longrightarrow> blind (\<lambda>s. s\<lparr>dk_exchanges := f6 s\<rparr>) (\<lambda>x. prefix p (get x))"
    and "T \<noteq> Admitter \<Longrightarrow> blind (\<lambda>s. s\<lparr>dk_admits := f7 s\<rparr>) (\<lambda>x. prefix p (get x))"
    and "T \<noteq> SeekerDoer \<Longrightarrow> blind (\<lambda>s. s\<lparr>dk_saved := f8 s\<rparr>) (\<lambda>x. prefix p (get x))"
    and "T \<noteq> ExchangeCueDoer \<Longrightarrow> blind (\<lambda>s. s\<lparr>dk_cues := f9 s\<rparr>) (\<lambda>x. prefix p (get x))"
    and "T \<noteq> Submitter \<Longrightarrow> blind (\<lambda>s. s\<lparr>dk_submits := f10 s\<rparr>) (\<lambda>x. prefix p (get x))"
  using assms by (simp_all add: owned_def blind_def) (metis prefix_order.trans)+

lemma others_append:
  assumes "owned T get" and "task_turn env t s s'" and "t \<noteq> T"
  shows "prefix (get s) (get s')"
  using assms(2)
proof cases
  case request
  then show ?thesis using assms(1) by (simp add: owned_def)
qed (use assms(3) in \<open>auto elim!: kept_prefix
  intro!: keeps_tasks keeps_tasks_back keeps_witnesser(3) keeps_dext_blind owned_blind [OF assms(1)]\<close>)

subsection \<open>What a task takes\<close>

lemma pops:
  assumes "\<And>r s. get (put r s) = r" and "\<And>p. keeps (\<lambda>s. prefix p (get s)) idle"
    and "\<And>x p. keeps (\<lambda>s. prefix p (get s)) (work x)"
  shows "prefix (drop 1 (get s)) (get (snd (bindA (getA get) (\<lambda>q. case q of [] \<Rightarrow> idle
           | x # rest \<Rightarrow> seqA (modA (put rest)) (work x)) s)))"
proof (cases "get s")
  case (Cons x rest)
  have "prefix rest (get (snd (work x (put rest s))))"
    using assms(3) [of rest x] assms(1) [of rest s] by (simp add: keeps_def)
  with Cons show ?thesis by simp
qed simp

lemma keeps_dext_queue: "(\<And>s w. get (s\<lparr>dk_world := w\<rparr>) = get s) \<Longrightarrow> keeps (\<lambda>s. prefix p (get s)) (dext m)"
  by (intro keeps_dext) simp

lemma keeps_back: "(\<And>s. prefix (get s) (get (f s))) \<Longrightarrow> keeps (\<lambda>s. prefix p (get s)) (modA f)"
  by (intro keeps_modA) (erule prefix_order.trans)

lemma takes_one:
  "prefix (drop 1 (dk_anchors s)) (dk_anchors (snd (Delegator_recur env s)))"
  "prefix (drop 1 (dk_groups s)) (dk_groups (snd (GroupRequester_recur env s)))"
  "prefix (drop 1 (dk_queries s)) (dk_queries (snd (Querier_recur env (dext super) s)))"
  "prefix (drop 1 (dk_exchanges s)) (dk_exchanges (snd (ExchangeSender_recur env (dext super) s)))"
  "prefix (drop 1 (dk_admits s)) (dk_admits (snd (Admitter_recur env s)))"
  "prefix (drop 1 (dk_saved s)) (dk_saved (snd (SeekerDoer_recur env s)))"
  "prefix (drop 1 (dk_cues s)) (dk_cues (snd (ExchangeCueDoer_recur env s)))"
  "prefix (drop 1 (dk_submits s)) (dk_submits (snd (Submitter_recur env (dext super) s)))"
  unfolding Delegator_recur_def GroupRequester_recur_def Querier_recur_def ExchangeSender_recur_def
    Admitter_recur_def SeekerDoer_recur_def ExchangeCueDoer_recur_def Submitter_recur_def
  by (rule pops; (simp; fail)?; (intro wp keeps_dext_queue keeps_back; auto intro!: wp keeps_back split: if_splits prod.split)?)+

lemma turn_takes:
  assumes "task_turn env t s s'" and "owned T get"
    and "\<And>r. t = T \<Longrightarrow> prefix (drop 1 (get s)) (get s')"
  shows "prefix (drop (of_bool (t = T)) (get s)) (get s')"
  using others_append [OF assms(2,1)] assms(3) by (cases "t = T") simp_all

lemma run_takes:
  assumes "owned T get" and own: "\<And>s s'. task_turn env T s s' \<Longrightarrow> prefix (drop 1 (get s)) (get s')"
    and "agent_run env ts s s'"
  shows "prefix (drop (count_list ts T) (get s)) (get s')"
  using assms(3)
proof (induction rule: agent_run.induct)
  case (turn t s s' ts s'')
  have "prefix (drop (of_bool (t = T)) (get s)) (get s')"
    using turn.hyps(1) own by (intro turn_takes [OF _ assms(1)]) blast+
  then obtain more_ms where "get s' = drop (of_bool (t = T)) (get s) @ more_ms" by (elim prefixE)
  then have "prefix (drop (count_list ts T) (drop (of_bool (t = T)) (get s))) (drop (count_list ts T) (get s'))" by simp
  from prefix_order.trans [OF this turn.IH] show ?case by (cases "t = T") simp_all
qed simp

lemma own_turns:
  "task_turn env Delegator s s' \<Longrightarrow> prefix (drop 1 (dk_anchors s)) (dk_anchors s')"
  "task_turn env GroupRequester s s' \<Longrightarrow> prefix (drop 1 (dk_groups s)) (dk_groups s')"
  "task_turn env Querier s s' \<Longrightarrow> prefix (drop 1 (dk_queries s)) (dk_queries s')"
  "task_turn env ExchangeSender s s' \<Longrightarrow> prefix (drop 1 (dk_exchanges s)) (dk_exchanges s')"
  "task_turn env Admitter s s' \<Longrightarrow> prefix (drop 1 (dk_admits s)) (dk_admits s')"
  "task_turn env SeekerDoer s s' \<Longrightarrow> prefix (drop 1 (dk_saved s)) (dk_saved s')"
  "task_turn env ExchangeCueDoer s s' \<Longrightarrow> prefix (drop 1 (dk_cues s)) (dk_cues s')"
  "task_turn env Submitter s s' \<Longrightarrow> prefix (drop 1 (dk_submits s)) (dk_submits s')"
  by (elim own_turnE; metis takes_one snd_conv)+

subsection \<open>The generator\<close>

lemma work_goes_on:
  "dk_witners (snd (receipts env serder s)) = dk_witners s \<and>
   (fst (receipts env serder s) = Inr () \<longrightarrow> in_work (dk_witphase (snd (receipts env serder s))) \<in> {[], [serder]})"
  "dk_witners (snd (catchups env serder adds s)) = dk_witners s \<and>
   (fst (catchups env serder adds s) = Inr () \<longrightarrow> in_work (dk_witphase (snd (catchups env serder adds s))) \<in> {[], [serder]})"
proof -
  show receipts: "dk_witners (snd (receipts env serder s)) = dk_witners s \<and>
    (fst (receipts env serder s) = Inr () \<longrightarrow> in_work (dk_witphase (snd (receipts env serder s))) \<in> {[], [serder]})" for s
    by (cases "de_receipt env (se_pre serder) (se_sn serder) (dk_world s)")
      (auto simp: receipts_def bindA_def dext_run split: sum.split)
  show "dk_witners (snd (catchups env serder adds s)) = dk_witners s \<and>
    (fst (catchups env serder adds s) = Inr () \<longrightarrow> in_work (dk_witphase (snd (catchups env serder adds s))) \<in> {[], [serder]})"
  proof (induction adds arbitrary: s)
    case (Cons wit adds)
    then show ?case
      by (cases "de_catchup env (se_pre serder) wit (dk_world s)") (auto simp: bindA_def dext_run split: sum.split)
  qed (use receipts in simp)
qed

lemma event_taken:
  assumes "dk_witners s = serder # rest"
  shows "dk_witners (snd (take_event env s)) = rest \<and>
    (fst (take_event env s) = Inr () \<longrightarrow> in_work (dk_witphase (snd (take_event env s))) \<in> {[], [serder]})"
proof -
  let ?s1 = "s\<lparr>dk_witners := rest\<rparr>"
  note work = work_goes_on(1) [of env serder ?s1] work_goes_on(2) [of env serder _ ?s1]
  show ?thesis
  proof (cases "jitem (se_ked serder) ''t''")
    case (Inr t)
    show ?thesis
    proof (cases "t \<in> {JStr ''rot'', JStr ''drt''}")
      case True
      with Inr assms work(2) show ?thesis
        by (cases "jitem (se_ked serder) ''ba''"; cases "jiter (projr (jitem (se_ked serder) ''ba''))")
          (auto simp: take_event_def bindA_def)
    qed (use Inr assms work(1) in \<open>auto simp: take_event_def\<close>)
  qed (use assms in \<open>simp add: take_event_def\<close>)
qed

text \<open>A turn finishes the event at the head, or leaves it there; it never reaches the next.\<close>

lemma generator_takes:
  "unreceipted (snd (Witnesser_recur env s)) \<in> {unreceipted s, drop 1 (unreceipted s)}"
proof -
  let ?m = "case dk_witphase s of WitIdle \<Rightarrow> take_event env | WitCatchup serder adds \<Rightarrow> catchups env serder adds
     | WitReceipt serder \<Rightarrow> receipts env serder | WitEnded \<Rightarrow> retA ()"
  obtain r s1 where run: "?m s = (r, s1)" by fastforce
  have recur: "snd (Witnesser_recur env s) = (case r of Inl _ \<Rightarrow> s1\<lparr>dk_witphase := WitEnded\<rparr> | Inr _ \<Rightarrow> s1)"
    using run by (cases r) (simp_all add: Witnesser_recur_def catchA_def)
  have "unreceipted (s1\<lparr>dk_witphase := WitEnded\<rparr>) = dk_witners s1" by (simp add: unreceipted_def)
  then show ?thesis
  proof (cases "dk_witphase s")
    case WitIdle
    show ?thesis
    proof (cases "dk_witners s")
      case Nil
      with run recur WitIdle show ?thesis by (auto simp: unreceipted_def take_event_def)
    next
      case (Cons serder rest)
      with run recur WitIdle event_taken [OF Cons, of env] show ?thesis
        by (auto simp: unreceipted_def split: sum.splits)
    qed
  next
    case (WitCatchup serder adds)
    with run recur work_goes_on(2) [of env serder adds s] show ?thesis by (auto simp: unreceipted_def split: sum.splits)
  next
    case (WitReceipt serder)
    with run recur work_goes_on(1) [of env serder s] show ?thesis by (auto simp: unreceipted_def split: sum.splits)
  next
    case WitEnded
    with run recur show ?thesis by (auto simp: unreceipted_def)
  qed
qed

text \<open>Waiting for receipts.\<close>

lemma receipt_turn:
  assumes "unreceipted s = serder # rest \<and>
    (dk_witphase s = WitReceipt serder \<or> dk_witphase s = WitIdle \<and> jitem (se_ked serder) ''t'' = Inr (JStr ''icp''))"
  shows "case de_receipt env (se_pre serder) (se_sn serder) (dk_world s) of (r, w) \<Rightarrow>
    dk_world (snd (Witnesser_recur env s)) = w \<and>
    unreceipted (snd (Witnesser_recur env s)) = (if r = Inr False then serder # rest else rest)"
proof -
  obtain r w where rec: "de_receipt env (se_pre serder) (se_sn serder) (dk_world s) = (r, w)" by fastforce
  have result: "dk_world (snd (catchA (receipts env serder) h t)) = w \<and>
      unreceipted (snd (catchA (receipts env serder) h t)) = (if r = Inr False then serder # rest else rest)"
    if "dk_world t = dk_world s" "dk_witners t = rest"
      "h = (\<lambda>e. Some (seqA (modA (\<lambda>s. s\<lparr>dk_witphase := WitEnded\<rparr>)) (raiseA e)))" for t h
    using rec that by (cases r) (auto simp: receipts_def bindA_def dext_run catchA_def unreceipted_def)
  from assms show ?thesis
  proof (elim conjE disjE)
    assume "dk_witphase s = WitReceipt serder" and "unreceipted s = serder # rest"
    with rec result [of s] show ?thesis by (simp add: Witnesser_recur_def unreceipted_def)
  next
    assume "dk_witphase s = WitIdle" "unreceipted s = serder # rest" "jitem (se_ked serder) ''t'' = Inr (JStr ''icp'')"
    then have q: "dk_witners s = serder # rest" and "take_event env s = receipts env serder (s\<lparr>dk_witners := rest\<rparr>)"
      by (simp_all add: take_event_def unreceipted_def)
    then have "catchA (take_event env) h s = catchA (receipts env serder) h (s\<lparr>dk_witners := rest\<rparr>)" for h
      by (simp add: catchA_def)
    with rec result [of "s\<lparr>dk_witners := rest\<rparr>"] \<open>dk_witphase s = WitIdle\<close> show ?thesis
      by (simp add: Witnesser_recur_def)
  qed
qed

lemma witnesser_turns:
  assumes "agent_run env ts s s'"
  shows "\<exists>n \<le> count_list ts Witnesser. prefix (drop n (unreceipted s)) (unreceipted s')"
  using assms
proof (induction rule: agent_run.induct)
  case (turn t s s' ts s'')
  have "\<exists>k \<le> of_bool (t = Witnesser). prefix (drop k (unreceipted s)) (unreceipted s')"
  proof (cases "t = Witnesser")
    case True
    with turn.hyps(1) have "unreceipted s' \<in> {unreceipted s, drop 1 (unreceipted s)}"
      using generator_takes [of env s] by (auto elim!: own_turnE)
    then show ?thesis
    proof (elim insertE emptyE)
      assume "unreceipted s' = unreceipted s"
      then show ?thesis by (intro exI [of _ 0]) simp
    next
      assume "unreceipted s' = drop 1 (unreceipted s)"
      with True show ?thesis by (intro exI [of _ 1]) simp
    qed
  next
    case False
    then show ?thesis
      using others_append [OF owned_queues(1) turn.hyps(1)] by simp
  qed
  then obtain k where k: "k \<le> of_bool (t = Witnesser)" "prefix (drop k (unreceipted s)) (unreceipted s')" by blast
  from turn.IH obtain n where n: "n \<le> count_list ts Witnesser" "prefix (drop n (unreceipted s')) (unreceipted s'')" by blast
  from k(2) obtain us where "unreceipted s' = drop k (unreceipted s) @ us" by (elim prefixE)
  then have "prefix (drop n (drop k (unreceipted s))) (drop n (unreceipted s'))" by simp
  from prefix_order.trans [OF this n(2)] have "prefix (drop (n + k) (unreceipted s)) (unreceipted s'')" by (simp add: add.commute)
  moreover have "n + k \<le> count_list (t # ts) Witnesser" using k(1) n(1) by (cases "t = Witnesser") simp_all
  ultimately show ?case by blast
qed simp



end
