(* ===== verification/Spec2Isabelle.thy ===== *)
theory Spec2Isabelle
  imports Longrunning Doers ApiDocs Cursors Passcode Issuing Wallet Contacts Exchanges Grouping
    Indirecting Notifying Openapi Interleaving
begin

text \<open>
  A model of KERIA, the multi-tenant cloud agent for Signify clients (\<open>src/src/keria\<close>).

  \<^bold>\<open>The program.\<close> A KERIA process runs an agency and three HTTP applications. The boot application
  (\<open>BootEnd\<close>) creates an agent for a controller; the admin application serves the agents to their
  controllers, behind a middleware that checks the signature of every request but those of the
  agent's own endpoint; the public application takes key events from other parties and serves
  the API documentation. An agent keeps identifiers whose private keys are with the client: it
  stores the client's encrypted key parameters (\<open>core/keeping.py\<close>), accepts signed events over
  its endpoints, puts the work that follows from them (receipts, delegation, multisig, exchange
  messages, credentials) on queues, and runs one task for each queue. A long-running operation
  (\<open>core/longrunning.py\<close>) tells the client how far that work is.

  \<^bold>\<open>Conventions.\<close> An action (\<open>act\<close> of \<open>Effects\<close>) takes the state of the world to a result or an
  exception, and a new state; what was written before an exception stays written. JSON values and
  dictionaries are \<open>json\<close> of \<open>PyData\<close>, in insertion order. Third-party code (\<open>keri\<close>, \<open>hio\<close>,
  \<open>falcon\<close>, \<open>apispec\<close>, the vendored Swagger UI) is an argument of the definitions that use it, one
  record of operations per component; \<open>suber_ok\<close>, \<open>dup_ok\<close> and \<open>frames\<close> of \<open>Store\<close> state the
  documented behaviour of its databases, and each theorem that needs one of them has a witness on
  databases in memory. The endpoints on agents work on the queues of one agent (\<open>decks\<close>), those
  on the agency on the agency's state.

  \<^bold>\<open>Theories and sources.\<close>
  \<^item> \<open>Prelude\<close>, \<open>PyData\<close>, \<open>Effects\<close>, \<open>Store\<close>: rewrite collections, Python's strings and numbers, the JSON
    data and exceptions, effects with their triples, the interface of the databases.
  \<^item> \<open>Httping\<close> (\<open>core/httping.py\<close>): required parameters, range headers, CORS. The range parser
    accepts exactly what the client sends.
  \<^item> \<open>Authing\<close> (\<open>core/authing.py\<close>): the middleware and the signature check. A request that gets through
    is exempt by its path or verified for the agent it gets; equal signature bases bind the request.
  \<^item> \<open>Keeping\<close> (\<open>core/keeping.py\<close>): the four keepers. The parameters come back as incepted or rotated,
    and the first inception decides.
  \<^item> \<open>Agency\<close> (\<open>app/agenting.py\<close>, \<open>app/serving.py\<close>): create, load, look up, release, shut down. The
    invariant of the reachable states, and the end of a graceful shutdown.
  \<^item> \<open>Servers\<close> (\<open>loadEnds\<close> of all modules, \<open>setupDoers\<close>): the route tables and their middleware.
  \<^item> \<open>Booting\<close> (\<open>BootEnd\<close>), \<open>Passcode\<close> (\<open>AgentResourceEnd\<close>): the two endpoints on the agency; what a
    boot promises and leaves behind, what a change of the passcode does and for whom.
  \<^item> \<open>Longrunning\<close> (\<open>core/longrunning.py\<close>): the store of operations and their status: consistent,
    total over the list, and ending where it waits for witnesses.
  \<^item> \<open>Doers\<close> (the tasks of \<open>app/agenting.py\<close>, the artifacts of \<open>app/ipexing.py\<close>): one turn of each task. A
    locale of queues whose unfinished messages are put back gives the rounds of three of them.
  \<^item> \<open>Interleaving\<close> (\<open>Agent.__init__\<close>): those tasks in any order of turns, with requests between them; each queue
    is worked off in order by its own task; the generator \<open>Witnesser\<close> is resumed from \<open>yield\<close> to \<open>yield\<close>, and the event it
    works on stays at the head until its receipts are in.
  \<^item> \<open>AgentEnds\<close> (\<open>app/agenting.py\<close>), \<open>Identifiers\<close> (\<open>app/aiding.py\<close>): the endpoints of key states, OOBIs,
    queries, configuration, and the creation, list, renaming and events of identifiers.
  \<^item> \<open>Contacts\<close> (\<open>app/aiding.py\<close>): OOBIs of an identifier, end roles and locations, challenges, contacts, group
    members. The life of a contact, and what the list of contacts shows.
  \<^item> \<open>Escrows\<close> (\<open>Registrar\<close> and \<open>Credentialer\<close> of \<open>app/credentialing.py\<close>), \<open>Delegating\<close> (\<open>app/delegating.py\<close>):
    the stages an event waits in, as interpretations of one locale of escrow passes; what one turn
    does, when the operation of a credential ends, and what an agent that is loaded again never finishes.
  \<^item> \<open>Seeking\<close>, \<open>Cursors\<close> (\<open>db/basing.py\<close>): the indexes of credentials and the search over them.
  \<^item> \<open>Issuing\<close> (\<open>app/credentialing.py\<close>): registries, issuing, revocation and verification, on the queues
    and those escrows; what becomes of an issued credential and of one to be verified, and what a request
    that fails late leaves behind.
  \<^item> \<open>Wallet\<close> (\<open>app/credentialing.py\<close>): export, query and deletion of the credentials an agent holds, on
    those indexes; schemas and states.
  \<^item> \<open>Exchanges\<close> (\<open>app/ipexing.py\<close>, \<open>peer/exchanging.py\<close>): exchange messages to others. A locale has what the five
    steps of IPEX share; a grant from its request to its tasks, what is refused, a search that fails.
  \<^item> \<open>Grouping\<close> (\<open>app/grouping.py\<close>): messages to the members of a group, joining one, conversations.
  \<^item> \<open>Indirecting\<close> (\<open>app/indirecting.py\<close>, \<open>end/ending.py\<close>): the public endpoints on the agency. A message changes the
    stream of the agent of its destination only, also when it is refused; who answers an OOBI takes messages.
  \<^item> \<open>Notifying\<close> (\<open>app/notifying.py\<close>): notifications, read in pages.
  \<^item> \<open>Openapi\<close> (\<open>utils/openapi.py\<close>): the classes and schemas made of field domains, and the pass that makes fields
    alternatives; which fields they have, and what a schema accepts afterwards.
  \<^item> \<open>ApiDocs\<close> (\<open>app/specing.py\<close>, \<open>static/swaggerui/swagger-initializer.js\<close>): the list of routes and the
    page that shows it.

  \<^bold>\<open>Composition.\<close> Properties that span components are in the theory that imports them all: a
  verified request finds the agent of the agency (\<open>Authing\<close> over \<open>Agency\<close>), the document the page
  asks for is one the public application serves (\<open>ApiDocs\<close> over \<open>Servers\<close>), a query goes from its
  endpoint to the task (\<open>AgentEnds\<close> over \<open>Doers\<close> and \<open>Longrunning\<close>), a creation to the queue of the
  task that completes it (\<open>Identifiers\<close>), and, below, an index that can not be made to the task that
  retries it.

  \<^bold>\<open>Recursion and bounds.\<close> There is no fuel but three depths. The parameters of the keys of a group
  member refer to another identifier (\<open>mhab\<close>), whose record is built by the same function: \<open>info\<close>
  takes Python's recursion limit as \<open>ai_depth\<close> and raises \<open>RecursionError\<close> at zero, as the
  interpreter does, so every theorem holds for every limit; \<open>outputCred\<close>
  of \<open>Wallet\<close>, which follows the chains of a credential, takes the depth Python still allows, and its
  result is the same from the depth of the chains on. The walk over chained credentials in
  \<open>Doers\<close> is an argument of its own. Numbers are Python's unbounded \<open>int\<close>; sizes are lengths of lists.
  All loops of the source are structural recursions over lists, except the search for routes,
  whose measure is the size of the tree.

  \<^bold>\<open>Not modelled.\<close> The key event, credential and exchange processing of \<open>keri\<close> and the scheduler of
  \<open>hio\<close> (arguments); the wiring of an \<open>Agent\<close> from them in its constructor, its queues and tasks apart; the list of schemas
  registered with \<open>apispec\<close> (\<open>app/specing.py\<close>) and the docstrings that document the routes; the command line, log
  formats and test helpers; the vendored Swagger UI.
\<close>

subsection \<open>Indexing by the agent's task\<close>

text \<open>
  C31. A saved credential that has no text at a path of one of its schema's indexes (a number, or no
  holder) is never done with: the task that indexes saved credentials tries it, fails, and queues
  it again, however many turns it runs and whatever other credentials it indexes in between.
\<close>

theorem credential_retried:
  fixes env :: "'w seeker doer_env"
  assumes "seek_ok senv" and "de_index env = Seeker_index senv"
    and "doomed senv said c i r (dk_world s)" and "unresolvable senv (cd_sad c) r"
    and "\<And>p e. se_resolve senv p (cd_sad c) = Inl e \<Longrightarrow> isException e"
    and "cu_kin cue = ''saved''" and "cu_said cue = said"
  shows "count_list (dk_saved (((\<lambda>s. snd (SeekerDoer_recur env s)) ^^ n) s)) cue = count_list (dk_saved s) cue"
proof (rule seeker.keeps_unfinished [where P = "doomed senv said c i r"])
  show "doomed senv said c i r (dk_world s)" by (rule assms(3))
  fix w
  assume d: "doomed senv said c i r w"
  show "doomed senv said c i r (snd (index_one env w x))" for x
    using doomed_index [OF assms(1)] d by (auto simp: index_one_def assms(2) keeps_def split_beta)
  show "\<not> fst (index_one env w cue)"
    using doomed_fails [OF assms(1) d assms(4,5)] assms(6,7)
    by (auto simp: index_one_def assms(2) split_beta isException_def)
qed

definition demo_tasks :: "mem_seek seeker doer_env" where
  "demo_tasks = idle_tasks\<lparr>de_index := Seeker_index mem_seek_env\<rparr>"

definition demo_saved :: "mem_seek seeker decks" where
  "demo_saved = (no_decks (mem_seeker [''-a-n'']))\<lparr>dk_saved := [\<lparr>cu_kin = ''saved'', cu_said = ''EC'', cu_q = JNull\<rparr>]\<rparr>"

theorem credential_retried_witness:
  "count_list (dk_saved (((\<lambda>s. snd (SeekerDoer_recur demo_tasks s)) ^^ 1000) demo_saved))
     \<lparr>cu_kin = ''saved'', cu_said = ''EC'', cu_q = JNull\<rparr> = 1"
proof -
  let ?r = "\<lparr>ix_subkey = ''-a-n'', ix_paths = [''-a-n'']\<rparr>"
  have task: "de_index demo_tasks = Seeker_index mem_seek_env" by (simp add: demo_tasks_def)
  have doomed: "doomed mem_seek_env ''EC'' mem_cred ''-a-n'' ?r (dk_world demo_saved)"
    by (simp add: doomed_def mem_seek_env_def demo_saved_def no_decks_def mem_seeker_def mem_cred_def mem_dup_def)
  have number: "unresolvable mem_seek_env (cd_sad mem_cred) ?r"
    by (simp add: unresolvable_def mem_seek_env_def mem_cred_def)
  have errors: "isException e" if "se_resolve mem_seek_env p (cd_sad mem_cred) = Inl e" for p e
    using that walk_error by (simp add: mem_seek_env_def)
  from credential_retried [OF mem_seek_ok task doomed number errors, where cue = "\<lparr>cu_kin = ''saved'', cu_said = ''EC'', cu_q = JNull\<rparr>" and n = 1000]
  show ?thesis by (simp add: demo_saved_def no_decks_def)
qed

end
